(* ===== verification/Prelude.thy ===== *)
theory Prelude
  imports
    Main
    "HOL-Library.Char_ord"
    "HOL-Library.List_Lexorder"
    "HOL-Library.Option_ord"
    "HOL-Library.Product_Lexorder"
    "HOL-Library.Sublist"
    "HOL-Library.FSet"
    "HOL-Library.Finite_Map"
    "HOL-Library.Multiset"
    "HOL-Library.Word"
begin

text \<open>
  Shared vocabulary of the development: what the components use of Rust's
  standard library (strings, ordered maps and sets, sorting, formatting), the
  fallible loop \<open>fold_res\<close>, and the generic lemmas their proofs rest on.

  Conventions. A Rust \<open>String\<close> is a \<open>string\<close> whose characters are its UTF-8
  bytes, so \<open>String::len\<close> is \<open>length\<close> and \<open>Ord for String\<close> (bytewise
  lexicographic) is the list order of \<open>List_Lexorder\<close>. A \<open>BTreeMap\<close> is an
  \<open>fmap\<close> and a \<open>BTreeSet\<close> an \<open>fset\<close>; iteration in key order is
  \<open>sorted_list_of_fset\<close> of the keys. A \<open>Result\<close> is a sum with the error on
  the left. \<open>usize\<close> and \<open>u64\<close> counters are \<open>nat\<close>; where the source checks
  for overflow the bound \<open>usize_max\<close> is written out.
\<close>

named_theorems model_defs \<open>unfolding rules of the model's small predicates\<close>
named_theorems invs \<open>preservation lemmas of the components' invariants\<close>

type_synonym bytes = "8 word list"
type_synonym hasher = "bytes \<Rightarrow> string"

subsection \<open>Machine bounds\<close>

definition usize_max :: nat where
  "usize_max = 2 ^ 64 - 1"

definition checked_add :: "nat \<Rightarrow> nat \<Rightarrow> nat option" where
  "checked_add a b = (if a + b \<le> usize_max then Some (a + b) else None)"

definition checked_mul :: "nat \<Rightarrow> nat \<Rightarrow> nat option" where
  "checked_mul a b = (if a * b \<le> usize_max then Some (a * b) else None)"

lemma checked_add_Some [simp]:
  "checked_add a b = Some c \<longleftrightarrow> c = a + b \<and> a + b \<le> usize_max"
  by (auto simp: checked_add_def)

lemma checked_mul_Some [simp]:
  "checked_mul a b = Some c \<longleftrightarrow> c = a * b \<and> a * b \<le> usize_max"
  by (auto simp: checked_mul_def)

subsection \<open>Fallible loops\<close>

text \<open>A \<open>for\<close> loop whose body may return early with an error (\<open>ensure!\<close>, \<open>?\<close>).\<close>

fun fold_res :: "('s \<Rightarrow> 'a \<Rightarrow> 'e + 's) \<Rightarrow> 's \<Rightarrow> 'a list \<Rightarrow> 'e + 's" where
  "fold_res f s [] = Inr s"
| "fold_res f s (x # xs) = (case f s x of Inl e \<Rightarrow> Inl e | Inr s' \<Rightarrow> fold_res f s' xs)"

lemma fold_res_append:
  "fold_res f s (xs @ ys) =
     (case fold_res f s xs of Inl e \<Rightarrow> Inl e | Inr s' \<Rightarrow> fold_res f s' ys)"
  by (induction xs arbitrary: s) (auto split: sum.splits)

lemma fold_res_snoc_Inr:
  "fold_res f s (xs @ [x]) = Inr t \<longleftrightarrow> (\<exists>u. fold_res f s xs = Inr u \<and> f u x = Inr t)"
  by (auto simp: fold_res_append split: sum.splits)

lemma fold_res_unit_Inr: "fold_res (\<lambda>_. f) () xs = Inr () \<longleftrightarrow> (\<forall>x \<in> set xs. f x = Inr ())"
  by (induction xs) (auto split: sum.splits)

lemma fold_res_total: "fold_res (\<lambda>s x. Inr (f s x)) s xs = Inr (foldl f s xs)"
  by (induction xs arbitrary: s) simp_all

lemma fold_res_each:
  assumes "fold_res f s xs = Inr t" and "x \<in> set xs"
  shows "\<exists>u u'. f u x = Inr u'"
  using assms by (induction xs arbitrary: s) (auto split: sum.splits)

lemma fold_res_invariant:
  assumes "fold_res f s xs = Inr t" and "P s"
    and "\<And>s x t. x \<in> set xs \<Longrightarrow> P s \<Longrightarrow> f s x = Inr t \<Longrightarrow> P t"
  shows "P t"
  using assms
proof (induction xs arbitrary: s)
  case Nil
  then show ?case by simp
next
  case (Cons x xs)
  from Cons.prems(1) obtain u where u: "f s x = Inr u" and rest: "fold_res f u xs = Inr t"
    by (auto split: sum.splits)
  have "P u" using Cons.prems(3)[of x s u] Cons.prems(2) u by simp
  show ?case
    by (rule Cons.IH[OF rest \<open>P u\<close>]) (use Cons.prems(3) in auto)
qed

text \<open>\<open>ensure!\<close> followed by the rest of the function.\<close>

definition ensure :: "bool \<Rightarrow> 'e \<Rightarrow> 'e + 'a \<Rightarrow> 'e + 'a" where
  "ensure b e r = (if b then r else Inl e)"

lemma ensure_Inr [simp]: "ensure b e r = Inr v \<longleftrightarrow> b \<and> r = Inr v"
  by (simp add: ensure_def)

lemma ensure_True [simp]: "ensure True e r = r"
  by (simp add: ensure_def)

lemma ensure_False [simp]: "ensure False e r = Inl e"
  by (simp add: ensure_def)

text \<open>\<open>Option::context(..)?\<close> and \<open>?\<close> on a \<open>Result\<close>.\<close>

definition context_or :: "'a option \<Rightarrow> 'e \<Rightarrow> ('a \<Rightarrow> 'e + 'b) \<Rightarrow> 'e + 'b" where
  "context_or x e k = (case x of None \<Rightarrow> Inl e | Some v \<Rightarrow> k v)"

lemma context_or_Inr [simp]:
  "context_or x e k = Inr v \<longleftrightarrow> (\<exists>a. x = Some a \<and> k a = Inr v)"
  by (auto simp: context_or_def split: option.splits)

lemma context_or_simps [simp]:
  "context_or None e k = Inl e"
  "context_or (Some a) e k = k a"
  by (simp_all add: context_or_def)

definition res_bind :: "'e + 'a \<Rightarrow> ('a \<Rightarrow> 'e + 'b) \<Rightarrow> 'e + 'b" where
  "res_bind r k = (case r of Inl e \<Rightarrow> Inl e | Inr v \<Rightarrow> k v)"

lemma res_bind_Inr [simp]:
  "res_bind r k = Inr v \<longleftrightarrow> (\<exists>a. r = Inr a \<and> k a = Inr v)"
  by (auto simp: res_bind_def split: sum.splits)

lemma res_bind_simps [simp]:
  "res_bind (Inl e) k = Inl e"
  "res_bind (Inr a) k = k a"
  by (simp_all add: res_bind_def)

text \<open>The run-time failures a Rust expression can raise instead of returning.\<close>

datatype panic = IndexOutOfBounds | ArithmeticOverflow | ExpectFailed | DivisionByZero | AssertionFailed

subsection \<open>Ordered maps and sets\<close>

definition fm_keys :: "('k::linorder, 'v) fmap \<Rightarrow> 'k list" where
  "fm_keys m = sorted_list_of_fset (fmdom m)"

definition fm_values_at :: "('k, 'v) fmap \<Rightarrow> 'v \<Rightarrow> 'k \<Rightarrow> 'v" where
  "fm_values_at m d k = (case fmlookup m k of None \<Rightarrow> d | Some v \<Rightarrow> v)"

definition fm_entries :: "('k::linorder, 'v) fmap \<Rightarrow> ('k \<times> 'v) list" where
  "fm_entries m = map (\<lambda>k. (k, the (fmlookup m k))) (fm_keys m)"

lemma set_fm_keys [simp]: "set (fm_keys m) = fmdom' m"
  by (simp add: fm_keys_def fmdom'_alt_def)

lemma distinct_fm_keys [simp]: "distinct (fm_keys m)"
  by (simp add: fm_keys_def sorted_list_of_fset.rep_eq)

lemma sorted_fm_keys [simp]: "sorted (fm_keys m)"
  by (simp add: fm_keys_def sorted_list_of_fset.rep_eq)

lemma length_fm_keys [simp]: "length (fm_keys m) = fcard (fmdom m)"
  by (simp add: fm_keys_def sorted_list_of_fset.rep_eq fcard.rep_eq)

lemma in_fm_entries [simp]: "(k, v) \<in> set (fm_entries m) \<longleftrightarrow> fmlookup m k = Some v"
  by (force simp: fm_entries_def fmlookup_dom'_iff)

lemma distinct_sorted_list_of_fset [simp]: "distinct (sorted_list_of_fset A)"
  by (simp add: sorted_list_of_fset.rep_eq)

lemma fmdrop_lookup_if:
  "fmlookup (fmdrop k m) k' = (if k = k' then None else fmlookup m k')"
  by (simp add: fmlookup_drop)

lemma fmdom_iff_lookup: "k |\<in>| fmdom m \<longleftrightarrow> fmlookup m k \<noteq> None"
  by (simp add: fmlookup_dom_iff)

subsection \<open>Sorting and de-duplication\<close>

text \<open>\<open>sort\<close> then \<open>dedup\<close>: \<open>Vec::dedup\<close> drops consecutive repetitions.\<close>

definition sort_dedup :: "'a::linorder list \<Rightarrow> 'a list" where
  "sort_dedup xs = remdups_adj (sort xs)"

lemma set_sort_dedup [simp]: "set (sort_dedup xs) = set xs"
  by (simp add: sort_dedup_def)

lemma sort_dedup_Nil_iff [simp]: "sort_dedup xs = [] \<longleftrightarrow> xs = []"
  by (metis set_empty set_sort_dedup)

lemma sort_dedup_Nil [simp]: "sort_dedup [] = []"
  by simp

lemma sort_Nil_iff [simp]: "sort xs = [] \<longleftrightarrow> xs = []"
  by (metis set_empty set_sort)

lemma sort_key_Nil_iff [simp]: "sort_key f xs = [] \<longleftrightarrow> xs = []"
  by (metis set_empty set_sort)

lemma distinct_remdups_adj_sorted: "sorted xs \<Longrightarrow> distinct (remdups_adj xs)"
  by (induction xs rule: remdups_adj.induct) (auto simp: antisym)

lemma distinct_sort_dedup [simp]: "distinct (sort_dedup xs)"
  by (simp add: sort_dedup_def distinct_remdups_adj_sorted)

lemma sorted_sort_dedup [simp]: "sorted (sort_dedup xs)"
  by (simp add: sort_dedup_def sorted_remdups_adj)

subsection \<open>Strings\<close>

definition str_contains :: "string \<Rightarrow> string \<Rightarrow> bool" where
  "str_contains s p = sublist p s"

fun split_once :: "string \<Rightarrow> string \<Rightarrow> (string \<times> string) option" where
  "split_once [] p = (if p = [] then Some ([], []) else None)"
| "split_once (c # s) p =
     (if prefix p (c # s) then Some ([], drop (length p) (c # s))
      else map_option (\<lambda>(a, b). (c # a, b)) (split_once s p))"

text \<open>
  Non-overlapping occurrences of a non-empty pattern, left to right
  (\<open>str::match_indices(..).count()\<close>, \<open>str::replace\<close>).
\<close>

function match_count :: "string \<Rightarrow> string \<Rightarrow> nat" where
  "match_count [] p = 0"
| "match_count (c # s) p =
     (if p \<noteq> [] \<and> prefix p (c # s) then Suc (match_count (drop (length p) (c # s)) p)
      else match_count s p)"
  by pat_completeness auto
termination
  by (relation "measure (\<lambda>(s, p). length s)") (auto simp: neq_Nil_conv)

function str_replace :: "string \<Rightarrow> string \<Rightarrow> string \<Rightarrow> string" where
  "str_replace [] p r = []"
| "str_replace (c # s) p r =
     (if p \<noteq> [] \<and> prefix p (c # s) then r @ str_replace (drop (length p) (c # s)) p r
      else c # str_replace s p r)"
  by pat_completeness auto
termination
  by (relation "measure (\<lambda>(s, p, r). length s)") (auto simp: neq_Nil_conv)

definition ascii_whitespace :: "char \<Rightarrow> bool" where
  "ascii_whitespace c = (of_char c \<in> {9, 10, 11, 12, 13, 32 :: nat})"

text \<open>\<open>s.trim().is_empty()\<close>, for ASCII white space.\<close>

definition trim_is_empty :: "string \<Rightarrow> bool" where
  "trim_is_empty s = list_all ascii_whitespace s"

definition ascii_lower_char :: "char \<Rightarrow> char" where
  "ascii_lower_char c =
     (if 65 \<le> (of_char c :: nat) \<and> (of_char c :: nat) \<le> 90 then char_of (of_char c + 32 :: nat) else c)"

definition to_ascii_lowercase :: "string \<Rightarrow> string" where
  "to_ascii_lowercase s = map ascii_lower_char s"

subsection \<open>Formatting\<close>

definition digit_char :: "nat \<Rightarrow> char" where
  "digit_char d = char_of (48 + d)"

fun show_nat :: "nat \<Rightarrow> string" where
  "show_nat n = (if n < 10 then [digit_char n] else show_nat (n div 10) @ [digit_char (n mod 10)])"

declare show_nat.simps [simp del]

text \<open>\<open>{:06}\<close>: zero padding to a minimum width.\<close>

definition pad_zeros :: "nat \<Rightarrow> string \<Rightarrow> string" where
  "pad_zeros w s = replicate (w - length s) CHR ''0'' @ s"

text \<open>\<open>[String]::join\<close>.\<close>

fun join_strings :: "string \<Rightarrow> string list \<Rightarrow> string" where
  "join_strings sep [] = []"
| "join_strings sep [s] = s"
| "join_strings sep (s # t # ss) = s @ sep @ join_strings sep (t # ss)"

definition hex_digit :: "nat \<Rightarrow> char" where
  "hex_digit d = (if d < 10 then char_of (48 + d) else char_of (87 + d))"

function hex_nat :: "nat \<Rightarrow> string" where
  "hex_nat n = (if n < 16 then [hex_digit n] else hex_nat (n div 16) @ [hex_digit (n mod 16)])"
  by pat_completeness auto
termination
  by (relation "measure id") auto

declare hex_nat.simps [simp del]

text \<open>
  \<open>{:?}\<close> of a \<open>str\<close>: quoted, with the escapes of ASCII characters; bytes of
  multi-byte characters are printed as they are.
\<close>

definition backslash :: char where
  "backslash = CHR 0x5C"

definition escape_debug :: "char \<Rightarrow> string" where
  "escape_debug c =
     (let n = (of_char c :: nat) in
      if n = 0 then [backslash, CHR ''0'']
      else if n = 9 then [backslash, CHR ''t'']
      else if n = 10 then [backslash, CHR ''n'']
      else if n = 13 then [backslash, CHR ''r'']
      else if n = 34 \<or> n = 92 then [backslash, c]
      else if n < 32 \<or> n = 127 then [backslash] @ ''u{'' @ hex_nat n @ ''}''
      else [c])"

definition debug_str :: "string \<Rightarrow> string" where
  "debug_str s = [CHR 0x22] @ concat (map escape_debug s) @ [CHR 0x22]"

text \<open>\<open>{:?}\<close> of an \<open>Option<String>\<close> and of an \<open>Option<u16>\<close>.\<close>

definition debug_option :: "('a \<Rightarrow> string) \<Rightarrow> 'a option \<Rightarrow> string" where
  "debug_option f x = (case x of None \<Rightarrow> ''None'' | Some v \<Rightarrow> ''Some('' @ f v @ '')'')"

subsection \<open>Decimal numbers can be read back\<close>

definition digits_val :: "string \<Rightarrow> nat" where
  "digits_val s = foldl (\<lambda>a c. 10 * a + (of_char c - 48)) 0 s"

lemma of_char_digit [simp]: "d < 10 \<Longrightarrow> (of_char (digit_char d) :: nat) = 48 + d"
  by (simp add: digit_char_def take_bit_nat_eq_self)

lemma digits_val_snoc: "digits_val (s @ [c]) = 10 * digits_val s + (of_char c - 48)"
  by (simp add: digits_val_def)

lemma digits_val_show_nat [simp]: "digits_val (show_nat n) = n"
proof (induction n rule: show_nat.induct)
  case (1 n)
  show ?case
  proof (cases "n < 10")
    case True
    then show ?thesis by (simp add: show_nat.simps [of n] digits_val_def)
  next
    case False
    with 1 show ?thesis by (simp add: show_nat.simps [of n] digits_val_snoc)
  qed
qed

lemma show_nat_inject [simp]: "show_nat m = show_nat n \<longleftrightarrow> m = n"
  by (metis digits_val_show_nat)

lemma digits_val_pad [simp]: "digits_val (pad_zeros w s) = digits_val s"
proof -
  have "foldl (\<lambda>a c. 10 * a + (of_char c - 48)) 0 (replicate k CHR ''0'') = (0::nat)" for k
    by (induction k) auto
  then show ?thesis by (simp add: pad_zeros_def digits_val_def)
qed

lemma pad_show_nat_inject [simp]:
  "pad_zeros w (show_nat m) = pad_zeros w (show_nat n) \<longleftrightarrow> m = n"
  by (metis digits_val_pad digits_val_show_nat)

end
