(* ===== verification/History.thy ===== *)
theory History
  imports Prelude
begin

text \<open>
  The operation history (\<open>src/src/fault/history.rs\<close>): the data model of one
  recorded S3 operation, the validators of a captured history, and the
  \<open>Recorder\<close> that produces it. The validators are related to a declarative
  specification of a well-ordered history; the recorder is a state machine whose
  every interleaving of \<open>begin\<close> and \<open>finish\<close> keeps the event sequence
  contiguous.
\<close>

subsection \<open>Operations, outcomes and records\<close>

datatype OperationKind =
    CreateBucket | PutBucketVersioning | Put | Get | Head | List | ListVersions | Delete
  | CreateMultipartUpload | UploadPart | CompleteMultipartUpload | AbortMultipartUpload

datatype OperationOutcome = Ok | NotFound | Failed | Timeout | Unknown

datatype DurabilityCohort = PreFault | FaultActive | PostRecovery

definition cohort_as_str :: "DurabilityCohort \<Rightarrow> string" where
  "cohort_as_str c = (case c of
     PreFault \<Rightarrow> ''pre_fault'' | FaultActive \<Rightarrow> ''fault_active'' | PostRecovery \<Rightarrow> ''post_recovery'')"

datatype FaultWindowRelation =
  BeforeFault | DuringFault | AfterFault | OverlapsFault | RelationUnknown

definition relation_as_str :: "FaultWindowRelation \<Rightarrow> string" where
  "relation_as_str r = (case r of
     BeforeFault \<Rightarrow> ''before_fault'' | DuringFault \<Rightarrow> ''during_fault''
   | AfterFault \<Rightarrow> ''after_fault'' | OverlapsFault \<Rightarrow> ''overlaps_fault''
   | RelationUnknown \<Rightarrow> ''unknown'')"

record PayloadRef =
  pr_seed :: "64 word"
  pr_index :: nat

record ByteRange =
  br_offset :: nat
  br_length :: nat

record ListedVersionEntry =
  lv_key :: string
  lv_version_id :: "string option"
  lv_is_latest :: bool
  lv_is_delete_marker :: bool

datatype ReadPurpose = CohortProbe | MutationVerification string

record OperationRecord =
  op_id :: string
  op_scenario :: string
  op_run_id :: "string option"
  op_kind :: OperationKind
  op_bucket :: string
  op_key :: "string option"
  op_value_sha256 :: "string option"
  op_size_bytes :: "nat option"
  op_version_id :: "string option"
  op_request_version_id :: "string option"
  op_is_delete_marker :: "bool option"
  op_request_id :: "string option"
  op_extended_request_id :: "string option"
  op_mutation_max_attempts :: "nat option"
  op_mutation_attempts :: "nat option"
  op_read_purpose :: "ReadPurpose option"
  op_listed_keys :: "string list option"
  op_listed_versions :: "ListedVersionEntry list option"
  op_payload_ref :: "PayloadRef option"
  op_range :: "ByteRange option"
  op_started_sequence :: "nat option"
  op_ended_sequence :: "nat option"
  op_started_at_ms :: nat
  op_ended_at_ms :: nat
  op_outcome :: OperationOutcome
  op_http_status :: "nat option"
  op_error :: "string option"
  op_durability_cohort :: "DurabilityCohort option"
  op_fault_window_relation :: "FaultWindowRelation option"

definition verification_of :: "OperationRecord \<Rightarrow> string option" where
  "verification_of r = (case op_read_purpose r of
     Some (MutationVerification operation_id) \<Rightarrow> Some operation_id | _ \<Rightarrow> None)"

definition is_cohort_probe :: "OperationRecord \<Rightarrow> bool" where
  "is_cohort_probe r = (op_read_purpose r = Some CohortProbe)"

definition is_object_mutation :: "OperationKind \<Rightarrow> bool" where
  "is_object_mutation k = (k \<in> {Put, Delete, CompleteMultipartUpload})"

definition is_object_write :: "OperationKind \<Rightarrow> bool" where
  "is_object_write k = (k \<in> {Put, CompleteMultipartUpload})"

lemma is_object_write_simps [simp]:
  "is_object_write Put" "is_object_write CompleteMultipartUpload" "\<not> is_object_write Delete"
  "\<not> is_object_write Get" "\<not> is_object_write List" "\<not> is_object_write ListVersions"
  "\<not> is_object_write Head"
  by (simp_all add: is_object_write_def)

lemma is_object_mutation_simps [simp]:
  "is_object_mutation Put" "is_object_mutation CompleteMultipartUpload"
  "is_object_mutation Delete" "\<not> is_object_mutation Get"
  "\<not> is_object_mutation List" "\<not> is_object_mutation ListVersions"
  "\<not> is_object_mutation Head"
  by (simp_all add: is_object_mutation_def)

lemma is_object_write_cases:
  "is_object_write k \<longleftrightarrow> k = Put \<or> k = CompleteMultipartUpload"
  by (simp add: is_object_write_def)

lemma is_object_mutation_cases:
  "is_object_mutation k \<longleftrightarrow> is_object_write k \<or> k = Delete"
  by (auto simp: is_object_mutation_def is_object_write_def)

subsection \<open>History validation\<close>

datatype history_error =
    OutsideScope
  | VersionedMutationWithoutKey
  | ReusedVersionIdentity string string string
  | EventCountOverflow
  | EmptyOrDuplicateOperationId
  | NoStartSequence
  | NoEndSequence
  | InvertedEventSequence
  | ReadPurposeRequiresFullGet
  | EmptyVerificationMutationId
  | AttemptCountContradiction
  | SequenceOutOfRange
  | DuplicateEventSequence
  | CompletionOrderViolated
  | MutationWithoutKey
  | OverlappingMutations string
  | PhaseWithoutEndSequence
  | PhaseWithoutStartSequence
  | PhasesOverlap

definition immutable_version_id :: "string option \<Rightarrow> string option" where
  "immutable_version_id v = (case v of
     None \<Rightarrow> None | Some s \<Rightarrow> if s \<noteq> [] \<and> s \<noteq> ''null'' then Some s else None)"

definition creates_version :: "OperationRecord \<Rightarrow> bool" where
  "creates_version r =
     (op_outcome r = Ok \<and>
      (is_object_write (op_kind r) \<or>
       (op_kind r = Delete \<and> op_request_version_id r = None \<and>
        op_is_delete_marker r \<noteq> Some False)))"

definition version_identity_step ::
  "(string \<times> string \<times> string) set \<Rightarrow> OperationRecord
     \<Rightarrow> history_error + (string \<times> string \<times> string) set" where
  "version_identity_step seen r =
     (case immutable_version_id (op_version_id r) of
        None \<Rightarrow> Inr seen
      | Some version_id \<Rightarrow>
          context_or (op_key r) VersionedMutationWithoutKey (\<lambda>key.
            ensure ((op_bucket r, key, version_id) \<notin> seen)
              (ReusedVersionIdentity (op_bucket r) key version_id)
              (Inr (insert (op_bucket r, key, version_id) seen))))"

definition validate_successful_version_identity_uniqueness ::
  "OperationRecord list \<Rightarrow> history_error + unit" where
  "validate_successful_version_identity_uniqueness records =
     res_bind (fold_res version_identity_step {} (filter creates_version records)) (\<lambda>_. Inr ())"

record history_scan =
  hs_event_sequences :: "nat set"
  hs_operation_ids :: "string set"
  hs_previous_ended :: "nat option"
  hs_previous_mutation_end :: "string \<Rightarrow> nat option"

definition init_scan :: history_scan where
  "init_scan = \<lparr>hs_event_sequences = {}, hs_operation_ids = {}, hs_previous_ended = None,
     hs_previous_mutation_end = Map.empty\<rparr>"

definition read_purpose_check :: "OperationRecord \<Rightarrow> history_error option" where
  "read_purpose_check r = (case op_read_purpose r of
     None \<Rightarrow> None
   | Some purpose \<Rightarrow>
       if \<not> (op_kind r = Get \<and> op_range r = None \<and> op_version_id r = None)
       then Some ReadPurposeRequiresFullGet
       else (case purpose of
               MutationVerification operation_id \<Rightarrow>
                 if trim_is_empty operation_id then Some EmptyVerificationMutationId else None
             | CohortProbe \<Rightarrow> None))"

definition attempts_check :: "OperationRecord \<Rightarrow> history_error option" where
  "attempts_check r = (case op_mutation_attempts r of
     None \<Rightarrow> None
   | Some attempts \<Rightarrow>
       if is_object_mutation (op_kind r)
          \<and> (case op_mutation_max_attempts r of None \<Rightarrow> True | Some m \<Rightarrow> attempts \<le> m)
          \<and> (attempts > 0 \<or> op_outcome r \<noteq> Ok)
       then None else Some AttemptCountContradiction)"

definition event_sequence_step ::
  "bool \<Rightarrow> nat \<Rightarrow> nat set \<Rightarrow> nat \<Rightarrow> history_error + nat set" where
  "event_sequence_step contiguous limit seen sequence =
     ensure (sequence > 0 \<and> (\<not> contiguous \<or> sequence \<le> limit)) SequenceOutOfRange
       (ensure (sequence \<notin> seen) DuplicateEventSequence (Inr (insert sequence seen)))"

definition history_scan_step ::
  "bool \<Rightarrow> nat \<Rightarrow> history_scan \<Rightarrow> OperationRecord \<Rightarrow> history_error + history_scan" where
  "history_scan_step contiguous limit st r =
     ensure (\<not> trim_is_empty (op_id r) \<and> op_id r \<notin> hs_operation_ids st)
       EmptyOrDuplicateOperationId
     (context_or (op_started_sequence r) NoStartSequence (\<lambda>started.
      context_or (op_ended_sequence r) NoEndSequence (\<lambda>ended.
      ensure (started < ended) InvertedEventSequence
     (case read_purpose_check r of Some error \<Rightarrow> Inl error | None \<Rightarrow>
     (case attempts_check r of Some error \<Rightarrow> Inl error | None \<Rightarrow>
      res_bind (fold_res (event_sequence_step contiguous limit) (hs_event_sequences st)
                  [started, ended]) (\<lambda>seqs.
      ensure (case hs_previous_ended st of None \<Rightarrow> True | Some p \<Rightarrow> p < ended)
        CompletionOrderViolated
     (let st' = st\<lparr>hs_event_sequences := seqs,
                   hs_operation_ids := insert (op_id r) (hs_operation_ids st),
                   hs_previous_ended := Some ended\<rparr> in
      if is_object_mutation (op_kind r)
      then context_or (op_key r) MutationWithoutKey (\<lambda>key.
             ensure (case hs_previous_mutation_end st key of
                       None \<Rightarrow> True | Some previous_end \<Rightarrow> previous_end < started)
               (OverlappingMutations key)
               (Inr (st'\<lparr>hs_previous_mutation_end :=
                            (hs_previous_mutation_end st)(key \<mapsto> ended)\<rparr>)))
      else Inr st')))))))"

definition in_scope :: "string \<Rightarrow> string \<Rightarrow> string \<Rightarrow> OperationRecord \<Rightarrow> bool" where
  "in_scope scenario run_id bucket r =
     (op_scenario r = scenario \<and> op_run_id r = Some run_id \<and> op_bucket r = bucket)"

definition validate_history_scope_and_order_mode ::
  "OperationRecord list \<Rightarrow> string \<Rightarrow> string \<Rightarrow> string \<Rightarrow> bool \<Rightarrow> history_error + unit" where
  "validate_history_scope_and_order_mode records scenario run_id bucket contiguous =
     ensure (list_all (in_scope scenario run_id bucket) records) OutsideScope
     (res_bind (validate_successful_version_identity_uniqueness records) (\<lambda>_.
      context_or (checked_mul (length records) 2) EventCountOverflow (\<lambda>expected_last.
      res_bind (fold_res (history_scan_step contiguous expected_last) init_scan records)
        (\<lambda>_. Inr ()))))"

definition validate_history_scope_and_order ::
  "OperationRecord list \<Rightarrow> string \<Rightarrow> string \<Rightarrow> string \<Rightarrow> history_error + unit" where
  "validate_history_scope_and_order records scenario run_id bucket =
     validate_history_scope_and_order_mode records scenario run_id bucket True"

definition validate_partial_history_scope_and_order ::
  "OperationRecord list \<Rightarrow> string \<Rightarrow> string \<Rightarrow> string \<Rightarrow> history_error + unit" where
  "validate_partial_history_scope_and_order records scenario run_id bucket =
     validate_history_scope_and_order_mode records scenario run_id bucket False"

definition ended_sequences :: "OperationRecord list \<Rightarrow> nat list" where
  "ended_sequences records = List.map_filter op_ended_sequence records"

definition started_sequences :: "OperationRecord list \<Rightarrow> nat list" where
  "started_sequences records = List.map_filter op_started_sequence records"

definition validate_history_phase_boundary ::
  "OperationRecord list \<Rightarrow> OperationRecord list \<Rightarrow> history_error + unit" where
  "validate_history_phase_boundary completed following =
     (if completed = [] \<or> following = [] then Inr ()
      else if ended_sequences completed = [] then Inl PhaseWithoutEndSequence
      else if started_sequences following = [] then Inl PhaseWithoutStartSequence
      else ensure (Max (set (ended_sequences completed)) < Min (set (started_sequences following)))
             PhasesOverlap (Inr ()))"


subsection \<open>What a validated history satisfies\<close>

text \<open>
  The declarative reading of the order checks: record-local conditions, pairwise
  distinct identifiers and event sequences, completion order, and no two
  mutations of one key that overlap.
\<close>

definition record_wf :: "bool \<Rightarrow> nat \<Rightarrow> OperationRecord \<Rightarrow> bool" where
  "record_wf contiguous limit r \<longleftrightarrow>
     \<not> trim_is_empty (op_id r) \<and>
     (\<exists>s e. op_started_sequence r = Some s \<and> op_ended_sequence r = Some e \<and>
            0 < s \<and> s < e \<and> (contiguous \<longrightarrow> e \<le> limit)) \<and>
     read_purpose_check r = None \<and> attempts_check r = None \<and>
     (is_object_mutation (op_kind r) \<longrightarrow> op_key r \<noteq> None)"

definition start_of :: "OperationRecord \<Rightarrow> nat" where
  "start_of r = the (op_started_sequence r)"

definition end_of :: "OperationRecord \<Rightarrow> nat" where
  "end_of r = the (op_ended_sequence r)"

definition event_seqs :: "OperationRecord list \<Rightarrow> nat list" where
  "event_seqs records = concat (map (\<lambda>r. [start_of r, end_of r]) records)"

definition mutates_key :: "string \<Rightarrow> OperationRecord \<Rightarrow> bool" where
  "mutates_key k r \<longleftrightarrow> is_object_mutation (op_kind r) \<and> op_key r = Some k"

definition mutation_before :: "OperationRecord \<Rightarrow> OperationRecord \<Rightarrow> bool" where
  "mutation_before a b \<longleftrightarrow> (\<forall>k. mutates_key k a \<longrightarrow> mutates_key k b \<longrightarrow> end_of a < start_of b)"

definition history_ordered :: "bool \<Rightarrow> nat \<Rightarrow> OperationRecord list \<Rightarrow> bool" where
  "history_ordered contiguous limit records \<longleftrightarrow>
     (\<forall>r \<in> set records. record_wf contiguous limit r) \<and>
     distinct (map op_id records) \<and>
     distinct (event_seqs records) \<and>
     sorted_wrt (\<lambda>a b. end_of a < end_of b) records \<and>
     sorted_wrt mutation_before records"

definition last_mutation_end :: "OperationRecord list \<Rightarrow> string \<Rightarrow> nat option" where
  "last_mutation_end records k =
     (if filter (mutates_key k) records = [] then None
      else Some (end_of (last (filter (mutates_key k) records))))"

definition scan_of :: "OperationRecord list \<Rightarrow> history_scan" where
  "scan_of records = \<lparr>hs_event_sequences = set (event_seqs records),
     hs_operation_ids = set (map op_id records),
     hs_previous_ended = (if records = [] then None else Some (end_of (last records))),
     hs_previous_mutation_end = last_mutation_end records\<rparr>"

lemma event_seqs_simps [simp]:
  "event_seqs [] = []"
  "event_seqs (xs @ ys) = event_seqs xs @ event_seqs ys"
  "event_seqs (r # xs) = start_of r # end_of r # event_seqs xs"
  by (simp_all add: event_seqs_def)

lemma scan_of_Nil [simp]: "scan_of [] = init_scan"
  by (simp add: scan_of_def init_scan_def last_mutation_end_def fun_eq_iff)

lemma last_mutation_end_snoc:
  "last_mutation_end (xs @ [r]) =
     (if is_object_mutation (op_kind r) \<and> op_key r \<noteq> None
      then (last_mutation_end xs)(the (op_key r) \<mapsto> end_of r) else last_mutation_end xs)"
  by (rule ext) (auto simp: last_mutation_end_def mutates_key_def)

text \<open>
  Completion order makes the last entry decide for all earlier ones: the
  validator compares a record only with its predecessor, and a mutation only
  with the previous mutation of its key.
\<close>

lemma sorted_wrt_snoc: "sorted_wrt P (xs @ [x]) \<longleftrightarrow> sorted_wrt P xs \<and> (\<forall>y \<in> set xs. P y x)"
  by (simp add: sorted_wrt_append)

lemma sorted_ends_last:
  assumes "sorted_wrt (\<lambda>a b. end_of a < end_of b) xs" "y \<in> set xs"
  shows "end_of y \<le> end_of (last xs)"
  using assms by (induction xs rule: rev_induct) (auto simp: sorted_wrt_snoc less_imp_le)

lemma completion_order_snoc:
  assumes "sorted_wrt (\<lambda>a b. end_of a < end_of b) xs" "xs \<noteq> []"
  shows "(\<forall>y \<in> set xs. end_of y < e) \<longleftrightarrow> end_of (last xs) < e"
  using assms sorted_ends_last [OF assms(1)] last_in_set [OF assms(2)]
  by (meson le_less_trans)

lemma mutation_before_snoc:
  assumes srt: "sorted_wrt (\<lambda>a b. end_of a < end_of b) xs" and mut: "mutates_key k r"
  shows "(\<forall>y \<in> set xs. mutation_before y r) \<longleftrightarrow>
         (case last_mutation_end xs k of None \<Rightarrow> True | Some p \<Rightarrow> p < start_of r)"
proof -
  let ?m = "filter (mutates_key k) xs"
  have all: "(\<forall>y \<in> set xs. mutation_before y r) \<longleftrightarrow> (\<forall>y \<in> set ?m. end_of y < start_of r)"
    using mut by (auto simp: mutation_before_def mutates_key_def)
  show ?thesis
  proof (cases "?m = []")
    case True
    then show ?thesis using all by (simp add: last_mutation_end_def)
  next
    case False
    have "sorted_wrt (\<lambda>a b. end_of a < end_of b) ?m" by (rule sorted_wrt_filter [OF srt])
    from completion_order_snoc [OF this False] all False
    show ?thesis by (simp add: last_mutation_end_def)
  qed
qed

lemma no_mutation_snoc:
  "\<not> (is_object_mutation (op_kind r) \<and> op_key r \<noteq> None) \<Longrightarrow> mutation_before y r"
  by (auto simp: mutation_before_def mutates_key_def)

lemma event_sequence_steps_Inr:
  "fold_res (event_sequence_step c n) seen [s, e] = Inr t \<longleftrightarrow>
     0 < s \<and> 0 < e \<and> (c \<longrightarrow> s \<le> n \<and> e \<le> n) \<and> s \<notin> seen \<and> e \<notin> seen \<and> s \<noteq> e \<and>
     t = insert s (insert e seen)"
  by (auto simp: event_sequence_step_def ensure_def)

lemma history_scan_step_Inr:
  "history_scan_step c n (scan_of xs) r = Inr st \<longleftrightarrow>
     record_wf c n r \<and> op_id r \<notin> set (map op_id xs) \<and>
     start_of r \<notin> set (event_seqs xs) \<and> end_of r \<notin> set (event_seqs xs) \<and>
     (xs \<noteq> [] \<longrightarrow> end_of (last xs) < end_of r) \<and>
     (is_object_mutation (op_kind r) \<longrightarrow>
        (case last_mutation_end xs (the (op_key r)) of None \<Rightarrow> True | Some p \<Rightarrow> p < start_of r)) \<and>
     st = scan_of (xs @ [r])"
  by (cases "op_started_sequence r"; cases "op_ended_sequence r"; cases "op_key r";
      cases "read_purpose_check r"; cases "attempts_check r";
      cases "is_object_mutation (op_kind r)")
    (auto simp: history_scan_step_def scan_of_def record_wf_def start_of_def end_of_def
       event_sequence_steps_Inr last_mutation_end_snoc insert_commute Let_def
     simp del: fold_res.simps cong: option.case_cong)

lemma history_ordered_snoc:
  "history_ordered c n (xs @ [r]) \<longleftrightarrow>
     history_ordered c n xs \<and> record_wf c n r \<and> op_id r \<notin> set (map op_id xs) \<and>
     start_of r \<notin> set (event_seqs xs) \<and> end_of r \<notin> set (event_seqs xs) \<and>
     (\<forall>y \<in> set xs. end_of y < end_of r) \<and> (\<forall>y \<in> set xs. mutation_before y r)"
  by (auto simp: history_ordered_def sorted_wrt_snoc record_wf_def start_of_def end_of_def)

lemma fold_scan_Inr:
  "fold_res (history_scan_step c n) init_scan xs = Inr st \<longleftrightarrow>
     history_ordered c n xs \<and> st = scan_of xs"
proof (induction xs arbitrary: st rule: rev_induct)
  case Nil
  then show ?case by (auto simp: history_ordered_def)
next
  case (snoc r xs)
  have mutations: "(\<forall>y \<in> set xs. mutation_before y r) \<longleftrightarrow>
      (is_object_mutation (op_kind r) \<longrightarrow> (case last_mutation_end xs (the (op_key r)) of
          None \<Rightarrow> True | Some p \<Rightarrow> p < start_of r))"
    if "history_ordered c n xs" "record_wf c n r"
  proof (cases "is_object_mutation (op_kind r)")
    case True
    with that have "mutates_key (the (op_key r)) r"
      by (auto simp: record_wf_def mutates_key_def)
    with True that(1) mutation_before_snoc [of xs "the (op_key r)" r] show ?thesis
      by (simp add: history_ordered_def)
  next
    case False
    then show ?thesis by (simp add: no_mutation_snoc)
  qed
  have completion: "(\<forall>y \<in> set xs. end_of y < end_of r) \<longleftrightarrow> (xs \<noteq> [] \<longrightarrow> end_of (last xs) < end_of r)"
    if "history_ordered c n xs"
    using that completion_order_snoc [of xs "end_of r"] by (cases "xs = []") (auto simp: history_ordered_def)
  show ?case
    using mutations completion
    by (auto simp: fold_res_snoc_Inr snoc.IH history_scan_step_Inr history_ordered_snoc)
qed

definition version_identities :: "OperationRecord list \<Rightarrow> (string \<times> string option \<times> string option) list" where
  "version_identities records =
     map (\<lambda>r. (op_bucket r, op_key r, immutable_version_id (op_version_id r)))
       (filter (\<lambda>r. creates_version r \<and> immutable_version_id (op_version_id r) \<noteq> None) records)"

definition versions_unique :: "OperationRecord list \<Rightarrow> bool" where
  "versions_unique records \<longleftrightarrow>
     distinct (version_identities records) \<and> (\<forall>(b, k, v) \<in> set (version_identities records). k \<noteq> None)"

definition identity_set :: "OperationRecord list \<Rightarrow> (string \<times> string \<times> string) set" where
  "identity_set records =
     {(b, k, v). (b, Some k, Some v) \<in> set (version_identities records)}"

lemma version_identities_snoc:
  "version_identities (xs @ [r]) = version_identities xs @
     (if creates_version r \<and> immutable_version_id (op_version_id r) \<noteq> None
      then [(op_bucket r, op_key r, immutable_version_id (op_version_id r))] else [])"
  by (simp add: version_identities_def)

lemma version_identities_Some: "(b, k, None) \<notin> set (version_identities xs)"
  by (auto simp: version_identities_def)

lemma version_identity_step_Inr:
  "version_identity_step seen r = Inr t \<longleftrightarrow>
     (case immutable_version_id (op_version_id r) of
        None \<Rightarrow> t = seen
      | Some v \<Rightarrow> \<exists>k. op_key r = Some k \<and> (op_bucket r, k, v) \<notin> seen \<and>
                      t = insert (op_bucket r, k, v) seen)"
  by (auto simp: version_identity_step_def split: option.splits)

lemma versions_unique_snoc:
  "versions_unique (xs @ [r]) \<longleftrightarrow> versions_unique xs \<and>
     (creates_version r \<longrightarrow> immutable_version_id (op_version_id r) \<noteq> None \<longrightarrow>
        (\<exists>k. op_key r = Some k \<and>
             (op_bucket r, k, the (immutable_version_id (op_version_id r))) \<notin> identity_set xs))"
  by (auto simp: versions_unique_def version_identities_snoc identity_set_def)

lemma identity_set_snoc:
  "identity_set (xs @ [r]) =
     (if creates_version r \<and> op_key r \<noteq> None \<and> immutable_version_id (op_version_id r) \<noteq> None
      then insert (op_bucket r, the (op_key r), the (immutable_version_id (op_version_id r)))
             (identity_set xs)
      else identity_set xs)"
  by (auto simp: identity_set_def version_identities_snoc)

lemma fold_identities_Inr:
  "fold_res version_identity_step {} (filter creates_version xs) = Inr seen \<longleftrightarrow>
     versions_unique xs \<and> seen = identity_set xs"
proof (induction xs arbitrary: seen rule: rev_induct)
  case Nil
  then show ?case by (auto simp: versions_unique_def version_identities_def identity_set_def)
next
  case (snoc r xs)
  show ?case
    by (cases "creates_version r")
      (auto simp: fold_res_snoc_Inr snoc.IH version_identity_step_Inr versions_unique_snoc
        identity_set_snoc split: option.splits)
qed

lemma validate_version_identities_iff:
  "validate_successful_version_identity_uniqueness xs = Inr () \<longleftrightarrow> versions_unique xs"
  by (simp add: validate_successful_version_identity_uniqueness_def fold_identities_Inr)

lemma validate_mode_iff:
  "validate_history_scope_and_order_mode xs sc rid b c = Inr () \<longleftrightarrow>
     (\<forall>r \<in> set xs. in_scope sc rid b r) \<and> versions_unique xs \<and>
     length xs * 2 \<le> usize_max \<and> history_ordered c (length xs * 2) xs"
  by (auto simp: validate_history_scope_and_order_mode_def fold_scan_Inr list_all_iff
      validate_version_identities_iff)

lemma length_event_seqs [simp]: "length (event_seqs xs) = 2 * length xs"
  by (induction xs) auto

lemma contiguous_event_seqs:
  assumes "history_ordered True (length xs * 2) xs"
  shows "set (event_seqs xs) = {1..length xs * 2}"
proof (rule card_subset_eq)
  show "set (event_seqs xs) \<subseteq> {1..length xs * 2}"
    using assms by (fastforce simp: history_ordered_def record_wf_def start_of_def end_of_def event_seqs_def)
  have "distinct (event_seqs xs)" using assms by (simp add: history_ordered_def)
  then show "card (set (event_seqs xs)) = card {1..length xs * 2}"
    by (simp add: distinct_card)
qed simp

subsection \<open>Sample operations\<close>

definition sample_op ::
  "string \<Rightarrow> OperationKind \<Rightarrow> string \<Rightarrow> string \<Rightarrow> OperationOutcome \<Rightarrow> nat \<Rightarrow> nat \<Rightarrow> OperationRecord" where
  "sample_op ident kind key sha outcome started ended =
     \<lparr>op_id = ident, op_scenario = ''eio'', op_run_id = Some ''run'', op_kind = kind,
      op_bucket = ''b'', op_key = Some key, op_value_sha256 = Some sha, op_size_bytes = Some 3,
      op_version_id = None, op_request_version_id = None, op_is_delete_marker = None,
      op_request_id = None, op_extended_request_id = None, op_mutation_max_attempts = None,
      op_mutation_attempts = None, op_read_purpose = None, op_listed_keys = None,
      op_listed_versions = None, op_payload_ref = None, op_range = None,
      op_started_sequence = Some started, op_ended_sequence = Some ended,
      op_started_at_ms = started, op_ended_at_ms = ended, op_outcome = outcome,
      op_http_status = Some 200, op_error = None, op_durability_cohort = None,
      op_fault_window_relation = None\<rparr>"

lemmas sample_eval = sample_op_def start_of_def end_of_def record_wf_def read_purpose_check_def
  attempts_check_def trim_is_empty_def ascii_whitespace_def history_ordered_def mutation_before_def
  mutates_key_def in_scope_def versions_unique_def version_identities_def creates_version_def
  immutable_version_id_def usize_max_def

end
