(* ===== verification/Recorder.thy ===== *)
theory Recorder
  imports History
begin

text \<open>
  The history recorder (\<open>Recorder\<close>, \<open>RecorderState\<close> and \<open>FaultWindow\<close> of
  \<open>src/src/fault/history.rs\<close>). Every method takes the recorder's mutex, so each
  is one atomic step on \<open>RecorderState\<close>; the clock is an argument. The journal
  file is not modelled beyond whether writing a line succeeds: \<open>finish\<close> has
  consumed an event sequence number before it writes, so a failed write leaves
  a gap.
\<close>

subsection \<open>The fault window\<close>

record FaultWindow =
  fw_active_at_ms :: "nat option"
  fw_ended_at_ms :: "nat option"

definition relation_for :: "FaultWindow \<Rightarrow> nat \<Rightarrow> nat \<Rightarrow> FaultWindowRelation option" where
  "relation_for w started_at_ms ended_at_ms =
     (case fw_active_at_ms w of
        None \<Rightarrow> None
      | Some active_at_ms \<Rightarrow>
          (case fw_ended_at_ms w of
             None \<Rightarrow> Some (if ended_at_ms < active_at_ms then BeforeFault else DuringFault)
           | Some fault_ended_at_ms \<Rightarrow>
               if ended_at_ms < active_at_ms then Some BeforeFault
               else if started_at_ms \<ge> fault_ended_at_ms then Some AfterFault
               else if started_at_ms \<ge> active_at_ms \<and> ended_at_ms \<le> fault_ended_at_ms
                 then Some DuringFault
               else Some OverlapsFault))"

subsection \<open>Error messages\<close>

definition max_error_len :: nat where
  "max_error_len = 300"

text \<open>\<open>str::is_char_boundary\<close>: not in front of a UTF-8 continuation byte.\<close>

definition continuation_byte :: "char \<Rightarrow> bool" where
  "continuation_byte c = (128 \<le> (of_char c :: nat) \<and> (of_char c :: nat) < 192)"

definition is_char_boundary :: "string \<Rightarrow> nat \<Rightarrow> bool" where
  "is_char_boundary s i =
     (i = 0 \<or> i = length s \<or> (i < length s \<and> \<not> continuation_byte (s ! i)))"

fun boundary_below :: "string \<Rightarrow> nat \<Rightarrow> nat" where
  "boundary_below s 0 = 0"
| "boundary_below s (Suc i) =
     (if is_char_boundary s (Suc i) then Suc i else boundary_below s i)"

definition truncate_error :: "string \<Rightarrow> string" where
  "truncate_error message =
     (if length message \<le> max_error_len then message
      else take (boundary_below message max_error_len) message @ ''...'')"

subsection \<open>The recorder\<close>

record RecorderState =
  rs_scenario :: string
  rs_run_id :: string
  rs_next_id :: nat
  rs_next_event_sequence :: nat
  rs_durability_cohort :: DurabilityCohort
  rs_fault_window :: FaultWindow
  rs_records :: "OperationRecord list"
  rs_redactions :: "string list"

definition recorder_create :: "string \<Rightarrow> string \<Rightarrow> RecorderState" where
  "recorder_create scenario run_id =
     \<lparr>rs_scenario = scenario, rs_run_id = run_id, rs_next_id = 1, rs_next_event_sequence = 1,
      rs_durability_cohort = PreFault,
      rs_fault_window = \<lparr>fw_active_at_ms = None, fw_ended_at_ms = None\<rparr>,
      rs_records = [], rs_redactions = []\<rparr>"

definition operation_id :: "nat \<Rightarrow> string" where
  "operation_id n = ''op-'' @ pad_zeros 6 (show_nat n)"

definition recorder_begin ::
  "RecorderState \<Rightarrow> nat \<Rightarrow> OperationKind \<Rightarrow> string \<Rightarrow> string option \<Rightarrow> string option \<Rightarrow> nat option
     \<Rightarrow> RecorderState \<times> OperationRecord" where
  "recorder_begin st now kind bucket key value_sha256 size_bytes =
     (st\<lparr>rs_next_id := rs_next_id st + 1, rs_next_event_sequence := rs_next_event_sequence st + 1\<rparr>,
      \<lparr>op_id = operation_id (rs_next_id st), op_scenario = rs_scenario st,
       op_run_id = Some (rs_run_id st), op_kind = kind, op_bucket = bucket, op_key = key,
       op_value_sha256 = value_sha256, op_size_bytes = size_bytes, op_version_id = None,
       op_request_version_id = None, op_is_delete_marker = None, op_request_id = None,
       op_extended_request_id = None, op_mutation_max_attempts = None,
       op_mutation_attempts = None, op_read_purpose = None, op_listed_keys = None,
       op_listed_versions = None, op_payload_ref = None, op_range = None,
       op_started_sequence = Some (rs_next_event_sequence st), op_ended_sequence = None,
       op_started_at_ms = now, op_ended_at_ms = now, op_outcome = Unknown,
       op_http_status = None, op_error = None,
       op_durability_cohort = Some (rs_durability_cohort st),
       op_fault_window_relation = relation_for (rs_fault_window st) now now\<rparr>)"

definition redact :: "string list \<Rightarrow> string \<Rightarrow> string" where
  "redact secrets message = foldl (\<lambda>m s. str_replace m s ''[REDACTED]'') message secrets"

definition finished_record ::
  "RecorderState \<Rightarrow> nat \<Rightarrow> OperationRecord \<Rightarrow> OperationOutcome \<Rightarrow> nat option \<Rightarrow> string option
     \<Rightarrow> OperationRecord" where
  "finished_record st now r outcome http_status error =
     r\<lparr>op_ended_at_ms := now, op_outcome := outcome, op_http_status := http_status,
       op_error := map_option (\<lambda>m. truncate_error (redact (rs_redactions st) m)) error,
       op_ended_sequence := Some (rs_next_event_sequence st),
       op_durability_cohort := Some (rs_durability_cohort st),
       op_fault_window_relation :=
         relation_for (rs_fault_window st) (op_started_at_ms r) now\<rparr>"

definition recorder_finish ::
  "RecorderState \<Rightarrow> nat \<Rightarrow> bool \<Rightarrow> OperationRecord \<Rightarrow> OperationOutcome \<Rightarrow> nat option \<Rightarrow> string option
     \<Rightarrow> RecorderState \<times> (unit + OperationRecord)" where
  "recorder_finish st now written r outcome http_status error =
     (let r' = finished_record st now r outcome http_status error;
          st' = st\<lparr>rs_next_event_sequence := rs_next_event_sequence st + 1\<rparr>
      in if written then (st'\<lparr>rs_records := rs_records st @ [r']\<rparr>, Inr r')
         else (st', Inl ()))"

definition redact_secrets :: "RecorderState \<Rightarrow> string list \<Rightarrow> RecorderState \<times> (unit + unit)" where
  "redact_secrets st secrets =
     (if list_all (\<lambda>s. s \<noteq> []) secrets
      then (st\<lparr>rs_redactions := rs_redactions st @ secrets\<rparr>, Inr ()) else (st, Inl ()))"

definition set_durability_cohort :: "RecorderState \<Rightarrow> DurabilityCohort \<Rightarrow> RecorderState" where
  "set_durability_cohort st cohort = st\<lparr>rs_durability_cohort := cohort\<rparr>"

definition mark_fault_active_at :: "RecorderState \<Rightarrow> nat \<Rightarrow> RecorderState" where
  "mark_fault_active_at st at_ms =
     st\<lparr>rs_fault_window := \<lparr>fw_active_at_ms = Some at_ms, fw_ended_at_ms = None\<rparr>,
        rs_durability_cohort := FaultActive\<rparr>"

definition mark_fault_ended_now :: "RecorderState \<Rightarrow> nat \<Rightarrow> RecorderState" where
  "mark_fault_ended_now st now =
     st\<lparr>rs_fault_window := (rs_fault_window st)\<lparr>fw_ended_at_ms := Some now\<rparr>,
        rs_durability_cohort := PostRecovery\<rparr>"

subsection \<open>The recorder among its clients\<close>

text \<open>
  Any number of client tasks begin and finish operations concurrently. Between
  the two a client owns its record and fills in what the response said (version
  identity, listed keys, attempts), but never its identity, scope or start. The
  ghost field \<open>sys_lost\<close> collects the sequence numbers of operations whose
  journal line could not be written.
\<close>

record recorder_sys =
  sys_rec :: RecorderState
  sys_inflight :: "OperationRecord list"
  sys_lost :: "nat list"

definition same_operation :: "OperationRecord \<Rightarrow> OperationRecord \<Rightarrow> bool" where
  "same_operation r r' \<longleftrightarrow>
     op_id r' = op_id r \<and> op_scenario r' = op_scenario r \<and> op_run_id r' = op_run_id r \<and>
     op_bucket r' = op_bucket r \<and> op_kind r' = op_kind r \<and> op_key r' = op_key r \<and>
     op_started_sequence r' = op_started_sequence r \<and> op_started_at_ms r' = op_started_at_ms r"

inductive recorder_step :: "recorder_sys \<Rightarrow> recorder_sys \<Rightarrow> bool" where
  step_begin:
    "recorder_begin (sys_rec s) now kind bucket key sha size_bytes = (st, r) \<Longrightarrow>
     recorder_step s (s\<lparr>sys_rec := st, sys_inflight := r # sys_inflight s\<rparr>)"
| step_finish:
    "r \<in> set (sys_inflight s) \<Longrightarrow> same_operation r r' \<Longrightarrow>
     recorder_finish (sys_rec s) now True r' outcome status error = (st, Inr completed) \<Longrightarrow>
     recorder_step s (s\<lparr>sys_rec := st, sys_inflight := remove1 r (sys_inflight s)\<rparr>)"
| step_finish_failed:
    "r \<in> set (sys_inflight s) \<Longrightarrow> same_operation r r' \<Longrightarrow>
     recorder_finish (sys_rec s) now False r' outcome status error = (st, Inl ()) \<Longrightarrow>
     recorder_step s (s\<lparr>sys_rec := st, sys_inflight := remove1 r (sys_inflight s),
       sys_lost := start_of r # rs_next_event_sequence (sys_rec s) # sys_lost s\<rparr>)"
| step_redact:
    "redact_secrets (sys_rec s) secrets = (st, res) \<Longrightarrow> recorder_step s (s\<lparr>sys_rec := st\<rparr>)"
| step_cohort:
    "recorder_step s (s\<lparr>sys_rec := set_durability_cohort (sys_rec s) cohort\<rparr>)"
| step_active:
    "recorder_step s (s\<lparr>sys_rec := mark_fault_active_at (sys_rec s) at\<rparr>)"
| step_ended:
    "recorder_step s (s\<lparr>sys_rec := mark_fault_ended_now (sys_rec s) now\<rparr>)"

inductive recorder_reachable :: "string \<Rightarrow> string \<Rightarrow> recorder_sys \<Rightarrow> bool" for scenario run_id where
  reach_create:
    "recorder_reachable scenario run_id
       \<lparr>sys_rec = recorder_create scenario run_id, sys_inflight = [], sys_lost = []\<rparr>"
| reach_step:
    "recorder_reachable scenario run_id s \<Longrightarrow> recorder_step s t \<Longrightarrow>
     recorder_reachable scenario run_id t"

subsection \<open>Properties of the fault window and of error truncation\<close>

lemma boundary_below_le: "boundary_below s n \<le> n"
  by (induction n) auto

lemma boundary_below_boundary: "is_char_boundary s (boundary_below s n)"
  by (induction n) (auto simp: is_char_boundary_def)

lemma boundary_below_greatest:
  "i \<le> n \<Longrightarrow> is_char_boundary s i \<Longrightarrow> i \<le> boundary_below s n"
  by (induction n) (auto simp: le_Suc_eq)

lemma relation_for_None_iff: "relation_for w s e = None \<longleftrightarrow> fw_active_at_ms w = None"
  by (auto simp: relation_for_def split: option.splits if_splits)

subsection \<open>The recorder invariant\<close>

definition recorder_seqs :: "recorder_sys \<Rightarrow> nat list" where
  "recorder_seqs s = event_seqs (rs_records (sys_rec s)) @ map start_of (sys_inflight s) @ sys_lost s"

definition op_issued :: "RecorderState \<Rightarrow> OperationRecord \<Rightarrow> bool" where
  "op_issued st r \<longleftrightarrow>
     (\<exists>n < rs_next_id st. op_id r = operation_id n) \<and>
     op_scenario r = rs_scenario st \<and> op_run_id r = Some (rs_run_id st) \<and>
     op_started_sequence r \<noteq> None"

definition recorder_inv :: "string \<Rightarrow> string \<Rightarrow> recorder_sys \<Rightarrow> bool" where
  "recorder_inv scenario run_id s \<longleftrightarrow>
     (let st = sys_rec s in
      rs_scenario st = scenario \<and> rs_run_id st = run_id \<and>
      0 < rs_next_event_sequence st \<and>
      mset (recorder_seqs s) = mset_set {1..<rs_next_event_sequence st} \<and>
      (\<forall>r \<in> set (rs_records st @ sys_inflight s). op_issued st r) \<and>
      (\<forall>r \<in> set (rs_records st). op_ended_sequence r \<noteq> None \<and> start_of r < end_of r) \<and>
      distinct (map op_id (rs_records st @ sys_inflight s)) \<and>
      sorted_wrt (\<lambda>a b. end_of a < end_of b) (rs_records st) \<and>
      (\<forall>r \<in> set (rs_records st). end_of r < rs_next_event_sequence st) \<and>
      (\<forall>r \<in> set (sys_inflight s). start_of r < rs_next_event_sequence st))"

lemma operation_id_inject [simp]: "operation_id m = operation_id n \<longleftrightarrow> m = n"
  by (simp add: operation_id_def)

lemma operation_id_nonblank [simp]: "\<not> trim_is_empty (operation_id n)"
  by (simp add: operation_id_def trim_is_empty_def ascii_whitespace_def)

lemma same_operation_start [simp]:
  "same_operation r r' \<Longrightarrow> start_of r' = start_of r"
  by (simp add: same_operation_def start_of_def)

lemma op_issued_mono:
  "op_issued st r \<Longrightarrow> rs_next_id st \<le> rs_next_id st' \<Longrightarrow> rs_scenario st' = rs_scenario st \<Longrightarrow>
   rs_run_id st' = rs_run_id st \<Longrightarrow> op_issued st' r"
  by (auto simp: op_issued_def intro: less_le_trans)

lemma op_issued_fresh: "op_issued st r \<Longrightarrow> op_id r \<noteq> operation_id (rs_next_id st)"
  by (auto simp: op_issued_def)

lemma mset_set_issue:
  "0 < n \<Longrightarrow> mset_set {Suc 0..<Suc n} = add_mset n (mset_set {Suc 0..<n})"
  by (simp add: atLeastLessThanSuc)

lemma recorder_inv_begin:
  assumes inv: "recorder_inv scenario run_id s"
    and b: "recorder_begin (sys_rec s) now kind bucket key sha size_bytes = (st, r)"
  shows "recorder_inv scenario run_id (s\<lparr>sys_rec := st, sys_inflight := r # sys_inflight s\<rparr>)"
proof -
  let ?n = "rs_next_event_sequence (sys_rec s)"
  have r: "op_id r = operation_id (rs_next_id (sys_rec s))" "start_of r = ?n"
      "op_scenario r = rs_scenario (sys_rec s)" "op_run_id r = Some (rs_run_id (sys_rec s))"
      "op_started_sequence r \<noteq> None"
    and st: "rs_records st = rs_records (sys_rec s)" "rs_next_event_sequence st = Suc ?n"
      "rs_next_id st = Suc (rs_next_id (sys_rec s))" "rs_scenario st = rs_scenario (sys_rec s)"
      "rs_run_id st = rs_run_id (sys_rec s)"
    using b by (auto simp: recorder_begin_def start_of_def)
  have fresh: "op_id r \<notin> op_id ` set (rs_records (sys_rec s) @ sys_inflight s)"
    using inv op_issued_fresh by (force simp: recorder_inv_def Let_def r)
  have "op_issued st r" by (auto simp: op_issued_def r st)
  moreover have "op_issued st r'" if "op_issued (sys_rec s) r'" for r'
    using that by (rule op_issued_mono) (simp_all add: st)
  ultimately show ?thesis
    using inv fresh by (auto simp: mset_set_issue recorder_inv_def Let_def recorder_seqs_def st r less_SucI)
qed

lemma mset_remove1_start:
  "r \<in> set xs \<Longrightarrow> add_mset (start_of r) (image_mset start_of (mset (remove1 r xs))) =
     image_mset start_of (mset xs)"
  by (metis image_mset_add_mset insert_DiffM mset_remove1 set_mset_mset)

lemma distinct_remove1_map:
  "distinct (map f xs) \<Longrightarrow> r \<in> set xs \<Longrightarrow> f r \<notin> f ` set (remove1 r xs)"
  by (induction xs) (auto, metis image_eqI)

lemma recorder_inv_finish:
  assumes inv: "recorder_inv scenario run_id s"
    and r: "r \<in> set (sys_inflight s)" and same: "same_operation r r'"
    and f: "recorder_finish (sys_rec s) now True r' outcome status error = (st, Inr completed)"
  shows "recorder_inv scenario run_id (s\<lparr>sys_rec := st, sys_inflight := remove1 r (sys_inflight s)\<rparr>)"
proof -
  let ?n = "rs_next_event_sequence (sys_rec s)"
  let ?xs = "rs_records (sys_rec s)" and ?ys = "sys_inflight s"
  have st: "rs_records st = ?xs @ [completed]" "rs_next_event_sequence st = Suc ?n"
      "rs_next_id st = rs_next_id (sys_rec s)" "rs_scenario st = rs_scenario (sys_rec s)"
      "rs_run_id st = rs_run_id (sys_rec s)"
    and c: "op_id completed = op_id r" "start_of completed = start_of r" "end_of completed = ?n"
      "op_scenario completed = op_scenario r" "op_run_id completed = op_run_id r"
      "op_started_sequence completed = op_started_sequence r" "op_ended_sequence completed = Some ?n"
    using f same
    by (auto simp: recorder_finish_def finished_record_def same_operation_def start_of_def end_of_def Let_def)
  have issued: "op_issued st q" if "op_issued (sys_rec s) q" for q
    using that by (rule op_issued_mono) (simp_all add: st)
  from inv r have "op_issued (sys_rec s) r" by (simp add: recorder_inv_def Let_def)
  then have "op_issued st completed" using issued [of r] by (simp add: op_issued_def c)
  moreover have "distinct (map op_id (?xs @ [completed] @ remove1 r ?ys))"
  proof -
    have d: "distinct (map op_id ?xs)" "distinct (map op_id ?ys)"
        "op_id ` set ?xs \<inter> op_id ` set ?ys = {}"
      using inv by (auto simp: recorder_inv_def Let_def)
    then have "distinct (map op_id (remove1 r ?ys))"
      by (metis distinct_map distinct_remove1 inj_on_subset set_remove1_subset)
    moreover have "op_id r \<notin> op_id ` set (remove1 r ?ys)"
      using d(2) r by (rule distinct_remove1_map)
    moreover have "op_id ` set (remove1 r ?ys) \<subseteq> op_id ` set ?ys"
      by (rule image_mono [OF set_remove1_subset])
    ultimately show ?thesis using d r by (auto simp: c)
  qed
  moreover have "mset (event_seqs (?xs @ [completed]) @ map start_of (remove1 r ?ys) @ sys_lost s) =
      mset_set {1..<Suc ?n}"
    using inv mset_remove1_start [OF r, symmetric] by (auto simp: mset_set_issue recorder_inv_def Let_def recorder_seqs_def c)
  moreover have "set (remove1 r ?ys) \<subseteq> set ?ys" by (rule set_remove1_subset)
  ultimately show ?thesis
    using inv r issued
    by (auto simp: mset_set_issue recorder_inv_def Let_def recorder_seqs_def st c sorted_wrt_append less_SucI)
qed

lemma recorder_inv_finish_failed:
  assumes inv: "recorder_inv scenario run_id s"
    and r: "r \<in> set (sys_inflight s)"
    and f: "recorder_finish (sys_rec s) now False r' outcome status error = (st, Inl ())"
  shows "recorder_inv scenario run_id
     (s\<lparr>sys_rec := st, sys_inflight := remove1 r (sys_inflight s),
        sys_lost := start_of r # rs_next_event_sequence (sys_rec s) # sys_lost s\<rparr>)"
proof -
  let ?n = "rs_next_event_sequence (sys_rec s)"
  have st: "rs_records st = rs_records (sys_rec s)" "rs_next_event_sequence st = Suc ?n"
      "rs_next_id st = rs_next_id (sys_rec s)" "rs_scenario st = rs_scenario (sys_rec s)"
      "rs_run_id st = rs_run_id (sys_rec s)"
    using f by (auto simp: recorder_finish_def Let_def)
  have issued: "op_issued st q" if "op_issued (sys_rec s) q" for q
    using that by (rule op_issued_mono) (simp_all add: st)
  have inflight: "set (remove1 r (sys_inflight s)) \<subseteq> set (sys_inflight s)"
    by (rule set_remove1_subset)
  have "distinct (map op_id (rs_records (sys_rec s) @ remove1 r (sys_inflight s)))"
  proof -
    have "distinct (map op_id (sys_inflight s))" "distinct (map op_id (rs_records (sys_rec s)))"
        "op_id ` set (rs_records (sys_rec s)) \<inter> op_id ` set (sys_inflight s) = {}"
      using inv by (auto simp: recorder_inv_def Let_def)
    moreover from this(1) have "distinct (map op_id (remove1 r (sys_inflight s)))"
      by (metis distinct_map distinct_remove1 inj_on_subset set_remove1_subset)
    ultimately show ?thesis using image_mono [OF inflight, of op_id]
      by (simp add: set_eq_iff subset_iff) blast
  qed
  moreover have "mset (event_seqs (rs_records (sys_rec s)) @
      map start_of (remove1 r (sys_inflight s)) @ (start_of r # ?n # sys_lost s)) = mset_set {1..<Suc ?n}"
    using inv mset_remove1_start [OF r, symmetric]
    by (auto simp: mset_set_issue recorder_inv_def Let_def recorder_seqs_def)
  ultimately show ?thesis
    using inv issued inflight by (auto simp: mset_set_issue recorder_inv_def Let_def recorder_seqs_def st less_SucI)
qed

lemma recorder_inv_bookkeeping:
  assumes "recorder_inv scenario run_id s"
    and "rs_records st = rs_records (sys_rec s)"
    and "rs_next_event_sequence st = rs_next_event_sequence (sys_rec s)"
    and "rs_next_id st = rs_next_id (sys_rec s)" and "rs_scenario st = rs_scenario (sys_rec s)"
    and "rs_run_id st = rs_run_id (sys_rec s)"
  shows "recorder_inv scenario run_id (s\<lparr>sys_rec := st\<rparr>)"
proof -
  have "op_issued st = op_issued (sys_rec s)" using assms by (simp add: op_issued_def fun_eq_iff)
  with assms show ?thesis by (simp add: recorder_inv_def recorder_seqs_def Let_def)
qed

lemma recorder_step_inv:
  "recorder_step s t \<Longrightarrow> recorder_inv scenario run_id s \<Longrightarrow> recorder_inv scenario run_id t"
proof (induction rule: recorder_step.induct)
  case (step_begin s now kind bucket key sha size_bytes st r)
  then show ?case by (blast intro: recorder_inv_begin)
next
  case (step_finish r s r' now outcome status error st completed)
  then show ?case by (blast intro: recorder_inv_finish)
next
  case (step_finish_failed r s r' now outcome status error st)
  then show ?case by (blast intro: recorder_inv_finish_failed)
next
  case (step_redact s secrets st res)
  then show ?case by (auto simp: redact_secrets_def split: if_splits intro!: recorder_inv_bookkeeping)
qed (auto simp: set_durability_cohort_def mark_fault_active_at_def mark_fault_ended_now_def
      intro!: recorder_inv_bookkeeping)

lemma recorder_inv_create:
  "recorder_inv scenario run_id
     \<lparr>sys_rec = recorder_create scenario run_id, sys_inflight = [], sys_lost = []\<rparr>"
  by (simp add: recorder_inv_def recorder_create_def recorder_seqs_def)

lemma recorder_reachable_inv: "recorder_reachable scenario run_id s \<Longrightarrow> recorder_inv scenario run_id s"
  by (induction rule: recorder_reachable.induct) (auto intro: recorder_inv_create recorder_step_inv)

subsection \<open>Recorded histories are accepted by the validators\<close>

text \<open>
  What the recorder cannot decide for its clients: the bucket they use, the
  response data they attach, and that they do not run two mutations of one key
  at the same time.
\<close>

definition client_discipline :: "string \<Rightarrow> OperationRecord list \<Rightarrow> bool" where
  "client_discipline bucket records \<longleftrightarrow>
     (\<forall>r \<in> set records. op_bucket r = bucket \<and> read_purpose_check r = None \<and>
        attempts_check r = None \<and> (is_object_mutation (op_kind r) \<longrightarrow> op_key r \<noteq> None)) \<and>
     versions_unique records \<and> sorted_wrt mutation_before records \<and>
     length records * 2 \<le> usize_max"

lemma recorder_inv_distinct:
  assumes "recorder_inv scenario run_id s"
  shows "distinct (event_seqs (rs_records (sys_rec s)))"
    and "set (event_seqs (rs_records (sys_rec s))) \<subseteq> {1..<rs_next_event_sequence (sys_rec s)}"
proof -
  let ?n = "rs_next_event_sequence (sys_rec s)"
  from assms have m: "mset (recorder_seqs s) = mset_set {1..<?n}"
    by (simp add: recorder_inv_def Let_def)
  then have "mset (recorder_seqs s) = mset [1..<?n]" by simp
  then have "distinct (recorder_seqs s)" by (metis distinct_upt mset_eq_imp_distinct_iff)
  moreover from m have "set (recorder_seqs s) = {1..<?n}"
    by (metis finite_atLeastLessThan finite_set_mset_mset_set set_mset_mset)
  ultimately show "distinct (event_seqs (rs_records (sys_rec s)))"
    and "set (event_seqs (rs_records (sys_rec s))) \<subseteq> {1..<?n}"
    by (auto simp: recorder_seqs_def)
qed

lemma recorder_quiescent_next:
  assumes "recorder_inv scenario run_id s" "sys_inflight s = []" "sys_lost s = []"
  shows "rs_next_event_sequence (sys_rec s) = Suc (2 * length (rs_records (sys_rec s)))"
proof -
  let ?n = "rs_next_event_sequence (sys_rec s)"
  from assms have m: "mset (event_seqs (rs_records (sys_rec s))) = mset_set {1..<?n}" and "0 < ?n"
    by (simp_all add: recorder_inv_def Let_def recorder_seqs_def)
  from m have "size (mset (event_seqs (rs_records (sys_rec s)))) = card {1..<?n}" by simp
  with \<open>0 < ?n\<close> show ?thesis by simp
qed

lemma recorder_inv_ordered:
  assumes inv: "recorder_inv scenario run_id s"
    and client: "client_discipline bucket (rs_records (sys_rec s))"
    and bound: "contiguous \<Longrightarrow> rs_next_event_sequence (sys_rec s) \<le> Suc limit"
  shows "history_ordered contiguous limit (rs_records (sys_rec s))"
proof -
  let ?xs = "rs_records (sys_rec s)"
  have "record_wf contiguous limit r" if r: "r \<in> set ?xs" for r
  proof -
    from inv r have "op_issued (sys_rec s) r" and e: "op_ended_sequence r \<noteq> None"
      and se: "start_of r < end_of r" and "end_of r < rs_next_event_sequence (sys_rec s)"
      by (auto simp: recorder_inv_def Let_def)
    moreover from r recorder_inv_distinct(2) [OF inv] have "0 < start_of r"
      by (auto simp: event_seqs_def)
    ultimately show ?thesis
      using client r bound
      by (auto simp: record_wf_def op_issued_def client_discipline_def start_of_def end_of_def)
  qed
  with inv client recorder_inv_distinct(1) [OF inv] show ?thesis
    by (auto simp: history_ordered_def recorder_inv_def Let_def client_discipline_def)
qed

lemma recorder_inv_scope:
  assumes "recorder_inv scenario run_id s" "client_discipline bucket (rs_records (sys_rec s))"
  shows "\<forall>r \<in> set (rs_records (sys_rec s)). in_scope scenario run_id bucket r"
  using assms by (auto simp: recorder_inv_def Let_def op_issued_def client_discipline_def in_scope_def)


text \<open>
  Once no operation is in flight and every journal line was written, the
  event sequence is contiguous and the whole history passes the checker's
  strict \<open>validate_history_scope_and_order\<close>.
\<close>

theorem recorder_quiescent_history_validates:
  assumes "recorder_reachable scenario run_id s"
    and "sys_inflight s = []" and "sys_lost s = []"
    and "client_discipline bucket (rs_records (sys_rec s))"
  shows "validate_history_scope_and_order (rs_records (sys_rec s)) scenario run_id bucket = Inr ()
     \<and> set (event_seqs (rs_records (sys_rec s))) = {1..2 * length (rs_records (sys_rec s))}"
proof -
  let ?xs = "rs_records (sys_rec s)"
  have inv: "recorder_inv scenario run_id s" by (rule recorder_reachable_inv [OF assms(1)])
  have ord: "history_ordered True (length ?xs * 2) ?xs"
    using recorder_inv_ordered [OF inv assms(4)] recorder_quiescent_next [OF inv assms(2,3)] by simp
  show ?thesis
    using ord contiguous_event_seqs [OF ord] recorder_inv_scope [OF inv assms(4)] assms(4)
    by (simp add: validate_history_scope_and_order_def validate_mode_iff client_discipline_def mult.commute)
qed

text \<open>
  A recorded error message has at most 303 bytes, and a shortened message
  is cut at the last UTF-8 character boundary within the 300 byte budget, so the
  slice in \<open>truncate_error\<close> never splits a code point.
\<close>

theorem truncate_error_bounded:
  "length (truncate_error m) \<le> 303 \<and>
   (length m \<le> 300 \<and> truncate_error m = m \<or>
    (\<exists>n. n \<le> 300 \<and> truncate_error m = take n m @ ''...'' \<and> is_char_boundary m n \<and>
         \<not> (\<exists>i \<le> 300. is_char_boundary m i \<and> n < i)))"
proof (cases "length m \<le> 300")
  case True
  then show ?thesis by (simp add: truncate_error_def max_error_len_def)
next
  case False
  let ?n = "boundary_below m 300"
  have "?n \<le> 300" by (rule boundary_below_le)
  moreover have "is_char_boundary m ?n" by (rule boundary_below_boundary)
  moreover have "\<not> (\<exists>i \<le> 300. is_char_boundary m i \<and> ?n < i)"
    using boundary_below_greatest by (auto simp: not_less)
  ultimately show ?thesis using False by (auto simp: truncate_error_def max_error_len_def)
qed

subsection \<open>A recorded PUT\<close>

definition demo_open :: recorder_sys where
  "demo_open =
     (let (st, r) = recorder_begin (recorder_create ''eio'' ''run'') 5 Put ''b'' (Some ''k'') (Some ''h'') (Some 3)
      in \<lparr>sys_rec = st, sys_inflight = [r], sys_lost = []\<rparr>)"

definition demo_closed :: recorder_sys where
  "demo_closed =
     demo_open\<lparr>sys_rec := fst (recorder_finish (sys_rec demo_open) 6 True (hd (sys_inflight demo_open))
                                Ok (Some 200) None),
               sys_inflight := []\<rparr>"

lemma demo_open_reachable: "recorder_reachable ''eio'' ''run'' demo_open"
proof -
  obtain st r where b: "recorder_begin (recorder_create ''eio'' ''run'') 5 Put ''b'' (Some ''k'') (Some ''h'') (Some 3)
      = (st, r)" by fastforce
  have "recorder_step \<lparr>sys_rec = recorder_create ''eio'' ''run'', sys_inflight = [], sys_lost = []\<rparr> demo_open"
    using recorder_step.step_begin [of "\<lparr>sys_rec = recorder_create ''eio'' ''run'', sys_inflight = [], sys_lost = []\<rparr>"] b
    by (force simp: demo_open_def)
  then show ?thesis by (rule recorder_reachable.reach_step [OF recorder_reachable.reach_create])
qed

lemma demo_closed_reachable: "recorder_reachable ''eio'' ''run'' demo_closed"
proof -
  obtain r where infl: "sys_inflight demo_open = [r]" by (simp add: demo_open_def recorder_begin_def)
  obtain st c where f: "recorder_finish (sys_rec demo_open) 6 True r Ok (Some 200) None = (st, Inr c)"
    by (simp add: recorder_finish_def Let_def)
  have "recorder_step demo_open demo_closed"
    using recorder_step.step_finish [of r demo_open r 6 Ok "Some 200" None st c] infl f
    by (simp add: demo_closed_def same_operation_def)
  then show ?thesis by (rule recorder_reachable.reach_step [OF demo_open_reachable])
qed

lemma demo_closed_records:
  "sys_inflight demo_closed = []" "sys_lost demo_closed = []"
  "client_discipline ''b'' (rs_records (sys_rec demo_closed))"
  "length (rs_records (sys_rec demo_closed)) = 1"
  by (simp_all add: demo_closed_def demo_open_def recorder_begin_def recorder_finish_def
      finished_record_def recorder_create_def client_discipline_def read_purpose_check_def
      attempts_check_def versions_unique_def version_identities_def immutable_version_id_def
      usize_max_def Let_def)


theorem recorder_quiescent_history_witness:
  "validate_history_scope_and_order (rs_records (sys_rec demo_closed)) ''eio'' ''run'' ''b'' = Inr ()
   \<and> set (event_seqs (rs_records (sys_rec demo_closed))) = {1..2}"
  using recorder_quiescent_history_validates
      [OF demo_closed_reachable demo_closed_records(1-3)] demo_closed_records(4)
  by simp

end
