(* ===== verification/Object_Model.thy ===== *)
theory Object_Model
  imports History
begin

text \<open>
  The object model the checker derives from a history
  (\<open>object_model\<close>, \<open>apply_record_to_model\<close> and the helpers they call in
  \<open>src/src/fault/checker.rs\<close>): which keys are committed live or deleted, which
  ambiguous writes may still surface, which versions retried requests may have
  created. The replay of a history is related to the last committed mutation of
  each key, and on an ordered history the unsuperseded attempts of a key are
  exactly its ambiguous writes since that mutation.
\<close>

subsection \<open>Replaying a history\<close>

text \<open>
  Several components fold a step over the recorded operations. The interface
  names the fold and what a step promises: an invariant of the state seen so
  far, which may mention the records already replayed.
\<close>

locale replay =
  fixes init :: 's
    and step :: "'s \<Rightarrow> 'r \<Rightarrow> 's"
    and inv :: "'r list \<Rightarrow> 's \<Rightarrow> bool"
  assumes inv_init: "inv [] init"
    and inv_step: "inv rs s \<Longrightarrow> inv (rs @ [r]) (step s r)"
begin

lemma inv_replay: "inv rs (foldl step init rs)"
  by (induction rs rule: rev_induct) (auto simp: inv_init inv_step)

lemma inv_replay_prefix: "inv (take n rs) (foldl step init (take n rs))"
  by (rule inv_replay)

end

subsection \<open>Data\<close>

record ExpectedObject =
  eo_sha256 :: string
  eo_size_bytes :: nat

record SupersedingMutation =
  sm_id :: string
  sm_kind :: OperationKind
  sm_started_at_ms :: nat

record AmbiguousWriteAttempt =
  aw_id :: string
  aw_kind :: OperationKind
  aw_outcome :: OperationOutcome
  aw_object :: ExpectedObject
  aw_payload_ref :: "PayloadRef option"
  aw_started_at_ms :: nat
  aw_ended_at_ms :: nat
  aw_ended_sequence :: "nat option"
  aw_superseded_by :: "SupersedingMutation option"

record VersionWriteSource =
  vs_attempt :: AmbiguousWriteAttempt
  vs_remaining_versions :: nat
  vs_may_be_latest :: bool

record ObjectModel =
  om_live :: "(string, ExpectedObject) fmap"
  om_deleted :: "string fset"
  om_unknown_writes :: "(string, AmbiguousWriteAttempt list) fmap"
  om_version_write_sources :: "(string, VersionWriteSource list) fmap"
  om_ambiguous_delete_pending :: "string fset"
  om_ambiguous_delete_lineage_pending :: "string fset"
  om_failed_writes :: "(string, string fset) fmap"
  om_committed_writes :: nat

definition empty_model :: ObjectModel where
  "empty_model =
     \<lparr>om_live = fmempty, om_deleted = {||}, om_unknown_writes = fmempty,
      om_version_write_sources = fmempty, om_ambiguous_delete_pending = {||},
      om_ambiguous_delete_lineage_pending = {||}, om_failed_writes = fmempty,
      om_committed_writes = 0\<rparr>"

text \<open>\<open>entry(key).or_default().push(value)\<close>.\<close>

definition fm_push :: "'k \<Rightarrow> 'v \<Rightarrow> ('k, 'v list) fmap \<Rightarrow> ('k, 'v list) fmap" where
  "fm_push k v m = fmupd k (fm_values_at m [] k @ [v]) m"

subsection \<open>Operations\<close>

definition record_object :: "OperationRecord \<Rightarrow> (string \<times> ExpectedObject) option" where
  "record_object r =
     (case (op_key r, op_value_sha256 r, op_size_bytes r) of
        (Some key, Some sha256, Some size_bytes) \<Rightarrow>
          Some (key, \<lparr>eo_sha256 = sha256, eo_size_bytes = size_bytes\<rparr>)
      | _ \<Rightarrow> None)"

definition mutation_attempts :: "OperationRecord \<Rightarrow> nat" where
  "mutation_attempts r = (case op_mutation_attempts r of None \<Rightarrow> 1 | Some n \<Rightarrow> n)"

definition version_write_source_budget :: "OperationRecord \<Rightarrow> nat" where
  "version_write_source_budget r =
     (let max_attempts = mutation_attempts r in
      case (op_kind r, op_outcome r) of
        (Put, Ok) \<Rightarrow> max_attempts - 1
      | (Put, Timeout) \<Rightarrow> max_attempts
      | (Put, Unknown) \<Rightarrow> max_attempts
      | (Put, Failed) \<Rightarrow> max_attempts - 1
      | (CompleteMultipartUpload, Timeout) \<Rightarrow> min max_attempts 1
      | (CompleteMultipartUpload, Unknown) \<Rightarrow> min max_attempts 1
      | (CompleteMultipartUpload, Failed) \<Rightarrow> if max_attempts > 1 then 1 else 0
      | (CompleteMultipartUpload, NotFound) \<Rightarrow> if max_attempts > 1 then 1 else 0
      | _ \<Rightarrow> 0)"

definition completion_precedes_start ::
  "nat option \<Rightarrow> nat \<Rightarrow> nat option \<Rightarrow> nat \<Rightarrow> bool" where
  "completion_precedes_start ended_sequence ended_at_ms started_sequence started_at_ms =
     (case (ended_sequence, started_sequence) of
        (Some ended, Some started) \<Rightarrow> ended < started
      | _ \<Rightarrow> ended_at_ms < started_at_ms)"

definition operation_completed_before_started :: "OperationRecord \<Rightarrow> OperationRecord \<Rightarrow> bool" where
  "operation_completed_before_started completed following =
     completion_precedes_start (op_ended_sequence completed) (op_ended_at_ms completed)
       (op_started_sequence following) (op_started_at_ms following)"

definition attempt_of :: "OperationRecord \<Rightarrow> ExpectedObject \<Rightarrow> AmbiguousWriteAttempt" where
  "attempt_of r object =
     \<lparr>aw_id = op_id r, aw_kind = op_kind r, aw_outcome = op_outcome r, aw_object = object,
      aw_payload_ref = op_payload_ref r, aw_started_at_ms = op_started_at_ms r,
      aw_ended_at_ms = op_ended_at_ms r, aw_ended_sequence = op_ended_sequence r,
      aw_superseded_by = None\<rparr>"

definition record_version_write_source :: "ObjectModel \<Rightarrow> OperationRecord \<Rightarrow> ObjectModel" where
  "record_version_write_source model r =
     (let remaining_versions = version_write_source_budget r in
      if remaining_versions = 0 then model
      else case record_object r of
        None \<Rightarrow> model
      | Some (key, object) \<Rightarrow>
          model\<lparr>om_version_write_sources :=
            fm_push key
              \<lparr>vs_attempt = attempt_of r object, vs_remaining_versions = remaining_versions,
               vs_may_be_latest = (op_outcome r \<in> {Timeout, Unknown, Failed, NotFound})\<rparr>
              (om_version_write_sources model)\<rparr>)"

definition supersede_attempt :: "OperationRecord \<Rightarrow> AmbiguousWriteAttempt \<Rightarrow> AmbiguousWriteAttempt" where
  "supersede_attempt r a =
     (if aw_superseded_by a = None \<and>
         completion_precedes_start (aw_ended_sequence a) (aw_ended_at_ms a)
           (op_started_sequence r) (op_started_at_ms r)
      then a\<lparr>aw_superseded_by :=
               Some \<lparr>sm_id = op_id r, sm_kind = op_kind r, sm_started_at_ms = op_started_at_ms r\<rparr>\<rparr>
      else a)"

definition mark_superseded_attempts ::
  "(string, AmbiguousWriteAttempt list) fmap \<Rightarrow> string \<Rightarrow> OperationRecord
     \<Rightarrow> (string, AmbiguousWriteAttempt list) fmap" where
  "mark_superseded_attempts attempts_by_key key r =
     (case fmlookup attempts_by_key key of
        None \<Rightarrow> attempts_by_key
      | Some attempts \<Rightarrow> fmupd key (map (supersede_attempt r) attempts) attempts_by_key)"

definition mark_superseded_ambiguous_writes ::
  "ObjectModel \<Rightarrow> string \<Rightarrow> OperationRecord \<Rightarrow> ObjectModel" where
  "mark_superseded_ambiguous_writes model key r =
     model\<lparr>om_unknown_writes := mark_superseded_attempts (om_unknown_writes model) key r\<rparr>"

definition mark_superseded_version_sources ::
  "ObjectModel \<Rightarrow> string \<Rightarrow> OperationRecord \<Rightarrow> ObjectModel" where
  "mark_superseded_version_sources model key r =
     (case fmlookup (om_version_write_sources model) key of
        None \<Rightarrow> model
      | Some sources \<Rightarrow>
          model\<lparr>om_version_write_sources :=
            fmupd key (map (\<lambda>s. s\<lparr>vs_attempt := supersede_attempt r (vs_attempt s)\<rparr>) sources)
              (om_version_write_sources model)\<rparr>)"

definition apply_committed_write :: "ObjectModel \<Rightarrow> OperationRecord \<Rightarrow> ObjectModel" where
  "apply_committed_write model r =
     record_version_write_source
       (case record_object r of
          None \<Rightarrow> model
        | Some (key, object) \<Rightarrow>
            (let model = mark_superseded_version_sources
                           (mark_superseded_ambiguous_writes model key r) key r
             in model\<lparr>om_committed_writes := om_committed_writes model + 1,
                      om_deleted := om_deleted model |-| {|key|},
                      om_ambiguous_delete_pending := om_ambiguous_delete_pending model |-| {|key|},
                      om_ambiguous_delete_lineage_pending :=
                        om_ambiguous_delete_lineage_pending model |-| {|key|},
                      om_live := fmupd key object (om_live model)\<rparr>)) r"

definition push_unknown_write ::
  "string \<Rightarrow> OperationRecord \<Rightarrow> ExpectedObject \<Rightarrow> ObjectModel \<Rightarrow> ObjectModel" where
  "push_unknown_write key r object model =
     model\<lparr>om_unknown_writes := fm_push key (attempt_of r object) (om_unknown_writes model)\<rparr>"

definition apply_ambiguous_write :: "ObjectModel \<Rightarrow> OperationRecord \<Rightarrow> ObjectModel" where
  "apply_ambiguous_write model r =
     record_version_write_source
       (case record_object r of
          None \<Rightarrow> model
        | Some (key, object) \<Rightarrow> push_unknown_write key r object model) r"

definition apply_failed_write :: "ObjectModel \<Rightarrow> OperationRecord \<Rightarrow> ObjectModel" where
  "apply_failed_write model r =
     (if version_write_source_budget r > 0
      then record_version_write_source
        (case record_object r of
           None \<Rightarrow> model
         | Some (key, object) \<Rightarrow>
             (let model =
                (if op_kind r = CompleteMultipartUpload \<or> key |\<in>| fmdom (om_live model)
                    \<or> key |\<in>| om_deleted model
                 then push_unknown_write key r object model else model)
              in case op_value_sha256 r of
                   Some sha256 \<Rightarrow>
                     if op_outcome r = Failed
                     then model\<lparr>om_failed_writes :=
                            fmupd key (finsert sha256 (fm_values_at (om_failed_writes model) {||} key))
                              (om_failed_writes model)\<rparr>
                     else model
                 | None \<Rightarrow> model)) r
      else model)"

definition apply_committed_delete :: "ObjectModel \<Rightarrow> OperationRecord \<Rightarrow> ObjectModel" where
  "apply_committed_delete model r =
     (case op_key r of
        None \<Rightarrow> model
      | Some key \<Rightarrow>
          (let model = mark_superseded_version_sources
                         (mark_superseded_ambiguous_writes model key r) key r
           in model\<lparr>om_ambiguous_delete_pending := om_ambiguous_delete_pending model |-| {|key|},
                    om_ambiguous_delete_lineage_pending :=
                      om_ambiguous_delete_lineage_pending model |-| {|key|},
                    om_live := fmdrop key (om_live model),
                    om_deleted := finsert key (om_deleted model)\<rparr>))"

definition apply_ambiguous_delete :: "ObjectModel \<Rightarrow> OperationRecord \<Rightarrow> ObjectModel" where
  "apply_ambiguous_delete model r =
     (case op_key r of
        None \<Rightarrow> model
      | Some key \<Rightarrow>
          (let model =
             (if key |\<in>| fmdom (om_live model)
              then model\<lparr>om_ambiguous_delete_pending :=
                           finsert key (om_ambiguous_delete_pending model)\<rparr>
              else model)
           in if key |\<in>| fmdom (om_live model) \<or> key |\<in>| om_deleted model
              then model\<lparr>om_ambiguous_delete_lineage_pending :=
                           finsert key (om_ambiguous_delete_lineage_pending model)\<rparr>
              else model))"

definition apply_record_to_model :: "ObjectModel \<Rightarrow> OperationRecord \<Rightarrow> ObjectModel" where
  "apply_record_to_model model r =
     (if op_mutation_attempts r = Some 0 \<and> is_object_mutation (op_kind r) then model
      else if is_object_write (op_kind r) \<and> op_outcome r = Ok then apply_committed_write model r
      else if is_object_write (op_kind r) \<and> op_outcome r \<in> {Timeout, Unknown}
        then apply_ambiguous_write model r
      else if is_object_write (op_kind r) \<and> op_outcome r \<in> {Failed, NotFound}
        then apply_failed_write model r
      else if op_kind r = Delete \<and> op_outcome r = Ok then apply_committed_delete model r
      else if op_kind r = Delete \<and>
           (op_outcome r \<in> {Timeout, Unknown} \<or> (op_outcome r = Failed \<and> mutation_attempts r > 1))
        then apply_ambiguous_delete model r
      else model)"

definition object_model :: "OperationRecord list \<Rightarrow> ObjectModel" where
  "object_model records = foldl apply_record_to_model empty_model records"

subsection \<open>What one record does to the model\<close>

definition effective :: "OperationRecord \<Rightarrow> bool" where
  "effective r \<longleftrightarrow> \<not> (op_mutation_attempts r = Some 0 \<and> is_object_mutation (op_kind r))"

text \<open>The key a record commits, with its new value (\<open>None\<close>: deleted).\<close>

definition commit_effect :: "OperationRecord \<Rightarrow> (string \<times> ExpectedObject option) option" where
  "commit_effect r =
     (if effective r \<and> op_outcome r = Ok
      then if is_object_write (op_kind r) then map_option (map_prod id Some) (record_object r)
           else if op_kind r = Delete then map_option (\<lambda>k. (k, None)) (op_key r)
           else None
      else None)"

text \<open>The attempt a record adds to the ambiguous writes, given the model before it.\<close>

definition ambiguous_effect :: "ObjectModel \<Rightarrow> OperationRecord \<Rightarrow> (string \<times> ExpectedObject) option" where
  "ambiguous_effect m r =
     (case record_object r of
        None \<Rightarrow> None
      | Some (k, object) \<Rightarrow>
          if effective r \<and> is_object_write (op_kind r) \<and>
             (op_outcome r \<in> {Timeout, Unknown} \<or>
              (op_outcome r \<in> {Failed, NotFound} \<and> version_write_source_budget r > 0 \<and>
               (op_kind r = CompleteMultipartUpload \<or> k |\<in>| fmdom (om_live m) \<or> k |\<in>| om_deleted m)))
          then Some (k, object) else None)"

definition source_of :: "OperationRecord \<Rightarrow> ExpectedObject \<Rightarrow> VersionWriteSource" where
  "source_of r object =
     \<lparr>vs_attempt = attempt_of r object, vs_remaining_versions = version_write_source_budget r,
      vs_may_be_latest = (op_outcome r \<in> {Timeout, Unknown, Failed, NotFound})\<rparr>"

lemma source_apply:
  "record_version_write_source m r =
     (case record_object r of
        None \<Rightarrow> m
      | Some (k, object) \<Rightarrow>
          if version_write_source_budget r = 0 then m
          else m\<lparr>om_version_write_sources := fm_push k (source_of r object) (om_version_write_sources m)\<rparr>)"
  by (simp add: record_version_write_source_def source_of_def Let_def split: option.splits)

lemma record_version_write_source_frame [simp]:
  "om_live (record_version_write_source m r) = om_live m"
  "om_deleted (record_version_write_source m r) = om_deleted m"
  "om_unknown_writes (record_version_write_source m r) = om_unknown_writes m"
  "om_ambiguous_delete_pending (record_version_write_source m r) = om_ambiguous_delete_pending m"
  "om_ambiguous_delete_lineage_pending (record_version_write_source m r) =
     om_ambiguous_delete_lineage_pending m"
  "om_failed_writes (record_version_write_source m r) = om_failed_writes m"
  "om_committed_writes (record_version_write_source m r) = om_committed_writes m"
  by (simp_all add: source_apply split: option.splits)

lemma mark_superseded_version_sources_frame [simp]:
  "om_live (mark_superseded_version_sources m k r) = om_live m"
  "om_deleted (mark_superseded_version_sources m k r) = om_deleted m"
  "om_unknown_writes (mark_superseded_version_sources m k r) = om_unknown_writes m"
  "om_ambiguous_delete_pending (mark_superseded_version_sources m k r) = om_ambiguous_delete_pending m"
  "om_ambiguous_delete_lineage_pending (mark_superseded_version_sources m k r) =
     om_ambiguous_delete_lineage_pending m"
  "om_failed_writes (mark_superseded_version_sources m k r) = om_failed_writes m"
  "om_committed_writes (mark_superseded_version_sources m k r) = om_committed_writes m"
  by (simp_all add: mark_superseded_version_sources_def split: option.splits)

lemma mark_superseded_ambiguous_writes_frame [simp]:
  "om_live (mark_superseded_ambiguous_writes m k r) = om_live m"
  "om_deleted (mark_superseded_ambiguous_writes m k r) = om_deleted m"
  "om_version_write_sources (mark_superseded_ambiguous_writes m k r) = om_version_write_sources m"
  "om_ambiguous_delete_pending (mark_superseded_ambiguous_writes m k r) = om_ambiguous_delete_pending m"
  "om_ambiguous_delete_lineage_pending (mark_superseded_ambiguous_writes m k r) =
     om_ambiguous_delete_lineage_pending m"
  "om_failed_writes (mark_superseded_ambiguous_writes m k r) = om_failed_writes m"
  "om_committed_writes (mark_superseded_ambiguous_writes m k r) = om_committed_writes m"
  "om_unknown_writes (mark_superseded_ambiguous_writes m k r) =
     mark_superseded_attempts (om_unknown_writes m) k r"
  by (simp_all add: mark_superseded_ambiguous_writes_def)

lemma push_unknown_write_frame [simp]:
  "om_live (push_unknown_write k r x m) = om_live m"
  "om_deleted (push_unknown_write k r x m) = om_deleted m"
  "om_version_write_sources (push_unknown_write k r x m) = om_version_write_sources m"
  "om_ambiguous_delete_pending (push_unknown_write k r x m) = om_ambiguous_delete_pending m"
  "om_ambiguous_delete_lineage_pending (push_unknown_write k r x m) =
     om_ambiguous_delete_lineage_pending m"
  "om_failed_writes (push_unknown_write k r x m) = om_failed_writes m"
  "om_committed_writes (push_unknown_write k r x m) = om_committed_writes m"
  "om_unknown_writes (push_unknown_write k r x m) = fm_push k (attempt_of r x) (om_unknown_writes m)"
  by (simp_all add: push_unknown_write_def)

lemmas apply_defs = apply_record_to_model_def apply_committed_write_def apply_ambiguous_write_def
  apply_failed_write_def apply_committed_delete_def apply_ambiguous_delete_def

lemma lookup_mark_superseded_attempts [simp]:
  "fmlookup (mark_superseded_attempts m k r) k' =
     (if k = k' then map_option (map (supersede_attempt r)) (fmlookup m k) else fmlookup m k')"
  by (simp add: mark_superseded_attempts_def split: option.splits)

lemma lookup_fm_push [simp]:
  "fmlookup (fm_push k v m) k' =
     (if k = k' then Some (fm_values_at m [] k @ [v]) else fmlookup m k')"
  by (simp add: fm_push_def)

text \<open>A record is of one of these shapes; every field lemma below is a case split over them.\<close>

lemma record_shape:
  obtains (skipped) "\<not> effective r"
  | (committed_write) "effective r" "is_object_write (op_kind r)" "op_outcome r = Ok"
  | (ambiguous_write) "effective r" "is_object_write (op_kind r)" "op_outcome r \<in> {Timeout, Unknown}"
  | (failed_write) "effective r" "is_object_write (op_kind r)" "op_outcome r \<in> {Failed, NotFound}"
  | (committed_delete) "effective r" "op_kind r = Delete" "op_outcome r = Ok"
  | (ambiguous_delete) "effective r" "op_kind r = Delete"
      "op_outcome r \<in> {Timeout, Unknown} \<or> (op_outcome r = Failed \<and> mutation_attempts r > 1)"
  | (other) "effective r" "\<not> is_object_write (op_kind r)"
      "op_kind r \<noteq> Delete \<or> op_outcome r = NotFound \<or> (op_outcome r = Failed \<and> mutation_attempts r \<le> 1)"
  by (cases "op_outcome r"; cases "mutation_attempts r > 1"; cases "is_object_write (op_kind r)";
      cases "op_kind r = Delete"; cases "effective r") (auto simp: not_less)

lemma apply_record_shapes:
  "\<not> effective r \<Longrightarrow> apply_record_to_model m r = m"
  "effective r \<Longrightarrow> is_object_write (op_kind r) \<Longrightarrow> op_outcome r = Ok \<Longrightarrow>
     apply_record_to_model m r = apply_committed_write m r"
  "effective r \<Longrightarrow> is_object_write (op_kind r) \<Longrightarrow> op_outcome r \<in> {Timeout, Unknown} \<Longrightarrow>
     apply_record_to_model m r = apply_ambiguous_write m r"
  "effective r \<Longrightarrow> is_object_write (op_kind r) \<Longrightarrow> op_outcome r \<in> {Failed, NotFound} \<Longrightarrow>
     apply_record_to_model m r = apply_failed_write m r"
  "effective r \<Longrightarrow> op_kind r = Delete \<Longrightarrow> op_outcome r = Ok \<Longrightarrow>
     apply_record_to_model m r = apply_committed_delete m r"
  "effective r \<Longrightarrow> op_kind r = Delete \<Longrightarrow>
     op_outcome r \<in> {Timeout, Unknown} \<or> (op_outcome r = Failed \<and> mutation_attempts r > 1) \<Longrightarrow>
     apply_record_to_model m r = apply_ambiguous_delete m r"
  "effective r \<Longrightarrow> \<not> is_object_write (op_kind r) \<Longrightarrow>
     op_kind r \<noteq> Delete \<or> op_outcome r = NotFound \<or> (op_outcome r = Failed \<and> mutation_attempts r \<le> 1) \<Longrightarrow>
     apply_record_to_model m r = m"
  by (auto simp: apply_record_to_model_def effective_def is_object_mutation_def is_object_write_def)

lemma lookup_live_apply:
  "fmlookup (om_live (apply_record_to_model m r)) k =
     (case commit_effect r of
        Some (k', e) \<Rightarrow> if k' = k then e else fmlookup (om_live m) k
      | None \<Rightarrow> fmlookup (om_live m) k)"
proof (cases r rule: record_shape)
  case failed_write
  then show ?thesis
    by (auto simp: apply_record_shapes commit_effect_def apply_failed_write_def Let_def split: option.splits)
qed (auto simp: apply_record_shapes commit_effect_def apply_committed_write_def apply_ambiguous_write_def
      apply_committed_delete_def apply_ambiguous_delete_def Let_def fmdrop_lookup_if split: option.splits)

lemma mem_deleted_apply:
  "k |\<in>| om_deleted (apply_record_to_model m r) \<longleftrightarrow>
     (case commit_effect r of
        Some (k', e) \<Rightarrow> if k' = k then e = None else k |\<in>| om_deleted m
      | None \<Rightarrow> k |\<in>| om_deleted m)"
proof (cases r rule: record_shape)
  case failed_write
  then show ?thesis
    by (auto simp: apply_record_shapes commit_effect_def apply_failed_write_def Let_def split: option.splits)
qed (auto simp: apply_record_shapes commit_effect_def apply_committed_write_def apply_ambiguous_write_def
      apply_committed_delete_def apply_ambiguous_delete_def Let_def split: option.splits)

lemma lookup_unknown_apply:
  "fmlookup (om_unknown_writes (apply_record_to_model m r)) k =
     (case commit_effect r of
        Some (k', e) \<Rightarrow>
          if k' = k then map_option (map (supersede_attempt r)) (fmlookup (om_unknown_writes m) k)
          else fmlookup (om_unknown_writes m) k
      | None \<Rightarrow>
          (case ambiguous_effect m r of
             Some (k', object) \<Rightarrow>
               if k' = k then Some (fm_values_at (om_unknown_writes m) [] k @ [attempt_of r object])
               else fmlookup (om_unknown_writes m) k
           | None \<Rightarrow> fmlookup (om_unknown_writes m) k))"
proof (cases r rule: record_shape)
  case failed_write
  then show ?thesis
    by (auto simp: apply_record_shapes commit_effect_def ambiguous_effect_def apply_failed_write_def
        Let_def split: option.splits)
qed (auto simp: apply_record_shapes commit_effect_def ambiguous_effect_def apply_committed_write_def
      apply_ambiguous_write_def apply_committed_delete_def apply_ambiguous_delete_def Let_def
      split: option.splits)

definition ambiguous_delete_key :: "OperationRecord \<Rightarrow> string option" where
  "ambiguous_delete_key r =
     (if effective r \<and> op_kind r = Delete \<and>
         (op_outcome r \<in> {Timeout, Unknown} \<or> (op_outcome r = Failed \<and> mutation_attempts r > 1))
      then op_key r else None)"

lemma mem_pending_apply:
  "k |\<in>| om_ambiguous_delete_pending (apply_record_to_model m r) \<longleftrightarrow>
     (case commit_effect r of
        Some (k', e) \<Rightarrow> k' \<noteq> k \<and> k |\<in>| om_ambiguous_delete_pending m
      | None \<Rightarrow> k |\<in>| om_ambiguous_delete_pending m \<or>
                (ambiguous_delete_key r = Some k \<and> k |\<in>| fmdom (om_live m)))"
proof (cases r rule: record_shape)
  case failed_write
  then show ?thesis
    by (auto simp: apply_record_shapes commit_effect_def ambiguous_delete_key_def apply_failed_write_def
        Let_def split: option.splits)
qed (auto simp: apply_record_shapes commit_effect_def ambiguous_delete_key_def apply_committed_write_def
      apply_ambiguous_write_def apply_committed_delete_def apply_ambiguous_delete_def Let_def
      split: option.splits)

lemma mem_lineage_pending_apply:
  "k |\<in>| om_ambiguous_delete_lineage_pending (apply_record_to_model m r) \<longleftrightarrow>
     (case commit_effect r of
        Some (k', e) \<Rightarrow> k' \<noteq> k \<and> k |\<in>| om_ambiguous_delete_lineage_pending m
      | None \<Rightarrow> k |\<in>| om_ambiguous_delete_lineage_pending m \<or>
                (ambiguous_delete_key r = Some k \<and> (k |\<in>| fmdom (om_live m) \<or> k |\<in>| om_deleted m)))"
proof (cases r rule: record_shape)
  case failed_write
  then show ?thesis
    by (auto simp: apply_record_shapes commit_effect_def ambiguous_delete_key_def apply_failed_write_def
        Let_def split: option.splits)
qed (auto simp: apply_record_shapes commit_effect_def ambiguous_delete_key_def apply_committed_write_def
      apply_ambiguous_write_def apply_committed_delete_def apply_ambiguous_delete_def Let_def
      split: option.splits)

definition source_effect :: "OperationRecord \<Rightarrow> (string \<times> ExpectedObject) option" where
  "source_effect r =
     (if effective r \<and> is_object_write (op_kind r) \<and> version_write_source_budget r > 0
      then record_object r else None)"

definition supersede_source :: "OperationRecord \<Rightarrow> VersionWriteSource \<Rightarrow> VersionWriteSource" where
  "supersede_source r s = s\<lparr>vs_attempt := supersede_attempt r (vs_attempt s)\<rparr>"

definition superseded_sources ::
  "(string, VersionWriteSource list) fmap \<Rightarrow> OperationRecord \<Rightarrow> string \<Rightarrow> VersionWriteSource list option" where
  "superseded_sources sources r k =
     (case commit_effect r of
        Some (k', e) \<Rightarrow> if k' = k then map_option (map (supersede_source r)) (fmlookup sources k)
                        else fmlookup sources k
      | None \<Rightarrow> fmlookup sources k)"

lemma lookup_mark_version_sources [simp]:
  "fmlookup (om_version_write_sources (mark_superseded_version_sources m k r)) k' =
     (if k = k' then map_option (map (supersede_source r)) (fmlookup (om_version_write_sources m) k)
      else fmlookup (om_version_write_sources m) k')"
  by (simp add: mark_superseded_version_sources_def supersede_source_def [abs_def] split: option.splits)

lemma budget_not_mutating: "\<not> is_object_write (op_kind r) \<Longrightarrow> version_write_source_budget r = 0"
  by (cases "op_kind r") (simp_all add: version_write_source_budget_def)

lemma lookup_sources_apply:
  "fmlookup (om_version_write_sources (apply_record_to_model m r)) k =
     (case source_effect r of
        Some (k', object) \<Rightarrow>
          if k' = k
          then Some ((case superseded_sources (om_version_write_sources m) r k of
                        None \<Rightarrow> [] | Some ss \<Rightarrow> ss) @ [source_of r object])
          else superseded_sources (om_version_write_sources m) r k
      | None \<Rightarrow> superseded_sources (om_version_write_sources m) r k)"
proof (cases r rule: record_shape)
  case failed_write
  then show ?thesis
    by (auto simp: apply_record_shapes commit_effect_def source_effect_def superseded_sources_def
        apply_failed_write_def source_apply fm_values_at_def Let_def split: option.splits)
qed (auto simp: apply_record_shapes commit_effect_def source_effect_def superseded_sources_def
      apply_committed_write_def apply_ambiguous_write_def apply_committed_delete_def
      apply_ambiguous_delete_def source_apply fm_values_at_def budget_not_mutating Let_def
      split: option.splits)

subsection \<open>The model and the last committed mutation\<close>

definition commits_key :: "string \<Rightarrow> OperationRecord \<Rightarrow> bool" where
  "commits_key k r \<longleftrightarrow> map_option fst (commit_effect r) = Some k"

text \<open>The specification: the value of a key after its last committed mutation.\<close>

definition committed_state :: "OperationRecord list \<Rightarrow> string \<Rightarrow> ExpectedObject option option" where
  "committed_state rs k =
     (if filter (commits_key k) rs = [] then None
      else map_option snd (commit_effect (last (filter (commits_key k) rs))))"

lemma committed_state_snoc:
  "committed_state (rs @ [r]) k =
     (case commit_effect r of
        Some (k', e) \<Rightarrow> if k' = k then Some e else committed_state rs k
      | None \<Rightarrow> committed_state rs k)"
  by (auto simp: committed_state_def commits_key_def split: option.splits)

lemma committed_state_Nil [simp]: "committed_state [] k = None"
  by (simp add: committed_state_def)

lemma object_model_Nil [simp]: "object_model [] = empty_model"
  by (simp add: object_model_def)

lemma object_model_snoc: "object_model (rs @ [r]) = apply_record_to_model (object_model rs) r"
  by (simp add: object_model_def)

lemma empty_model_simps [simp]:
  "om_live empty_model = fmempty" "om_deleted empty_model = {||}"
  "om_unknown_writes empty_model = fmempty" "om_version_write_sources empty_model = fmempty"
  "om_ambiguous_delete_pending empty_model = {||}"
  "om_ambiguous_delete_lineage_pending empty_model = {||}"
  "om_failed_writes empty_model = fmempty" "om_committed_writes empty_model = 0"
  by (simp_all add: empty_model_def)

lemma model_committed_state:
  "fmlookup (om_live (object_model rs)) k = Option.bind (committed_state rs k) id \<and>
   (k |\<in>| om_deleted (object_model rs) \<longleftrightarrow> committed_state rs k = Some None)"
  by (induction rs rule: rev_induct)
    (auto simp: object_model_snoc lookup_live_apply mem_deleted_apply committed_state_snoc
      split: option.splits)

lemma committed_writes_apply:
  "om_committed_writes (apply_record_to_model m r) = om_committed_writes m +
     (case commit_effect r of Some (k, Some obj) \<Rightarrow> 1 | _ \<Rightarrow> 0)"
proof (cases r rule: record_shape)
  case failed_write
  then show ?thesis
    by (auto simp: apply_record_shapes commit_effect_def apply_failed_write_def Let_def split: option.splits)
qed (auto simp: apply_record_shapes commit_effect_def apply_committed_write_def apply_ambiguous_write_def
      apply_committed_delete_def apply_ambiguous_delete_def Let_def split: option.splits)

lemma committed_writes_count:
  "om_committed_writes (object_model rs) =
     length (filter (\<lambda>r. case commit_effect r of Some (k, Some obj) \<Rightarrow> True | _ \<Rightarrow> False) rs)"
  by (induction rs rule: rev_induct)
    (auto simp: object_model_snoc committed_writes_apply split: option.splits)

subsection \<open>Invariants of the replay\<close>

definition key_inv :: "OperationRecord list \<Rightarrow> ObjectModel \<Rightarrow> bool" where
  "key_inv rs m \<longleftrightarrow>
     (\<forall>k. k |\<in>| om_deleted m \<longrightarrow> fmlookup (om_live m) k = None) \<and>
     (\<forall>k. k |\<in>| om_ambiguous_delete_pending m \<longrightarrow> k |\<in>| fmdom (om_live m)) \<and>
     (\<forall>k. k |\<in>| om_ambiguous_delete_pending m \<longrightarrow> k |\<in>| om_ambiguous_delete_lineage_pending m) \<and>
     (\<forall>k. k |\<in>| om_ambiguous_delete_lineage_pending m \<longrightarrow>
          k |\<in>| fmdom (om_live m) \<or> k |\<in>| om_deleted m)"

lemma key_inv_step: "key_inv rs m \<Longrightarrow> key_inv (rs @ [r]) (apply_record_to_model m r)"
  by (auto simp: key_inv_def fmdom_iff_lookup lookup_live_apply mem_deleted_apply mem_pending_apply
      mem_lineage_pending_apply split: option.splits if_splits)

interpretation keys: replay empty_model apply_record_to_model key_inv
  by unfold_locales (simp add: key_inv_def, rule key_inv_step)

definition attempt_from :: "OperationRecord list \<Rightarrow> string \<Rightarrow> AmbiguousWriteAttempt \<Rightarrow> bool" where
  "attempt_from rs k a \<longleftrightarrow>
     (\<exists>r \<in> set rs. mutates_key k r \<and> is_object_write (op_kind r) \<and> aw_id a = op_id r \<and>
        aw_kind a = op_kind r \<and> aw_outcome a = op_outcome r \<and>
        aw_ended_sequence a = op_ended_sequence r \<and> record_object r = Some (k, aw_object a))"

definition attempts_inv :: "OperationRecord list \<Rightarrow> ObjectModel \<Rightarrow> bool" where
  "attempts_inv rs m \<longleftrightarrow>
     (\<forall>k as. fmlookup (om_unknown_writes m) k = Some as \<longrightarrow>
        as \<noteq> [] \<and> (\<forall>a \<in> set as. attempt_from rs k a \<and> aw_outcome a \<noteq> Ok)) \<and>
     (\<forall>k ss. fmlookup (om_version_write_sources m) k = Some ss \<longrightarrow>
        ss \<noteq> [] \<and> (\<forall>s \<in> set ss. attempt_from rs k (vs_attempt s) \<and> 0 < vs_remaining_versions s))"

lemma attempt_from_snoc: "attempt_from rs k a \<Longrightarrow> attempt_from (rs @ [r]) k a"
  by (auto simp: attempt_from_def)

lemma supersede_attempt_simps [simp]:
  "aw_id (supersede_attempt r a) = aw_id a" "aw_kind (supersede_attempt r a) = aw_kind a"
  "aw_outcome (supersede_attempt r a) = aw_outcome a"
  "aw_object (supersede_attempt r a) = aw_object a"
  "aw_payload_ref (supersede_attempt r a) = aw_payload_ref a"
  "aw_ended_sequence (supersede_attempt r a) = aw_ended_sequence a"
  "aw_ended_at_ms (supersede_attempt r a) = aw_ended_at_ms a"
  by (simp_all add: supersede_attempt_def)

lemma attempt_from_supersede [simp]: "attempt_from rs k (supersede_attempt r a) = attempt_from rs k a"
  by (simp add: attempt_from_def)

lemma supersede_source_simps [simp]:
  "vs_attempt (supersede_source r s) = supersede_attempt r (vs_attempt s)"
  "vs_remaining_versions (supersede_source r s) = vs_remaining_versions s"
  "vs_may_be_latest (supersede_source r s) = vs_may_be_latest s"
  by (simp_all add: supersede_source_def)

lemma record_object_key: "record_object r = Some (k, obj) \<Longrightarrow> op_key r = Some k"
  by (auto simp: record_object_def split: option.splits)

lemma commit_effect_mutates: "commit_effect r = Some (k, e) \<Longrightarrow> mutates_key k r"
  by (auto simp: commit_effect_def mutates_key_def is_object_mutation_cases dest: record_object_key
      split: if_splits)

lemma attempt_from_new:
  "ambiguous_effect m r = Some (k, obj) \<Longrightarrow>
     attempt_from (rs @ [r]) k (attempt_of r obj) \<and> aw_outcome (attempt_of r obj) \<noteq> Ok"
  by (auto simp: ambiguous_effect_def attempt_from_def attempt_of_def mutates_key_def
      is_object_mutation_cases dest: record_object_key split: option.splits if_splits)

lemma source_from_new:
  "source_effect r = Some (k, obj) \<Longrightarrow>
     attempt_from (rs @ [r]) k (vs_attempt (source_of r obj)) \<and> 0 < vs_remaining_versions (source_of r obj)"
  by (auto simp: source_effect_def attempt_from_def attempt_of_def source_of_def mutates_key_def
      is_object_mutation_cases dest: record_object_key split: option.splits if_splits)

lemma unknown_inv_step:
  assumes "attempts_inv rs m" "fmlookup (om_unknown_writes (apply_record_to_model m r)) k = Some as"
  shows "as \<noteq> [] \<and> (\<forall>a \<in> set as. attempt_from (rs @ [r]) k a \<and> aw_outcome a \<noteq> Ok)"
  using assms attempt_from_new
  by (fastforce simp: attempts_inv_def lookup_unknown_apply fm_values_at_def intro: attempt_from_snoc
      split: option.splits if_splits)

lemma superseded_sources_inv:
  assumes "attempts_inv rs m" "superseded_sources (om_version_write_sources m) r k = Some ss"
  shows "ss \<noteq> [] \<and> (\<forall>s \<in> set ss. attempt_from (rs @ [r]) k (vs_attempt s) \<and> 0 < vs_remaining_versions s)"
  using assms
  by (fastforce simp: attempts_inv_def superseded_sources_def intro: attempt_from_snoc
      split: option.splits if_splits)

lemma sources_inv_step:
  assumes "attempts_inv rs m" "fmlookup (om_version_write_sources (apply_record_to_model m r)) k = Some ss"
  shows "ss \<noteq> [] \<and> (\<forall>s \<in> set ss. attempt_from (rs @ [r]) k (vs_attempt s) \<and> 0 < vs_remaining_versions s)"
  using assms(2) superseded_sources_inv [OF assms(1)] source_from_new
  by (fastforce simp: lookup_sources_apply split: option.splits if_splits)

lemma attempts_inv_step: "attempts_inv rs m \<Longrightarrow> attempts_inv (rs @ [r]) (apply_record_to_model m r)"
  unfolding attempts_inv_def [of "rs @ [r]"] using unknown_inv_step sources_inv_step by blast

interpretation attempts: replay empty_model apply_record_to_model attempts_inv
  by unfold_locales (simp add: attempts_inv_def, rule attempts_inv_step)

lemma object_model_key_inv: "key_inv rs (object_model rs)"
  unfolding object_model_def by (rule keys.inv_replay)

lemma object_model_attempts_inv: "attempts_inv rs (object_model rs)"
  unfolding object_model_def by (rule attempts.inv_replay)

subsection \<open>Superseded attempts on an ordered history\<close>

lemma history_ordered_append_left: "history_ordered c n (xs @ ys) \<Longrightarrow> history_ordered c n xs"
  by (auto simp: history_ordered_def sorted_wrt_append)

lemma ordered_commit_supersedes:
  assumes ord: "history_ordered c n (xs @ [r])" and r: "commits_key k r"
    and a: "attempt_from xs k a"
  shows "aw_superseded_by (supersede_attempt r a) \<noteq> None"
proof -
  from a obtain q where q: "q \<in> set xs" "mutates_key k q" "aw_ended_sequence a = op_ended_sequence q"
    by (auto simp: attempt_from_def)
  have "mutates_key k r" using r commit_effect_mutates by (auto simp: commits_key_def)
  with ord q have "end_of q < start_of r"
    by (auto simp: history_ordered_def sorted_wrt_append mutation_before_def)
  moreover from ord q(1) obtain e s where "op_ended_sequence q = Some e" "op_started_sequence r = Some s"
    by (fastforce simp: history_ordered_def record_wf_def)
  ultimately show ?thesis
    using q(3) by (simp add: supersede_attempt_def completion_precedes_start_def end_of_def start_of_def)
qed

definition ambiguous_on :: "string \<Rightarrow> OperationRecord \<Rightarrow> bool" where
  "ambiguous_on k r \<longleftrightarrow>
     effective r \<and> is_object_write (op_kind r) \<and> map_option fst (record_object r) = Some k \<and>
     (op_outcome r \<in> {Timeout, Unknown} \<or>
      (op_outcome r \<in> {Failed, NotFound} \<and> version_write_source_budget r > 0))"

definition active_attempts :: "ObjectModel \<Rightarrow> string \<Rightarrow> AmbiguousWriteAttempt list" where
  "active_attempts m k =
     filter (\<lambda>a. aw_superseded_by a = None) (fm_values_at (om_unknown_writes m) [] k)"

lemma active_after_commit:
  assumes ord: "history_ordered c n (xs @ [r])" and r: "commits_key k r"
  shows "active_attempts (object_model (xs @ [r])) k = []"
proof -
  from r obtain e where e: "commit_effect r = Some (k, e)" by (auto simp: commits_key_def)
  show ?thesis
  proof (cases "fmlookup (om_unknown_writes (object_model xs)) k")
    case None
    then show ?thesis
      by (simp add: active_attempts_def fm_values_at_def object_model_snoc lookup_unknown_apply e)
  next
    case (Some as)
    have "\<forall>a \<in> set as. aw_superseded_by (supersede_attempt r a) \<noteq> None"
      using object_model_attempts_inv [of xs] Some ordered_commit_supersedes [OF ord r]
      by (auto simp: attempts_inv_def)
    with Some show ?thesis
      by (simp add: active_attempts_def fm_values_at_def object_model_snoc lookup_unknown_apply e
          filter_empty_conv)
  qed
qed

lemma active_attempts_step:
  assumes "\<not> commits_key k q" and "committed_state xs k \<noteq> None"
  shows "map aw_id (active_attempts (object_model (xs @ [q])) k) =
         map aw_id (active_attempts (object_model xs) k) @ (if ambiguous_on k q then [op_id q] else [])"
proof -
  have "k |\<in>| fmdom (om_live (object_model xs)) \<or> k |\<in>| om_deleted (object_model xs)"
    using assms(2) model_committed_state [of xs k]
    by (cases "committed_state xs k") (auto simp: fmdom_iff_lookup)
  then have "ambiguous_effect (object_model xs) q = Some (k, obj) \<longleftrightarrow>
      ambiguous_on k q \<and> record_object q = Some (k, obj)" for obj
    by (auto simp: ambiguous_effect_def ambiguous_on_def split: option.splits)
  moreover have "ambiguous_on k q \<Longrightarrow> commit_effect q = None"
    by (auto simp: ambiguous_on_def commit_effect_def)
  moreover have "ambiguous_on k q \<Longrightarrow> \<exists>obj. record_object q = Some (k, obj)"
    by (auto simp: ambiguous_on_def)
  ultimately show ?thesis
    using assms(1)
    by (auto simp: active_attempts_def object_model_snoc lookup_unknown_apply commits_key_def
        fm_values_at_def attempt_of_def split: option.splits)
qed

lemma committed_state_append_Some:
  "committed_state xs k \<noteq> None \<Longrightarrow> committed_state (xs @ ys) k \<noteq> None"
  by (induction ys rule: rev_induct)
    (auto simp: committed_state_snoc simp flip: append_assoc split: option.splits)

lemma active_attempts_after:
  assumes "history_ordered c n (xs @ [r])" "commits_key k r" "\<forall>q \<in> set ys. \<not> commits_key k q"
  shows "map aw_id (active_attempts (object_model ((xs @ [r]) @ ys)) k) = map op_id (filter (ambiguous_on k) ys)"
  using assms(3)
proof (induction ys rule: rev_induct)
  case Nil
  then show ?case using active_after_commit [OF assms(1,2)] by simp
next
  case (snoc q ys)
  have "committed_state (xs @ [r]) k \<noteq> None"
    using assms(2) by (auto simp: committed_state_snoc commits_key_def)
  then have "committed_state ((xs @ [r]) @ ys) k \<noteq> None" by (rule committed_state_append_Some)
  from active_attempts_step [OF _ this, of q] snoc show ?case by simp
qed

subsection \<open>Properties\<close>

text \<open>
  C16: The replayed model agrees with the last committed mutation of every key:
  a key is live with exactly the object of its last committed write, deleted
  exactly when its last committed mutation is a delete, and the committed-write
  counter counts the committed writes.
\<close>

theorem object_model_refines_last_commit:
  "fmlookup (om_live (object_model rs)) k = Option.bind (committed_state rs k) id \<and>
   (k |\<in>| om_deleted (object_model rs) \<longleftrightarrow> committed_state rs k = Some None) \<and>
   om_committed_writes (object_model rs) =
     length (filter (\<lambda>r. case commit_effect r of Some (_, Some _) \<Rightarrow> True | _ \<Rightarrow> False) rs)"
  using model_committed_state [of rs k] committed_writes_count [of rs] by simp

text \<open>
  The sets of the model stay consistent: no key is live and deleted, an
  ambiguous delete is pending only for a live key and then also pending for the
  version lineage, and a pending lineage belongs to a live or deleted key; every
  ambiguous attempt and every version source stems from a recorded write of its
  key, and a source has versions left.
\<close>

theorem object_model_consistent:
  "(\<forall>k. \<not> (k |\<in>| om_deleted (object_model rs) \<and> k |\<in>| fmdom (om_live (object_model rs)))) \<and>
   (\<forall>k. k |\<in>| om_ambiguous_delete_pending (object_model rs) \<longrightarrow>
        k |\<in>| fmdom (om_live (object_model rs)) \<and>
        k |\<in>| om_ambiguous_delete_lineage_pending (object_model rs)) \<and>
   (\<forall>k. k |\<in>| om_ambiguous_delete_lineage_pending (object_model rs) \<longrightarrow>
        k |\<in>| fmdom (om_live (object_model rs)) \<or> k |\<in>| om_deleted (object_model rs)) \<and>
   (\<forall>k as a. fmlookup (om_unknown_writes (object_model rs)) k = Some as \<longrightarrow> a \<in> set as \<longrightarrow>
        attempt_from rs k a \<and> aw_outcome a \<noteq> Ok) \<and>
   (\<forall>k ss s. fmlookup (om_version_write_sources (object_model rs)) k = Some ss \<longrightarrow> s \<in> set ss \<longrightarrow>
        attempt_from rs k (vs_attempt s) \<and> 0 < vs_remaining_versions s)"
  using object_model_key_inv [of rs] object_model_attempts_inv [of rs]
  by (auto simp: key_inv_def attempts_inv_def fmdom_iff_lookup)

definition ambiguous_demo :: "OperationRecord list" where
  "ambiguous_demo =
     [sample_op ''op-1'' Put ''k'' ''h1'' Timeout 1 2, sample_op ''op-2'' Put ''k'' ''h2'' Ok 3 4,
      sample_op ''op-3'' Put ''k'' ''h3'' Timeout 5 6]"

theorem object_model_consistent_witness:
  "\<exists>as. fmlookup (om_unknown_writes (object_model ambiguous_demo)) ''k'' = Some as \<and> length as = 2 \<and>
        (\<forall>a \<in> set as. attempt_from ambiguous_demo ''k'' a \<and> aw_outcome a \<noteq> Ok)"
proof -
  have "\<exists>as. fmlookup (om_unknown_writes (object_model ambiguous_demo)) ''k'' = Some as \<and> length as = 2"
    by (simp add: ambiguous_demo_def object_model_def apply_record_to_model_def apply_committed_write_def
        apply_ambiguous_write_def source_apply record_object_def sample_op_def fm_values_at_def Let_def)
  then show ?thesis using object_model_consistent [of ambiguous_demo] by blast
qed

text \<open>
  On a history the validators accept, the ambiguous writes of a key that
  may still be current are exactly those recorded after its last committed
  mutation, in order: a committed mutation supersedes every earlier attempt on
  its key and nothing else does.
\<close>

theorem active_attempts_since_last_commit:
  assumes "validate_history_scope_and_order_mode (xs @ [r] @ ys) scenario run_id bucket contiguous = Inr ()"
    and "commits_key k r" and "\<forall>q \<in> set ys. \<not> commits_key k q"
  shows "map aw_id (active_attempts (object_model (xs @ [r] @ ys)) k) = map op_id (filter (ambiguous_on k) ys)"
proof -
  from assms(1) have "history_ordered contiguous (length (xs @ [r] @ ys) * 2) ((xs @ [r]) @ ys)"
    unfolding validate_mode_iff by simp
  from active_attempts_after [OF history_ordered_append_left [OF this] assms(2,3)]
  show ?thesis by simp
qed

theorem active_attempts_witness:
  "map aw_id (active_attempts (object_model ambiguous_demo) ''k'') = [''op-3'']"
proof -
  let ?x = "sample_op ''op-1'' Put ''k'' ''h1'' Timeout 1 2"
  let ?r = "sample_op ''op-2'' Put ''k'' ''h2'' Ok 3 4"
  let ?y = "sample_op ''op-3'' Put ''k'' ''h3'' Timeout 5 6"
  have "validate_history_scope_and_order_mode ([?x] @ [?r] @ [?y]) ''eio'' ''run'' ''b'' True = Inr ()"
    unfolding validate_mode_iff by (simp add: sample_eval)
  moreover have "commits_key ''k'' ?r" "\<forall>q \<in> set [?y]. \<not> commits_key ''k'' q"
    by (simp_all add: commits_key_def commit_effect_def effective_def record_object_def sample_op_def)
  ultimately have "map aw_id (active_attempts (object_model ([?x] @ [?r] @ [?y])) ''k'') =
      map op_id (filter (ambiguous_on ''k'') [?y])"
    by (rule active_attempts_since_last_commit)
  then show ?thesis
    by (simp add: ambiguous_demo_def ambiguous_on_def effective_def record_object_def sample_op_def)
qed

end
