(* ===== verification/Version_Sources.thy ===== *)
theory Version_Sources
  imports Object_Model
begin

text \<open>
  The index of writes that may have produced uncommitted object versions
  (\<open>VersionWriteSourceIndex\<close> of \<open>src/src/fault/checker.rs\<close>). Every candidate
  version found by \<open>ListObjectVersions\<close> takes one unit from a source with the
  same key and content; the index never hands out more versions than the
  recorded attempts can explain, and fails only when no suitable source is left.
\<close>

subsection \<open>Data\<close>

record VersionWriteSourceBucket =
  vb_sources :: "VersionWriteSource list"
  vb_active :: "nat list"
  vb_inactive :: "nat list"
  vb_all :: "nat list"

type_synonym VersionWriteSourceIndex = "(string \<times> ExpectedObject, VersionWriteSourceBucket) fmap"

record VersionWriteMatch =
  vm_attempt :: AmbiguousWriteAttempt
  vm_active :: bool

definition empty_bucket :: VersionWriteSourceBucket where
  "empty_bucket = \<lparr>vb_sources = [], vb_active = [], vb_inactive = [], vb_all = []\<rparr>"

definition source_active :: "VersionWriteSource \<Rightarrow> bool" where
  "source_active s = (vs_may_be_latest s \<and> aw_superseded_by (vs_attempt s) = None)"

subsection \<open>Building the index\<close>

definition bucket_add :: "VersionWriteSourceBucket \<Rightarrow> VersionWriteSource \<Rightarrow> VersionWriteSourceBucket" where
  "bucket_add b s =
     (let source_index = length (vb_sources b);
          b = b\<lparr>vb_sources := vb_sources b @ [s], vb_all := vb_all b @ [source_index]\<rparr>
      in if source_active s then b\<lparr>vb_active := vb_active b @ [source_index]\<rparr>
         else b\<lparr>vb_inactive := vb_inactive b @ [source_index]\<rparr>)"

definition index_add :: "string \<Rightarrow> VersionWriteSourceIndex \<Rightarrow> VersionWriteSource \<Rightarrow> VersionWriteSourceIndex" where
  "index_add key index s =
     (let slot = (key, aw_object (vs_attempt s))
      in fmupd slot (bucket_add (fm_values_at index empty_bucket slot) s) index)"

definition from_sources :: "(string, VersionWriteSource list) fmap \<Rightarrow> VersionWriteSourceIndex" where
  "from_sources sources =
     foldl (\<lambda>index (key, key_sources). foldl (index_add key) index key_sources) fmempty (fm_entries sources)"

subsection \<open>Taking a source\<close>

text \<open>
  \<open>next_available_source\<close> drops exhausted indices from the end of the vector;
  the loop is written over the reversed vector. Reading \<open>sources[index]\<close> out of
  range panics.
\<close>

fun drop_exhausted :: "nat list \<Rightarrow> VersionWriteSource list \<Rightarrow> panic + nat list" where
  "drop_exhausted [] sources = Inr []"
| "drop_exhausted (i # is) sources =
     (if i \<ge> length sources then Inl IndexOutOfBounds
      else if vs_remaining_versions (sources ! i) > 0 then Inr (i # is)
      else drop_exhausted is sources)"

definition next_available_source ::
  "nat list \<Rightarrow> VersionWriteSource list \<Rightarrow> panic + (nat list \<times> nat option)" where
  "next_available_source indices sources =
     (case drop_exhausted (rev indices) sources of
        Inl p \<Rightarrow> Inl p
      | Inr is \<Rightarrow> Inr (rev is, case is of [] \<Rightarrow> None | i # _ \<Rightarrow> Some i))"

definition select_source ::
  "VersionWriteSourceBucket \<Rightarrow> bool \<Rightarrow> panic + (VersionWriteSourceBucket \<times> nat option)" where
  "select_source b is_latest =
     (if is_latest
      then res_bind (next_available_source (vb_active b) (vb_sources b)) (\<lambda>(active, i).
             Inr (b\<lparr>vb_active := active\<rparr>, i))
      else res_bind (next_available_source (vb_inactive b) (vb_sources b)) (\<lambda>(inactive, i).
             case i of
               Some i \<Rightarrow> Inr (b\<lparr>vb_inactive := inactive\<rparr>, Some i)
             | None \<Rightarrow>
                 res_bind (next_available_source (vb_all b) (vb_sources b)) (\<lambda>(all, j).
                   Inr (b\<lparr>vb_inactive := inactive, vb_all := all\<rparr>, j))))"

definition take_source ::
  "VersionWriteSourceIndex \<Rightarrow> string \<Rightarrow> ExpectedObject \<Rightarrow> bool
     \<Rightarrow> panic + (VersionWriteSourceIndex \<times> VersionWriteMatch option)" where
  "take_source index key actual is_latest =
     (case fmlookup index (key, actual) of
        None \<Rightarrow> Inr (index, None)
      | Some b \<Rightarrow>
          res_bind (select_source b is_latest) (\<lambda>(b, selected).
            case selected of
              None \<Rightarrow> Inr (fmupd (key, actual) b index, None)
            | Some i \<Rightarrow>
                if i \<ge> length (vb_sources b) then Inl IndexOutOfBounds
                else if vs_remaining_versions (vb_sources b ! i) = 0 then Inl ArithmeticOverflow
                else (let s = vb_sources b ! i;
                          s' = s\<lparr>vs_remaining_versions := vs_remaining_versions s - 1\<rparr>
                      in Inr (fmupd (key, actual) (b\<lparr>vb_sources := (vb_sources b)[i := s']\<rparr>) index,
                              Some \<lparr>vm_attempt = vs_attempt s, vm_active = source_active s\<rparr>))))"

definition take_version_write_source ::
  "VersionWriteSourceIndex \<Rightarrow> string \<Rightarrow> ExpectedObject \<Rightarrow> bool
     \<Rightarrow> panic + (VersionWriteSourceIndex \<times> VersionWriteMatch option)" where
  "take_version_write_source sources key actual is_latest = take_source sources key actual is_latest"

subsection \<open>Supplies with a budget\<close>

text \<open>
  What the callers rely on: a request either takes one unit of the slot it asks
  for or leaves all budgets alone. Over any sequence of requests the units
  handed out never exceed the initial budget.
\<close>

fun run_requests :: "('s \<Rightarrow> 'q \<Rightarrow> panic + ('s \<times> 'm option)) \<Rightarrow> 's \<Rightarrow> 'q list \<Rightarrow> panic + ('s \<times> 'm option list)" where
  "run_requests request s [] = Inr (s, [])"
| "run_requests request s (q # qs) =
     (case request s q of
        Inl p \<Rightarrow> Inl p
      | Inr (s', m) \<Rightarrow>
          (case run_requests request s' qs of Inl p \<Rightarrow> Inl p | Inr (t, ms) \<Rightarrow> Inr (t, m # ms)))"

locale budgeted_supply =
  fixes wf :: "'s \<Rightarrow> bool"
    and budget :: "'s \<Rightarrow> 'slot \<Rightarrow> nat"
    and request :: "'s \<Rightarrow> 'slot \<times> bool \<Rightarrow> panic + ('s \<times> 'm option)"
  assumes request_ok: "wf s \<Longrightarrow> \<exists>s' m. request s q = Inr (s', m) \<and> wf s'"
    and request_budget: "wf s \<Longrightarrow> request s q = Inr (s', m) \<Longrightarrow>
      budget s slot = budget s' slot + (if m \<noteq> None \<and> slot = fst q then 1 else 0)"
begin

lemma run_ok: "wf s \<Longrightarrow> \<exists>t ms. run_requests request s qs = Inr (t, ms) \<and> wf t \<and> length ms = length qs"
proof (induction qs arbitrary: s)
  case Nil
  then show ?case by simp
next
  case (Cons q qs)
  obtain s' m where s': "request s q = Inr (s', m)" "wf s'"
    using request_ok [OF Cons.prems, of q] by blast
  obtain t ms where "run_requests request s' qs = Inr (t, ms)" "wf t" "length ms = length qs"
    using Cons.IH [OF s'(2)] by blast
  with s' show ?case by simp
qed

lemma run_budget:
  "wf s \<Longrightarrow> run_requests request s qs = Inr (t, ms) \<Longrightarrow>
   budget s slot =
     budget t slot + length (filter (\<lambda>(q, m). m \<noteq> None \<and> fst q = slot) (zip qs ms))"
proof (induction qs arbitrary: s ms)
  case Nil
  then show ?case by simp
next
  case (Cons q qs)
  obtain s' m where s': "request s q = Inr (s', m)" "wf s'"
    using request_ok [OF Cons.prems(1), of q] by blast
  with Cons.prems(2) obtain ms' where ms: "run_requests request s' qs = Inr (t, ms')" "ms = m # ms'"
    by (auto split: sum.splits prod.splits)
  from Cons.IH [OF s'(2) ms(1)] request_budget [OF Cons.prems(1) s'(1), of slot] ms(2)
  show ?case by auto
qed

end

subsection \<open>The index is such a supply\<close>

definition indices_bounded :: "VersionWriteSourceBucket \<Rightarrow> bool" where
  "indices_bounded b \<longleftrightarrow>
     set (vb_active b) \<union> set (vb_inactive b) \<union> set (vb_all b) \<subseteq> {..<length (vb_sources b)}"

definition active_indices_active :: "VersionWriteSourceBucket \<Rightarrow> bool" where
  "active_indices_active b \<longleftrightarrow> (\<forall>i \<in> set (vb_active b). source_active (vb_sources b ! i))"

definition available :: "VersionWriteSourceBucket \<Rightarrow> nat set" where
  "available b = {i. i < length (vb_sources b) \<and> 0 < vs_remaining_versions (vb_sources b ! i)}"

definition available_indexed :: "VersionWriteSourceBucket \<Rightarrow> bool" where
  "available_indexed b \<longleftrightarrow>
     available b \<subseteq> set (vb_all b) \<and>
     available b \<inter> {i. source_active (vb_sources b ! i)} \<subseteq> set (vb_active b) \<and>
     available b - {i. source_active (vb_sources b ! i)} \<subseteq> set (vb_inactive b)"

definition bucket_wf :: "VersionWriteSourceBucket \<Rightarrow> bool" where
  "bucket_wf b \<longleftrightarrow> indices_bounded b \<and> active_indices_active b \<and> available_indexed b"

definition index_wf :: "VersionWriteSourceIndex \<Rightarrow> bool" where
  "index_wf ix \<longleftrightarrow>
     (\<forall>slot b. fmlookup ix slot = Some b \<longrightarrow>
        bucket_wf b \<and> (\<forall>s \<in> set (vb_sources b). aw_object (vs_attempt s) = snd slot))"

definition bucket_budget :: "VersionWriteSourceBucket \<Rightarrow> nat" where
  "bucket_budget b = sum_list (map vs_remaining_versions (vb_sources b))"

definition index_budget :: "VersionWriteSourceIndex \<Rightarrow> string \<times> ExpectedObject \<Rightarrow> nat" where
  "index_budget ix slot = (case fmlookup ix slot of None \<Rightarrow> 0 | Some b \<Rightarrow> bucket_budget b)"

definition index_sources :: "VersionWriteSourceIndex \<Rightarrow> string \<times> ExpectedObject \<Rightarrow> VersionWriteSource list" where
  "index_sources ix slot = (case fmlookup ix slot of None \<Rightarrow> [] | Some b \<Rightarrow> vb_sources b)"

lemma drop_exhausted_spec:
  assumes "\<forall>i \<in> set is. i < length sources"
  shows "\<exists>js. drop_exhausted is sources = Inr js \<and> set js \<subseteq> set is \<and>
     (\<forall>i \<in> set is. 0 < vs_remaining_versions (sources ! i) \<longrightarrow> i \<in> set js) \<and>
     (js \<noteq> [] \<longrightarrow> 0 < vs_remaining_versions (sources ! hd js))"
  using assms by (induction "is") auto

lemma next_available_source_spec:
  assumes "\<forall>i \<in> set ix. i < length sources"
  obtains ix' r where "next_available_source ix sources = Inr (ix', r)" "set ix' \<subseteq> set ix"
    "\<forall>i \<in> set ix. 0 < vs_remaining_versions (sources ! i) \<longrightarrow> i \<in> set ix'"
    "r = None \<Longrightarrow> \<forall>i \<in> set ix. vs_remaining_versions (sources ! i) = 0"
    "\<And>i. r = Some i \<Longrightarrow> i \<in> set ix \<and> 0 < vs_remaining_versions (sources ! i)"
proof -
  from drop_exhausted_spec [of "rev ix" sources] assms obtain js where
    js: "drop_exhausted (rev ix) sources = Inr js" "set js \<subseteq> set ix"
      "\<forall>i \<in> set ix. 0 < vs_remaining_versions (sources ! i) \<longrightarrow> i \<in> set js"
      "js \<noteq> [] \<longrightarrow> 0 < vs_remaining_versions (sources ! hd js)" by auto
  show ?thesis
    by (rule that [of "rev js" "case js of [] \<Rightarrow> None | i # _ \<Rightarrow> Some i"])
      (use js in \<open>auto simp: next_available_source_def split: list.splits\<close>)
qed

lemma available_narrow [simp]:
  "available (b\<lparr>vb_active := ix\<rparr>) = available b"
  "available (b\<lparr>vb_inactive := ix\<rparr>) = available b"
  "available (b\<lparr>vb_all := ix\<rparr>) = available b"
  by (simp_all add: available_def)

lemma bucket_wf_narrow:
  assumes "bucket_wf b"
  shows "set ix \<subseteq> set (vb_active b) \<Longrightarrow> set (vb_active b) \<inter> available b \<subseteq> set ix \<Longrightarrow>
      bucket_wf (b\<lparr>vb_active := ix\<rparr>)"
    and "set ix \<subseteq> set (vb_inactive b) \<Longrightarrow> set (vb_inactive b) \<inter> available b \<subseteq> set ix \<Longrightarrow>
      bucket_wf (b\<lparr>vb_inactive := ix\<rparr>)"
    and "set ix \<subseteq> set (vb_all b) \<Longrightarrow> set (vb_all b) \<inter> available b \<subseteq> set ix \<Longrightarrow>
      bucket_wf (b\<lparr>vb_all := ix\<rparr>)"
  using assms
  unfolding bucket_wf_def indices_bounded_def active_indices_active_def available_indexed_def
  by (simp_all, blast+)

lemma bucket_wf_bounds:
  assumes "bucket_wf b"
  shows "\<forall>i \<in> set (vb_active b). i < length (vb_sources b)"
    and "\<forall>i \<in> set (vb_inactive b). i < length (vb_sources b)"
    and "\<forall>i \<in> set (vb_all b). i < length (vb_sources b)"
  using assms unfolding bucket_wf_def indices_bounded_def by blast+

lemma bucket_wf_exhausted:
  assumes "bucket_wf b" "s \<in> set (vb_sources b)" "0 < vs_remaining_versions s"
  shows "set (vb_active b) \<inter> available b = {} \<Longrightarrow> \<not> source_active s"
    and "set (vb_all b) \<inter> available b \<noteq> {}"
proof -
  from assms(2) obtain i where i: "i < length (vb_sources b)" "vb_sources b ! i = s"
    by (auto simp: in_set_conv_nth)
  with assms(3) have av: "i \<in> available b" by (simp add: available_def)
  with assms(1) show "set (vb_all b) \<inter> available b \<noteq> {}"
    unfolding bucket_wf_def available_indexed_def by blast
  show "set (vb_active b) \<inter> available b = {} \<Longrightarrow> \<not> source_active s"
    using av i(2) assms(1) unfolding bucket_wf_def available_indexed_def by blast
qed

lemma next_available_in_bucket:
  assumes "\<forall>i \<in> set ix. i < length (vb_sources b)"
  obtains ix' r where "next_available_source ix (vb_sources b) = Inr (ix', r)" "set ix' \<subseteq> set ix"
    "set ix \<inter> available b \<subseteq> set ix'"
    "r = None \<Longrightarrow> set ix \<inter> available b = {}"
    "\<And>i. r = Some i \<Longrightarrow> i \<in> set ix \<inter> available b"
proof -
  obtain ix' r where n: "next_available_source ix (vb_sources b) = Inr (ix', r)" "set ix' \<subseteq> set ix"
    "\<forall>i \<in> set ix. 0 < vs_remaining_versions (vb_sources b ! i) \<longrightarrow> i \<in> set ix'"
    "r = None \<Longrightarrow> \<forall>i \<in> set ix. vs_remaining_versions (vb_sources b ! i) = 0"
    "\<And>i. r = Some i \<Longrightarrow> i \<in> set ix \<and> 0 < vs_remaining_versions (vb_sources b ! i)"
    using next_available_source_spec [OF assms] by blast
  show ?thesis
    by (rule that [OF n(1,2)]) (use n assms in \<open>auto simp: available_def\<close>)
qed

definition selection_ok :: "VersionWriteSourceBucket \<Rightarrow> bool \<Rightarrow> nat option \<Rightarrow> bool" where
  "selection_ok b is_latest r \<longleftrightarrow>
     (case r of
        None \<Rightarrow> \<forall>s \<in> set (vb_sources b). 0 < vs_remaining_versions s \<longrightarrow> is_latest \<and> \<not> source_active s
      | Some i \<Rightarrow> i < length (vb_sources b) \<and> 0 < vs_remaining_versions (vb_sources b ! i) \<and>
                  (is_latest \<longrightarrow> source_active (vb_sources b ! i)))"

lemma select_latest_spec:
  assumes wf: "bucket_wf b"
  shows "\<exists>b' r. select_source b True = Inr (b', r) \<and> bucket_wf b' \<and>
           vb_sources b' = vb_sources b \<and> selection_ok b True r"
proof -
  obtain ix r where ix: "next_available_source (vb_active b) (vb_sources b) = Inr (ix, r)"
      "set ix \<subseteq> set (vb_active b)" "set (vb_active b) \<inter> available b \<subseteq> set ix"
      "r = None \<Longrightarrow> set (vb_active b) \<inter> available b = {}"
      "\<And>i. r = Some i \<Longrightarrow> i \<in> set (vb_active b) \<inter> available b"
    using next_available_in_bucket [OF bucket_wf_bounds(1) [OF wf]] by blast
  have "selection_ok b True r"
  proof (cases r)
    case None
    with ix(4) have "set (vb_active b) \<inter> available b = {}" by blast
    with bucket_wf_exhausted(1) [OF wf] None show ?thesis unfolding selection_ok_def by auto
  next
    case (Some i)
    with ix(5) wf have "i \<in> available b" "source_active (vb_sources b ! i)"
      unfolding bucket_wf_def active_indices_active_def by blast+
    with Some show ?thesis by (simp add: selection_ok_def available_def)
  qed
  with ix(1) bucket_wf_narrow(1) [OF wf ix(2,3)] show ?thesis by (simp add: select_source_def)
qed

lemma select_earlier_spec:
  assumes wf: "bucket_wf b"
  shows "\<exists>b' r. select_source b False = Inr (b', r) \<and> bucket_wf b' \<and>
           vb_sources b' = vb_sources b \<and> selection_ok b False r"
proof -
  obtain ix r where ix: "next_available_source (vb_inactive b) (vb_sources b) = Inr (ix, r)"
      "set ix \<subseteq> set (vb_inactive b)" "set (vb_inactive b) \<inter> available b \<subseteq> set ix"
      "r = None \<Longrightarrow> set (vb_inactive b) \<inter> available b = {}"
      "\<And>i. r = Some i \<Longrightarrow> i \<in> set (vb_inactive b) \<inter> available b"
    using next_available_in_bucket [OF bucket_wf_bounds(2) [OF wf]] by blast
  have wf1: "bucket_wf (b\<lparr>vb_inactive := ix\<rparr>)" by (rule bucket_wf_narrow(2) [OF wf ix(2,3)])
  show ?thesis
  proof (cases r)
    case (Some i)
    with ix(5) have "i \<in> available b" by blast
    with Some have "selection_ok b False r" by (simp add: selection_ok_def available_def)
    with Some ix(1) wf1 show ?thesis by (simp add: select_source_def)
  next
    case None
    obtain iy q where iy: "next_available_source (vb_all b) (vb_sources b) = Inr (iy, q)"
        "set iy \<subseteq> set (vb_all b)" "set (vb_all b) \<inter> available b \<subseteq> set iy"
        "q = None \<Longrightarrow> set (vb_all b) \<inter> available b = {}"
        "\<And>i. q = Some i \<Longrightarrow> i \<in> set (vb_all b) \<inter> available b"
      using next_available_in_bucket [OF bucket_wf_bounds(3) [OF wf]] by blast
    have "selection_ok b False q"
    proof (cases q)
      case None
      with iy(4) have "set (vb_all b) \<inter> available b = {}" by blast
      with bucket_wf_exhausted(2) [OF wf] None show ?thesis unfolding selection_ok_def by auto
    next
      case (Some i)
      with iy(5) have "i \<in> available b" by blast
      with Some show ?thesis by (simp add: selection_ok_def available_def)
    qed
    moreover have "bucket_wf (b\<lparr>vb_inactive := ix, vb_all := iy\<rparr>)"
      using bucket_wf_narrow(3) [OF wf1, of iy] iy(2,3) by simp
    ultimately show ?thesis using None ix(1) iy(1) by (simp add: select_source_def)
  qed
qed

lemma select_source_spec:
  assumes "bucket_wf b"
  obtains b' r where "select_source b is_latest = Inr (b', r)" "bucket_wf b'"
    "vb_sources b' = vb_sources b" "selection_ok b is_latest r"
  using select_latest_spec [OF assms] select_earlier_spec [OF assms] by (cases is_latest) auto

lemma source_active_spend [simp]: "source_active (s\<lparr>vs_remaining_versions := n\<rparr>) = source_active s"
  by (simp add: source_active_def)

lemma bucket_wf_spend:
  assumes wf: "bucket_wf b" and i: "i < length (vb_sources b)"
  shows "bucket_wf (b\<lparr>vb_sources := (vb_sources b)
           [i := (vb_sources b ! i)\<lparr>vs_remaining_versions := vs_remaining_versions (vb_sources b ! i) - 1\<rparr>]\<rparr>)"
    (is "bucket_wf (b\<lparr>vb_sources := ?ss\<rparr>)")
proof -
  let ?b = "b\<lparr>vb_sources := ?ss\<rparr>"
  have act: "source_active (?ss ! j) = source_active (vb_sources b ! j)" for j
    using i by (cases "i = j") simp_all
  have "vs_remaining_versions (?ss ! j) \<le> vs_remaining_versions (vb_sources b ! j)" for j
    using i by (cases "i = j") simp_all
  then have "available ?b \<subseteq> available b"
    by (auto simp: available_def) (metis less_le_trans)
  then show ?thesis
    using wf act unfolding bucket_wf_def indices_bounded_def active_indices_active_def available_indexed_def
    by simp blast
qed

lemma bucket_budget_spend:
  assumes "i < length (vb_sources b)" "0 < vs_remaining_versions (vb_sources b ! i)"
  shows "bucket_budget b = Suc (bucket_budget (b\<lparr>vb_sources := (vb_sources b)
           [i := (vb_sources b ! i)\<lparr>vs_remaining_versions := vs_remaining_versions (vb_sources b ! i) - 1\<rparr>]\<rparr>))"
proof -
  let ?f = "map vs_remaining_versions (vb_sources b)"
  have "?f ! i \<le> sum_list ?f" using assms(1) by (intro member_le_sum_list) simp_all
  then show ?thesis
    using assms by (simp add: bucket_budget_def map_update sum_list_update)
qed

lemma take_source_spec:
  assumes wf: "index_wf ix"
  shows "\<exists>ix' m. take_source ix key actual is_latest = Inr (ix', m) \<and> index_wf ix' \<and>
     (\<forall>slot. index_budget ix slot =
        index_budget ix' slot + (if m \<noteq> None \<and> slot = (key, actual) then 1 else 0)) \<and>
     (m = None \<longrightarrow> (\<forall>s \<in> set (index_sources ix (key, actual)).
        0 < vs_remaining_versions s \<longrightarrow> is_latest \<and> \<not> source_active s)) \<and>
     (\<forall>v. m = Some v \<longrightarrow> aw_object (vm_attempt v) = actual \<and> (is_latest \<longrightarrow> vm_active v) \<and>
        (\<exists>s \<in> set (index_sources ix (key, actual)).
           vm_attempt v = vs_attempt s \<and> vm_active v = source_active s \<and> 0 < vs_remaining_versions s))"
proof (cases "fmlookup ix (key, actual)")
  case None
  then show ?thesis using wf by (simp add: take_source_def index_sources_def)
next
  case (Some b)
  with wf have b: "bucket_wf b" "\<forall>s \<in> set (vb_sources b). aw_object (vs_attempt s) = actual"
    by (auto simp: index_wf_def)
  obtain b' r where sel: "select_source b is_latest = Inr (b', r)" "bucket_wf b'"
      "vb_sources b' = vb_sources b" "selection_ok b is_latest r"
    using select_source_spec [OF b(1)] by blast
  show ?thesis
  proof (cases r)
    case None
    have "index_wf (fmupd (key, actual) b' ix)" using wf sel b by (simp add: index_wf_def)
    moreover have "index_budget (fmupd (key, actual) b' ix) slot = index_budget ix slot" for slot
      using Some sel(3) by (auto simp: index_budget_def bucket_budget_def)
    ultimately show ?thesis
      using Some sel None by (simp add: take_source_def index_sources_def selection_ok_def)
  next
    case (Some i)
    let ?s = "vb_sources b ! i"
    let ?b = "b'\<lparr>vb_sources := (vb_sources b')[i := ?s\<lparr>vs_remaining_versions := vs_remaining_versions ?s - 1\<rparr>]\<rparr>"
    have i: "i < length (vb_sources b)" "0 < vs_remaining_versions ?s" "is_latest \<longrightarrow> source_active ?s"
      using sel(4) Some by (simp_all add: selection_ok_def)
    have mem: "?s \<in> set (vb_sources b)" using i(1) by simp
    have "bucket_wf ?b" using bucket_wf_spend [OF sel(2), of i] i(1) sel(3) by simp
    moreover have "\<forall>s \<in> set (vb_sources ?b). aw_object (vs_attempt s) = actual"
      using b(2) mem sel(3) set_update_subset_insert by fastforce
    ultimately have "index_wf (fmupd (key, actual) ?b ix)" using wf by (simp add: index_wf_def)
    moreover have "bucket_budget b = Suc (bucket_budget ?b)"
      using bucket_budget_spend [of i b'] i sel(3) by (simp add: bucket_budget_def)
    ultimately show ?thesis
      using \<open>fmlookup ix (key, actual) = Some b\<close> sel Some i b(2) mem
      by (auto simp: take_source_def index_sources_def index_budget_def Let_def)
  qed
qed

text \<open>The request as the interface has it: a slot (key and content) and whether the version is latest.\<close>

definition take_slot ::
  "VersionWriteSourceIndex \<Rightarrow> (string \<times> ExpectedObject) \<times> bool
     \<Rightarrow> panic + (VersionWriteSourceIndex \<times> VersionWriteMatch option)" where
  "take_slot ix q = take_version_write_source ix (fst (fst q)) (snd (fst q)) (snd q)"

lemma take_slot_ok:
  assumes "index_wf ix" shows "\<exists>ix' m. take_slot ix q = Inr (ix', m) \<and> index_wf ix'"
  using take_source_spec [OF assms, of "fst (fst q)" "snd (fst q)" "snd q"]
  unfolding take_slot_def take_version_write_source_def by blast

lemma take_slot_budget:
  assumes "index_wf ix" "take_slot ix q = Inr (ix', m)"
  shows "index_budget ix slot = index_budget ix' slot + (if m \<noteq> None \<and> slot = fst q then 1 else 0)"
proof -
  obtain jx n where "take_slot ix q = Inr (jx, n)"
      "index_budget ix slot = index_budget jx slot + (if n \<noteq> None \<and> slot = fst q then 1 else 0)"
    using take_source_spec [OF assms(1), of "fst (fst q)" "snd (fst q)" "snd q"]
    unfolding take_slot_def take_version_write_source_def prod.collapse by blast
  with assms(2) show ?thesis by simp
qed

interpretation sources: budgeted_supply index_wf index_budget take_slot
  by unfold_locales (rule take_slot_ok take_slot_budget; assumption)+

subsection \<open>The initial index\<close>

lemma vb_sources_add [simp]: "vb_sources (bucket_add b s) = vb_sources b @ [s]"
  by (simp add: bucket_add_def Let_def)

lemma bucket_wf_add:
  assumes "bucket_wf b" shows "bucket_wf (bucket_add b s)"
proof -
  let ?n = "length (vb_sources b)"
  have old: "j < ?n \<Longrightarrow> (vb_sources b @ [s]) ! j = vb_sources b ! j" for j
    by (simp add: nth_append)
  have av: "available (bucket_add b s) = available b \<union> (if 0 < vs_remaining_versions s then {?n} else {})"
    by (auto simp: available_def nth_append less_Suc_eq split: if_splits)
  have act: "set (vb_active (bucket_add b s)) = set (vb_active b) \<union> (if source_active s then {?n} else {})"
    and inact: "set (vb_inactive (bucket_add b s)) = set (vb_inactive b) \<union> (if source_active s then {} else {?n})"
    and all: "set (vb_all (bucket_add b s)) = insert ?n (set (vb_all b))"
    by (simp_all add: bucket_add_def Let_def)
  have "indices_bounded (bucket_add b s)"
    using assms by (auto simp: bucket_wf_def indices_bounded_def act inact all)
  moreover have "active_indices_active (bucket_add b s)"
    using assms by (auto simp: bucket_wf_def active_indices_active_def indices_bounded_def act nth_append)
  moreover have "available_indexed (bucket_add b s)"
  proof -
    have ai: "available b \<subseteq> set (vb_all b)"
        "available b \<inter> {i. source_active (vb_sources b ! i)} \<subseteq> set (vb_active b)"
        "available b - {i. source_active (vb_sources b ! i)} \<subseteq> set (vb_inactive b)"
      using assms by (simp_all add: bucket_wf_def available_indexed_def)
    have low: "available b \<subseteq> {..<?n}" by (auto simp: available_def)
    have same: "available b \<inter> {i. source_active ((vb_sources b @ [s]) ! i)} =
        available b \<inter> {i. source_active (vb_sources b ! i)}"
      using low old by auto
    have "available (bucket_add b s) \<subseteq> set (vb_all (bucket_add b s))"
      unfolding av all using ai(1) by auto
    moreover have "available (bucket_add b s) \<inter> {i. source_active ((vb_sources b @ [s]) ! i)} \<subseteq>
        set (vb_active (bucket_add b s))"
      unfolding av act using ai(2) same by (auto split: if_splits)
    moreover have "available (bucket_add b s) - {i. source_active ((vb_sources b @ [s]) ! i)} \<subseteq>
        set (vb_inactive (bucket_add b s))"
      unfolding av inact using ai(3) same by (auto split: if_splits)
    ultimately show ?thesis by (simp add: available_indexed_def)
  qed
  ultimately show ?thesis by (simp add: bucket_wf_def)
qed

lemma bucket_wf_empty [simp]: "bucket_wf empty_bucket"
  by (simp add: bucket_wf_def indices_bounded_def active_indices_active_def available_indexed_def
      available_def empty_bucket_def)

lemma index_wf_add:
  assumes "index_wf ix" shows "index_wf (index_add k ix s)"
proof -
  let ?slot = "(k, aw_object (vs_attempt s))"
  have "bucket_wf (fm_values_at ix empty_bucket ?slot)"
    using assms by (simp add: fm_values_at_def index_wf_def split: option.split)
  moreover have "\<forall>q \<in> set (vb_sources (fm_values_at ix empty_bucket ?slot)). aw_object (vs_attempt q) = snd ?slot"
    using assms by (auto simp: fm_values_at_def index_wf_def empty_bucket_def split: option.splits)
  ultimately show ?thesis
    using assms by (auto simp: index_wf_def index_add_def Let_def bucket_wf_add)
qed

lemma index_wf_adds: "index_wf ix \<Longrightarrow> index_wf (foldl (index_add k) ix ss)"
  by (induction ss arbitrary: ix) (auto simp: index_wf_add)

lemma index_wf_entries:
  "index_wf ix \<Longrightarrow> index_wf (foldl (\<lambda>ix (k, ss). foldl (index_add k) ix ss) ix es)"
  by (induction es arbitrary: ix) (auto simp: index_wf_adds)

lemma from_sources_wf: "index_wf (from_sources m)"
  unfolding from_sources_def by (rule index_wf_entries) (simp add: index_wf_def)

abbreviation has_content :: "ExpectedObject \<Rightarrow> VersionWriteSource \<Rightarrow> bool" where
  "has_content obj s \<equiv> aw_object (vs_attempt s) = obj"

lemma index_sources_add:
  "index_sources (index_add k ix s) (k', obj) =
     index_sources ix (k', obj) @ (if k' = k \<and> has_content obj s then [s] else [])"
  by (auto simp: index_sources_def index_add_def fm_values_at_def bucket_add_def empty_bucket_def Let_def
      split: option.splits)

lemma index_sources_adds:
  "index_sources (foldl (index_add k) ix ss) (k', obj) =
     index_sources ix (k', obj) @ (if k' = k then filter (has_content obj) ss else [])"
  by (induction ss arbitrary: ix) (auto simp: index_sources_add)

lemma index_sources_entries:
  "index_sources (foldl (\<lambda>ix (k, ss). foldl (index_add k) ix ss) ix es) (k', obj) =
     index_sources ix (k', obj) @
     concat (map (\<lambda>(k, ss). if k' = k then filter (has_content obj) ss else []) es)"
  by (induction es arbitrary: ix) (auto simp: index_sources_adds)

lemma concat_single_key:
  "distinct ks \<Longrightarrow> concat (map (\<lambda>k. if k' = k then f k else []) ks) = (if k' \<in> set ks then f k' else [])"
  by (induction ks) auto

lemma index_sources_empty [simp]: "index_sources fmempty slot = []"
  by (simp add: index_sources_def)

lemma index_sources_from:
  "index_sources (from_sources m) (k, obj) = filter (has_content obj) (fm_values_at m [] k)"
proof -
  have "index_sources (from_sources m) (k, obj) =
      concat (map (\<lambda>k'. if k = k' then filter (has_content obj) (the (fmlookup m k')) else []) (fm_keys m))"
    by (simp add: from_sources_def index_sources_entries fm_entries_def comp_def)
  then show ?thesis
    by (simp add: concat_single_key fmlookup_dom'_iff fm_values_at_def split: option.splits)
qed

lemma index_budget_sources:
  "index_budget ix slot = sum_list (map vs_remaining_versions (index_sources ix slot))"
  by (simp add: index_budget_def index_sources_def bucket_budget_def split: option.splits)

subsection \<open>Properties\<close>


text \<open>
  However many uncommitted versions the checker asks to explain, it never
  explains more versions of one key and content than the recorded write attempts
  allow: the matches are bounded by the sum of the sources' retry budgets.
\<close>

theorem explained_versions_within_budget:
  "\<exists>t ms. run_requests take_slot (from_sources (om_version_write_sources (object_model rs))) qs = Inr (t, ms) \<and>
     length (filter (\<lambda>(q, m). m \<noteq> None \<and> fst q = (k, obj)) (zip qs ms)) \<le>
       sum_list (map vs_remaining_versions
         (filter (\<lambda>s. aw_object (vs_attempt s) = obj)
           (fm_values_at (om_version_write_sources (object_model rs)) [] k)))"
proof -
  let ?ix = "from_sources (om_version_write_sources (object_model rs))"
  obtain t ms where r: "run_requests take_slot ?ix qs = Inr (t, ms)"
    using sources.run_ok [OF from_sources_wf] by blast
  from sources.run_budget [OF from_sources_wf r, of "(k, obj)"]
  have "length (filter (\<lambda>(q, m). m \<noteq> None \<and> fst q = (k, obj)) (zip qs ms)) \<le> index_budget ?ix (k, obj)"
    by simp
  with r show ?thesis by (auto simp: index_budget_sources index_sources_from)
qed


end
