(* ===== verification/Verdict.thy ===== *)
theory Verdict
  imports Prelude
begin

text \<open>
  Failure classifications and failure summaries (\<open>src/src/fault/verdict.rs\<close>):
  the classification tables, the phase of a stage, the evidence artifacts a
  reader is pointed to, and the projection check every stored summary has to
  pass. The variants of \<open>RecoveryStabilityClassification\<close> keep their names;
  those of the other enumerations, which overlap, carry a two-letter prefix. The clock
  (\<open>now_ms\<close>) is an argument.
\<close>

subsection \<open>Enumerations\<close>

datatype RecoveryStabilityClassification =
    DataCorruption | CommittedObjectUnavailable | CommittedVersionMissing | CommittedVersionUnavailable
    | VersionHashMismatch | DeleteMarkerMissing | DeletedObjectResurrected | DeleteMarkerLineageIncomplete
    | VersionIdMissingOnCommittedWrite | MultipartUploadLineageIncomplete | ListUnavailableOrUnknown
    | ListedKeyUnreadable | UnexpectedListedObject | RecoveryTailReadLatency | AmbiguousWriteMaterialized
    | HarnessError

datatype FailureSeverity =
    Degraded | FailAvailability | FailCorrectness | Infra | NeedsInvestigation

datatype FailurePhase =
    PhPreflight | PhSetup | PhFaultInjection | PhWorkload | PhRecovery | PhChecker | PhCleanup | PhRunner

datatype ResponsibilityDomain =
    RdProduct | RdHarness | RdEnvironment | RdFaultBackend | RdUnknown

datatype DataCorrectnessStatus =
    DcPassed | DcFailed | DcUnknown

datatype AvailabilityStatus =
    AvRecoveredAfterTailLatency | AvCommittedObjectUnavailable | AvCommittedVersionUnavailable
    | AvListUnavailableOrUnknown | AvServiceDegraded | AvUnknown

datatype FailureClassification =
    FcRecoveryTailReadLatency | FcCommittedObjectUnavailable | FcCommittedVersionMissing
    | FcCommittedVersionUnavailable | FcVersionHashMismatch | FcDeleteMarkerMissing
    | FcDeletedObjectResurrected | FcDeleteMarkerLineageIncomplete | FcVersionIdMissingOnCommittedWrite
    | FcMultipartUploadLineageIncomplete | FcListUnavailableOrUnknown | FcListedKeyUnreadable
    | FcUnexpectedListedObject | FcDataCorruption | FcAmbiguousWriteMaterialized | FcQuorumViolation
    | FcRecoveryHealthDegraded | FcPostRecoveryWriteFailed | FcAvailabilityRegression | FcHarnessError
    | FcTestHarness | FcWorkloadExecutionError | FcArtifactValidationFailed | FcCheckerExecutionError
    | FcPreflightFailed | FcHealthGuardFailed | FcFaultBackendUnavailable | FcFaultNotActive
    | FcFaultNotRecovered | FcUnknown | FcCheckerOrEnvironment | FcTestOrEnvironment
    | FcEnvironmentOrFaultBackend | FcProductOrEnvironment | FcEnvironmentOrWorkload | FcWorkloadOrProduct
    | FcNoSignal | FcGracefulShutdownFailed

datatype FailureVerdict = VerdictFailed

subsection \<open>Names\<close>

definition all_classifications :: "FailureClassification list" where
  "all_classifications =
     [FcRecoveryTailReadLatency, FcCommittedObjectUnavailable, FcCommittedVersionMissing
     , FcCommittedVersionUnavailable, FcVersionHashMismatch, FcDeleteMarkerMissing, FcDeletedObjectResurrected
     , FcDeleteMarkerLineageIncomplete, FcVersionIdMissingOnCommittedWrite, FcMultipartUploadLineageIncomplete
     , FcListUnavailableOrUnknown, FcListedKeyUnreadable, FcUnexpectedListedObject, FcDataCorruption
     , FcAmbiguousWriteMaterialized, FcQuorumViolation, FcRecoveryHealthDegraded, FcPostRecoveryWriteFailed
     , FcAvailabilityRegression, FcHarnessError, FcTestHarness, FcWorkloadExecutionError
     , FcArtifactValidationFailed, FcCheckerExecutionError, FcPreflightFailed, FcHealthGuardFailed
     , FcFaultBackendUnavailable, FcFaultNotActive, FcFaultNotRecovered, FcUnknown, FcCheckerOrEnvironment
     , FcTestOrEnvironment, FcEnvironmentOrFaultBackend, FcProductOrEnvironment, FcEnvironmentOrWorkload
     , FcWorkloadOrProduct, FcNoSignal, FcGracefulShutdownFailed]"

fun as_str :: "FailureClassification \<Rightarrow> string" where
  "as_str FcRecoveryTailReadLatency = ''recovery_tail_read_latency''"
| "as_str FcCommittedObjectUnavailable = ''committed_object_unavailable''"
| "as_str FcCommittedVersionMissing = ''committed_version_missing''"
| "as_str FcCommittedVersionUnavailable = ''committed_version_unavailable''"
| "as_str FcVersionHashMismatch = ''version_hash_mismatch''"
| "as_str FcDeleteMarkerMissing = ''delete_marker_missing''"
| "as_str FcDeletedObjectResurrected = ''deleted_object_resurrected''"
| "as_str FcDeleteMarkerLineageIncomplete = ''delete_marker_lineage_incomplete''"
| "as_str FcVersionIdMissingOnCommittedWrite = ''version_id_missing_on_committed_write''"
| "as_str FcMultipartUploadLineageIncomplete = ''multipart_upload_lineage_incomplete''"
| "as_str FcListUnavailableOrUnknown = ''list_unavailable_or_unknown''"
| "as_str FcListedKeyUnreadable = ''listed_key_unreadable''"
| "as_str FcUnexpectedListedObject = ''unexpected_listed_object''"
| "as_str FcDataCorruption = ''data_corruption''"
| "as_str FcAmbiguousWriteMaterialized = ''ambiguous_write_materialized''"
| "as_str FcQuorumViolation = ''quorum_violation''"
| "as_str FcRecoveryHealthDegraded = ''recovery_health_degraded''"
| "as_str FcPostRecoveryWriteFailed = ''post_recovery_write_failed''"
| "as_str FcAvailabilityRegression = ''availability_regression''"
| "as_str FcHarnessError = ''harness_error''"
| "as_str FcTestHarness = ''test_harness''"
| "as_str FcWorkloadExecutionError = ''workload_execution_error''"
| "as_str FcArtifactValidationFailed = ''artifact_validation_failed''"
| "as_str FcCheckerExecutionError = ''checker_execution_error''"
| "as_str FcPreflightFailed = ''preflight_failed''"
| "as_str FcHealthGuardFailed = ''health_guard_failed''"
| "as_str FcFaultBackendUnavailable = ''fault_backend_unavailable''"
| "as_str FcFaultNotActive = ''fault_not_active''"
| "as_str FcFaultNotRecovered = ''fault_not_recovered''"
| "as_str FcUnknown = ''unknown''"
| "as_str FcCheckerOrEnvironment = ''checker_or_environment''"
| "as_str FcTestOrEnvironment = ''test_or_environment''"
| "as_str FcEnvironmentOrFaultBackend = ''environment_or_fault_backend''"
| "as_str FcProductOrEnvironment = ''product_or_environment''"
| "as_str FcEnvironmentOrWorkload = ''environment_or_workload''"
| "as_str FcWorkloadOrProduct = ''workload_or_product''"
| "as_str FcNoSignal = ''no_signal''"
| "as_str FcGracefulShutdownFailed = ''graceful_shutdown_failed''"

definition from_name :: "string \<Rightarrow> FailureClassification option" where
  "from_name name = find (\<lambda>c. as_str c = name) all_classifications"

definition is_s3_model :: "FailureClassification \<Rightarrow> bool" where
  "is_s3_model c \<longleftrightarrow> c \<in>
     {FcRecoveryTailReadLatency, FcCommittedObjectUnavailable, FcCommittedVersionMissing
     , FcCommittedVersionUnavailable, FcVersionHashMismatch, FcDeleteMarkerMissing, FcDeletedObjectResurrected
     , FcDeleteMarkerLineageIncomplete, FcVersionIdMissingOnCommittedWrite, FcMultipartUploadLineageIncomplete
     , FcListUnavailableOrUnknown, FcListedKeyUnreadable, FcUnexpectedListedObject, FcDataCorruption
     , FcAmbiguousWriteMaterialized}"

fun responsibility_domain :: "FailureClassification \<Rightarrow> ResponsibilityDomain" where
  "responsibility_domain FcRecoveryTailReadLatency = RdProduct"
| "responsibility_domain FcCommittedObjectUnavailable = RdProduct"
| "responsibility_domain FcCommittedVersionMissing = RdProduct"
| "responsibility_domain FcCommittedVersionUnavailable = RdProduct"
| "responsibility_domain FcVersionHashMismatch = RdProduct"
| "responsibility_domain FcDeleteMarkerMissing = RdProduct"
| "responsibility_domain FcDeletedObjectResurrected = RdProduct"
| "responsibility_domain FcDeleteMarkerLineageIncomplete = RdProduct"
| "responsibility_domain FcVersionIdMissingOnCommittedWrite = RdProduct"
| "responsibility_domain FcMultipartUploadLineageIncomplete = RdProduct"
| "responsibility_domain FcListUnavailableOrUnknown = RdProduct"
| "responsibility_domain FcListedKeyUnreadable = RdProduct"
| "responsibility_domain FcUnexpectedListedObject = RdProduct"
| "responsibility_domain FcDataCorruption = RdProduct"
| "responsibility_domain FcAmbiguousWriteMaterialized = RdProduct"
| "responsibility_domain FcQuorumViolation = RdProduct"
| "responsibility_domain FcRecoveryHealthDegraded = RdProduct"
| "responsibility_domain FcPostRecoveryWriteFailed = RdProduct"
| "responsibility_domain FcAvailabilityRegression = RdProduct"
| "responsibility_domain FcGracefulShutdownFailed = RdProduct"
| "responsibility_domain FcHarnessError = RdHarness"
| "responsibility_domain FcTestHarness = RdHarness"
| "responsibility_domain FcWorkloadExecutionError = RdHarness"
| "responsibility_domain FcArtifactValidationFailed = RdHarness"
| "responsibility_domain FcCheckerExecutionError = RdHarness"
| "responsibility_domain FcPreflightFailed = RdEnvironment"
| "responsibility_domain FcHealthGuardFailed = RdEnvironment"
| "responsibility_domain FcFaultBackendUnavailable = RdFaultBackend"
| "responsibility_domain FcFaultNotActive = RdFaultBackend"
| "responsibility_domain FcFaultNotRecovered = RdFaultBackend"
| "responsibility_domain FcUnknown = RdUnknown"
| "responsibility_domain FcCheckerOrEnvironment = RdUnknown"
| "responsibility_domain FcTestOrEnvironment = RdUnknown"
| "responsibility_domain FcEnvironmentOrFaultBackend = RdUnknown"
| "responsibility_domain FcProductOrEnvironment = RdUnknown"
| "responsibility_domain FcEnvironmentOrWorkload = RdUnknown"
| "responsibility_domain FcWorkloadOrProduct = RdUnknown"
| "responsibility_domain FcNoSignal = RdUnknown"

fun severity :: "FailureClassification \<Rightarrow> FailureSeverity" where
  "severity FcRecoveryTailReadLatency = Degraded"
| "severity FcCommittedObjectUnavailable = FailAvailability"
| "severity FcCommittedVersionUnavailable = FailAvailability"
| "severity FcListUnavailableOrUnknown = FailAvailability"
| "severity FcRecoveryHealthDegraded = FailAvailability"
| "severity FcPostRecoveryWriteFailed = FailAvailability"
| "severity FcAvailabilityRegression = FailAvailability"
| "severity FcGracefulShutdownFailed = FailAvailability"
| "severity FcCommittedVersionMissing = FailCorrectness"
| "severity FcVersionHashMismatch = FailCorrectness"
| "severity FcDeleteMarkerMissing = FailCorrectness"
| "severity FcDeletedObjectResurrected = FailCorrectness"
| "severity FcListedKeyUnreadable = FailCorrectness"
| "severity FcUnexpectedListedObject = FailCorrectness"
| "severity FcDataCorruption = FailCorrectness"
| "severity FcQuorumViolation = FailCorrectness"
| "severity FcHarnessError = Infra"
| "severity FcTestHarness = Infra"
| "severity FcTestOrEnvironment = Infra"
| "severity FcEnvironmentOrFaultBackend = Infra"
| "severity FcAmbiguousWriteMaterialized = NeedsInvestigation"
| "severity FcDeleteMarkerLineageIncomplete = NeedsInvestigation"
| "severity FcVersionIdMissingOnCommittedWrite = NeedsInvestigation"
| "severity FcMultipartUploadLineageIncomplete = NeedsInvestigation"
| "severity FcWorkloadExecutionError = NeedsInvestigation"
| "severity FcArtifactValidationFailed = NeedsInvestigation"
| "severity FcCheckerExecutionError = NeedsInvestigation"
| "severity FcPreflightFailed = NeedsInvestigation"
| "severity FcHealthGuardFailed = NeedsInvestigation"
| "severity FcFaultBackendUnavailable = NeedsInvestigation"
| "severity FcFaultNotActive = NeedsInvestigation"
| "severity FcFaultNotRecovered = NeedsInvestigation"
| "severity FcUnknown = NeedsInvestigation"
| "severity FcCheckerOrEnvironment = NeedsInvestigation"
| "severity FcProductOrEnvironment = NeedsInvestigation"
| "severity FcEnvironmentOrWorkload = NeedsInvestigation"
| "severity FcWorkloadOrProduct = NeedsInvestigation"
| "severity FcNoSignal = NeedsInvestigation"

subsection \<open>Checker classifications\<close>

fun of_recovery_classification :: "RecoveryStabilityClassification \<Rightarrow> FailureClassification" where
  "of_recovery_classification DataCorruption = FcDataCorruption"
| "of_recovery_classification CommittedObjectUnavailable = FcCommittedObjectUnavailable"
| "of_recovery_classification CommittedVersionMissing = FcCommittedVersionMissing"
| "of_recovery_classification CommittedVersionUnavailable = FcCommittedVersionUnavailable"
| "of_recovery_classification VersionHashMismatch = FcVersionHashMismatch"
| "of_recovery_classification DeleteMarkerMissing = FcDeleteMarkerMissing"
| "of_recovery_classification DeletedObjectResurrected = FcDeletedObjectResurrected"
| "of_recovery_classification DeleteMarkerLineageIncomplete = FcDeleteMarkerLineageIncomplete"
| "of_recovery_classification VersionIdMissingOnCommittedWrite = FcVersionIdMissingOnCommittedWrite"
| "of_recovery_classification MultipartUploadLineageIncomplete = FcMultipartUploadLineageIncomplete"
| "of_recovery_classification ListUnavailableOrUnknown = FcListUnavailableOrUnknown"
| "of_recovery_classification ListedKeyUnreadable = FcListedKeyUnreadable"
| "of_recovery_classification UnexpectedListedObject = FcUnexpectedListedObject"
| "of_recovery_classification RecoveryTailReadLatency = FcRecoveryTailReadLatency"
| "of_recovery_classification AmbiguousWriteMaterialized = FcAmbiguousWriteMaterialized"
| "of_recovery_classification HarnessError = FcHarnessError"

definition recovery_as_str :: "RecoveryStabilityClassification \<Rightarrow> string" where
  "recovery_as_str c = as_str (of_recovery_classification c)"

definition from_classification_evidence :: "string \<Rightarrow> RecoveryStabilityClassification option" where
  "from_classification_evidence evidence =
     (if prefix ''missing_committed_version:'' evidence
        then Some CommittedVersionMissing
      else if prefix ''unavailable_committed_version:'' evidence
        then Some CommittedVersionUnavailable
      else if prefix ''version_hash_mismatch:'' evidence
        then Some VersionHashMismatch
      else if prefix ''missing_committed_delete_marker:'' evidence
        then Some DeleteMarkerMissing
      else if prefix ''resurrected_deleted_object:'' evidence
        then Some DeletedObjectResurrected
      else if prefix ''delete_marker_lineage_incomplete:'' evidence
        then Some DeleteMarkerLineageIncomplete
      else if prefix ''committed_write_missing_version_id:'' evidence \<or>
        prefix ''committed_writes_missing_version_id_count:'' evidence
        then Some VersionIdMissingOnCommittedWrite
      else if prefix ''multipart_upload_lineage_incomplete:'' evidence
        then Some MultipartUploadLineageIncomplete
      else if prefix ''listed_key_unreadable:'' evidence
        then Some ListedKeyUnreadable
      else if prefix ''unexpected_listed_object:'' evidence
        then Some UnexpectedListedObject
      else None)"

definition matches_classification_evidence :: "RecoveryStabilityClassification \<Rightarrow> string \<Rightarrow> bool" where
  "matches_classification_evidence c evidence \<longleftrightarrow> from_classification_evidence evidence = Some c"

subsection \<open>Details of a classification\<close>

record FailureClassificationDetails =
  fd_data_correctness :: DataCorrectnessStatus
  fd_availability :: AvailabilityStatus
  fd_data_loss :: "bool option"
  fd_corruption :: "bool option"
  fd_recovered_within_window :: "bool option"

definition details ::
  "DataCorrectnessStatus \<Rightarrow> AvailabilityStatus \<Rightarrow> bool option \<Rightarrow> bool option \<Rightarrow> bool option
     \<Rightarrow> FailureClassificationDetails" where
  "details dc av loss corrupt recovered =
     \<lparr>fd_data_correctness = dc, fd_availability = av, fd_data_loss = loss, fd_corruption = corrupt,
      fd_recovered_within_window = recovered\<rparr>"

fun details_of :: "FailureClassification \<Rightarrow> FailureClassificationDetails" where
  "details_of FcRecoveryTailReadLatency = details DcPassed AvRecoveredAfterTailLatency (Some False) (Some False) (Some True)"
| "details_of FcCommittedObjectUnavailable = details DcUnknown AvCommittedObjectUnavailable None (Some False) (Some False)"
| "details_of FcCommittedVersionMissing = details DcFailed AvUnknown (Some True) (Some False) (Some False)"
| "details_of FcCommittedVersionUnavailable = details DcUnknown AvCommittedVersionUnavailable None (Some False) (Some False)"
| "details_of FcVersionHashMismatch = details DcFailed AvUnknown (Some False) (Some True) None"
| "details_of FcDeleteMarkerMissing = details DcFailed AvUnknown (Some False) (Some True) None"
| "details_of FcDeletedObjectResurrected = details DcFailed AvUnknown (Some False) (Some True) None"
| "details_of FcListedKeyUnreadable = details DcFailed AvUnknown (Some False) (Some True) None"
| "details_of FcUnexpectedListedObject = details DcFailed AvUnknown (Some False) (Some True) None"
| "details_of FcRecoveryHealthDegraded = details DcUnknown AvServiceDegraded None (Some False) (Some False)"
| "details_of FcPostRecoveryWriteFailed = details DcUnknown AvServiceDegraded None (Some False) (Some False)"
| "details_of FcAvailabilityRegression = details DcUnknown AvServiceDegraded None (Some False) (Some False)"
| "details_of FcGracefulShutdownFailed = details DcUnknown AvServiceDegraded None (Some False) (Some False)"
| "details_of FcDeleteMarkerLineageIncomplete = details DcUnknown AvUnknown None (Some False) None"
| "details_of FcVersionIdMissingOnCommittedWrite = details DcUnknown AvUnknown None (Some False) None"
| "details_of FcMultipartUploadLineageIncomplete = details DcUnknown AvUnknown None (Some False) None"
| "details_of FcListUnavailableOrUnknown = details DcUnknown AvListUnavailableOrUnknown None (Some False) (Some False)"
| "details_of FcQuorumViolation = details DcFailed AvUnknown None None None"
| "details_of FcDataCorruption = details DcFailed AvUnknown None (Some True) None"
| "details_of FcAmbiguousWriteMaterialized = details DcUnknown AvUnknown None (Some False) None"
| "details_of FcHarnessError = details DcUnknown AvUnknown None None None"
| "details_of FcTestHarness = details DcUnknown AvUnknown None None None"
| "details_of FcTestOrEnvironment = details DcUnknown AvUnknown None None None"
| "details_of FcEnvironmentOrFaultBackend = details DcUnknown AvUnknown None None None"
| "details_of FcWorkloadExecutionError = details DcUnknown AvUnknown None None None"
| "details_of FcArtifactValidationFailed = details DcUnknown AvUnknown None None None"
| "details_of FcCheckerExecutionError = details DcUnknown AvUnknown None None None"
| "details_of FcPreflightFailed = details DcUnknown AvUnknown None None None"
| "details_of FcHealthGuardFailed = details DcUnknown AvUnknown None None None"
| "details_of FcFaultBackendUnavailable = details DcUnknown AvUnknown None None None"
| "details_of FcFaultNotActive = details DcUnknown AvUnknown None None None"
| "details_of FcFaultNotRecovered = details DcUnknown AvUnknown None None None"
| "details_of FcUnknown = details DcUnknown AvUnknown None None None"
| "details_of FcCheckerOrEnvironment = details DcUnknown AvUnknown None None None"
| "details_of FcProductOrEnvironment = details DcUnknown AvUnknown None None None"
| "details_of FcEnvironmentOrWorkload = details DcUnknown AvUnknown None None None"
| "details_of FcWorkloadOrProduct = details DcUnknown AvUnknown None None None"
| "details_of FcNoSignal = details DcUnknown AvUnknown None None None"

subsection \<open>Phases and evidence\<close>

definition from_stage :: "string \<Rightarrow> FailurePhase" where
  "from_stage stage =
     (if stage \<in>
          {''scenario'', ''fault-backend-preflight'', ''fault-backend-pre-cleanup''}
        then PhPreflight
      else if stage \<in>
          {''fixture-prepare'', ''tenant-ready-before-fault'', ''pod-stability-before-fault''
          , ''initial-s3-access'', ''s3-endpoint'', ''s3-client'', ''bucket-create'', ''prefill''
          , ''pod-identity-before-fault''}
        then PhSetup
      else if stage \<in>
          {''fault-apply'', ''wait-active'', ''fault-snapshot-active'', ''active-snapshot-failed''
          , ''quorum-fault-activation''}
        then PhFaultInjection
      else if stage \<in>
          {''s3-access-under-fault'', ''warp-workload'', ''mixed-workload'', ''split-brain-s3-probe''
          , ''post-warp-s3-access'', ''post-warp-port-forward-failed'', ''fault-evidence''
          , ''workload-no-fault-evidence'', ''fault-still-active'', ''workload-outlived-fault''
          , ''fault-snapshot-after-workload'', ''after-workload-snapshot-failed''}
        then PhWorkload
      else if stage \<in>
          {''fault-delete''}
        then PhCleanup
      else if stage \<in>
          {''tenant-recovery'', ''pod-stability-after-recovery'', ''s3-access-after-recovery''
          , ''recovery-health'', ''recovery-evidence'', ''fault-recovery-recheck'', ''post-recovery-write''
          , ''split-brain-probe-recovery'', ''recommit-unconfirmed''}
        then PhRecovery
      else if stage \<in>
          {''availability-endpoint'', ''availability-read-probe'', ''availability''}
        then PhWorkload
      else if stage \<in>
          {''checker-pre-recommit'', ''checker-pre-recommit-verdict'', ''checker-final'', ''checker-verdict''}
        then PhChecker
      else if str_contains stage ''preflight'' then PhPreflight
      else if prefix ''checker'' stage \<or> suffix ''-verdict'' stage then PhChecker
      else if str_contains stage ''cleanup'' \<or> suffix ''-delete'' stage then PhCleanup
      else PhRunner)"

definition push_unique :: "string list \<Rightarrow> string \<Rightarrow> string list" where
  "push_unique refs artifact = (if artifact \<in> set refs then refs else refs @ [artifact])"

text \<open>The artifacts the \<open>match phase\<close> of \<open>primary_evidence_refs_for\<close> pushes, in order.\<close>

definition phase_evidence :: "string \<Rightarrow> FailurePhase \<Rightarrow> string list" where
  "phase_evidence stage phase =
        (if phase = PhRecovery \<and> stage = ''split-brain-probe-recovery'' then
           [''network-split-brain.json'', ''network-split-brain-recovery-history.jsonl'', ''fault-evidence.json'']
         else if phase = PhWorkload \<and> stage = ''split-brain-s3-probe'' then
           [''network-split-brain.json'', ''network-split-brain-s3-history.jsonl'', ''target-proof.json'']
         else if phase = PhFaultInjection \<and> stage = ''quorum-fault-activation'' then
           [''quorum-fault-activation.json'', ''target-proof.json'']
         else if phase = PhChecker then
           (if stage = ''checker-pre-recommit''
            then [''recovery-stability-report.json'', ''checker-pre-recommit-error.txt'']
            else if str_contains stage ''pre-recommit''
            then [''recovery-stability-report.json'', ''checker-pre-recommit-report.json'']
            else if stage = ''checker-final'' then [''checker-final-error.txt'']
            else [''checker-report.json'']) @ [''fault-evidence.json'']
         else if phase = PhRecovery \<and> stage = ''recommit-unconfirmed'' then [''fault-evidence.json'']
         else if phase = PhRecovery \<and> stage = ''recovery-health'' then
           [''recovery-health.json'', ''fault-evidence.json'']
         else if phase = PhRecovery \<and> stage = ''post-recovery-write'' then
           [''post-recovery-write-report.json'', ''post-recovery-write-history.jsonl'']
         else if phase = PhWorkload \<and> (stage = ''availability-read-probe'' \<or> stage = ''availability'') then
           [''availability-report.json'', ''workload-summary.json'']
         else [])"

definition primary_evidence_refs_for :: "string \<Rightarrow> FailurePhase \<Rightarrow> string list" where
  "primary_evidence_refs_for stage phase =
     (let refs = foldl push_unique [] (phase_evidence stage phase)
      in take 5 (push_unique refs ''run-events.jsonl''))"

subsection \<open>Failure summaries\<close>

record FailureV2Projection =
  fp_s3_model_classification :: "string option"
  fp_run_failure_reason :: "string option"
  fp_responsibility_domain :: ResponsibilityDomain

definition projection_of :: "FailureClassification \<Rightarrow> FailureV2Projection" where
  "projection_of c =
     (if is_s3_model c
      then \<lparr>fp_s3_model_classification = Some (as_str c), fp_run_failure_reason = None,
            fp_responsibility_domain = RdProduct\<rparr>
      else \<lparr>fp_s3_model_classification = None, fp_run_failure_reason = Some (as_str c),
            fp_responsibility_domain = responsibility_domain c\<rparr>)"

definition domain_of_name :: "string \<Rightarrow> ResponsibilityDomain" where
  "domain_of_name name = (case map_option responsibility_domain (from_name name) of None \<Rightarrow> RdUnknown | Some d \<Rightarrow> d)"

record FailureSummary =
  su_schema_version :: nat
  su_scenario :: string
  su_run_id :: "string option"
  su_case_name :: "string option"
  su_observed_at_ms :: "nat option"
  su_stage :: string
  su_phase :: "FailurePhase option"
  su_verdict :: FailureVerdict
  su_severity :: FailureSeverity
  su_classification :: string
  su_s3_model_classification :: "string option"
  su_run_failure_reason :: "string option"
  su_responsibility_domain :: "ResponsibilityDomain option"
  su_data_correctness :: DataCorrectnessStatus
  su_availability :: AvailabilityStatus
  su_primary_evidence_refs :: "string list"
  su_evidence_classifications :: "string list"
  su_final_list_warning_count :: nat
  su_list_warnings :: "string list"
  su_data_loss :: "bool option"
  su_corruption :: "bool option"
  su_recovered_within_window :: "bool option"
  su_recovered_within_seconds :: "nat option"
  su_message :: string

datatype summary_error = UnknownClassification | ContradictsClassification string | NotInAllowlist string

definition validate_classification_projection :: "FailureSummary \<Rightarrow> summary_error + unit" where
  "validate_classification_projection s =
     context_or (from_name (su_classification s)) UnknownClassification (\<lambda>c.
       let d = details_of c in
       ensure (su_severity s = severity c
               \<and> su_data_correctness s = fd_data_correctness d
               \<and> su_availability s = fd_availability d
               \<and> su_data_loss s = fd_data_loss d
               \<and> su_corruption s = fd_corruption d
               \<and> su_recovered_within_window s = fd_recovered_within_window d)
         (ContradictsClassification (su_classification s))
       (Inr ()))"

definition summary_of_classification ::
  "nat \<Rightarrow> string \<Rightarrow> string \<Rightarrow> FailureClassification \<Rightarrow> string \<Rightarrow> FailureSummary" where
  "summary_of_classification now_ms scenario stage c message =
     (let d = details_of c; phase = from_stage stage; projection = projection_of c in
      \<lparr>su_schema_version = 2, su_scenario = scenario, su_run_id = None, su_case_name = None,
       su_observed_at_ms = Some now_ms, su_stage = stage, su_phase = Some phase,
       su_verdict = VerdictFailed, su_severity = severity c, su_classification = as_str c,
       su_s3_model_classification = fp_s3_model_classification projection,
       su_run_failure_reason = fp_run_failure_reason projection,
       su_responsibility_domain = Some (fp_responsibility_domain projection),
       su_data_correctness = fd_data_correctness d, su_availability = fd_availability d,
       su_primary_evidence_refs = primary_evidence_refs_for stage phase,
       su_evidence_classifications = [], su_final_list_warning_count = 0, su_list_warnings = [],
       su_data_loss = fd_data_loss d, su_corruption = fd_corruption d,
       su_recovered_within_window = fd_recovered_within_window d,
       su_recovered_within_seconds = None, su_message = message\<rparr>)"

definition summary_new ::
  "nat \<Rightarrow> string \<Rightarrow> string \<Rightarrow> string \<Rightarrow> string \<Rightarrow> summary_error + FailureSummary" where
  "summary_new now_ms scenario stage name message =
     context_or (from_name name) (NotInAllowlist name) (\<lambda>c.
       Inr (summary_of_classification now_ms scenario stage c message))"

definition summary_from_checker ::
  "nat \<Rightarrow> string \<Rightarrow> string \<Rightarrow> RecoveryStabilityClassification \<Rightarrow> string \<Rightarrow> FailureSummary" where
  "summary_from_checker now_ms scenario stage rc message =
     (let c = of_recovery_classification rc
      in (summary_of_classification now_ms scenario stage c message)
           \<lparr>su_evidence_classifications := [as_str c]\<rparr>)"

definition with_run_id :: "FailureSummary \<Rightarrow> string \<Rightarrow> FailureSummary" where
  "with_run_id s run_id = s\<lparr>su_run_id := Some run_id\<rparr>"

definition with_case_name :: "FailureSummary \<Rightarrow> string \<Rightarrow> FailureSummary" where
  "with_case_name s case_name = (if su_case_name s = None then s\<lparr>su_case_name := Some case_name\<rparr> else s)"

definition with_recovered_within_seconds :: "FailureSummary \<Rightarrow> nat option \<Rightarrow> FailureSummary" where
  "with_recovered_within_seconds s seconds = s\<lparr>su_recovered_within_seconds := seconds\<rparr>"

definition with_evidence_classifications :: "FailureSummary \<Rightarrow> string list \<Rightarrow> FailureSummary" where
  "with_evidence_classifications s cs = s\<lparr>su_evidence_classifications := sort_dedup cs\<rparr>"

definition with_list_warnings :: "FailureSummary \<Rightarrow> nat \<Rightarrow> string list \<Rightarrow> FailureSummary" where
  "with_list_warnings s warning_count warnings =
     s\<lparr>su_final_list_warning_count := warning_count, su_list_warnings := sort_dedup warnings\<rparr>"

subsection \<open>Names are unique\<close>

lemma set_all_classifications [simp]: "c \<in> set all_classifications"
  by (cases c) (simp_all add: all_classifications_def)

lemma distinct_names: "distinct (map as_str all_classifications)"
  by (simp add: all_classifications_def)

lemma as_str_inject [simp]: "as_str c = as_str d \<longleftrightarrow> c = d"
proof -
  have "inj_on as_str (set all_classifications)" using distinct_names by (simp only: distinct_map)
  then show ?thesis by (rule inj_on_eq_iff) simp_all
qed

lemma find_unique: "x \<in> set xs \<Longrightarrow> (\<And>y. P y \<longleftrightarrow> y = x) \<Longrightarrow> find P xs = Some x"
  by (induction xs) auto

lemma from_name_as_str [simp]: "from_name (as_str c) = Some c"
  unfolding from_name_def by (rule find_unique) simp_all

lemma from_name_Some: "from_name name = Some c \<Longrightarrow> as_str c = name"
  by (auto simp: from_name_def find_Some_iff)

text \<open>
  A stored classification name denotes exactly one classification:
  \<open>from_name\<close> inverts \<open>as_str\<close> on every variant and accepts no other string.
\<close>

theorem from_name_inverts_as_str: "from_name name = Some c \<longleftrightarrow> name = as_str c"
  using from_name_Some by auto

subsection \<open>Evidence prefixes\<close>

fun evidence_prefixes :: "RecoveryStabilityClassification \<Rightarrow> string list" where
  "evidence_prefixes CommittedVersionMissing = [''missing_committed_version:'']"
| "evidence_prefixes CommittedVersionUnavailable = [''unavailable_committed_version:'']"
| "evidence_prefixes VersionHashMismatch = [''version_hash_mismatch:'']"
| "evidence_prefixes DeleteMarkerMissing = [''missing_committed_delete_marker:'']"
| "evidence_prefixes DeletedObjectResurrected = [''resurrected_deleted_object:'']"
| "evidence_prefixes DeleteMarkerLineageIncomplete = [''delete_marker_lineage_incomplete:'']"
| "evidence_prefixes VersionIdMissingOnCommittedWrite =
     [''committed_write_missing_version_id:'', ''committed_writes_missing_version_id_count:'']"
| "evidence_prefixes MultipartUploadLineageIncomplete = [''multipart_upload_lineage_incomplete:'']"
| "evidence_prefixes ListedKeyUnreadable = [''listed_key_unreadable:'']"
| "evidence_prefixes UnexpectedListedObject = [''unexpected_listed_object:'']"
| "evidence_prefixes _ = []"

lemma evidence_prefix_exclusive:
  assumes "prefix p e" "prefix q e" shows "prefix p q \<or> prefix q p"
  using assms prefix_same_cases by blast

lemma prefix_append_exclusive: "prefix p (q @ e) \<Longrightarrow> prefix p q \<or> prefix q p"
  by (metis prefix_def prefix_same_cases)

text \<open>
  Evidence strings are classified by their prefix alone: the order of the
  tests in \<open>from_classification_evidence\<close> does not matter, because no evidence
  string can match the prefixes of two classifications.
\<close>

theorem from_classification_evidence_iff:
  "from_classification_evidence e = Some c \<longleftrightarrow> (\<exists>p \<in> set (evidence_prefixes c). prefix p e)"
proof -
  have excl: "prefix p e \<Longrightarrow> prefix q e \<Longrightarrow> \<not> prefix p q \<Longrightarrow> \<not> prefix q p \<Longrightarrow> False" for p q
    using evidence_prefix_exclusive by blast
  show ?thesis
    by (cases c) (auto simp: from_classification_evidence_def dest: excl split: if_splits)
qed

subsection \<open>Summaries\<close>

lemma validate_of_classification [simp]:
  "validate_classification_projection (summary_of_classification now scenario stage c message) = Inr ()"
  by (simp add: validate_classification_projection_def summary_of_classification_def Let_def)

lemma validate_builders [simp]:
  "validate_classification_projection (with_run_id s r) = validate_classification_projection s"
  "validate_classification_projection (with_case_name s n) = validate_classification_projection s"
  "validate_classification_projection (with_recovered_within_seconds s t) = validate_classification_projection s"
  "validate_classification_projection (with_evidence_classifications s cs) = validate_classification_projection s"
  "validate_classification_projection (with_list_warnings s wc ws) = validate_classification_projection s"
  by (simp_all add: validate_classification_projection_def with_run_id_def with_case_name_def
      with_recovered_within_seconds_def with_evidence_classifications_def with_list_warnings_def)

text \<open>
  The writer and the reader of failure summaries agree: \<open>new\<close> rejects a
  name outside the allowlist, and every summary it builds, with any later
  annotation by the builder methods, passes \<open>validate_classification_projection\<close>.
\<close>

theorem summary_new_validates:
  "case summary_new now scenario stage name message of
     Inl e \<Rightarrow> e = NotInAllowlist name \<and> name \<notin> range as_str
   | Inr s \<Rightarrow> su_classification s = name \<and>
       validate_classification_projection
         (with_list_warnings (with_evidence_classifications (with_recovered_within_seconds
            (with_case_name (with_run_id s r) n) t) cs) wc ws) = Inr ()"
proof (cases "from_name name")
  case None
  then have "name \<notin> range as_str" by (metis from_name_as_str imageE option.distinct(1))
  with None show ?thesis by (simp add: summary_new_def)
next
  case (Some c)
  then show ?thesis
    using from_name_Some by (simp add: summary_new_def) (simp add: summary_of_classification_def Let_def)
qed

lemma details_consistent:
  "fd_data_correctness (details_of c) = DcFailed \<longleftrightarrow> severity c = FailCorrectness"
  "fd_data_correctness (details_of c) = DcPassed \<longleftrightarrow> severity c = Degraded"
  "fd_data_loss (details_of c) = Some True \<longrightarrow> severity c = FailCorrectness"
  "fd_corruption (details_of c) = Some True \<longrightarrow> severity c = FailCorrectness"
  "severity c = FailAvailability \<longrightarrow> fd_recovered_within_window (details_of c) = Some False \<and>
     fd_availability (details_of c) \<notin> {AvUnknown, AvRecoveredAfterTailLatency}"
  "severity c = Infra \<longrightarrow> responsibility_domain c \<notin> {RdProduct}"
  by (cases c; simp add: details_def)+

text \<open>
  A summary that passes the projection check tells one story: data
  correctness has failed exactly at severity \<open>FailCorrectness\<close> and has passed
  only at severity \<open>Degraded\<close>; reported loss or corruption is a correctness
  failure; an availability failure names what was unavailable and did not
  recover in the window.
\<close>

theorem validated_summary_consistent:
  assumes "validate_classification_projection s = Inr ()"
  shows "(su_data_correctness s = DcFailed \<longleftrightarrow> su_severity s = FailCorrectness) \<and>
    (su_data_correctness s = DcPassed \<longleftrightarrow> su_severity s = Degraded) \<and>
    (su_data_loss s = Some True \<or> su_corruption s = Some True \<longrightarrow> su_severity s = FailCorrectness) \<and>
    (su_severity s = FailAvailability \<longrightarrow> su_recovered_within_window s = Some False \<and>
       su_availability s \<notin> {AvUnknown, AvRecoveredAfterTailLatency})"
proof -
  obtain c where "su_severity s = severity c" "su_data_correctness s = fd_data_correctness (details_of c)"
      "su_availability s = fd_availability (details_of c)" "su_data_loss s = fd_data_loss (details_of c)"
      "su_corruption s = fd_corruption (details_of c)"
      "su_recovered_within_window s = fd_recovered_within_window (details_of c)"
    using assms by (auto simp: validate_classification_projection_def Let_def)
  then show ?thesis using details_consistent [of c] by simp
qed

theorem validated_summary_witness:
  "su_severity (summary_from_checker 0 ''eio'' ''checker-final'' DataCorruption ''m'') = FailCorrectness \<and>
   su_data_correctness (summary_from_checker 0 ''eio'' ''checker-final'' DataCorruption ''m'') = DcFailed"
proof -
  let ?s = "summary_from_checker 0 ''eio'' ''checker-final'' DataCorruption ''m''"
  have "validate_classification_projection ?s = Inr ()"
    by (simp add: summary_from_checker_def validate_classification_projection_def
        summary_of_classification_def Let_def del: as_str.simps)
  from validated_summary_consistent [OF this]
  show ?thesis by (simp add: summary_from_checker_def summary_of_classification_def Let_def)
qed

lemma distinct_push_unique: "distinct refs \<Longrightarrow> distinct (push_unique refs a)"
  by (simp add: push_unique_def)

lemma distinct_pushes: "distinct refs \<Longrightarrow> distinct (foldl push_unique refs as)"
  by (induction "as" arbitrary: refs) (auto intro: distinct_push_unique)

lemma length_pushes: "length (foldl push_unique refs as) \<le> length refs + length as"
proof (induction "as" arbitrary: refs)
  case (Cons a as)
  show ?case using Cons.IH [of "push_unique refs a"] by (auto simp: push_unique_def split: if_splits)
qed simp

lemma mem_push_unique [simp]: "a \<in> set (push_unique refs a)"
  by (simp add: push_unique_def)

lemma length_phase_evidence: "length (phase_evidence stage phase) \<le> 3"
  unfolding phase_evidence_def by (simp split: if_split)

text \<open>
  The evidence references of a summary are at most five, without
  repetition, and always include the run's event log: the truncation never
  drops it.
\<close>

theorem primary_evidence_refs_bounded:
  "length (primary_evidence_refs_for stage phase) \<le> 5 \<and>
   distinct (primary_evidence_refs_for stage phase) \<and>
   ''run-events.jsonl'' \<in> set (primary_evidence_refs_for stage phase)"
proof -
  let ?as = "phase_evidence stage phase"
  have "length (push_unique (foldl push_unique [] ?as) ''run-events.jsonl'') \<le> 4"
    using length_pushes [of "[]" ?as] length_phase_evidence [of stage phase] by (simp add: push_unique_def)
  then show ?thesis
    using distinct_pushes [of "[]" ?as]
    by (simp add: primary_evidence_refs_for_def Let_def distinct_push_unique)
qed

end
