(* ===== verification/Read_Failure.thy ===== *)
theory Read_Failure
  imports History
begin

text \<open>
  Evidence of failed committed reads (\<open>src/src/fault/checker/read_failure.rs\<close>
  and \<open>read_failure_message\<close> of \<open>checker.rs\<close>): structured evidence, the legacy
  one-line message, and the parser that reads the legacy message back. What the
  source uses of \<open>u16::from_str\<close> is \<open>parse_u16\<close>.
\<close>

subsection \<open>Messages\<close>

definition debug_outcome :: "OperationOutcome \<Rightarrow> string" where
  "debug_outcome outcome = (case outcome of
     Ok \<Rightarrow> ''Ok'' | NotFound \<Rightarrow> ''NotFound'' | Failed \<Rightarrow> ''Failed'' | Timeout \<Rightarrow> ''Timeout''
   | Unknown \<Rightarrow> ''Unknown'')"

definition read_failure_message ::
  "string \<Rightarrow> OperationOutcome \<Rightarrow> nat option \<Rightarrow> string option \<Rightarrow> string" where
  "read_failure_message key outcome http_status error =
     (let status = (case http_status of None \<Rightarrow> [] | Some s \<Rightarrow> '' status='' @ show_nat s);
          error = (case error of None \<Rightarrow> [] | Some e \<Rightarrow> '' error='' @ debug_str e)
      in key @ '': outcome='' @ debug_outcome outcome @ status @ error)"

subsection \<open>Structured evidence\<close>

datatype CommittedReadFailure =
    Observed string OperationOutcome "nat option" "string option" "nat option"
  | Legacy string

record ReadFailureEvidence =
  rf_key :: string
  rf_outcome :: OperationOutcome
  rf_http_status :: "nat option"
  rf_error :: "string option"

definition READ_FAILURE_MARKER :: string where
  "READ_FAILURE_MARKER = '': outcome=''"

definition UNEXPECTED_BODY_MARKER :: string where
  "UNEXPECTED_BODY_MARKER = '': unexpected body for ''"

subsection \<open>The legacy parser\<close>

definition is_digit :: "char \<Rightarrow> bool" where
  "is_digit c \<longleftrightarrow> 48 \<le> (of_char c :: nat) \<and> (of_char c :: nat) \<le> 57"

definition parse_u16 :: "string \<Rightarrow> nat option" where
  "parse_u16 s =
     (let ds = (case s of [] \<Rightarrow> [] | c # cs \<Rightarrow> if c = CHR ''+'' then cs else s)
      in if ds \<noteq> [] \<and> list_all is_digit ds \<and> digits_val ds < 65536 then Some (digits_val ds) else None)"

definition strip_prefix :: "string \<Rightarrow> string \<Rightarrow> string option" where
  "strip_prefix s p = (if prefix p s then Some (drop (length p) s) else None)"

text \<open>\<open>split_once(' ').map_or((s, ""), ..)\<close>.\<close>

definition split_space :: "string \<Rightarrow> string \<times> string" where
  "split_space s = (case split_once s '' '' of None \<Rightarrow> (s, []) | Some p \<Rightarrow> p)"

definition parse_outcome :: "string \<Rightarrow> OperationOutcome option" where
  "parse_outcome s =
     (if s = ''Ok'' then Some Ok else if s = ''NotFound'' then Some NotFound
      else if s = ''Failed'' then Some Failed else if s = ''Timeout'' then Some Timeout
      else if s = ''Unknown'' then Some Unknown else None)"

definition parse_status :: "string \<Rightarrow> (nat option \<times> string) option" where
  "parse_status remaining =
     (case strip_prefix remaining ''status='' of
        None \<Rightarrow> Some (None, remaining)
      | Some status_and_remaining \<Rightarrow>
          (let (status, rest) = split_space status_and_remaining
           in map_option (\<lambda>n. (Some n, rest)) (parse_u16 status)))"

definition parse_error :: "string \<Rightarrow> string option option" where
  "parse_error remaining =
     (if remaining = [] then Some None
      else map_option (\<lambda>error. if error = [] then None else Some error) (strip_prefix remaining ''error=''))"

definition parse_legacy_read_failure :: "string \<Rightarrow> ReadFailureEvidence option" where
  "parse_legacy_read_failure message =
     (if match_count message READ_FAILURE_MARKER \<noteq> 1 \<or> str_contains message UNEXPECTED_BODY_MARKER then None
      else Option.bind (split_once message READ_FAILURE_MARKER) (\<lambda>(key, fields).
        if key = [] then None
        else (let (outcome, remaining) = split_space fields
              in Option.bind (parse_outcome outcome) (\<lambda>outcome.
                 Option.bind (parse_status remaining) (\<lambda>(http_status, remaining).
                 Option.bind (parse_error remaining) (\<lambda>error.
                   Some \<lparr>rf_key = key, rf_outcome = outcome, rf_http_status = http_status, rf_error = error\<rparr>))))))"

definition legacy_read_failure_key :: "string \<Rightarrow> string option" where
  "legacy_read_failure_key message =
     (case parse_legacy_read_failure message of
        Some parsed \<Rightarrow> Some (rf_key parsed)
      | None \<Rightarrow>
          if match_count message UNEXPECTED_BODY_MARKER \<noteq> 1 \<or> str_contains message READ_FAILURE_MARKER then None
          else Option.bind (split_once message UNEXPECTED_BODY_MARKER) (\<lambda>(key, detail).
            if key \<noteq> []
               \<and> list_ex (\<lambda>outcome. prefix outcome detail) [''Ok'', ''NotFound'', ''Failed'', ''Timeout'', ''Unknown'']
               \<and> suffix '' bytes)'' detail
            then Some key else None))"

definition failure_key :: "CommittedReadFailure \<Rightarrow> string option" where
  "failure_key f = (case f of
     Observed key _ _ _ _ \<Rightarrow> if key \<noteq> [] then Some key else None
   | Legacy message \<Rightarrow> legacy_read_failure_key message)"

definition failure_evidence :: "CommittedReadFailure \<Rightarrow> ReadFailureEvidence option" where
  "failure_evidence f = (case f of
     Observed key outcome http_status error unexpected_body_bytes \<Rightarrow>
       if unexpected_body_bytes = None \<and> key \<noteq> []
       then Some \<lparr>rf_key = key, rf_outcome = outcome, rf_http_status = http_status, rf_error = error\<rparr>
       else None
   | Legacy message \<Rightarrow> parse_legacy_read_failure message)"

subsection \<open>Splitting at a marker that occurs once\<close>

definition borderless :: "string \<Rightarrow> bool" where
  "borderless p \<longleftrightarrow> (\<forall>b. prefix b p \<and> suffix b p \<longrightarrow> b = [] \<or> b = p)"

lemma match_count_contains: "p \<noteq> [] \<Longrightarrow> 0 < match_count (k @ p @ r) p"
proof (induction k)
  case Nil
  then show ?case by (cases p) simp_all
next
  case (Cons c k)
  then show ?case by simp
qed

lemma split_once_here: "p \<noteq> [] \<Longrightarrow> split_once (p @ r) p = Some ([], r)"
  by (cases p) simp_all

lemma overlap_border:
  assumes "prefix p (k @ p @ r)" "length k < length p" "k \<noteq> []"
  shows "\<not> borderless p"
proof -
  obtain b where b: "p = k @ b"
    using assms by (metis append_eq_append_conv2 append_eq_append_conv_if nat_less_le prefix_def take_append)
  have "prefix b (p @ r)" using assms(1) by (simp add: b)
  moreover have "length b \<le> length p" by (simp add: b)
  ultimately have "prefix b p" by (metis prefix_length_prefix prefixI)
  moreover have "suffix b p" using b by (simp add: suffix_def)
  moreover have "b \<noteq> []" "b \<noteq> p" using assms b by auto
  ultimately show ?thesis by (auto simp: borderless_def)
qed

lemma split_once_unique:
  assumes "borderless p" "p \<noteq> []"
  shows "match_count (k @ p @ r) p = 1 \<Longrightarrow> split_once (k @ p @ r) p = Some (k, r)"
proof (induction k)
  case Nil
  then show ?case using assms split_once_here by simp
next
  case (Cons c k)
  have "\<not> prefix p ((c # k) @ p @ r)"
  proof
    assume pre: "prefix p ((c # k) @ p @ r)"
    then have len: "length p \<le> length (c # k)"
      using overlap_border [OF pre] assms(1) by fastforce
    have "drop (length p) ((c # k) @ p @ r) = drop (length p) (c # k) @ p @ r"
      using len by (simp only: drop_append) simp
    then have "match_count ((c # k) @ p @ r) p = Suc (match_count (drop (length p) (c # k) @ p @ r) p)"
      using pre assms(2) by simp
    with Cons.prems match_count_contains [OF assms(2), of "drop (length p) (c # k)" r] show False
      by linarith
  qed
  then show ?case using Cons by simp
qed

lemma borderless_marker: "borderless READ_FAILURE_MARKER"
proof -
  have "b = [] \<or> b = READ_FAILURE_MARKER"
    if pre: "prefix b READ_FAILURE_MARKER" and suf: "suffix b READ_FAILURE_MARKER" for b
  proof (cases b)
    case (Cons c d)
    with pre have "c = CHR '':''" by (simp add: READ_FAILURE_MARKER_def)
    with suf Cons show ?thesis by (auto simp: READ_FAILURE_MARKER_def suffix_Cons)
  qed simp
  then show ?thesis by (auto simp: borderless_def)
qed

subsection \<open>Reading fields back\<close>

lemma is_digit_digit_char [simp]: "d < 10 \<Longrightarrow> is_digit (digit_char d)"
  by (simp add: is_digit_def)

lemma show_nat_digits: "list_all is_digit (show_nat n)"
proof (induction n rule: show_nat.induct)
  case (1 n)
  then show ?case by (cases "n < 10") (simp_all add: show_nat.simps [of n])
qed

lemma show_nat_nonempty [simp]: "show_nat n \<noteq> []"
  by (simp add: show_nat.simps [of n])

lemma hd_show_nat: "hd (show_nat n) \<noteq> CHR ''+''"
proof -
  have "is_digit (hd (show_nat n))"
    using show_nat_digits [of n] by (cases "show_nat n") simp_all
  then show ?thesis by (auto simp: is_digit_def)
qed

lemma parse_u16_show_nat: "n < 65536 \<Longrightarrow> parse_u16 (show_nat n) = Some n"
  using show_nat_digits [of n] hd_show_nat [of n] digits_val_show_nat [of n]
  by (cases "show_nat n") (auto simp: parse_u16_def Let_def)

lemma split_space_none: "CHR '' '' \<notin> set s \<Longrightarrow> split_space s = (s, [])"
proof -
  assume "CHR '' '' \<notin> set s"
  then have "split_once s '' '' = None" by (induction s) auto
  then show ?thesis by (simp add: split_space_def)
qed

lemma split_space_first: "CHR '' '' \<notin> set s \<Longrightarrow> split_space (s @ CHR '' '' # t) = (s, t)"
proof -
  assume "CHR '' '' \<notin> set s"
  then have "split_once (s @ CHR '' '' # t) '' '' = Some (s, t)" by (induction s) auto
  then show ?thesis by (simp add: split_space_def)
qed

lemma show_nat_no_space [simp]: "CHR '' '' \<notin> set (show_nat n)"
  using show_nat_digits [of n] by (auto simp: list_all_iff is_digit_def)

lemma debug_outcome_no_space [simp]: "CHR '' '' \<notin> set (debug_outcome oc)"
  by (cases oc) (simp_all add: debug_outcome_def)

lemma parse_debug_outcome [simp]: "parse_outcome (debug_outcome oc) = Some oc"
  by (cases oc) (simp_all add: parse_outcome_def debug_outcome_def)

lemma debug_str_nonempty [simp]: "debug_str e \<noteq> []"
  by (simp add: debug_str_def)

text \<open>The fields after the outcome, without the leading blank.\<close>

definition status_and_error :: "nat option \<Rightarrow> string option \<Rightarrow> string" where
  "status_and_error http_status error =
     join_strings '' '' ((case http_status of None \<Rightarrow> [] | Some s \<Rightarrow> [''status='' @ show_nat s]) @
                         (case error of None \<Rightarrow> [] | Some e \<Rightarrow> [''error='' @ debug_str e]))"

lemma split_fields:
  "split_space (debug_outcome oc @ (case st of None \<Rightarrow> [] | Some s \<Rightarrow> '' status='' @ show_nat s) @
     (case er of None \<Rightarrow> [] | Some e \<Rightarrow> '' error='' @ debug_str e)) = (debug_outcome oc, status_and_error st er)"
  by (auto simp: status_and_error_def split_space_none split_space_first split: option.splits)

lemma parse_fields:
  assumes "\<And>s. st = Some s \<Longrightarrow> s < 65536"
  shows "Option.bind (parse_status (status_and_error st er)) (\<lambda>(st', remaining).
           Option.bind (parse_error remaining) (\<lambda>er'. f st' er')) = f st (map_option debug_str er)"
proof (cases st)
  case None
  then show ?thesis
    by (cases er) (simp_all add: status_and_error_def parse_status_def parse_error_def strip_prefix_def)
next
  case (Some s)
  then have "s < 65536" using assms by simp
  with Some show ?thesis
    by (cases er) (simp_all add: status_and_error_def parse_status_def parse_error_def strip_prefix_def
        parse_u16_show_nat split_space_none split_space_first Let_def)
qed

text \<open>
  The parser of legacy read failures inverts the message the checker
  writes: whenever the marker occurs once in it and the other marker does not
  occur, key, outcome and status come back exactly, and the error comes back as
  it was printed.
\<close>

theorem legacy_read_failure_roundtrip:
  assumes "key \<noteq> []" and "\<And>s. http_status = Some s \<Longrightarrow> s < 65536"
    and "match_count (read_failure_message key outcome http_status error) READ_FAILURE_MARKER = 1"
    and "\<not> str_contains (read_failure_message key outcome http_status error) UNEXPECTED_BODY_MARKER"
  shows "parse_legacy_read_failure (read_failure_message key outcome http_status error) =
    Some \<lparr>rf_key = key, rf_outcome = outcome, rf_http_status = http_status,
          rf_error = map_option debug_str error\<rparr>"
proof -
  let ?fields = "debug_outcome outcome @ (case http_status of None \<Rightarrow> [] | Some s \<Rightarrow> '' status='' @ show_nat s) @
     (case error of None \<Rightarrow> [] | Some e \<Rightarrow> '' error='' @ debug_str e)"
  let ?m = "read_failure_message key outcome http_status error"
  have msg: "?m = key @ READ_FAILURE_MARKER @ ?fields"
    by (simp add: read_failure_message_def READ_FAILURE_MARKER_def Let_def)
  have "split_once ?m READ_FAILURE_MARKER = Some (key, ?fields)"
    unfolding msg by (rule split_once_unique [OF borderless_marker])
      (use assms(3) msg in \<open>simp_all add: READ_FAILURE_MARKER_def\<close>)
  then show ?thesis
    using assms split_fields [of outcome http_status error]
    by (simp add: parse_legacy_read_failure_def parse_fields Let_def)
qed

theorem legacy_read_failure_witness:
  "parse_legacy_read_failure ''k: outcome=Timeout status=503'' =
     Some \<lparr>rf_key = ''k'', rf_outcome = Timeout, rf_http_status = Some 503, rf_error = None\<rparr>"
proof -
  have m: "read_failure_message ''k'' Timeout (Some 503) None = ''k: outcome=Timeout status=503''"
    by (simp add: read_failure_message_def debug_outcome_def show_nat.simps digit_char_def char_of_def bit_0)
  have "parse_legacy_read_failure (read_failure_message ''k'' Timeout (Some 503) None) =
    Some \<lparr>rf_key = ''k'', rf_outcome = Timeout, rf_http_status = Some 503, rf_error = map_option debug_str None\<rparr>"
    by (rule legacy_read_failure_roundtrip)
      (simp_all add: m READ_FAILURE_MARKER_def UNEXPECTED_BODY_MARKER_def str_contains_def sublist_code)
  then show ?thesis by (simp add: m)
qed

end
