(* ===== verification/Workload_Plan.thy ===== *)
theory Workload_Plan
  imports Prelude
begin

text \<open>
  The workload generator (\<open>src/src/fault/workload.rs\<close>): the SplitMix64 generator
  at 64 bits, the payload bytes of an object, the shuffled plan of object sizes,
  the operation mix, the choice of existing objects, and the upper bound on the
  bytes a mixed workload may write. \<open>usize\<close> is 64 bits wide. Where the code would panic
  (index, division by zero, overflow of an unchecked sum) the model returns the
  panic; \<open>u64::from\<close> and the sums of at most eight weights below 101 are \<open>nat\<close>.
\<close>

unbundle bit_operations_syntax

subsection \<open>SplitMix64\<close>

definition mix64 :: "64 word \<Rightarrow> 64 word" where
  "mix64 value =
     (let value = (value XOR drop_bit 30 value) * 0xBF58476D1CE4E5B9;
          value = (value XOR drop_bit 27 value) * 0x94D049BB133111EB
      in value XOR drop_bit 31 value)"

text \<open>\<open>next_u64\<close>: the output and the new state.\<close>

definition next_u64 :: "64 word \<Rightarrow> 64 word \<times> 64 word" where
  "next_u64 state = (let state = state + 0x9E3779B97F4A7C15 in (mix64 state, state))"

definition to_le_bytes :: "64 word \<Rightarrow> bytes" where
  "to_le_bytes w = map (\<lambda>k. ucast (drop_bit (8 * k) w)) [0..<8]"

function fill_chunks :: "nat \<Rightarrow> 64 word \<Rightarrow> bytes" where
  "fill_chunks size_bytes state =
     (if size_bytes = 0 then []
      else case next_u64 state of (value, state) \<Rightarrow>
        take (min 8 size_bytes) (to_le_bytes value) @ fill_chunks (size_bytes - 8) state)"
  by pat_completeness auto
termination
  by (relation "measure fst") auto

declare fill_chunks.simps [simp del]

definition seeded_bytes :: "64 word \<Rightarrow> nat \<Rightarrow> nat \<Rightarrow> bytes" where
  "seeded_bytes seed index size_bytes =
     fill_chunks size_bytes (seed XOR (of_nat index * 0xD6E8FEB86659FD93))"

subsection \<open>Shuffling\<close>

text \<open>\<open>for index in (1..len).rev()\<close>: the argument counts the remaining indices.\<close>

fun shuffle_from :: "nat \<Rightarrow> 64 word \<Rightarrow> nat list \<Rightarrow> nat list" where
  "shuffle_from 0 state sizes = sizes"
| "shuffle_from (Suc index) state sizes =
     (case next_u64 state of (value, state) \<Rightarrow>
        let index' = Suc index; swap_with = unat (value mod (of_nat index' + 1))
        in shuffle_from index state
             (sizes[index' := sizes ! swap_with, swap_with := sizes ! index']))"

definition shuffle_sizes :: "nat list \<Rightarrow> 64 word \<Rightarrow> nat list" where
  "shuffle_sizes sizes seed = shuffle_from (length sizes - 1) (seed XOR 0xA0761D6478BD642F) sizes"

subsection \<open>Operation mix\<close>

record WorkloadOperationMix =
  mx_put :: nat
  mx_overwrite :: nat
  mx_get :: nat
  mx_list :: nat
  mx_delete :: nat
  mx_multipart :: nat

datatype WorkloadOperation = WoPut | WoOverwrite | WoGet | WoList | WoDelete | WoMultipart

datatype workload_error =
    WeightOutOfRange string
  | EmptyDistribution
  | TooManyClasses
  | ClassSizeOutOfRange
  | ClassWeightOutOfRange
  | ObjectPercentOutOfRange
  | OperationPercentOutOfRange
  | RangeExceedsObjectCount
  | OverwriteWithoutPrefill
  | BoundOverflow
  | UnsupportedGenerator string
  | ConcurrencyOutOfRange
  | DistributionOverflow
  | ObjectCountMismatch
  | EmptySizeClass
  | PayloadMismatch
  | Panicked panic

definition weights :: "WorkloadOperationMix \<Rightarrow> (string \<times> nat) list" where
  "weights mix = [(''put'', mx_put mix), (''overwrite'', mx_overwrite mix), (''get'', mx_get mix),
     (''list'', mx_list mix), (''delete'', mx_delete mix), (''multipart'', mx_multipart mix)]"

definition validate_mix :: "WorkloadOperationMix \<Rightarrow> workload_error + unit" where
  "validate_mix mix =
     fold_res (\<lambda>_ (name, value). ensure (1 \<le> value \<and> value \<le> 100) (WeightOutOfRange name) (Inr ())) () (weights mix)"

definition total_weight :: "WorkloadOperationMix \<Rightarrow> nat" where
  "total_weight mix =
     mx_put mix + mx_overwrite mix + mx_get mix + mx_list mix + mx_delete mix + mx_multipart mix"

definition operation_at :: "WorkloadOperationMix \<Rightarrow> nat \<Rightarrow> panic + WorkloadOperation" where
  "operation_at mix offset =
     (if total_weight mix = 0 then Inl DivisionByZero
      else Inr (let slot = offset mod total_weight mix; cursor = mx_put mix in
        if slot < cursor then WoPut
        else let cursor = cursor + mx_overwrite mix in if slot < cursor then WoOverwrite
        else let cursor = cursor + mx_get mix in if slot < cursor then WoGet
        else let cursor = cursor + mx_list mix in if slot < cursor then WoList
        else let cursor = cursor + mx_delete mix in if slot < cursor then WoDelete
        else WoMultipart))"

subsection \<open>Payload distribution\<close>

record WorkloadSizeClass =
  sc_size_bytes :: nat
  sc_object_count :: nat

record WorkloadPayloadClass =
  pc_size_bytes :: nat
  pc_weight :: nat

type_synonym WorkloadPayloadDistribution = "WorkloadPayloadClass list"

definition validate_class :: "WorkloadPayloadClass \<Rightarrow> workload_error + unit" where
  "validate_class c =
     ensure (1 \<le> pc_size_bytes c \<and> pc_size_bytes c \<le> 64 * 1024 * 1024) ClassSizeOutOfRange
     (ensure (1 \<le> pc_weight c \<and> pc_weight c \<le> 100) ClassWeightOutOfRange (Inr ()))"

definition validate_distribution :: "WorkloadPayloadDistribution \<Rightarrow> workload_error + unit" where
  "validate_distribution classes =
     ensure (classes \<noteq> []) EmptyDistribution
     (ensure (length classes \<le> 8) TooManyClasses
     (fold_res (\<lambda>_. validate_class) () classes))"

definition default_distribution :: WorkloadPayloadDistribution where
  "default_distribution =
     [\<lparr>pc_size_bytes = 4 * 1024, pc_weight = 85\<rparr>,
      \<lparr>pc_size_bytes = 16 * 1024, pc_weight = 10\<rparr>,
      \<lparr>pc_size_bytes = 8 * 1024 * 1024, pc_weight = 4\<rparr>,
      \<lparr>pc_size_bytes = 16 * 1024 * 1024, pc_weight = 1\<rparr>]"

definition saturating_mul :: "nat \<Rightarrow> nat \<Rightarrow> nat" where
  "saturating_mul a b = min (a * b) usize_max"

definition saturating_add :: "nat \<Rightarrow> nat \<Rightarrow> nat" where
  "saturating_add a b = min (a + b) usize_max"

text \<open>The loop over the classes; the last class takes what is left.\<close>

fun assign_classes ::
  "nat \<Rightarrow> nat \<Rightarrow> nat \<Rightarrow> WorkloadPayloadClass list \<Rightarrow> panic + WorkloadSizeClass list" where
  "assign_classes object_count total_w assigned [] = Inr []"
| "assign_classes object_count total_w assigned [c] =
     Inr [\<lparr>sc_size_bytes = pc_size_bytes c, sc_object_count = object_count - assigned\<rparr>]"
| "assign_classes object_count total_w assigned (c # d # cs) =
     (if total_w = 0 then Inl DivisionByZero
      else (let n = saturating_mul object_count (pc_weight c) div total_w in
            res_bind (assign_classes object_count total_w (saturating_add assigned n) (d # cs)) (\<lambda>rest.
              Inr (\<lparr>sc_size_bytes = pc_size_bytes c, sc_object_count = n\<rparr> # rest))))"

definition to_size_distribution ::
  "WorkloadPayloadDistribution \<Rightarrow> nat \<Rightarrow> panic + WorkloadSizeClass list" where
  "to_size_distribution classes object_count =
     assign_classes object_count (sum_list (map pc_weight classes)) 0 classes"

subsection \<open>The plan\<close>

record WorkloadHotspot =
  wh_object_percent :: nat
  wh_operation_percent :: nat

definition validate_hotspot :: "WorkloadHotspot \<Rightarrow> workload_error + unit" where
  "validate_hotspot h =
     ensure (1 \<le> wh_object_percent h \<and> wh_object_percent h \<le> 100) ObjectPercentOutOfRange
     (ensure (1 \<le> wh_operation_percent h \<and> wh_operation_percent h \<le> 100) OperationPercentOutOfRange (Inr ()))"

record WorkloadPlan =
  wp_seed :: "64 word"
  wp_generator :: string
  wp_object_count :: nat
  wp_concurrency :: nat
  wp_operation_mix :: WorkloadOperationMix
  wp_total_payload_bytes :: nat
  wp_size_distribution :: "WorkloadSizeClass list"
  wp_hotspot :: "WorkloadHotspot option"
  wp_sizes :: "nat list"

definition GENERATOR :: string where
  "GENERATOR = ''splitmix64-v1''"

definition expand_sizes :: "WorkloadSizeClass list \<Rightarrow> nat list" where
  "expand_sizes classes = concat (map (\<lambda>c. replicate (sc_object_count c) (sc_size_bytes c)) classes)"

definition seeded_unchecked ::
  "64 word \<Rightarrow> nat \<Rightarrow> nat \<Rightarrow> WorkloadOperationMix \<Rightarrow> WorkloadPayloadDistribution option \<Rightarrow> WorkloadHotspot option
     \<Rightarrow> panic + WorkloadPlan" where
  "seeded_unchecked seed object_count concurrency mix payload_distribution hotspot =
     (let payload_distribution = (case payload_distribution of None \<Rightarrow> default_distribution | Some d \<Rightarrow> d) in
      res_bind (to_size_distribution payload_distribution object_count) (\<lambda>size_distribution.
        let sizes = shuffle_sizes (expand_sizes size_distribution) seed in
        if sum_list sizes > usize_max then Inl ArithmeticOverflow
        else Inr \<lparr>wp_seed = seed, wp_generator = GENERATOR, wp_object_count = object_count,
                  wp_concurrency = concurrency, wp_operation_mix = mix, wp_total_payload_bytes = sum_list sizes,
                  wp_size_distribution = size_distribution, wp_hotspot = hotspot, wp_sizes = sizes\<rparr>))"

definition lift_panic :: "panic + 'a \<Rightarrow> workload_error + 'a" where
  "lift_panic r = (case r of Inl p \<Rightarrow> Inl (Panicked p) | Inr v \<Rightarrow> Inr v)"

definition validate_option :: "('a \<Rightarrow> workload_error + unit) \<Rightarrow> 'a option \<Rightarrow> workload_error + unit" where
  "validate_option check x = (case x of None \<Rightarrow> Inr () | Some v \<Rightarrow> check v)"

definition seeded_with_profile ::
  "64 word \<Rightarrow> nat \<Rightarrow> nat \<Rightarrow> WorkloadOperationMix \<Rightarrow> WorkloadPayloadDistribution option \<Rightarrow> WorkloadHotspot option
     \<Rightarrow> workload_error + WorkloadPlan" where
  "seeded_with_profile seed object_count concurrency mix payload_distribution hotspot =
     res_bind (validate_mix mix) (\<lambda>_.
     res_bind (validate_option validate_distribution payload_distribution) (\<lambda>_.
     res_bind (validate_option validate_hotspot hotspot) (\<lambda>_.
       lift_panic (seeded_unchecked seed object_count concurrency mix payload_distribution hotspot))))"

definition size_at :: "WorkloadPlan \<Rightarrow> nat \<Rightarrow> panic + nat" where
  "size_at plan index = (if index < length (wp_sizes plan) then Inr (wp_sizes plan ! index) else Inl IndexOutOfBounds)"

definition div_ceil :: "nat \<Rightarrow> nat \<Rightarrow> nat" where
  "div_ceil a b = (a + b - 1) div b"

definition MULTIPART_PART_SIZE_BYTES :: nat where
  "MULTIPART_PART_SIZE_BYTES = 5 * 1024 * 1024"

definition multipart_part_count_at :: "WorkloadPlan \<Rightarrow> nat \<Rightarrow> panic + nat" where
  "multipart_part_count_at plan index =
     res_bind (size_at plan index) (\<lambda>size. Inr (div_ceil (max size 1) MULTIPART_PART_SIZE_BYTES))"

definition existing_object_offset :: "WorkloadPlan \<Rightarrow> nat \<Rightarrow> nat \<Rightarrow> panic + nat" where
  "existing_object_offset plan offset existing_count =
     (case wp_hotspot plan of
        None \<Rightarrow> if existing_count = 0 then Inl DivisionByZero else Inr (offset mod existing_count)
      | Some hotspot \<Rightarrow>
          if existing_count < 1 then Inl AssertionFailed
          else (let scaled = saturating_add (saturating_mul existing_count (wh_object_percent hotspot)) 99 div 100;
                    hotspot_count = max 1 (min scaled existing_count);
                    (first, state) = next_u64 (wp_seed plan XOR (of_nat offset * 0xD1B54A32D192ED03));
                    use_hotspot = unat (first mod 100) < wh_operation_percent hotspot;
                    (second, state) = next_u64 state
                in if use_hotspot \<or> hotspot_count = existing_count
                   then Inr (unat second mod hotspot_count)
                   else Inr (hotspot_count + unat second mod (existing_count - hotspot_count))))"

subsection \<open>The write bound of a mixed workload\<close>

definition checked :: "nat \<Rightarrow> workload_error + nat" where
  "checked n = (if n \<le> usize_max then Inr n else Inl BoundOverflow)"

record write_bound =
  wb_payload :: nat
  wb_requests :: nat
  wb_recommit_payload :: nat
  wb_recommit_requests :: nat

text \<open>One arm per operation: mutation bytes, requests, recommit bytes, recommit requests.\<close>

definition operation_cost :: "WorkloadPlan \<Rightarrow> nat \<Rightarrow> nat \<Rightarrow> workload_error + write_bound" where
  "operation_cost plan prefilled_count offset =
     res_bind (lift_panic (operation_at (wp_operation_mix plan) offset)) (\<lambda>operation.
       case operation of
         WoPut \<Rightarrow>
           res_bind (lift_panic (size_at plan (prefilled_count + offset))) (\<lambda>size.
             Inr \<lparr>wb_payload = size, wb_requests = 1, wb_recommit_payload = size, wb_recommit_requests = 1\<rparr>)
       | WoOverwrite \<Rightarrow>
           ensure (prefilled_count > 0) OverwriteWithoutPrefill
           (res_bind (lift_panic (existing_object_offset plan offset prefilled_count)) (\<lambda>existing.
            res_bind (lift_panic (size_at plan existing)) (\<lambda>size.
             Inr \<lparr>wb_payload = size, wb_requests = 1, wb_recommit_payload = size, wb_recommit_requests = 1\<rparr>)))
       | WoGet \<Rightarrow> Inr \<lparr>wb_payload = 0, wb_requests = 0, wb_recommit_payload = 0, wb_recommit_requests = 0\<rparr>
       | WoList \<Rightarrow> Inr \<lparr>wb_payload = 0, wb_requests = 0, wb_recommit_payload = 0, wb_recommit_requests = 0\<rparr>
       | WoDelete \<Rightarrow> Inr \<lparr>wb_payload = 0, wb_requests = 1, wb_recommit_payload = 0, wb_recommit_requests = 0\<rparr>
       | WoMultipart \<Rightarrow>
           res_bind (lift_panic (size_at plan (prefilled_count + offset))) (\<lambda>size.
           res_bind (checked (div_ceil (max size 1) MULTIPART_PART_SIZE_BYTES + 4)) (\<lambda>requests.
           res_bind (checked (size + 4 * 1024)) (\<lambda>payload.
             Inr \<lparr>wb_payload = payload, wb_requests = requests,
                  wb_recommit_payload = size, wb_recommit_requests = 1\<rparr>))))"

definition bound_step ::
  "WorkloadPlan \<Rightarrow> nat \<Rightarrow> write_bound \<Rightarrow> nat \<Rightarrow> workload_error + write_bound" where
  "bound_step plan prefilled_count acc offset =
     res_bind (operation_cost plan prefilled_count offset) (\<lambda>cost.
     res_bind (checked (wb_payload acc + wb_payload cost)) (\<lambda>payload.
     res_bind (checked (wb_requests acc + wb_requests cost)) (\<lambda>requests.
     res_bind (checked (wb_recommit_payload acc + wb_recommit_payload cost)) (\<lambda>recommit_payload.
     res_bind (checked (wb_recommit_requests acc + wb_recommit_requests cost)) (\<lambda>recommit_requests.
       Inr \<lparr>wb_payload = payload, wb_requests = requests,
            wb_recommit_payload = recommit_payload, wb_recommit_requests = recommit_requests\<rparr>)))))"

definition mixed_write_upper_bound :: "WorkloadPlan \<Rightarrow> nat \<Rightarrow> nat \<Rightarrow> workload_error + nat" where
  "mixed_write_upper_bound plan prefilled_count mixed_count =
     ensure (prefilled_count + mixed_count \<le> usize_max \<and> prefilled_count + mixed_count \<le> wp_object_count plan)
       RangeExceedsObjectCount
     (res_bind (fold_res (bound_step plan prefilled_count)
         \<lparr>wb_payload = 0, wb_requests = 0, wb_recommit_payload = 0, wb_recommit_requests = 0\<rparr> [0..<mixed_count]) (\<lambda>acc.
      res_bind (checked (wb_payload acc + wb_recommit_payload acc)) (\<lambda>payload.
      res_bind (checked (payload * 3)) (\<lambda>retried_payload_bytes.
      res_bind (checked (wb_requests acc + wb_recommit_requests acc)) (\<lambda>requests.
      res_bind (checked (requests * 3)) (\<lambda>attempts.
      res_bind (checked (attempts * (1024 * 1024))) (\<lambda>metadata_bytes.
      res_bind (checked (retried_payload_bytes + metadata_bytes)) (\<lambda>bytes.
        checked (bytes * 2)))))))))"

subsection \<open>Reading a stored plan\<close>

record SerializedWorkloadPlan =
  sp_seed :: "64 word"
  sp_generator :: string
  sp_object_count :: nat
  sp_concurrency :: nat
  sp_operation_mix :: WorkloadOperationMix
  sp_total_payload_bytes :: nat
  sp_size_distribution :: "WorkloadSizeClass list"
  sp_hotspot :: "WorkloadHotspot option"

text \<open>What serialization keeps of a plan: everything but the expanded sizes.\<close>

definition serialize_plan :: "WorkloadPlan \<Rightarrow> SerializedWorkloadPlan" where
  "serialize_plan plan =
     \<lparr>sp_seed = wp_seed plan, sp_generator = wp_generator plan, sp_object_count = wp_object_count plan,
      sp_concurrency = wp_concurrency plan, sp_operation_mix = wp_operation_mix plan,
      sp_total_payload_bytes = wp_total_payload_bytes plan,
      sp_size_distribution = wp_size_distribution plan, sp_hotspot = wp_hotspot plan\<rparr>"

definition count_class :: "nat \<Rightarrow> WorkloadSizeClass \<Rightarrow> workload_error + nat" where
  "count_class acc c = context_or (checked_add acc (sc_object_count c)) DistributionOverflow Inr"

definition payload_class :: "nat \<Rightarrow> WorkloadSizeClass \<Rightarrow> workload_error + nat" where
  "payload_class acc c =
     ensure (sc_size_bytes c \<noteq> 0) EmptySizeClass
     (context_or (checked_mul (sc_size_bytes c) (sc_object_count c)) DistributionOverflow (\<lambda>class_payload.
      context_or (checked_add acc class_payload) DistributionOverflow Inr))"

definition from_serialized :: "SerializedWorkloadPlan \<Rightarrow> workload_error + WorkloadPlan" where
  "from_serialized raw =
     ensure (sp_generator raw = GENERATOR) (UnsupportedGenerator (sp_generator raw))
     (ensure (1 \<le> sp_concurrency raw \<and> sp_concurrency raw \<le> sp_object_count raw) ConcurrencyOutOfRange
     (res_bind (validate_mix (sp_operation_mix raw)) (\<lambda>_.
      res_bind (validate_option validate_hotspot (sp_hotspot raw)) (\<lambda>_.
      res_bind (fold_res count_class 0 (sp_size_distribution raw)) (\<lambda>distributed_objects.
      ensure (distributed_objects = sp_object_count raw) ObjectCountMismatch
      (res_bind (fold_res payload_class 0 (sp_size_distribution raw)) (\<lambda>distributed_payload.
       ensure (distributed_payload = sp_total_payload_bytes raw) PayloadMismatch
       (Inr \<lparr>wp_seed = sp_seed raw, wp_generator = sp_generator raw, wp_object_count = sp_object_count raw,
             wp_concurrency = sp_concurrency raw, wp_operation_mix = sp_operation_mix raw,
             wp_total_payload_bytes = sp_total_payload_bytes raw,
             wp_size_distribution = sp_size_distribution raw, wp_hotspot = sp_hotspot raw,
             wp_sizes = shuffle_sizes (expand_sizes (sp_size_distribution raw)) (sp_seed raw)\<rparr>))))))))"

subsection \<open>The generator is a bijection\<close>

lemma xorshift_bit:
  fixes x y :: "64 word"
  assumes eq: "x XOR drop_bit k x = y XOR drop_bit k y" and k: "0 < k"
  shows "bit x n = bit y n"
proof (induction "64 - n" arbitrary: n rule: less_induct)
  case less
  show ?case
  proof (cases "n < 64")
    case True
    then have ih: "bit x (n + k) = bit y (n + k)" using less k by simp
    have "bit (x XOR drop_bit k x) n = bit (y XOR drop_bit k y) n" using eq by simp
    then show ?thesis using ih by (auto simp: bit_xor_iff bit_drop_bit_eq add.commute)
  next
    case False
    then show ?thesis using bit_imp_le_length [of x n] bit_imp_le_length [of y n] by auto
  qed
qed

lemma xorshift_inject:
  fixes x y :: "64 word"
  assumes "x XOR drop_bit k x = y XOR drop_bit k y" "0 < k"
  shows "x = y"
  using xorshift_bit [OF assms] by (simp add: bit_eq_iff)

lemma odd_mult_inject:
  fixes c d x y :: "64 word"
  assumes "c * d = 1" "x * c = y * c"
  shows "x = y"
proof -
  have "x * (c * d) = y * (c * d)" using assms(2) by (simp only: mult.assoc [symmetric])
  then show ?thesis by (simp add: assms(1))
qed

lemma odd_constants:
  "(0xBF58476D1CE4E5B9 :: 64 word) * 0x96DE1B173F119089 = 1"
  "(0x94D049BB133111EB :: 64 word) * 0x319642B2D24D8EC3 = 1"
  "(0xD6E8FEB86659FD93 :: 64 word) * 0xCFEE444D8B59A89B = 1"
  "(0x9E3779B97F4A7C15 :: 64 word) * 0xF1DE83E19937733D = 1"
  by simp_all

lemma mix64_inject:
  assumes "mix64 x = mix64 y" shows "x = y"
proof -
  let ?f = "\<lambda>z :: 64 word. (z XOR drop_bit 30 z) * 0xBF58476D1CE4E5B9"
  let ?g = "\<lambda>z :: 64 word. (z XOR drop_bit 27 z) * 0x94D049BB133111EB"
  have "?g (?f x) XOR drop_bit 31 (?g (?f x)) = ?g (?f y) XOR drop_bit 31 (?g (?f y))"
    using assms by (simp only: mix64_def Let_def)
  then have "?g (?f x) = ?g (?f y)" by (rule xorshift_inject) simp
  then have "?f x XOR drop_bit 27 (?f x) = ?f y XOR drop_bit 27 (?f y)" by (rule odd_mult_inject [OF odd_constants(2)])
  then have "?f x = ?f y" by (rule xorshift_inject) simp
  then have "x XOR drop_bit 30 x = y XOR drop_bit 30 y" by (rule odd_mult_inject [OF odd_constants(1)])
  then show ?thesis by (rule xorshift_inject) simp
qed

lemma length_to_le_bytes [simp]: "length (to_le_bytes w) = 8"
  by (simp add: to_le_bytes_def)

lemma to_le_bytes_inject:
  assumes "to_le_bytes v = to_le_bytes w" shows "v = w"
proof (rule bit_word_eqI)
  fix n assume n: "n < LENGTH(64)"
  then have k: "n div 8 < 8" by simp
  have "to_le_bytes v ! (n div 8) = to_le_bytes w ! (n div 8)" using assms by simp
  then have "(ucast (drop_bit (8 * (n div 8)) v) :: 8 word) = ucast (drop_bit (8 * (n div 8)) w)"
    using k by (simp add: to_le_bytes_def)
  then have "bit (ucast (drop_bit (8 * (n div 8)) v) :: 8 word) (n mod 8) =
             bit (ucast (drop_bit (8 * (n div 8)) w) :: 8 word) (n mod 8)" by simp
  then show "bit v n = bit w n"
    by (simp add: bit_ucast_iff bit_drop_bit_eq)
qed

lemma length_fill_chunks [simp]: "length (fill_chunks n st) = n"
proof (induction n st rule: fill_chunks.induct)
  case (1 n st)
  then show ?case
    by (subst fill_chunks.simps) (auto simp: next_u64_def Let_def min_def)
qed

lemma fill_chunks_head:
  "8 \<le> n \<Longrightarrow> take 8 (fill_chunks n st) = to_le_bytes (mix64 (st + 0x9E3779B97F4A7C15))"
  by (simp add: fill_chunks.simps [of n] next_u64_def Let_def)

text \<open>
  The payload of an object has the requested size, and two objects of one
  run with the same size (at least eight bytes) and different indices never have
  the same payload, so that a store that returns one object in place of another
  returns different bytes.
\<close>

theorem seeded_bytes_distinct:
  "length (seeded_bytes seed i n) = n \<and>
   (8 \<le> n \<and> i < 2 ^ 64 \<and> j < 2 ^ 64 \<and> seeded_bytes seed i n = seeded_bytes seed j n \<longrightarrow> i = j)"
proof (intro conjI impI)
  show "length (seeded_bytes seed i n) = n" by (simp add: seeded_bytes_def)
next
  assume a: "8 \<le> n \<and> i < 2 ^ 64 \<and> j < 2 ^ 64 \<and> seeded_bytes seed i n = seeded_bytes seed j n"
  let ?k = "0xD6E8FEB86659FD93 :: 64 word"
  have "to_le_bytes (mix64 ((seed XOR (of_nat i * ?k)) + 0x9E3779B97F4A7C15)) =
        to_le_bytes (mix64 ((seed XOR (of_nat j * ?k)) + 0x9E3779B97F4A7C15))"
    using a fill_chunks_head [of n] by (metis seeded_bytes_def)
  then have "seed XOR (of_nat i * ?k) = seed XOR (of_nat j * ?k)"
    using mix64_inject to_le_bytes_inject by (metis add_right_cancel)
  then have "seed XOR (seed XOR (of_nat i * ?k)) = seed XOR (seed XOR (of_nat j * ?k))" by simp
  then have "of_nat i * ?k = of_nat j * ?k" by (simp only: xor.assoc [symmetric] xor_self_eq xor.left_neutral)
  then have "(of_nat i :: 64 word) = of_nat j" by (rule odd_mult_inject [OF odd_constants(3)])
  then show "i = j" using a by (simp add: unsigned_of_nat take_bit_nat_eq_self word_of_nat_eq_iff)
qed

theorem seeded_bytes_distinct_witness:
  "seeded_bytes 7 1 4096 \<noteq> seeded_bytes 7 2 4096"
  using seeded_bytes_distinct [of 7 1 4096 2] by auto

subsection \<open>Shuffling permutes\<close>

lemma swap_index: "unat ((v :: 64 word) mod (of_nat (Suc i) + 1)) \<le> Suc i" if "Suc i < 2 ^ 64 - 1"
proof -
  have u: "unat (of_nat (Suc i) + 1 :: 64 word) = Suc (Suc i)"
  proof -
    have "(of_nat (Suc i) + 1 :: 64 word) = of_nat (Suc (Suc i))" by simp
    then show ?thesis using that by (simp only: unsigned_of_nat) (simp add: take_bit_nat_eq_self)
  qed
  then have "unat (v mod (of_nat (Suc i) + 1)) = unat v mod Suc (Suc i)" by (simp add: unat_mod)
  then show ?thesis by (metis less_Suc_eq_le mod_less_divisor zero_less_Suc)
qed

lemma mset_shuffle_from:
  "n < length xs \<Longrightarrow> length xs \<le> usize_max \<Longrightarrow> mset (shuffle_from n st xs) = mset xs"
proof (induction n arbitrary: st xs)
  case (Suc n)
  obtain v st' where nx: "next_u64 st = (v, st')" by (cases "next_u64 st")
  let ?s = "unat (v mod (of_nat (Suc n) + 1))"
  have "?s \<le> Suc n" using Suc.prems by (intro swap_index) (simp add: usize_max_def)
  then have s: "?s < length xs" using Suc.prems by simp
  have "mset (xs[Suc n := xs ! ?s, ?s := xs ! Suc n]) = mset xs"
    using Suc.prems(1) s by (intro mset_swap)
  then show ?case using Suc by (simp add: nx Let_def)
qed simp

lemma mset_shuffle_sizes: "length xs \<le> usize_max \<Longrightarrow> mset (shuffle_sizes xs seed) = mset xs"
  by (cases xs) (simp_all add: shuffle_sizes_def mset_shuffle_from)

subsection \<open>The distribution is exact\<close>

lemma assign_classes_exact:
  assumes "object_count \<le> usize_max" "0 < total_w"
  shows "cs \<noteq> [] \<Longrightarrow> assigned * total_w + object_count * sum_list (map pc_weight cs) \<le> object_count * total_w \<Longrightarrow>
    \<exists>ds. assign_classes object_count total_w assigned cs = Inr ds \<and>
         map sc_size_bytes ds = map pc_size_bytes cs \<and>
         assigned + sum_list (map sc_object_count ds) = object_count"
proof (induction cs arbitrary: assigned rule: induct_list012)
  case (2 c)
  then have "assigned * total_w \<le> object_count * total_w" by linarith
  then have "assigned \<le> object_count" using assms(2) by simp
  then show ?case by simp
next
  case (3 c d cs)
  define n where "n = saturating_mul object_count (pc_weight c) div total_w"
  have "n * total_w \<le> saturating_mul object_count (pc_weight c)" unfolding n_def by (rule div_times_less_eq_dividend)
  also have "\<dots> \<le> object_count * pc_weight c" by (simp add: saturating_mul_def)
  finally have n: "n * total_w \<le> object_count * pc_weight c" .
  then have inv: "(assigned + n) * total_w + object_count * sum_list (map pc_weight (d # cs)) \<le> object_count * total_w"
    using "3.prems"(2) by (simp add: algebra_simps)
  then have "(assigned + n) * total_w \<le> object_count * total_w" by linarith
  then have "assigned + n \<le> object_count" using assms(2) by simp
  then have sat: "saturating_add assigned n = assigned + n" using assms(1) by (simp add: saturating_add_def)
  obtain ds where ds: "assign_classes object_count total_w (assigned + n) (d # cs) = Inr ds"
      "map sc_size_bytes ds = map pc_size_bytes (d # cs)"
      "assigned + n + sum_list (map sc_object_count ds) = object_count"
    using "3.IH"(2) [OF _ inv] by auto
  then show ?case using assms(2) sat by (simp add: n_def [symmetric] Let_def)
qed simp

lemma validate_distribution_Inr:
  "validate_distribution cs = Inr () \<longleftrightarrow>
     cs \<noteq> [] \<and> length cs \<le> 8 \<and>
     (\<forall>c \<in> set cs. 1 \<le> pc_size_bytes c \<and> pc_size_bytes c \<le> 67108864 \<and> 1 \<le> pc_weight c \<and> pc_weight c \<le> 100)"
  by (auto simp: validate_distribution_def fold_res_unit_Inr validate_class_def)

lemma default_distribution_valid: "validate_distribution default_distribution = Inr ()"
  by (simp add: validate_distribution_Inr default_distribution_def)

lemma to_size_distribution_exact:
  assumes "validate_distribution cs = Inr ()" "object_count \<le> usize_max"
  obtains ds where "to_size_distribution cs object_count = Inr ds"
    "map sc_size_bytes ds = map pc_size_bytes cs" "sum_list (map sc_object_count ds) = object_count"
proof -
  obtain c where c: "c \<in> set cs" "1 \<le> pc_weight c"
    using assms(1) by (cases cs) (auto simp: validate_distribution_Inr)
  then have "0 < sum_list (map pc_weight cs)"
    using member_le_sum_list [of "pc_weight c" "map pc_weight cs"] by simp
  moreover have "cs \<noteq> []" using c by auto
  ultimately show ?thesis
    using assign_classes_exact [of object_count "sum_list (map pc_weight cs)" cs 0] assms(2) that
    by (auto simp: to_size_distribution_def)
qed

lemma length_expand_sizes: "length (expand_sizes ds) = sum_list (map sc_object_count ds)"
  by (simp add: expand_sizes_def length_concat comp_def)

lemma sum_expand_sizes:
  "sum_list (expand_sizes ds) = sum_list (map (\<lambda>d. sc_size_bytes d * sc_object_count d) ds)"
  by (induction ds) (simp_all add: expand_sizes_def sum_list_replicate)

lemma sizes_shuffled:
  assumes "sum_list (map sc_object_count ds) \<le> usize_max"
  shows "mset (shuffle_sizes (expand_sizes ds) seed) = mset (expand_sizes ds)"
    and "length (shuffle_sizes (expand_sizes ds) seed) = sum_list (map sc_object_count ds)"
    and "sum_list (shuffle_sizes (expand_sizes ds) seed) =
           sum_list (map (\<lambda>d. sc_size_bytes d * sc_object_count d) ds)"
proof -
  show m: "mset (shuffle_sizes (expand_sizes ds) seed) = mset (expand_sizes ds)"
    using assms by (intro mset_shuffle_sizes) (simp add: length_expand_sizes)
  show "length (shuffle_sizes (expand_sizes ds) seed) = sum_list (map sc_object_count ds)"
    using mset_eq_length [OF m] by (simp add: length_expand_sizes)
  show "sum_list (shuffle_sizes (expand_sizes ds) seed) =
      sum_list (map (\<lambda>d. sc_size_bytes d * sc_object_count d) ds)"
    using m by (metis sum_mset_sum_list sum_expand_sizes)
qed

text \<open>What the constructors establish of a plan.\<close>

definition plan_wf :: "WorkloadPlan \<Rightarrow> bool" where
  "plan_wf plan \<longleftrightarrow>
     wp_generator plan = GENERATOR \<and> wp_object_count plan \<le> usize_max \<and>
     validate_mix (wp_operation_mix plan) = Inr () \<and>
     validate_option validate_hotspot (wp_hotspot plan) = Inr () \<and>
     sum_list (map sc_object_count (wp_size_distribution plan)) = wp_object_count plan \<and>
     (\<forall>d \<in> set (wp_size_distribution plan). 0 < sc_size_bytes d) \<and>
     wp_sizes plan = shuffle_sizes (expand_sizes (wp_size_distribution plan)) (wp_seed plan) \<and>
     wp_total_payload_bytes plan = sum_list (wp_sizes plan) \<and> wp_total_payload_bytes plan \<le> usize_max"

lemma plan_wf_length: "plan_wf plan \<Longrightarrow> length (wp_sizes plan) = wp_object_count plan"
  using sizes_shuffled(2) [of "wp_size_distribution plan" "wp_seed plan"] by (simp add: plan_wf_def)

lemma lift_panic_Inr [simp]: "lift_panic r = Inr v \<longleftrightarrow> r = Inr v"
  by (cases r) (simp_all add: lift_panic_def)

text \<open>
  Planning a workload with a validated profile never panics below \<open>2^64\<close>
  payload bytes, and the plan has exactly the requested number of objects: the
  class counts add up despite the rounding, the shuffled sizes are a permutation
  of the classes, every object index has a size, and the recorded total is their sum.
\<close>

theorem seeded_plan_exact:
  assumes "object_count \<le> usize_max" and "validate_mix mix = Inr ()"
    and "validate_option validate_distribution dist = Inr ()" and "validate_option validate_hotspot hotspot = Inr ()"
  shows "seeded_with_profile seed object_count concurrency mix dist hotspot = Inl (Panicked ArithmeticOverflow) \<or>
    (\<exists>plan. seeded_with_profile seed object_count concurrency mix dist hotspot = Inr plan \<and>
       plan_wf plan \<and> wp_object_count plan = object_count \<and>
       mset (wp_sizes plan) = mset (expand_sizes (wp_size_distribution plan)) \<and>
       (\<forall>index < object_count. \<exists>size. size_at plan index = Inr size \<and> size \<in> set (wp_sizes plan)))"
proof -
  let ?cs = "case dist of None \<Rightarrow> default_distribution | Some d \<Rightarrow> d"
  have cs: "validate_distribution ?cs = Inr ()"
    using assms(3) default_distribution_valid by (simp add: validate_option_def split: option.splits)
  obtain ds where ds: "to_size_distribution ?cs object_count = Inr ds"
      "map sc_size_bytes ds = map pc_size_bytes ?cs" "sum_list (map sc_object_count ds) = object_count"
    by (rule to_size_distribution_exact [OF cs assms(1)])
  have "\<forall>z \<in> set (map sc_size_bytes ds). 0 < z"
    using cs unfolding ds(2) by (auto simp: validate_distribution_Inr)
  then have pos: "\<forall>d \<in> set ds. 0 < sc_size_bytes d" by simp
  let ?sizes = "shuffle_sizes (expand_sizes ds) seed"
  show ?thesis
  proof (cases "sum_list ?sizes > usize_max")
    case True
    then show ?thesis
      using assms ds(1) by (simp add: seeded_with_profile_def seeded_unchecked_def Let_def lift_panic_def)
  next
    case False
    define plan where "plan = \<lparr>wp_seed = seed, wp_generator = GENERATOR, wp_object_count = object_count,
      wp_concurrency = concurrency, wp_operation_mix = mix, wp_total_payload_bytes = sum_list ?sizes,
      wp_size_distribution = ds, wp_hotspot = hotspot, wp_sizes = ?sizes\<rparr>"
    have "seeded_with_profile seed object_count concurrency mix dist hotspot = Inr plan"
      using assms ds(1) False by (simp add: seeded_with_profile_def seeded_unchecked_def Let_def plan_def)
    moreover have wf: "plan_wf plan" using assms ds(3) pos False by (simp add: plan_wf_def plan_def)
    moreover have "mset (wp_sizes plan) = mset (expand_sizes (wp_size_distribution plan))"
      using sizes_shuffled(1) [of ds seed] ds(3) assms(1) by (simp add: plan_def)
    moreover have "wp_object_count plan = object_count" by (simp add: plan_def)
    ultimately show ?thesis using plan_wf_length [OF wf] by (auto simp: size_at_def)
  qed
qed

definition demo_mix :: WorkloadOperationMix where
  "demo_mix = \<lparr>mx_put = 3, mx_overwrite = 2, mx_get = 1, mx_list = 1, mx_delete = 1, mx_multipart = 1\<rparr>"

lemma demo_mix_valid: "validate_mix demo_mix = Inr ()"
  by (simp add: validate_mix_def weights_def demo_mix_def)

theorem seeded_plan_witness:
  "\<exists>plan. seeded_with_profile 7 3 1 demo_mix (Some [\<lparr>pc_size_bytes = 5, pc_weight = 2\<rparr>]) None = Inr plan \<and>
     mset (wp_sizes plan) = mset (expand_sizes (wp_size_distribution plan))"
proof -
  let ?d = "Some [\<lparr>pc_size_bytes = 5, pc_weight = 2\<rparr>]"
  have "seeded_with_profile 7 3 1 demo_mix ?d None \<noteq> Inl (Panicked ArithmeticOverflow)"
  proof -
    have ds: "to_size_distribution [\<lparr>pc_size_bytes = 5, pc_weight = 2\<rparr>] 3 = Inr [\<lparr>sc_size_bytes = 5, sc_object_count = 3\<rparr>]"
      by (simp add: to_size_distribution_def)
    have "sum_list (shuffle_sizes (expand_sizes [\<lparr>sc_size_bytes = 5, sc_object_count = 3\<rparr>]) 7) = 15"
      by (subst sizes_shuffled(3)) (simp_all add: usize_max_def)
    moreover have "validate_distribution [\<lparr>pc_size_bytes = 5, pc_weight = 2\<rparr>] = Inr ()"
      by (simp add: validate_distribution_Inr)
    ultimately show ?thesis
      using ds by (simp add: seeded_with_profile_def demo_mix_valid validate_option_def
          seeded_unchecked_def Let_def usize_max_def lift_panic_def)
  qed
  then show ?thesis
    using seeded_plan_exact [of 3 demo_mix ?d None 7 1] demo_mix_valid
    by (auto simp: validate_option_def validate_distribution_Inr usize_max_def)
qed

subsection \<open>Choosing objects and operations\<close>

text \<open>
  Choosing an existing object is safe and in range: with at least one
  existing object, with or without a hotspot, the offset returned is below the
  number of existing objects.
\<close>

theorem existing_object_offset_in_range:
  assumes "0 < existing_count"
  shows "\<exists>k. existing_object_offset plan offset existing_count = Inr k \<and> k < existing_count"
proof (cases "wp_hotspot plan")
  case None
  then show ?thesis using assms by (simp add: existing_object_offset_def)
next
  case (Some h)
  define hot where "hot = max 1 (min (saturating_add (saturating_mul existing_count (wh_object_percent h)) 99 div 100) existing_count)"
  have hot: "0 < hot" "hot \<le> existing_count" using assms by (simp_all add: hot_def)
  obtain v st where v: "next_u64 (wp_seed plan XOR (of_nat offset * 0xD1B54A32D192ED03)) = (v, st)" by fastforce
  obtain w st' where w: "next_u64 st = (w, st')" by fastforce
  have in_hot: "unat w mod hot < existing_count" using hot by (meson less_le_trans mod_less_divisor)
  have in_cold: "hot + unat w mod (existing_count - hot) < existing_count" if "hot \<noteq> existing_count"
    using hot that mod_less_divisor [of "existing_count - hot" "unat w"] by linarith
  show ?thesis
    using assms Some in_hot in_cold by (simp add: existing_object_offset_def v w Let_def hot_def [unfolded One_nat_def, symmetric])
qed

theorem existing_object_offset_witness:
  "\<exists>k. existing_object_offset
     \<lparr>wp_seed = 7, wp_generator = GENERATOR, wp_object_count = 5, wp_concurrency = 1, wp_operation_mix = demo_mix,
      wp_total_payload_bytes = 0, wp_size_distribution = [],
      wp_hotspot = Some \<lparr>wh_object_percent = 20, wh_operation_percent = 80\<rparr>, wp_sizes = []\<rparr> 3 5 = Inr k \<and> k < 5"
  by (rule existing_object_offset_in_range) simp

lemma validate_mix_Inr:
  "validate_mix mix = Inr () \<longleftrightarrow> (\<forall>(name, w) \<in> set (weights mix). 1 \<le> w \<and> w \<le> 100)"
proof -
  have "validate_mix mix = Inr () \<longleftrightarrow>
      (\<forall>x \<in> set (weights mix). (case x of (name, value) \<Rightarrow>
         ensure (1 \<le> value \<and> value \<le> 100) (WeightOutOfRange name) (Inr ())) = Inr ())"
    unfolding validate_mix_def by (rule fold_res_unit_Inr)
  then show ?thesis by auto
qed

fun weight_of :: "WorkloadOperationMix \<Rightarrow> WorkloadOperation \<Rightarrow> nat" where
  "weight_of mix WoPut = mx_put mix"
| "weight_of mix WoOverwrite = mx_overwrite mix"
| "weight_of mix WoGet = mx_get mix"
| "weight_of mix WoList = mx_list mix"
| "weight_of mix WoDelete = mx_delete mix"
| "weight_of mix WoMultipart = mx_multipart mix"

fun first_slot :: "WorkloadOperationMix \<Rightarrow> WorkloadOperation \<Rightarrow> nat" where
  "first_slot mix WoPut = 0"
| "first_slot mix WoOverwrite = mx_put mix"
| "first_slot mix WoGet = mx_put mix + mx_overwrite mix"
| "first_slot mix WoList = mx_put mix + mx_overwrite mix + mx_get mix"
| "first_slot mix WoDelete = mx_put mix + mx_overwrite mix + mx_get mix + mx_list mix"
| "first_slot mix WoMultipart = mx_put mix + mx_overwrite mix + mx_get mix + mx_list mix + mx_delete mix"

lemma operation_at_slot:
  assumes "0 < total_weight mix"
  shows "operation_at mix offset = Inr op \<longleftrightarrow>
    first_slot mix op \<le> offset mod total_weight mix \<and>
    offset mod total_weight mix < first_slot mix op + weight_of mix op"
proof -
  have "offset mod total_weight mix < total_weight mix" using assms by simp
  then show ?thesis
    using assms by (cases op) (auto simp: operation_at_def Let_def total_weight_def)
qed

text \<open>
  The operation mix is exact: in every round of as many operations as the
  weights sum up to, each kind of operation occurs exactly its weight's number
  of times.
\<close>

theorem operation_mix_exact:
  assumes "0 < total_weight mix"
  shows "card {offset \<in> {cycle * total_weight mix ..< (cycle + 1) * total_weight mix}.
           operation_at mix offset = Inr op} = weight_of mix op"
proof -
  let ?W = "total_weight mix"
  let ?S = "{offset \<in> {cycle * ?W ..< (cycle + 1) * ?W}. operation_at mix offset = Inr op}"
  have fits: "first_slot mix op + weight_of mix op \<le> ?W" by (cases op) (simp_all add: total_weight_def)
  have "?S = (\<lambda>s. cycle * ?W + s) ` {first_slot mix op ..< first_slot mix op + weight_of mix op}" (is "_ = ?T")
  proof
    show "?S \<subseteq> ?T"
    proof
      fix x assume x: "x \<in> ?S"
      then have "x div ?W = cycle" using assms by (auto simp: div_nat_eqI mult.commute)
      then have "x = cycle * ?W + x mod ?W" using div_mult_mod_eq [of x ?W] by simp
      moreover have "x mod ?W \<in> {first_slot mix op ..< first_slot mix op + weight_of mix op}"
        using x operation_at_slot [OF assms] by auto
      ultimately show "x \<in> ?T" by blast
    qed
    show "?T \<subseteq> ?S"
    proof
      fix x assume "x \<in> ?T"
      then obtain s where x: "x = cycle * ?W + s"
        and "s \<in> {first_slot mix op ..< first_slot mix op + weight_of mix op}" by (rule imageE)
      then have s: "x = cycle * ?W + s" "first_slot mix op \<le> s" "s < first_slot mix op + weight_of mix op"
        by simp_all
      then have "s < ?W" using fits by linarith
      then have "x mod ?W = s" using s(1) by simp
      then show "x \<in> ?S" using s \<open>s < ?W\<close> operation_at_slot [OF assms, of x op] by (simp add: algebra_simps)
    qed
  qed
  then show ?thesis by (simp add: card_image)
qed

theorem operation_mix_witness:
  "card {offset \<in> {9..<18}. operation_at demo_mix offset = Inr WoPut} = 3"
proof -
  have w: "total_weight demo_mix = 9" by (simp add: total_weight_def demo_mix_def)
  from operation_mix_exact [of demo_mix 1 WoPut] show ?thesis by (simp add: w) (simp add: demo_mix_def)
qed

subsection \<open>Stored plans\<close>

lemma count_classes_Inr:
  "a \<le> usize_max \<Longrightarrow> fold_res count_class a ds = Inr n \<longleftrightarrow>
     n = a + sum_list (map sc_object_count ds) \<and> n \<le> usize_max"
proof (induction ds arbitrary: a)
  case (Cons d ds)
  have step: "count_class a d =
      (if a + sc_object_count d \<le> usize_max then Inr (a + sc_object_count d) else Inl DistributionOverflow)"
    by (simp add: count_class_def checked_add_def context_or_def)
  show ?case
  proof (cases "a + sc_object_count d \<le> usize_max")
    case True
    then show ?thesis using Cons.IH [of "a + sc_object_count d"] by (simp add: step add.assoc)
  next
    case False
    then show ?thesis by (auto simp: step)
  qed
qed auto

lemma payload_classes_Inr:
  "a \<le> usize_max \<Longrightarrow> fold_res payload_class a ds = Inr n \<longleftrightarrow>
     n = a + sum_list (map (\<lambda>d. sc_size_bytes d * sc_object_count d) ds) \<and> n \<le> usize_max \<and>
     (\<forall>d \<in> set ds. 0 < sc_size_bytes d)"
proof (induction ds arbitrary: a)
  case (Cons d ds)
  define p where "p = sc_size_bytes d * sc_object_count d"
  have step: "payload_class a d =
      (if sc_size_bytes d = 0 then Inl EmptySizeClass
       else if a + p \<le> usize_max then Inr (a + p) else Inl DistributionOverflow)"
    by (auto simp: payload_class_def ensure_def checked_add_def checked_mul_def context_or_def p_def)
  show ?case
  proof (cases "sc_size_bytes d \<noteq> 0 \<and> a + p \<le> usize_max")
    case True
    then show ?thesis using Cons.IH [of "a + p"] by (simp add: step p_def [symmetric] add.assoc)
  next
    case False
    then show ?thesis by (auto simp: step p_def [symmetric])
  qed
qed auto


subsection \<open>The write bound\<close>

lemma checked_Inr [simp]: "checked n = Inr m \<longleftrightarrow> m = n \<and> n \<le> usize_max"
  by (auto simp: checked_def)

lemma checked_Inl [simp]: "checked n = Inl e \<longleftrightarrow> e = BoundOverflow \<and> usize_max < n"
  by (auto simp: checked_def)

lemma res_bind_Inl: "res_bind r k = Inl e \<longleftrightarrow> r = Inl e \<or> (\<exists>v. r = Inr v \<and> k v = Inl e)"
  by (cases r) auto

lemma validate_mix_total: "validate_mix mix = Inr () \<Longrightarrow> 0 < total_weight mix"
  by (simp add: validate_mix_Inr weights_def total_weight_def)

abbreviation (input) bound_errors :: "workload_error set" where
  "bound_errors \<equiv> {RangeExceedsObjectCount, OverwriteWithoutPrefill, BoundOverflow}"

lemma size_at_wf: "plan_wf plan \<Longrightarrow> i < wp_object_count plan \<Longrightarrow> size_at plan i = Inr (wp_sizes plan ! i)"
  by (simp add: size_at_def plan_wf_length)

lemma operation_cost_errors:
  assumes "plan_wf plan" "prefilled + offset < wp_object_count plan" "operation_cost plan prefilled offset = Inl e"
  shows "e \<in> bound_errors"
proof -
  obtain op where op: "operation_at (wp_operation_mix plan) offset = Inr op"
    using assms(1) validate_mix_total by (simp add: operation_at_def plan_wf_def)
  show ?thesis
  proof (cases "op = WoOverwrite \<and> 0 < prefilled")
    case True
    then obtain k where k: "existing_object_offset plan offset prefilled = Inr k" "k < prefilled"
      using existing_object_offset_in_range by blast
    then have "size_at plan k = Inr (wp_sizes plan ! k)" using assms(1,2) by (intro size_at_wf) simp_all
    with assms(3) op True k show ?thesis by (simp add: operation_cost_def lift_panic_def)
  next
    case False
    with assms op show ?thesis
      by (cases op) (auto simp: operation_cost_def lift_panic_def size_at_wf res_bind_Inl ensure_def)
  qed
qed

definition sum_costs :: "write_bound list \<Rightarrow> write_bound" where
  "sum_costs costs =
     \<lparr>wb_payload = sum_list (map wb_payload costs), wb_requests = sum_list (map wb_requests costs),
      wb_recommit_payload = sum_list (map wb_recommit_payload costs),
      wb_recommit_requests = sum_list (map wb_recommit_requests costs)\<rparr>"

lemma bound_loop:
  "fold_res (bound_step plan prefilled) (sum_costs []) [0..<m] = Inr acc \<Longrightarrow>
   \<exists>costs. map (operation_cost plan prefilled) [0..<m] = map Inr costs \<and> acc = sum_costs costs"
proof (induction m arbitrary: acc)
  case (Suc m)
  then obtain acc' where acc': "fold_res (bound_step plan prefilled) (sum_costs []) [0..<m] = Inr acc'"
      "bound_step plan prefilled acc' m = Inr acc" by (auto simp: fold_res_snoc_Inr)
  then obtain costs where costs: "map (operation_cost plan prefilled) [0..<m] = map Inr costs" "acc' = sum_costs costs"
    using Suc.IH by blast
  obtain c where c: "operation_cost plan prefilled m = Inr c" "acc = sum_costs (costs @ [c])"
    using acc'(2) costs(2) by (auto simp: bound_step_def sum_costs_def)
  with costs(1) show ?case by (intro exI [of _ "costs @ [c]"]) simp
qed simp

lemma bound_loop_errors:
  assumes "plan_wf plan" "prefilled + m \<le> wp_object_count plan"
  shows "fold_res (bound_step plan prefilled) acc [0..<m] = Inl e \<Longrightarrow> e \<in> bound_errors"
proof -
  have "fold_res (bound_step plan prefilled) acc xs = Inl e \<Longrightarrow> set xs \<subseteq> {..<m} \<Longrightarrow> e \<in> bound_errors" for xs
  proof (induction xs arbitrary: acc)
    case (Cons x xs)
    show ?case
    proof (cases "bound_step plan prefilled acc x")
      case (Inl e')
      with Cons.prems have "e' = e" by simp
      have "prefilled + x < wp_object_count plan" using assms(2) Cons.prems(2) by simp
      then have "\<And>e''. operation_cost plan prefilled x = Inl e'' \<Longrightarrow> e'' \<in> bound_errors"
        by (rule operation_cost_errors [OF assms(1)])
      with Inl \<open>e' = e\<close> show ?thesis by (auto simp: bound_step_def res_bind_Inl)
    next
      case (Inr acc')
      with Cons show ?thesis by simp
    qed
  qed simp
  from this [of "[0..<m]"]
  show "fold_res (bound_step plan prefilled) acc [0..<m] = Inl e \<Longrightarrow> e \<in> bound_errors"
    by (simp add: lessThan_atLeast0)
qed

text \<open>
  The write bound of a mixed workload never panics on a well-formed plan:
  it fails only for a range outside the plan, an overwrite without prefilled
  objects, or an overflow. Otherwise it is, below \<open>2^64\<close>, exactly twice (erasure
  expansion) the payload and recommit bytes of all operations sent three times
  plus one mebibyte of metadata for each of three attempts of every request.
\<close>

theorem mixed_write_upper_bound_exact:
  assumes "plan_wf plan"
  shows "case mixed_write_upper_bound plan prefilled m of
    Inl e \<Rightarrow> e = RangeExceedsObjectCount \<or> e = OverwriteWithoutPrefill \<or> e = BoundOverflow
  | Inr b \<Rightarrow> prefilled + m \<le> wp_object_count plan \<and> b \<le> usize_max \<and>
      (\<exists>costs. map (operation_cost plan prefilled) [0..<m] = map Inr costs \<and>
         b = 2 * (3 * (sum_list (map wb_payload costs) + sum_list (map wb_recommit_payload costs)) +
                  3 * 1048576 * (sum_list (map wb_requests costs) + sum_list (map wb_recommit_requests costs))))"
proof (cases "mixed_write_upper_bound plan prefilled m")
  case (Inl e)
  have "e \<in> bound_errors"
  proof (cases "prefilled + m \<le> wp_object_count plan")
    case True
    then show ?thesis
      using Inl bound_loop_errors [OF assms True] by (auto simp: mixed_write_upper_bound_def ensure_def res_bind_Inl split: if_splits)
  next
    case False
    then show ?thesis using Inl by (simp add: mixed_write_upper_bound_def)
  qed
  with Inl show ?thesis by simp
next
  case (Inr b)
  then obtain acc where acc: "fold_res (bound_step plan prefilled) (sum_costs []) [0..<m] = Inr acc"
      "b = (( wb_payload acc + wb_recommit_payload acc) * 3 + (wb_requests acc + wb_recommit_requests acc) * 3 * (1024 * 1024)) * 2"
      "b \<le> usize_max" "prefilled + m \<le> wp_object_count plan"
    by (auto simp: mixed_write_upper_bound_def sum_costs_def)
  from bound_loop [OF acc(1)] obtain costs where
    "map (operation_cost plan prefilled) [0..<m] = map Inr costs" "acc = sum_costs costs" by blast
  with acc Inr show ?thesis by (auto simp: sum_costs_def algebra_simps)
qed

definition demo_plan :: WorkloadPlan where
  "demo_plan = \<lparr>wp_seed = 7, wp_generator = GENERATOR, wp_object_count = 3, wp_concurrency = 1,
     wp_operation_mix = demo_mix, wp_total_payload_bytes = 15,
     wp_size_distribution = [\<lparr>sc_size_bytes = 5, sc_object_count = 3\<rparr>], wp_hotspot = None,
     wp_sizes = shuffle_sizes (expand_sizes [\<lparr>sc_size_bytes = 5, sc_object_count = 3\<rparr>]) 7\<rparr>"

lemma demo_plan_wf: "plan_wf demo_plan"
  using sizes_shuffled(3) [of "[\<lparr>sc_size_bytes = 5, sc_object_count = 3\<rparr>]" 7]
  by (simp add: plan_wf_def demo_plan_def demo_mix_valid validate_option_def usize_max_def)

lemma demo_plan_size: "size_at demo_plan 2 = Inr 5"
proof -
  have "mset (wp_sizes demo_plan) = mset [5, 5, 5]"
    using sizes_shuffled(1) [of "[\<lparr>sc_size_bytes = 5, sc_object_count = 3\<rparr>]" 7]
    by (simp add: demo_plan_def expand_sizes_def usize_max_def numeral_3_eq_3)
  then have "length (wp_sizes demo_plan) = 3" "set (wp_sizes demo_plan) = {5}"
    by (metis length_Cons list.size(3) mset_eq_length numeral_3_eq_3)
      (metis \<open>mset (wp_sizes demo_plan) = mset [5, 5, 5]\<close> insert_absorb2 list.set set_mset_mset)
  then have "wp_sizes demo_plan ! 2 = 5" using nth_mem [of 2 "wp_sizes demo_plan"] by simp
  with \<open>length (wp_sizes demo_plan) = 3\<close> show ?thesis by (simp add: size_at_def)
qed

theorem mixed_write_upper_bound_witness: "mixed_write_upper_bound demo_plan 2 1 = Inr 12582972"
proof -
  have op: "operation_cost demo_plan 2 0 =
      Inr \<lparr>wb_payload = 5, wb_requests = 1, wb_recommit_payload = 5, wb_recommit_requests = 1\<rparr>"
    using demo_plan_size
    by (simp add: operation_cost_def operation_at_def demo_plan_def demo_mix_def total_weight_def Let_def lift_panic_def)
  have "\<exists>b. mixed_write_upper_bound demo_plan 2 1 = Inr b"
    using op by (simp add: mixed_write_upper_bound_def bound_step_def usize_max_def checked_def) (simp add: demo_plan_def)
  then show ?thesis
    using mixed_write_upper_bound_exact [OF demo_plan_wf, of 2 1] op by auto
qed

end
