(* ===== verification/Workload_Objects.thy ===== *)
theory Workload_Objects
  imports Workload_Plan
begin

text \<open>
  The objects of a workload (\<open>ObjectSpec\<close>, \<open>PreparedObject\<close>, \<open>WriteProbeScope\<close> of
  \<open>src/src/fault/workload.rs\<close>): keys, prepared bodies, overwrites and directory
  markers. SHA-256 is the argument \<open>sha\<close>.
\<close>

subsection \<open>Keys\<close>

datatype WriteProbeScope = ScopePostRecovery | ScopeNodeDown | ScopeSplitBrain

definition probe_key_prefix :: "WriteProbeScope \<Rightarrow> string \<Rightarrow> string" where
  "probe_key_prefix scope run_id =
     (case scope of
        ScopePostRecovery \<Rightarrow> ''fault-test-post-recovery/'' @ run_id @ ''/''
      | ScopeNodeDown \<Rightarrow> ''fault-test-node-down/'' @ run_id @ ''/''
      | ScopeSplitBrain \<Rightarrow> ''fault-test-split-brain/'' @ run_id @ ''/'')"

definition probe_key :: "WriteProbeScope \<Rightarrow> string \<Rightarrow> nat \<Rightarrow> string" where
  "probe_key scope run_id index = probe_key_prefix scope run_id @ ''object-'' @ pad_zeros 6 (show_nat index)"

definition key_prefix :: "string \<Rightarrow> string" where
  "key_prefix run_id = ''fault-test/'' @ run_id @ ''/''"

definition seeded_key :: "string \<Rightarrow> nat \<Rightarrow> string" where
  "seeded_key run_id index = key_prefix run_id @ ''object-'' @ pad_zeros 6 (show_nat index)"

definition directory_marker_key :: "string \<Rightarrow> nat \<Rightarrow> string" where
  "directory_marker_key run_id index = key_prefix run_id @ ''dir-'' @ pad_zeros 6 (show_nat index) @ ''/''"

definition post_recovery_key_prefix :: "string \<Rightarrow> string" where
  "post_recovery_key_prefix run_id = probe_key_prefix ScopePostRecovery run_id"

subsection \<open>Prepared objects\<close>

record ObjectSpec =
  os_key :: string
  os_size_bytes :: nat
  os_sha256 :: string
  os_seed :: "64 word"
  os_index :: nat

record PreparedObject =
  po_spec :: ObjectSpec
  po_body :: bytes

definition prepared :: "hasher \<Rightarrow> string \<Rightarrow> nat \<Rightarrow> 64 word \<Rightarrow> nat \<Rightarrow> bytes \<Rightarrow> PreparedObject" where
  "prepared sha key size_bytes seed index body =
     \<lparr>po_spec = \<lparr>os_key = key, os_size_bytes = size_bytes, os_sha256 = sha body, os_seed = seed, os_index = index\<rparr>,
      po_body = body\<rparr>"

definition prepare_write_probe ::
  "hasher \<Rightarrow> WriteProbeScope \<Rightarrow> string \<Rightarrow> nat \<Rightarrow> nat \<Rightarrow> 64 word \<Rightarrow> PreparedObject" where
  "prepare_write_probe sha scope run_id index size_bytes seed =
     prepared sha (probe_key scope run_id index) size_bytes seed index (seeded_bytes seed index size_bytes)"

definition prepare_post_recovery :: "hasher \<Rightarrow> string \<Rightarrow> nat \<Rightarrow> nat \<Rightarrow> 64 word \<Rightarrow> PreparedObject" where
  "prepare_post_recovery sha run_id index size_bytes seed =
     prepare_write_probe sha ScopePostRecovery run_id index size_bytes seed"

definition prepare_seeded :: "hasher \<Rightarrow> string \<Rightarrow> nat \<Rightarrow> nat \<Rightarrow> 64 word \<Rightarrow> PreparedObject" where
  "prepare_seeded sha run_id index size_bytes seed =
     prepared sha (seeded_key run_id index) size_bytes seed index (seeded_bytes seed index size_bytes)"

definition prepare_directory_marker :: "hasher \<Rightarrow> string \<Rightarrow> nat \<Rightarrow> 64 word \<Rightarrow> PreparedObject" where
  "prepare_directory_marker sha run_id index seed =
     prepared sha (directory_marker_key run_id index) 0 seed index []"

definition is_directory_marker :: "ObjectSpec \<Rightarrow> bool" where
  "is_directory_marker spec = suffix ''/'' (os_key spec)"

definition matches_body :: "hasher \<Rightarrow> ObjectSpec \<Rightarrow> bytes \<Rightarrow> bool" where
  "matches_body sha spec body \<longleftrightarrow> length body = os_size_bytes spec \<and> sha body = os_sha256 spec"

text \<open>\<open>prepare\<close>; its \<open>debug_assert_eq!\<close> is the property proved below.\<close>

definition prepare :: "ObjectSpec \<Rightarrow> PreparedObject" where
  "prepare spec =
     \<lparr>po_spec = spec, po_body = seeded_bytes (os_seed spec) (os_index spec) (os_size_bytes spec)\<rparr>"

definition prepare_overwrite :: "hasher \<Rightarrow> ObjectSpec \<Rightarrow> 64 word \<Rightarrow> PreparedObject" where
  "prepare_overwrite sha spec variant =
     (let seed = os_seed spec XOR (variant * 0x9E3779B97F4A7C15)
      in prepared sha (os_key spec) (os_size_bytes spec) seed (os_index spec)
           (seeded_bytes seed (os_index spec) (os_size_bytes spec)))"

subsection \<open>Properties\<close>

text \<open>The specs a run can hold: prepared seeded objects and directory markers and their overwrites.\<close>

inductive workload_spec :: "hasher \<Rightarrow> string \<Rightarrow> ObjectSpec \<Rightarrow> bool" for sha run_id where
  seeded: "workload_spec sha run_id (po_spec (prepare_seeded sha run_id index size_bytes seed))"
| marker: "workload_spec sha run_id (po_spec (prepare_directory_marker sha run_id index seed))"
| overwrite: "workload_spec sha run_id spec \<Longrightarrow>
    workload_spec sha run_id (po_spec (prepare_overwrite sha spec variant))"

lemma seeded_bytes_zero [simp]: "seeded_bytes seed index 0 = []"
  by (simp add: seeded_bytes_def fill_chunks.simps)

lemma length_seeded_bytes [simp]: "length (seeded_bytes seed index n) = n"
  by (simp add: seeded_bytes_def)

lemma workload_spec_sha:
  "workload_spec sha run_id spec \<Longrightarrow>
   os_sha256 spec = sha (seeded_bytes (os_seed spec) (os_index spec) (os_size_bytes spec))"
  by (induction rule: workload_spec.induct)
    (simp_all add: prepare_seeded_def prepare_directory_marker_def prepare_overwrite_def prepared_def Let_def)

text \<open>
  Every object the workload prepares, overwrites however often, directory
  markers included, can be prepared again from its specification: the
  regenerated body has the recorded size and digest, so \<open>debug_assert_eq!\<close> in
  \<open>prepare\<close> holds, and an overwrite keeps the key and the size.
\<close>

theorem prepared_objects_regenerate:
  assumes "workload_spec sha run_id spec"
  shows "matches_body sha spec (po_body (prepare spec)) \<and>
    os_key (po_spec (prepare_overwrite sha spec variant)) = os_key spec \<and>
    os_size_bytes (po_spec (prepare_overwrite sha spec variant)) = os_size_bytes spec"
  using workload_spec_sha [OF assms]
  by (simp add: matches_body_def prepare_def prepare_overwrite_def prepared_def Let_def)

theorem prepared_objects_witness:
  "matches_body (\<lambda>_. ''h'') (po_spec (prepare_seeded (\<lambda>_. ''h'') ''run'' 1 4096 7))
     (po_body (prepare (po_spec (prepare_seeded (\<lambda>_. ''h'') ''run'' 1 4096 7))))"
  using prepared_objects_regenerate [OF workload_spec.seeded] by blast

lemma seed_xor_inject:
  fixes s x y :: "64 word"
  assumes "s XOR x = s XOR y" shows "x = y"
proof -
  have "s XOR (s XOR x) = s XOR (s XOR y)" using assms by simp
  then show ?thesis by (simp only: xor.assoc [symmetric] xor_self_eq xor.left_neutral)
qed

lemma seeded_bytes_seed_inject:
  assumes "seeded_bytes s i n = seeded_bytes t i n" "8 \<le> n"
  shows "s = t"
proof -
  let ?k = "of_nat i * 0xD6E8FEB86659FD93 :: 64 word"
  have "to_le_bytes (mix64 ((s XOR ?k) + 0x9E3779B97F4A7C15)) = to_le_bytes (mix64 ((t XOR ?k) + 0x9E3779B97F4A7C15))"
    using assms fill_chunks_head [of n] by (metis seeded_bytes_def)
  then have "s XOR ?k = t XOR ?k" using mix64_inject to_le_bytes_inject by (metis add_right_cancel)
  then show ?thesis using seed_xor_inject [of ?k s t] by (simp add: xor.commute)
qed

text \<open>
  Overwrites of one object are distinguishable: two variants produce the
  same body of at least eight bytes only when they are the same variant, and
  variant 0 is the original.
\<close>

theorem overwrite_variants_distinct:
  assumes "8 \<le> os_size_bytes spec"
  shows "(po_body (prepare_overwrite sha spec v) = po_body (prepare_overwrite sha spec w) \<longleftrightarrow> v = w) \<and>
    po_body (prepare_overwrite sha spec 0) = po_body (prepare spec)"
proof (intro conjI iffI)
  assume "po_body (prepare_overwrite sha spec v) = po_body (prepare_overwrite sha spec w)"
  then have "seeded_bytes (os_seed spec XOR v * 0x9E3779B97F4A7C15) (os_index spec) (os_size_bytes spec) =
      seeded_bytes (os_seed spec XOR w * 0x9E3779B97F4A7C15) (os_index spec) (os_size_bytes spec)"
    by (simp add: prepare_overwrite_def prepared_def Let_def)
  from seeded_bytes_seed_inject [OF this assms]
  have "v * 0x9E3779B97F4A7C15 = w * 0x9E3779B97F4A7C15" by (rule seed_xor_inject)
  then show "v = w" by (rule odd_mult_inject [OF odd_constants(4)])
qed (simp_all add: prepare_overwrite_def prepare_def prepared_def Let_def)

theorem overwrite_variants_witness:
  "po_body (prepare_overwrite (\<lambda>_. ''h'') (po_spec (prepare_seeded (\<lambda>_. ''h'') ''run'' 1 4096 7)) 1) \<noteq>
   po_body (prepare_overwrite (\<lambda>_. ''h'') (po_spec (prepare_seeded (\<lambda>_. ''h'') ''run'' 1 4096 7)) 2)"
  using overwrite_variants_distinct [of "po_spec (prepare_seeded (\<lambda>_. ''h'') ''run'' 1 4096 7)" "\<lambda>_. ''h''" 1 2]
  by (simp add: prepare_seeded_def prepared_def)

text \<open>
  Keys do not collide: within a run, object keys and directory marker keys
  determine their index and never coincide, and no probe object of any run lies
  under the prefix the checker lists.
\<close>

theorem workload_keys_separate:
  "(seeded_key run_id i = seeded_key run_id j \<longleftrightarrow> i = j) \<and>
   (directory_marker_key run_id i = directory_marker_key run_id j \<longleftrightarrow> i = j) \<and>
   seeded_key run_id i \<noteq> directory_marker_key run_id j \<and>
   prefix (key_prefix run_id) (seeded_key run_id i) \<and>
   \<not> prefix (key_prefix run_id) (probe_key scope other_run j)"
  by (cases scope)
    (simp_all add: seeded_key_def directory_marker_key_def key_prefix_def probe_key_def probe_key_prefix_def)

end
