(* ===== verification/Checker_Report.thy ===== *)
theory Checker_Report
  imports Version_Sources Verdict Read_Failure Workload_Objects
begin

text \<open>
  The checker's report (\<open>CheckerReport\<close> of \<open>src/src/fault/checker.rs\<close>): its data,
  the success predicate with the audit proof it demands for tolerated deletes,
  and the classification of a failing report. The classification never reports
  a milder class of failure than the worst one the report contains, and a
  successful report that tolerates a missing object carries the recorded
  observations that prove the tolerated delete.
\<close>

subsection \<open>Data\<close>

record CheckerOperationAudit =
  co_operation_id :: string
  co_kind :: OperationKind
  co_key :: "string option"
  co_version_id :: "string option"
  co_request_version_id :: "string option"
  co_is_delete_marker :: "bool option"
  co_observed_sha256 :: "string option"
  co_size_bytes :: "nat option"
  co_listed_keys :: "string list option"
  co_listed_versions :: "ListedVersionEntry list option"
  co_started_sequence :: "nat option"
  co_ended_sequence :: "nat option"
  co_outcome :: OperationOutcome
  co_http_status :: "nat option"
  co_error :: "string option"

record CheckerDataVersionAudit =
  cd_key :: string
  cd_version_id :: string
  cd_expected_sha256 :: string
  cd_observed_sha256 :: "string option"
  cd_outcome :: OperationOutcome
  cd_http_status :: "nat option"

record CheckerDeleteMarkerAudit =
  cm_key :: string
  cm_version_id :: string
  cm_visible_in_list_object_versions :: bool

record CheckerAudit =
  ca_bucket :: string
  ca_started_at_ms :: nat
  ca_completed_at_ms :: nat
  ca_history_prefix_record_count :: nat
  ca_history_prefix_sha256 :: string
  ca_history_suffix_record_count :: nat
  ca_history_suffix_sha256 :: string
  ca_suffix_operations :: "CheckerOperationAudit list"
  ca_data_version_checks :: "CheckerDataVersionAudit list"
  ca_delete_marker_checks :: "CheckerDeleteMarkerAudit list"
  ca_list_object_versions_completed :: "bool option"

record CheckerReport =
  cr_scenario :: string
  cr_run_id :: string
  cr_committed_puts :: nat
  cr_expected_live_objects :: nat
  cr_verified_live_objects :: nat
  cr_missing_committed_objects :: "string list"
  cr_unavailable_committed_objects :: "CommittedReadFailure list"
  cr_unknown_committed_read_failures :: "CommittedReadFailure list"
  cr_hash_mismatches :: "string list"
  cr_successful_corrupted_reads :: "string list"
  cr_unexpected_visible_deleted_objects :: "string list"
  cr_unknown_writes_materialized :: "string list"
  cr_unknown_writes_preserved_committed :: "string list"
  cr_unknown_write_value_conflicts :: "string list"
  cr_list_history_warning_count :: nat
  cr_final_list_warning_count :: nat
  cr_list_history_warnings :: "string list"
  cr_list_warnings :: "string list"
  cr_final_listed_objects :: "nat option"
  cr_versioning_expected :: bool
  cr_expected_committed_versions :: nat
  cr_verified_committed_versions :: nat
  cr_committed_writes_missing_version_id_count :: nat
  cr_committed_writes_missing_version_id :: "string list"
  cr_missing_committed_versions :: "string list"
  cr_unavailable_committed_versions :: "string list"
  cr_version_hash_mismatches :: "string list"
  cr_missing_committed_delete_markers :: "string list"
  cr_resurrected_deleted_objects :: "string list"
  cr_listed_keys_unreadable :: "string list"
  cr_unexpected_listed_objects :: "string list"
  cr_failed_writes_materialized :: "string list"
  cr_delete_marker_lineage_incomplete :: "string list"
  cr_multipart_upload_lineage_incomplete :: "string list"
  cr_tolerated_ambiguous_deletes :: "string list"
  cr_operation_cohorts :: "(string, nat) fmap"
  cr_fault_window_relations :: "(string, nat) fmap"
  cr_audit :: "CheckerAudit option"
  cr_tenant_recovered :: bool
  cr_passed :: bool

definition MAX_WARNING_SAMPLES :: nat where
  "MAX_WARNING_SAMPLES = 50"

definition checker_operation_audit :: "OperationRecord \<Rightarrow> CheckerOperationAudit" where
  "checker_operation_audit r =
     \<lparr>co_operation_id = op_id r, co_kind = op_kind r, co_key = op_key r, co_version_id = op_version_id r,
      co_request_version_id = op_request_version_id r, co_is_delete_marker = op_is_delete_marker r,
      co_observed_sha256 = op_value_sha256 r, co_size_bytes = op_size_bytes r,
      co_listed_keys = op_listed_keys r, co_listed_versions = op_listed_versions r,
      co_started_sequence = op_started_sequence r, co_ended_sequence = op_ended_sequence r,
      co_outcome = op_outcome r, co_http_status = op_http_status r, co_error = op_error r\<rparr>"

definition checker_operation_audits :: "OperationRecord list \<Rightarrow> CheckerOperationAudit list" where
  "checker_operation_audits records = map checker_operation_audit records"

subsection \<open>Success\<close>

definition novel_ambiguous_delete_marker ::
  "string \<Rightarrow> bool \<Rightarrow> string option \<Rightarrow> (string \<times> string) list \<Rightarrow> bool" where
  "novel_ambiguous_delete_marker key is_delete_marker version_id committed_delete_markers =
     (case immutable_version_id version_id of
        None \<Rightarrow> False
      | Some version_id \<Rightarrow> is_delete_marker \<and> \<not> list_ex (\<lambda>(k, v). k = key \<and> v = version_id) committed_delete_markers)"

record tolerated_scan =
  ts_current_gets :: "(string, OperationOutcome \<times> nat option) fmap"
  ts_final_listed_keys :: "string fset option"
  ts_latest_versions :: "(string, nat \<times> bool \<times> string option) fmap"
  ts_list_operations :: nat
  ts_version_list_operations :: nat
  ts_duplicate_current_get :: bool

definition init_tolerated_scan :: tolerated_scan where
  "init_tolerated_scan =
     \<lparr>ts_current_gets = fmempty, ts_final_listed_keys = None, ts_latest_versions = fmempty,
      ts_list_operations = 0, ts_version_list_operations = 0, ts_duplicate_current_get = False\<rparr>"

text \<open>\<open>entry(key).or_insert((0, ..))\<close> followed by the three assignments.\<close>

definition note_latest ::
  "(string, nat \<times> bool \<times> string option) fmap \<Rightarrow> ListedVersionEntry \<Rightarrow> (string, nat \<times> bool \<times> string option) fmap" where
  "note_latest latest v =
     fmupd (lv_key v)
       (Suc (fst (fm_values_at latest (0, lv_is_delete_marker v, lv_version_id v) (lv_key v))),
        lv_is_delete_marker v, lv_version_id v) latest"

definition tolerated_scan_step :: "string \<Rightarrow> tolerated_scan \<Rightarrow> CheckerOperationAudit \<Rightarrow> tolerated_scan" where
  "tolerated_scan_step pre st op =
     (if co_kind op = Get \<and> co_version_id op = None then
        (case co_key op of
           None \<Rightarrow> st
         | Some key \<Rightarrow>
             st\<lparr>ts_current_gets := fmupd key (co_outcome op, co_http_status op) (ts_current_gets st),
                ts_duplicate_current_get :=
                  ts_duplicate_current_get st \<or> key |\<in>| fmdom (ts_current_gets st)\<rparr>)
      else if co_kind op = List \<and> co_key op = Some pre then
        (let st = st\<lparr>ts_list_operations := ts_list_operations st + 1\<rparr> in
         if co_outcome op = Ok \<and> co_http_status op = Some 200
         then (case co_listed_keys op of
                 None \<Rightarrow> st
               | Some keys \<Rightarrow> st\<lparr>ts_final_listed_keys := Some (fset_of_list keys)\<rparr>)
         else st)
      else if co_kind op = ListVersions \<and> co_key op = Some pre then
        (let st = st\<lparr>ts_version_list_operations := ts_version_list_operations st + 1\<rparr> in
         if co_outcome op = Ok \<and> co_http_status op = Some 200
         then (case co_listed_versions op of
                 None \<Rightarrow> st
               | Some versions \<Rightarrow>
                   st\<lparr>ts_latest_versions := foldl note_latest (ts_latest_versions st) (filter lv_is_latest versions)\<rparr>)
         else st)
      else st)"

definition tolerated_ambiguous_deletes_have_audit_proof :: "CheckerReport \<Rightarrow> bool" where
  "tolerated_ambiguous_deletes_have_audit_proof report =
     (if cr_tolerated_ambiguous_deletes report = [] then True
      else case cr_audit report of
        None \<Rightarrow> False
      | Some audit \<Rightarrow>
          (let pre = key_prefix (cr_run_id report);
               st = foldl (tolerated_scan_step pre) init_tolerated_scan (ca_suffix_operations audit)
           in if ts_duplicate_current_get st \<or> ts_list_operations st \<noteq> 1 then False
              else case ts_final_listed_keys st of
                None \<Rightarrow> False
              | Some listed \<Rightarrow>
                  if cr_versioning_expected report \<and> ts_version_list_operations st \<noteq> 1 then False
                  else list_all (\<lambda>key.
                    fmlookup (ts_current_gets st) key = Some (NotFound, Some 404)
                    \<and> key |\<notin>| listed
                    \<and> (\<not> cr_versioning_expected report \<or>
                        (case fmlookup (ts_latest_versions st) key of
                           None \<Rightarrow> False
                         | Some (n, is_delete_marker, version_id) \<Rightarrow>
                             n = 1 \<and> novel_ambiguous_delete_marker key is_delete_marker version_id
                               (map (\<lambda>m. (cm_key m, cm_version_id m)) (ca_delete_marker_checks audit)))))
                    (cr_tolerated_ambiguous_deletes report)))"

definition success_predicate :: "CheckerReport \<Rightarrow> bool" where
  "success_predicate report =
     (let tolerated = fset_of_list (cr_tolerated_ambiguous_deletes report) in
      cr_tenant_recovered report
      \<and> fcard tolerated = length (cr_tolerated_ambiguous_deletes report)
      \<and> checked_add (cr_verified_live_objects report) (fcard tolerated) = Some (cr_expected_live_objects report)
      \<and> tolerated_ambiguous_deletes_have_audit_proof report
      \<and> cr_missing_committed_objects report = []
      \<and> cr_unavailable_committed_objects report = []
      \<and> cr_unknown_committed_read_failures report = []
      \<and> cr_hash_mismatches report = []
      \<and> cr_successful_corrupted_reads report = []
      \<and> cr_unexpected_visible_deleted_objects report = []
      \<and> cr_unknown_write_value_conflicts report = []
      \<and> cr_final_list_warning_count report = 0
      \<and> cr_list_warnings report = []
      \<and> cr_committed_writes_missing_version_id_count report = 0
      \<and> cr_committed_writes_missing_version_id report = []
      \<and> cr_expected_committed_versions report = cr_verified_committed_versions report
      \<and> cr_missing_committed_versions report = []
      \<and> cr_unavailable_committed_versions report = []
      \<and> cr_version_hash_mismatches report = []
      \<and> cr_missing_committed_delete_markers report = []
      \<and> cr_resurrected_deleted_objects report = []
      \<and> cr_listed_keys_unreadable report = []
      \<and> cr_unexpected_listed_objects report = []
      \<and> cr_delete_marker_lineage_incomplete report = []
      \<and> cr_multipart_upload_lineage_incomplete report = [])"

definition require_success :: "CheckerReport \<Rightarrow> (string \<times> string) + unit" where
  "require_success report =
     ensure (cr_passed report \<and> success_predicate report) (cr_scenario report, cr_run_id report) (Inr ())"

subsection \<open>Classification of a failing report\<close>

definition final_list_content_corruption_warning :: "CheckerReport \<Rightarrow> string \<Rightarrow> bool" where
  "final_list_content_corruption_warning report warning =
     (case split_once warning '' did not include expected live key '' of
        Some (_, key) \<Rightarrow> key \<notin> set (cr_missing_committed_objects report)
      | None \<Rightarrow>
          str_contains warning ''included deleted key''
          \<or> (str_contains warning ''GET reported ambiguous-delete key''
              \<and> str_contains warning ''still included it''))"

definition final_list_content_corruption_signal :: "CheckerReport \<Rightarrow> bool" where
  "final_list_content_corruption_signal report =
     list_ex (final_list_content_corruption_warning report) (cr_list_warnings report)"

definition has_data_corruption_signal :: "CheckerReport \<Rightarrow> bool" where
  "has_data_corruption_signal report \<longleftrightarrow>
     cr_hash_mismatches report \<noteq> []
     \<or> cr_successful_corrupted_reads report \<noteq> []
     \<or> cr_unknown_write_value_conflicts report \<noteq> []
     \<or> final_list_content_corruption_signal report"

definition has_committed_unavailable_signal :: "CheckerReport \<Rightarrow> bool" where
  "has_committed_unavailable_signal report \<longleftrightarrow>
     cr_missing_committed_objects report \<noteq> []
     \<or> cr_unavailable_committed_objects report \<noteq> []
     \<or> cr_unknown_committed_read_failures report \<noteq> []"

definition has_list_unavailable_or_unknown_signal :: "CheckerReport \<Rightarrow> bool" where
  "has_list_unavailable_or_unknown_signal report \<longleftrightarrow>
     cr_final_list_warning_count report > 0 \<and> \<not> final_list_content_corruption_signal report"

definition classify_without_reread :: "CheckerReport \<Rightarrow> RecoveryStabilityClassification" where
  "classify_without_reread report =
     (if cr_version_hash_mismatches report \<noteq> [] then VersionHashMismatch
      else if cr_missing_committed_delete_markers report \<noteq> [] then DeleteMarkerMissing
      else if cr_resurrected_deleted_objects report \<noteq> [] \<or> cr_unexpected_visible_deleted_objects report \<noteq> []
      then DeletedObjectResurrected
      else if cr_listed_keys_unreadable report \<noteq> [] then ListedKeyUnreadable
      else if cr_unexpected_listed_objects report \<noteq> [] then UnexpectedListedObject
      else if cr_missing_committed_versions report \<noteq> [] then CommittedVersionMissing
      else if has_data_corruption_signal report then DataCorruption
      else if cr_unavailable_committed_versions report \<noteq> [] then CommittedVersionUnavailable
      else if has_committed_unavailable_signal report then CommittedObjectUnavailable
      else if has_list_unavailable_or_unknown_signal report then ListUnavailableOrUnknown
      else if cr_delete_marker_lineage_incomplete report \<noteq> [] then DeleteMarkerLineageIncomplete
      else if cr_multipart_upload_lineage_incomplete report \<noteq> [] then MultipartUploadLineageIncomplete
      else if cr_committed_writes_missing_version_id_count report > 0 then VersionIdMissingOnCommittedWrite
      else if cr_unknown_writes_materialized report \<noteq> [] then AmbiguousWriteMaterialized
      else HarnessError)"

definition failure_classification :: "CheckerReport \<Rightarrow> RecoveryStabilityClassification" where
  "failure_classification report = classify_without_reread report"

datatype failure_signal_error = NoFailingObservation | NoClassifiableObservation

definition validate_checker_failure_signal :: "CheckerReport \<Rightarrow> failure_signal_error + unit" where
  "validate_checker_failure_signal report =
     ensure (\<not> cr_passed report \<and> \<not> success_predicate report) NoFailingObservation
     (ensure (failure_classification report \<noteq> HarnessError) NoClassifiableObservation
     (Inr ()))"

definition count_by :: "('a \<Rightarrow> string) \<Rightarrow> 'a list \<Rightarrow> (string, nat) fmap" where
  "count_by f xs = foldl (\<lambda>counts x. fmupd (f x) (fm_values_at counts 0 (f x) + 1) counts) fmempty xs"

definition operation_cohort_counts :: "OperationRecord list \<Rightarrow> (string, nat) fmap" where
  "operation_cohort_counts records = count_by cohort_as_str (List.map_filter op_durability_cohort records)"

definition fault_window_relation_counts :: "OperationRecord list \<Rightarrow> (string, nat) fmap" where
  "fault_window_relation_counts records =
     count_by relation_as_str (List.map_filter op_fault_window_relation records)"

subsection \<open>Severity of a classification\<close>

text \<open>The evidence in a report that is a correctness failure, an availability failure, or needs a look.\<close>

definition correctness_evidence :: "CheckerReport \<Rightarrow> bool" where
  "correctness_evidence r \<longleftrightarrow>
     cr_version_hash_mismatches r \<noteq> [] \<or> cr_missing_committed_delete_markers r \<noteq> [] \<or>
     cr_resurrected_deleted_objects r \<noteq> [] \<or> cr_unexpected_visible_deleted_objects r \<noteq> [] \<or>
     cr_listed_keys_unreadable r \<noteq> [] \<or> cr_unexpected_listed_objects r \<noteq> [] \<or>
     cr_missing_committed_versions r \<noteq> [] \<or> has_data_corruption_signal r"

definition availability_evidence :: "CheckerReport \<Rightarrow> bool" where
  "availability_evidence r \<longleftrightarrow>
     cr_unavailable_committed_versions r \<noteq> [] \<or> cr_missing_committed_objects r \<noteq> [] \<or>
     cr_unavailable_committed_objects r \<noteq> [] \<or> cr_unknown_committed_read_failures r \<noteq> [] \<or>
     cr_final_list_warning_count r > 0"

definition lineage_evidence :: "CheckerReport \<Rightarrow> bool" where
  "lineage_evidence r \<longleftrightarrow>
     cr_delete_marker_lineage_incomplete r \<noteq> [] \<or> cr_multipart_upload_lineage_incomplete r \<noteq> [] \<or>
     cr_committed_writes_missing_version_id_count r > 0 \<or> cr_unknown_writes_materialized r \<noteq> []"

lemma content_signal_correctness: "final_list_content_corruption_signal r \<Longrightarrow> correctness_evidence r"
  by (simp add: correctness_evidence_def has_data_corruption_signal_def)

text \<open>
  A failing report is classified at the worst severity it has evidence
  for: a correctness failure is never hidden behind an unavailability or an
  incomplete lineage, an unavailability never behind a lineage note, and the
  harness is blamed only when the report has no evidence at all.
\<close>

theorem classification_is_worst_severity:
  "severity (of_recovery_classification (classify_without_reread r)) =
     (if correctness_evidence r then FailCorrectness
      else if availability_evidence r then FailAvailability
      else if lineage_evidence r then NeedsInvestigation
      else Infra)"
proof (cases "correctness_evidence r")
  case True
  then show ?thesis by (simp add: classify_without_reread_def correctness_evidence_def)
next
  case False
  then have "\<not> final_list_content_corruption_signal r" using content_signal_correctness by blast
  with False show ?thesis
    by (simp add: classify_without_reread_def correctness_evidence_def availability_evidence_def
        lineage_evidence_def has_committed_unavailable_signal_def has_list_unavailable_or_unknown_signal_def)
qed

subsection \<open>The audit proof of tolerated deletes\<close>

abbreviation current_get :: "CheckerOperationAudit \<Rightarrow> bool" where
  "current_get op \<equiv> co_kind op = Get \<and> co_version_id op = None"

abbreviation lists_prefix :: "string \<Rightarrow> CheckerOperationAudit \<Rightarrow> bool" where
  "lists_prefix pre op \<equiv> co_kind op = List \<and> co_key op = Some pre"

abbreviation lists_versions :: "string \<Rightarrow> CheckerOperationAudit \<Rightarrow> bool" where
  "lists_versions pre op \<equiv> co_kind op = ListVersions \<and> co_key op = Some pre"

abbreviation ok_200 :: "CheckerOperationAudit \<Rightarrow> bool" where
  "ok_200 op \<equiv> co_outcome op = Ok \<and> co_http_status op = Some 200"

text \<open>The latest entries a completed version listing of the run's prefix returned.\<close>

definition listed_latest :: "string \<Rightarrow> CheckerOperationAudit \<Rightarrow> ListedVersionEntry list" where
  "listed_latest pre op =
     (if lists_versions pre op \<and> ok_200 op
      then case co_listed_versions op of None \<Rightarrow> [] | Some vs \<Rightarrow> filter lv_is_latest vs
      else [])"

definition latest_view :: "ListedVersionEntry list \<Rightarrow> string \<Rightarrow> (nat \<times> bool \<times> string option) option" where
  "latest_view es k =
     (let ks = filter (\<lambda>e. lv_key e = k) es
      in if ks = [] then None else Some (length ks, lv_is_delete_marker (last ks), lv_version_id (last ks)))"

lemma latest_view_snoc:
  "latest_view (es @ [e]) k =
     (if lv_key e = k
      then Some (Suc (case latest_view es k of None \<Rightarrow> 0 | Some (n, _) \<Rightarrow> n), lv_is_delete_marker e, lv_version_id e)
      else latest_view es k)"
  by (simp add: latest_view_def Let_def)

lemma note_latest_view:
  assumes "\<forall>k. fmlookup m k = latest_view es k"
  shows "\<forall>k. fmlookup (foldl note_latest m vs) k = latest_view (es @ vs) k"
proof (induction vs rule: rev_induct)
  case Nil
  then show ?case using assms by simp
next
  case (snoc v vs)
  then show ?case
    by (auto simp: note_latest_def fm_values_at_def latest_view_snoc simp flip: append_assoc split: option.splits)
qed

text \<open>What the scan has gathered after a prefix of the operations.\<close>

definition scan_gathers :: "string \<Rightarrow> CheckerOperationAudit list \<Rightarrow> tolerated_scan \<Rightarrow> bool" where
  "scan_gathers pre ops st \<longleftrightarrow>
     (\<forall>k v. fmlookup (ts_current_gets st) k = Some v \<longrightarrow>
        (\<exists>op \<in> set ops. current_get op \<and> co_key op = Some k \<and> v = (co_outcome op, co_http_status op))) \<and>
     (\<forall>ks. ts_final_listed_keys st = Some ks \<longrightarrow>
        (\<exists>op \<in> set ops. lists_prefix pre op \<and> ok_200 op \<and> map_option fset_of_list (co_listed_keys op) = Some ks)) \<and>
     (\<forall>k. fmlookup (ts_latest_versions st) k = latest_view (concat (map (listed_latest pre) ops)) k) \<and>
     ts_list_operations st = length (filter (lists_prefix pre) ops) \<and>
     ts_version_list_operations st = length (filter (lists_versions pre) ops)"

lemma scan_gathers_step:
  assumes "scan_gathers pre ops st"
  shows "scan_gathers pre (ops @ [op]) (tolerated_scan_step pre st op)"
proof -
  consider (get) "current_get op" | (list) "lists_prefix pre op" | (versions) "lists_versions pre op"
    | (other) "\<not> current_get op" "\<not> lists_prefix pre op" "\<not> lists_versions pre op" by blast
  then show ?thesis
  proof cases
    case get
    then show ?thesis using assms
      by (auto simp: scan_gathers_def tolerated_scan_step_def listed_latest_def split: option.splits)
  next
    case list
    then show ?thesis using assms
      by (auto simp: scan_gathers_def tolerated_scan_step_def listed_latest_def Let_def split: option.splits)
  next
    case versions
    then show ?thesis using assms note_latest_view
      by (auto simp: scan_gathers_def tolerated_scan_step_def listed_latest_def Let_def split: option.splits)
  next
    case other
    then show ?thesis using assms
      by (auto simp: scan_gathers_def tolerated_scan_step_def listed_latest_def)
  qed
qed

lemma scan_gathers_all:
  "scan_gathers pre ops (foldl (tolerated_scan_step pre) init_tolerated_scan ops)"
proof (induction ops rule: rev_induct)
  case Nil
  then show ?case by (simp add: scan_gathers_def init_tolerated_scan_def latest_view_def)
next
  case (snoc op ops)
  then show ?case by (simp add: scan_gathers_step)
qed

lemma latest_view_one:
  "latest_view es k = Some (Suc 0, d, v) \<Longrightarrow>
   \<exists>e. filter (\<lambda>e. lv_key e = k) es = [e] \<and> lv_is_delete_marker e = d \<and> lv_version_id e = v"
  by (auto simp: latest_view_def Let_def length_Suc_conv split: if_splits)

lemma single_filter: "x \<in> set xs \<Longrightarrow> P x \<Longrightarrow> length (filter P xs) = 1 \<Longrightarrow> filter P xs = [x]"
  by (induction xs) (auto split: if_splits simp: filter_empty_conv)

lemma tolerated_scan_facts:
  assumes "tolerated_ambiguous_deletes_have_audit_proof r" "k \<in> set (cr_tolerated_ambiguous_deletes r)"
  obtains audit st listed where "cr_audit r = Some audit"
      "st = foldl (tolerated_scan_step (key_prefix (cr_run_id r))) init_tolerated_scan (ca_suffix_operations audit)"
      "ts_list_operations st = 1" "ts_final_listed_keys st = Some listed"
      "fmlookup (ts_current_gets st) k = Some (NotFound, Some 404)" "k |\<notin>| listed"
      "cr_versioning_expected r \<longrightarrow> (\<exists>d v. fmlookup (ts_latest_versions st) k = Some (Suc 0, d, v) \<and>
         novel_ambiguous_delete_marker k d v
           (map (\<lambda>m. (cm_key m, cm_version_id m)) (ca_delete_marker_checks audit)))"
proof -
  have ne: "cr_tolerated_ambiguous_deletes r \<noteq> []" using assms(2) by auto
  then obtain audit where audit: "cr_audit r = Some audit"
    using assms(1) by (auto simp: tolerated_ambiguous_deletes_have_audit_proof_def split: option.splits)
  show ?thesis
    using assms ne audit
    by (auto simp: tolerated_ambiguous_deletes_have_audit_proof_def Let_def list_all_iff
        intro!: that [OF audit refl] split: option.splits if_splits prod.splits)
qed

text \<open>
  A successful report tolerates a missing committed object only on
  recorded proof: a GET of the key that answered 404, exactly one completed
  listing of the run's prefix, which does not contain the key, and, under versioning,
  exactly one latest entry of the key in the version listings, which is a delete
  marker with an immutable version id that no committed delete created.
\<close>

theorem tolerated_delete_is_proven:
  assumes "success_predicate r" and "k \<in> set (cr_tolerated_ambiguous_deletes r)"
  shows "\<exists>audit. cr_audit r = Some audit \<and>
    (\<exists>op \<in> set (ca_suffix_operations audit).
       current_get op \<and> co_key op = Some k \<and> co_outcome op = NotFound \<and> co_http_status op = Some 404) \<and>
    (\<exists>op ks. filter (lists_prefix (key_prefix (cr_run_id r))) (ca_suffix_operations audit) = [op] \<and>
       ok_200 op \<and> co_listed_keys op = Some ks \<and> k \<notin> set ks) \<and>
    (cr_versioning_expected r \<longrightarrow>
       (\<exists>e v. filter (\<lambda>e. lv_key e = k)
                (concat (map (listed_latest (key_prefix (cr_run_id r))) (ca_suffix_operations audit))) = [e] \<and>
              lv_is_delete_marker e \<and> lv_version_id e = Some v \<and> v \<noteq> [] \<and> v \<noteq> ''null'' \<and>
              (k, v) \<notin> (\<lambda>m. (cm_key m, cm_version_id m)) ` set (ca_delete_marker_checks audit)))"
proof -
  let ?pre = "key_prefix (cr_run_id r)"
  have proof_ok: "tolerated_ambiguous_deletes_have_audit_proof r"
    using assms(1) by (simp add: success_predicate_def Let_def)
  obtain audit st listed where audit: "cr_audit r = Some audit"
      and st: "st = foldl (tolerated_scan_step ?pre) init_tolerated_scan (ca_suffix_operations audit)"
      and p: "ts_list_operations st = 1" "ts_final_listed_keys st = Some listed"
      "fmlookup (ts_current_gets st) k = Some (NotFound, Some 404)" "k |\<notin>| listed"
      "cr_versioning_expected r \<longrightarrow> (\<exists>d v. fmlookup (ts_latest_versions st) k = Some (Suc 0, d, v) \<and>
         novel_ambiguous_delete_marker k d v
           (map (\<lambda>m. (cm_key m, cm_version_id m)) (ca_delete_marker_checks audit)))"
    by (rule tolerated_scan_facts [OF proof_ok assms(2)])
  define ops where "ops = ca_suffix_operations audit"
  have g: "scan_gathers ?pre ops st" unfolding st ops_def by (rule scan_gathers_all)
  have get: "\<exists>op \<in> set ops. current_get op \<and> co_key op = Some k \<and> co_outcome op = NotFound \<and> co_http_status op = Some 404"
    using g p(3) by (fastforce simp: scan_gathers_def)
  have "\<exists>op ks. filter (lists_prefix ?pre) ops = [op] \<and> ok_200 op \<and> co_listed_keys op = Some ks \<and> k \<notin> set ks"
  proof -
    obtain op ks where op: "op \<in> set ops" "lists_prefix ?pre op" "ok_200 op" "co_listed_keys op = Some ks"
        "listed = fset_of_list ks"
      using g p(2) by (auto simp: scan_gathers_def)
    have "filter (lists_prefix ?pre) ops = [op]"
      using single_filter [of op ops "lists_prefix ?pre"] op g p(1) by (simp add: scan_gathers_def)
    then show ?thesis using op p(4) by (auto simp: fset_of_list_elem)
  qed
  moreover have "cr_versioning_expected r \<longrightarrow> (\<exists>e v. filter (\<lambda>e. lv_key e = k) (concat (map (listed_latest ?pre) ops)) = [e] \<and>
      lv_is_delete_marker e \<and> lv_version_id e = Some v \<and> v \<noteq> [] \<and> v \<noteq> ''null'' \<and>
      (k, v) \<notin> (\<lambda>m. (cm_key m, cm_version_id m)) ` set (ca_delete_marker_checks audit))"
  proof
    assume "cr_versioning_expected r"
    with p(5) g obtain d v where
      "latest_view (concat (map (listed_latest ?pre) ops)) k = Some (Suc 0, d, v)"
      and n: "novel_ambiguous_delete_marker k d v (map (\<lambda>m. (cm_key m, cm_version_id m)) (ca_delete_marker_checks audit))"
      by (auto simp: scan_gathers_def)
    then obtain e where "filter (\<lambda>e. lv_key e = k) (concat (map (listed_latest ?pre) ops)) = [e]"
      "lv_is_delete_marker e = d" "lv_version_id e = v" using latest_view_one by blast
    with n show "\<exists>e v. filter (\<lambda>e. lv_key e = k) (concat (map (listed_latest ?pre) ops)) = [e] \<and>
      lv_is_delete_marker e \<and> lv_version_id e = Some v \<and> v \<noteq> [] \<and> v \<noteq> ''null'' \<and>
      (k, v) \<notin> (\<lambda>m. (cm_key m, cm_version_id m)) ` set (ca_delete_marker_checks audit)"
      by (auto simp: novel_ambiguous_delete_marker_def immutable_version_id_def list_ex_iff
          split: option.splits if_splits)
  qed
  ultimately show ?thesis using audit get by (auto simp: ops_def)
qed

definition clean_report :: CheckerReport where
  "clean_report =
     \<lparr>cr_scenario = ''eio'', cr_run_id = ''run'', cr_committed_puts = 0, cr_expected_live_objects = 0,
      cr_verified_live_objects = 0, cr_missing_committed_objects = [], cr_unavailable_committed_objects = [],
      cr_unknown_committed_read_failures = [], cr_hash_mismatches = [], cr_successful_corrupted_reads = [],
      cr_unexpected_visible_deleted_objects = [], cr_unknown_writes_materialized = [],
      cr_unknown_writes_preserved_committed = [], cr_unknown_write_value_conflicts = [],
      cr_list_history_warning_count = 0, cr_final_list_warning_count = 0, cr_list_history_warnings = [],
      cr_list_warnings = [], cr_final_listed_objects = None, cr_versioning_expected = False,
      cr_expected_committed_versions = 0, cr_verified_committed_versions = 0,
      cr_committed_writes_missing_version_id_count = 0, cr_committed_writes_missing_version_id = [],
      cr_missing_committed_versions = [], cr_unavailable_committed_versions = [],
      cr_version_hash_mismatches = [], cr_missing_committed_delete_markers = [],
      cr_resurrected_deleted_objects = [], cr_listed_keys_unreadable = [], cr_unexpected_listed_objects = [],
      cr_failed_writes_materialized = [], cr_delete_marker_lineage_incomplete = [],
      cr_multipart_upload_lineage_incomplete = [], cr_tolerated_ambiguous_deletes = [],
      cr_operation_cohorts = fmempty, cr_fault_window_relations = fmempty, cr_audit = None,
      cr_tenant_recovered = True, cr_passed = True\<rparr>"

definition demo_audit :: "CheckerOperationAudit list \<Rightarrow> CheckerAudit" where
  "demo_audit ops =
     \<lparr>ca_bucket = ''b'', ca_started_at_ms = 0, ca_completed_at_ms = 0, ca_history_prefix_record_count = 0,
      ca_history_prefix_sha256 = [], ca_history_suffix_record_count = 0, ca_history_suffix_sha256 = [],
      ca_suffix_operations = ops, ca_data_version_checks = [], ca_delete_marker_checks = [],
      ca_list_object_versions_completed = None\<rparr>"

definition demo_get_404 :: OperationRecord where
  "demo_get_404 = (sample_op ''op-8'' Get ''k'' ''h'' NotFound 3 4)\<lparr>op_http_status := Some 404\<rparr>"

definition demo_list :: OperationRecord where
  "demo_list = (sample_op ''op-9'' List (key_prefix ''run'') ''h'' Ok 5 6)\<lparr>op_listed_keys := Some [''other'']\<rparr>"

definition tolerating_report :: CheckerReport where
  "tolerating_report = clean_report\<lparr>cr_expected_live_objects := 1, cr_tolerated_ambiguous_deletes := [''k''],
     cr_audit := Some (demo_audit (checker_operation_audits [demo_get_404, demo_list]))\<rparr>"

theorem tolerated_delete_witness:
  "\<exists>op ks. filter (lists_prefix (key_prefix ''run'')) (checker_operation_audits [demo_get_404, demo_list]) = [op] \<and>
     co_listed_keys op = Some ks \<and> ''k'' \<notin> set ks"
proof -
  have "success_predicate tolerating_report"
    by (simp add: success_predicate_def tolerating_report_def clean_report_def demo_audit_def Let_def
        tolerated_ambiguous_deletes_have_audit_proof_def checker_operation_audits_def checker_operation_audit_def
        demo_get_404_def demo_list_def sample_op_def tolerated_scan_step_def init_tolerated_scan_def
        usize_max_def fset_of_list_elem fcard.rep_eq)
  moreover have "''k'' \<in> set (cr_tolerated_ambiguous_deletes tolerating_report)"
    by (simp add: tolerating_report_def)
  ultimately show ?thesis
    using tolerated_delete_is_proven [of tolerating_report "''k''"]
    by (auto simp: tolerating_report_def clean_report_def demo_audit_def)
qed

end
