(* ===== verification/Version_Lineage.thy ===== *)
theory Version_Lineage
  imports Checker_Report
begin

text \<open>
  Version lineage: what the committed operations of a history promise about the
  object versions of the bucket, and how the checker compares a version listing
  with it (\<open>committed_version_lineage\<close>, \<open>listed_version_lineage_conflicts\<close>,
  \<open>latest_version_entries\<close>, \<open>missing_committed_*\<close>, \<open>checker_expected_version_listing\<close>
  of \<open>src/src/fault/checker.rs\<close>).
\<close>

subsection \<open>Listed entries are ordered\<close>

text \<open>\<open>ListedVersionEntry\<close> derives \<open>Ord\<close>: its fields are compared in declaration order.\<close>

instantiation ListedVersionEntry_ext :: (linorder) linorder
begin

definition less_eq_ListedVersionEntry_ext ::
  "'a ListedVersionEntry_ext \<Rightarrow> 'a ListedVersionEntry_ext \<Rightarrow> bool" where
  "a \<le> b \<longleftrightarrow>
     (lv_key a, lv_version_id a, lv_is_latest a, lv_is_delete_marker a, ListedVersionEntry.more a) \<le>
     (lv_key b, lv_version_id b, lv_is_latest b, lv_is_delete_marker b, ListedVersionEntry.more b)"

definition less_ListedVersionEntry_ext ::
  "'a ListedVersionEntry_ext \<Rightarrow> 'a ListedVersionEntry_ext \<Rightarrow> bool" where
  "a < b \<longleftrightarrow>
     (lv_key a, lv_version_id a, lv_is_latest a, lv_is_delete_marker a, ListedVersionEntry.more a) <
     (lv_key b, lv_version_id b, lv_is_latest b, lv_is_delete_marker b, ListedVersionEntry.more b)"

instance
proof
  fix a b c :: "'a ListedVersionEntry_ext"
  note ord = less_eq_ListedVersionEntry_ext_def less_ListedVersionEntry_ext_def
  show "a < b \<longleftrightarrow> a \<le> b \<and> \<not> b \<le> a" unfolding ord by (rule less_le_not_le)
  show "a \<le> a" unfolding ord by (rule order_refl)
  show "a \<le> b \<or> b \<le> a" unfolding ord by (rule linear)
  assume ab: "a \<le> b"
  show "b \<le> c \<Longrightarrow> a \<le> c" using ab unfolding ord by (rule order_trans)
  show "a = b" if "b \<le> a"
    using antisym [OF ab [unfolded ord] that [unfolded ord]] by (simp add: ListedVersionEntry.equality)
qed

end

subsection \<open>Data\<close>

record ObjectVersionEntry =
  ov_key :: string
  ov_version_id :: "string option"
  ov_is_latest :: bool
  ov_is_delete_marker :: bool

record CommittedVersion =
  cv_key :: string
  cv_version_id :: string
  cv_sha256 :: string
  cv_size_bytes :: nat
  cv_kind :: OperationKind

record CommittedDeleteMarker =
  dm_key :: string
  dm_version_id :: string

record VersionLineage =
  vl_versions :: "CommittedVersion list"
  vl_delete_markers :: "CommittedDeleteMarker list"
  vl_missing_version_id_count :: nat
  vl_missing_version_id_samples :: "string list"
  vl_delete_marker_lineage_incomplete :: "string list"
  vl_multipart_upload_lineage_incomplete :: "string list"

abbreviation version_pair :: "CommittedVersion \<Rightarrow> string \<times> string" where
  "version_pair v \<equiv> (cv_key v, cv_version_id v)"

abbreviation marker_pair :: "CommittedDeleteMarker \<Rightarrow> string \<times> string" where
  "marker_pair m \<equiv> (dm_key m, dm_version_id m)"

definition empty_lineage :: VersionLineage where
  "empty_lineage = \<lparr>vl_versions = [], vl_delete_markers = [], vl_missing_version_id_count = 0,
     vl_missing_version_id_samples = [], vl_delete_marker_lineage_incomplete = [],
     vl_multipart_upload_lineage_incomplete = []\<rparr>"

definition debug_kind :: "OperationKind \<Rightarrow> string" where
  "debug_kind kind = (case kind of
     CreateBucket \<Rightarrow> ''CreateBucket'' | PutBucketVersioning \<Rightarrow> ''PutBucketVersioning'' | Put \<Rightarrow> ''Put''
   | Get \<Rightarrow> ''Get'' | Head \<Rightarrow> ''Head'' | List \<Rightarrow> ''List'' | ListVersions \<Rightarrow> ''ListVersions''
   | Delete \<Rightarrow> ''Delete'' | CreateMultipartUpload \<Rightarrow> ''CreateMultipartUpload''
   | UploadPart \<Rightarrow> ''UploadPart'' | CompleteMultipartUpload \<Rightarrow> ''CompleteMultipartUpload''
   | AbortMultipartUpload \<Rightarrow> ''AbortMultipartUpload'')"

subsection \<open>The committed lineage\<close>

definition is_committed_write :: "OperationRecord \<Rightarrow> bool" where
  "is_committed_write r \<longleftrightarrow> is_object_write (op_kind r) \<and> op_outcome r = Ok"

definition is_committed_delete :: "OperationRecord \<Rightarrow> bool" where
  "is_committed_delete r \<longleftrightarrow>
     op_kind r = Delete \<and> op_outcome r = Ok \<and> op_request_version_id r = None \<and> op_is_delete_marker r \<noteq> Some False"

definition is_unconfirmed_delete :: "OperationRecord \<Rightarrow> bool" where
  "is_unconfirmed_delete r \<longleftrightarrow>
     op_kind r = Delete \<and> op_outcome r = Ok \<and> op_request_version_id r = None \<and> op_is_delete_marker r = Some False"

definition unconfirmed_delete_message :: "OperationRecord \<Rightarrow> string" where
  "unconfirmed_delete_message r =
     (case op_key r of None \<Rightarrow> ''<unknown>'' | Some key \<Rightarrow> key) @
     '': successful unversioned DELETE did not confirm delete-marker creation''"

definition omitted_version_id_message :: "OperationRecord \<Rightarrow> string \<Rightarrow> string" where
  "omitted_version_id_message r key =
     op_id r @ '': committed '' @ debug_kind (op_kind r) @ '' response omitted x-amz-version-id for '' @ key"

definition push_sample :: "string list \<Rightarrow> string \<Rightarrow> string list" where
  "push_sample samples message = (if length samples < MAX_WARNING_SAMPLES then samples @ [message] else samples)"

definition lineage_step :: "VersionLineage \<Rightarrow> OperationRecord \<Rightarrow> VersionLineage" where
  "lineage_step l r =
     (let l = (if is_unconfirmed_delete r
               then l\<lparr>vl_delete_marker_lineage_incomplete :=
                       vl_delete_marker_lineage_incomplete l @ [unconfirmed_delete_message r]\<rparr>
               else l)
      in if \<not> is_committed_write r \<and> \<not> is_committed_delete r then l
         else case op_key r of
           None \<Rightarrow> l
         | Some key \<Rightarrow>
             (case op_version_id r of
                Some version_id \<Rightarrow>
                  if is_committed_write r then
                    (case record_object r of
                       None \<Rightarrow> l
                     | Some (_, expected) \<Rightarrow>
                         l\<lparr>vl_versions := vl_versions l @
                             [\<lparr>cv_key = key, cv_version_id = version_id, cv_sha256 = eo_sha256 expected,
                               cv_size_bytes = eo_size_bytes expected, cv_kind = op_kind r\<rparr>]\<rparr>)
                  else if is_committed_delete r then
                    l\<lparr>vl_delete_markers := vl_delete_markers l @ [\<lparr>dm_key = key, dm_version_id = version_id\<rparr>]\<rparr>
                  else l
              | None \<Rightarrow>
                  (let message = omitted_version_id_message r key in
                   if is_committed_write r then
                     (let l = l\<lparr>vl_missing_version_id_count := vl_missing_version_id_count l + 1,
                                vl_missing_version_id_samples :=
                                  push_sample (vl_missing_version_id_samples l) message\<rparr>
                      in if op_kind r = CompleteMultipartUpload
                         then l\<lparr>vl_multipart_upload_lineage_incomplete :=
                                 push_sample (vl_multipart_upload_lineage_incomplete l) message\<rparr>
                         else l)
                   else l\<lparr>vl_delete_marker_lineage_incomplete :=
                           push_sample (vl_delete_marker_lineage_incomplete l) message\<rparr>)))"

definition committed_version_lineage :: "OperationRecord list \<Rightarrow> VersionLineage" where
  "committed_version_lineage records = foldl lineage_step empty_lineage records"

subsection \<open>Audits of delete markers\<close>

definition listed_pairs :: "bool \<Rightarrow> ObjectVersionEntry list \<Rightarrow> (string \<times> string) list" where
  "listed_pairs delete_markers entries =
     List.map_filter (\<lambda>e. map_option (Pair (ov_key e)) (ov_version_id e))
       (filter (\<lambda>e. ov_is_delete_marker e = delete_markers) entries)"

definition checker_delete_marker_audits ::
  "CommittedDeleteMarker list \<Rightarrow> ObjectVersionEntry list option \<Rightarrow> CheckerDeleteMarkerAudit list" where
  "checker_delete_marker_audits committed entries =
     (let visible = fset_of_list (listed_pairs True (case entries of None \<Rightarrow> [] | Some es \<Rightarrow> es))
      in map (\<lambda>m. \<lparr>cm_key = dm_key m, cm_version_id = dm_version_id m,
                   cm_visible_in_list_object_versions = marker_pair m |\<in>| visible\<rparr>) committed)"

subsection \<open>Conflicts of a version listing\<close>

text \<open>An entry as the trait \<open>ListedVersionIdentity\<close> sees it: key, version id, delete marker.\<close>

type_synonym listed_identity = "string \<times> string option \<times> bool"

definition object_entry_identity :: "ObjectVersionEntry \<Rightarrow> listed_identity" where
  "object_entry_identity e = (ov_key e, ov_version_id e, ov_is_delete_marker e)"

definition listed_entry_identity :: "ListedVersionEntry \<Rightarrow> listed_identity" where
  "listed_entry_identity e = (lv_key e, lv_version_id e, lv_is_delete_marker e)"

definition delete_budget :: "OperationRecord \<Rightarrow> nat" where
  "delete_budget r =
     (let max_attempts = mutation_attempts r in
      case op_outcome r of
        Ok \<Rightarrow> max_attempts - 1
      | Timeout \<Rightarrow> max_attempts
      | Unknown \<Rightarrow> max_attempts
      | Failed \<Rightarrow> max_attempts - 1
      | NotFound \<Rightarrow> 0)"

definition retry_budget_step :: "(string, nat) fmap \<Rightarrow> OperationRecord \<Rightarrow> (string, nat) fmap" where
  "retry_budget_step budgets r =
     (case op_key r of
        None \<Rightarrow> budgets
      | Some key \<Rightarrow> fmupd key (fm_values_at budgets 0 key + delete_budget r) budgets)"

definition retry_delete_budget :: "OperationRecord list \<Rightarrow> (string, nat) fmap" where
  "retry_delete_budget records =
     foldl retry_budget_step fmempty
       (filter (\<lambda>r. op_kind r = Delete \<and> op_request_version_id r = None) records)"

record conflict_scan =
  cs_used :: "(string, nat) fmap"
  cs_seen :: "(string \<times> string) fset"
  cs_conflicts :: "string list"

definition no_identity_message :: "string \<Rightarrow> string" where
  "no_identity_message key = key @ '': ListObjectVersions entry has no immutable version identity''"

definition duplicate_identity_message :: "string \<Rightarrow> string \<Rightarrow> string" where
  "duplicate_identity_message key version_id =
     key @ ''@'' @ version_id @ '': ListObjectVersions returned a duplicate immutable version identity''"

definition sourceless_marker_message :: "string \<Rightarrow> string \<Rightarrow> string" where
  "sourceless_marker_message key version_id =
     key @ ''@'' @ version_id @ '': delete marker has no committed or ambiguous DELETE source''"

definition conflict_step ::
  "(string \<times> string) fset \<Rightarrow> (string, nat) fmap \<Rightarrow> conflict_scan \<Rightarrow> listed_identity \<Rightarrow> conflict_scan" where
  "conflict_step committed_markers budgets st entry =
     (case entry of (key, vid, is_delete_marker) \<Rightarrow>
        (case immutable_version_id vid of
           None \<Rightarrow> st\<lparr>cs_conflicts := cs_conflicts st @ [no_identity_message key]\<rparr>
         | Some version_id \<Rightarrow>
             if (key, version_id) |\<in>| cs_seen st
             then st\<lparr>cs_conflicts := cs_conflicts st @ [duplicate_identity_message key version_id]\<rparr>
             else (let st = st\<lparr>cs_seen := finsert (key, version_id) (cs_seen st)\<rparr> in
                   if \<not> is_delete_marker \<or> (key, version_id) |\<in>| committed_markers then st
                   else (let used = fm_values_at (cs_used st) 0 key;
                             st = st\<lparr>cs_used := fmupd key used (cs_used st)\<rparr>
                         in if used < fm_values_at budgets 0 key
                            then st\<lparr>cs_used := fmupd key (used + 1) (cs_used st)\<rparr>
                            else st\<lparr>cs_conflicts := cs_conflicts st @ [sourceless_marker_message key version_id]\<rparr>))))"

definition listed_version_lineage_conflicts ::
  "OperationRecord list \<Rightarrow> VersionLineage \<Rightarrow> listed_identity list \<Rightarrow> string list" where
  "listed_version_lineage_conflicts records lineage entries =
     cs_conflicts (foldl (conflict_step (fset_of_list (map marker_pair (vl_delete_markers lineage)))
                                        (retry_delete_budget records))
                     \<lparr>cs_used = fmempty, cs_seen = {||}, cs_conflicts = []\<rparr> entries)"

subsection \<open>Missing entries and latest entries\<close>

definition missing_version_message :: "CommittedVersion \<Rightarrow> string" where
  "missing_version_message v =
     cv_key v @ ''@'' @ cv_version_id v @ '': committed version missing from ListObjectVersions''"

definition missing_multipart_message :: "CommittedVersion \<Rightarrow> string" where
  "missing_multipart_message v =
     cv_key v @ ''@'' @ cv_version_id v @ '': committed multipart completion missing from ListObjectVersions''"

definition missing_committed_version_entries ::
  "CommittedVersion list \<Rightarrow> ObjectVersionEntry list \<Rightarrow> string list \<times> string list" where
  "missing_committed_version_entries committed entries =
     (let present = fset_of_list (listed_pairs False entries);
          absent = filter (\<lambda>v. version_pair v |\<notin>| present) committed
      in (map missing_version_message absent,
          map missing_multipart_message (filter (\<lambda>v. cv_kind v = CompleteMultipartUpload) absent)))"

definition missing_committed_delete_markers ::
  "CommittedDeleteMarker list \<Rightarrow> ObjectVersionEntry list \<Rightarrow> string list" where
  "missing_committed_delete_markers committed entries =
     (let present = fset_of_list (listed_pairs True entries)
      in map (\<lambda>m. dm_key m @ ''@'' @ dm_version_id m @
                  '': committed delete marker missing from ListObjectVersions'')
           (filter (\<lambda>m. marker_pair m |\<notin>| present) committed))"

type_synonym latest_scan = "(string, ObjectVersionEntry) fmap \<times> string fset"

definition latest_step :: "latest_scan \<Rightarrow> ObjectVersionEntry \<Rightarrow> latest_scan" where
  "latest_step st e =
     (case st of (latest, duplicate_keys) \<Rightarrow>
        if \<not> ov_is_latest e \<or> ov_key e |\<in>| duplicate_keys then st
        else if ov_key e |\<in>| fmdom latest
             then (fmdrop (ov_key e) (fmupd (ov_key e) e latest), finsert (ov_key e) duplicate_keys)
             else (fmupd (ov_key e) e latest, duplicate_keys))"

definition multiple_latest_message :: "string \<Rightarrow> string" where
  "multiple_latest_message key = key @ '': ListObjectVersions returned multiple latest entries''"

definition latest_version_entries ::
  "ObjectVersionEntry list \<Rightarrow> (string, ObjectVersionEntry) fmap \<times> string list" where
  "latest_version_entries entries =
     (case foldl latest_step (fmempty, {||}) entries of (latest, duplicate_keys) \<Rightarrow>
        (latest, map multiple_latest_message (sorted_list_of_fset duplicate_keys)))"

subsection \<open>The listing the history promises\<close>

definition listing_record :: "OperationRecord \<Rightarrow> bool" where
  "listing_record r \<longleftrightarrow>
     op_outcome r = Ok \<and>
     (is_object_write (op_kind r) \<or>
      (op_kind r = Delete \<and> op_request_version_id r = None \<and> op_is_delete_marker r \<noteq> Some False))"

definition promised_version :: "OperationRecord \<Rightarrow> (string \<times> string \<times> bool) option" where
  "promised_version r =
     (case (op_key r, immutable_version_id (op_version_id r)) of
        (Some key, Some version_id) \<Rightarrow> Some (key, version_id, op_kind r = Delete)
      | _ \<Rightarrow> None)"

definition promised_versions :: "OperationRecord list \<Rightarrow> (string \<times> string \<times> bool) list" where
  "promised_versions records = List.map_filter promised_version (filter listing_record records)"

definition latest_by_key :: "(string \<times> string \<times> bool) list \<Rightarrow> (string, string \<times> bool) fmap" where
  "latest_by_key vs = foldl (\<lambda>m (key, v). fmupd key v m) fmempty vs"

definition checker_expected_version_listing :: "OperationRecord list \<Rightarrow> ListedVersionEntry fset" where
  "checker_expected_version_listing records =
     (let versions = promised_versions records; latest = latest_by_key versions
      in fset_of_list (map (\<lambda>(key, version_id, is_delete_marker).
           \<lparr>lv_key = key, lv_version_id = Some version_id,
            lv_is_latest = (case fmlookup latest key of
                              None \<Rightarrow> False
                            | Some (v, d) \<Rightarrow> version_id = v \<and> is_delete_marker = d),
            lv_is_delete_marker = is_delete_marker\<rparr>) versions))"

text \<open>\<open>expected_latest_versions\<close> of \<open>check_s3_history\<close>.\<close>

definition expected_latest_versions :: "OperationRecord list \<Rightarrow> (string, ListedVersionEntry) fmap" where
  "expected_latest_versions records =
     foldl (\<lambda>m e. fmupd (lv_key e) e m) fmempty
       (filter lv_is_latest (sorted_list_of_fset (checker_expected_version_listing records)))"

subsection \<open>The committed lineage is the committed records\<close>

definition committed_version_of :: "OperationRecord \<Rightarrow> CommittedVersion option" where
  "committed_version_of r =
     (if is_committed_write r
      then case (op_version_id r, record_object r) of
             (Some v, Some (k, e)) \<Rightarrow>
               Some \<lparr>cv_key = k, cv_version_id = v, cv_sha256 = eo_sha256 e, cv_size_bytes = eo_size_bytes e,
                     cv_kind = op_kind r\<rparr>
           | _ \<Rightarrow> None
      else None)"

definition committed_marker_of :: "OperationRecord \<Rightarrow> CommittedDeleteMarker option" where
  "committed_marker_of r =
     (if is_committed_delete r
      then case (op_key r, op_version_id r) of
             (Some k, Some v) \<Rightarrow> Some \<lparr>dm_key = k, dm_version_id = v\<rparr> | _ \<Rightarrow> None
      else None)"

definition unversioned_write :: "OperationRecord \<Rightarrow> bool" where
  "unversioned_write r \<longleftrightarrow> is_committed_write r \<and> op_key r \<noteq> None \<and> op_version_id r = None"

lemma committed_exclusive: "is_committed_write r \<Longrightarrow> \<not> is_committed_delete r"
  by (auto simp: is_committed_write_def is_committed_delete_def is_object_write_def)

lemma map_filter_snoc:
  "List.map_filter f (xs @ [x]) = List.map_filter f xs @ (case f x of None \<Rightarrow> [] | Some y \<Rightarrow> [y])"
  by (simp add: List.map_filter_def split: option.split)

lemma lineage_step_versions:
  "vl_versions (lineage_step l r) =
     vl_versions l @ (case committed_version_of r of None \<Rightarrow> [] | Some v \<Rightarrow> [v])"
  by (auto simp: lineage_step_def committed_version_of_def Let_def dest: record_object_key committed_exclusive
      split: option.splits)

lemma lineage_step_markers:
  "vl_delete_markers (lineage_step l r) =
     vl_delete_markers l @ (case committed_marker_of r of None \<Rightarrow> [] | Some m \<Rightarrow> [m])"
  by (auto simp: lineage_step_def committed_marker_of_def Let_def dest: committed_exclusive split: option.splits)

lemma lineage_step_missing:
  "vl_missing_version_id_count (lineage_step l r) =
     vl_missing_version_id_count l + (if unversioned_write r then 1 else 0)"
  "vl_missing_version_id_samples (lineage_step l r) =
     (if unversioned_write r
      then push_sample (vl_missing_version_id_samples l) (omitted_version_id_message r (the (op_key r)))
      else vl_missing_version_id_samples l)"
  by (auto simp: lineage_step_def unversioned_write_def Let_def split: option.splits)

lemma push_sample_take:
  "push_sample (take MAX_WARNING_SAMPLES xs) x = take MAX_WARNING_SAMPLES (xs @ [x])"
  by (auto simp: push_sample_def min_def)

text \<open>
  The lineage the checker derives is exactly what the history committed,
  in order: one version per acknowledged write with a version id, one marker per
  acknowledged unversioned delete with a version id, and the exact number of acknowledged
  writes whose version id is missing, of which the first fifty are reported.
\<close>

theorem committed_version_lineage_exact:
  "vl_versions (committed_version_lineage rs) = List.map_filter committed_version_of rs \<and>
   vl_delete_markers (committed_version_lineage rs) = List.map_filter committed_marker_of rs \<and>
   vl_missing_version_id_count (committed_version_lineage rs) = length (filter unversioned_write rs) \<and>
   vl_missing_version_id_samples (committed_version_lineage rs) =
     take 50 (map (\<lambda>r. omitted_version_id_message r (the (op_key r))) (filter unversioned_write rs))"
proof (induction rs rule: rev_induct)
  case Nil
  then show ?case by (simp add: committed_version_lineage_def empty_lineage_def List.map_filter_def)
next
  case (snoc r rs)
  then show ?case
    using push_sample_take
    by (simp add: committed_version_lineage_def lineage_step_versions lineage_step_markers lineage_step_missing
        map_filter_snoc MAX_WARNING_SAMPLES_def)
qed

subsection \<open>Listings without conflicts\<close>

abbreviation entry_key :: "listed_identity \<Rightarrow> string" where
  "entry_key e \<equiv> fst e"

definition entry_version :: "listed_identity \<Rightarrow> string option" where
  "entry_version e = immutable_version_id (fst (snd e))"

definition entry_identity :: "listed_identity \<Rightarrow> string \<times> string" where
  "entry_identity e = (fst e, the (entry_version e))"

definition unsourced_marker :: "(string \<times> string) set \<Rightarrow> listed_identity \<Rightarrow> bool" where
  "unsourced_marker committed e \<longleftrightarrow> snd (snd e) \<and> entry_identity e \<notin> committed"

definition unsourced_count :: "(string \<times> string) set \<Rightarrow> string \<Rightarrow> listed_identity list \<Rightarrow> nat" where
  "unsourced_count committed k es = length (filter (\<lambda>e. unsourced_marker committed e \<and> entry_key e = k) es)"

text \<open>A listing the recorded deletes can explain.\<close>

definition explained_listing :: "(string \<times> string) set \<Rightarrow> (string \<Rightarrow> nat) \<Rightarrow> listed_identity list \<Rightarrow> bool" where
  "explained_listing committed budget es \<longleftrightarrow>
     (\<forall>e \<in> set es. entry_version e \<noteq> None) \<and> distinct (map entry_identity es) \<and>
     (\<forall>k. unsourced_count committed k es \<le> budget k)"

lemma unsourced_count_snoc:
  "unsourced_count committed k (es @ [e]) =
     unsourced_count committed k es + (if unsourced_marker committed e \<and> entry_key e = k then 1 else 0)"
  by (simp add: unsourced_count_def)

lemma explained_listing_snoc:
  "explained_listing committed budget (es @ [e]) \<longleftrightarrow>
     explained_listing committed budget es \<and> entry_version e \<noteq> None \<and> entry_identity e \<notin> entry_identity ` set es \<and>
     (unsourced_marker committed e \<longrightarrow> unsourced_count committed (entry_key e) es < budget (entry_key e))"
  by (auto simp: explained_listing_def unsourced_count_snoc Suc_le_eq split: if_splits)

lemma fm_values_at_upd [simp]:
  "fm_values_at (fmupd k v m) d k' = (if k = k' then v else fm_values_at m d k')"
  by (simp add: fm_values_at_def)

lemma fm_values_at_empty [simp]: "fm_values_at fmempty d k = d"
  by (simp add: fm_values_at_def)

lemma conflict_step_grows: "cs_conflicts st \<noteq> [] \<Longrightarrow> cs_conflicts (conflict_step cm b st e) \<noteq> []"
  by (auto simp: conflict_step_def Let_def split: prod.splits option.splits)

lemma conflict_step_identified:
  fixes key :: string and dm :: bool and st :: conflict_scan
    and cm :: "(string \<times> string) fset" and b :: "(string, nat) fmap"
  assumes "immutable_version_id vid = Some v"
  defines "seen \<equiv> (key, v) |\<in>| cs_seen st"
    and "unsourced \<equiv> dm \<and> (key, v) |\<notin>| cm"
    and "within \<equiv> fm_values_at (cs_used st) 0 key < fm_values_at b 0 key"
  shows "cs_conflicts (conflict_step cm b st (key, vid, dm)) = cs_conflicts st @
       (if seen then [duplicate_identity_message key v]
        else if unsourced \<and> \<not> within then [sourceless_marker_message key v] else [])"
    and "fset (cs_seen (conflict_step cm b st (key, vid, dm))) = insert (key, v) (fset (cs_seen st))"
    and "fm_values_at (cs_used (conflict_step cm b st (key, vid, dm))) 0 k =
       fm_values_at (cs_used st) 0 k + (if \<not> seen \<and> unsourced \<and> within \<and> k = key then 1 else 0)"
  using assms(1) by (auto simp: conflict_step_def Let_def seen_def unsourced_def within_def)

definition conflict_scan_ok ::
  "(string \<times> string) fset \<Rightarrow> (string, nat) fmap \<Rightarrow> listed_identity list \<Rightarrow> conflict_scan \<Rightarrow> bool" where
  "conflict_scan_ok cm b es st \<longleftrightarrow>
     (cs_conflicts st = [] \<longleftrightarrow> explained_listing (fset cm) (fm_values_at b 0) es) \<and>
     (cs_conflicts st = [] \<longrightarrow>
        fset (cs_seen st) = entry_identity ` set es \<and>
        (\<forall>k. fm_values_at (cs_used st) 0 k = unsourced_count (fset cm) k es))"

lemma conflict_scan_step:
  assumes "conflict_scan_ok cm b es st"
  shows "conflict_scan_ok cm b (es @ [e]) (conflict_step cm b st e)"
proof (cases "cs_conflicts st = []")
  case False
  then show ?thesis
    using assms conflict_step_grows [OF False] by (simp add: conflict_scan_ok_def explained_listing_snoc)
next
  case True
  obtain key vid dm where e: "e = (key, vid, dm)" by (cases e)
  have seen: "fset (cs_seen st) = entry_identity ` set es"
    and used: "\<And>k. fm_values_at (cs_used st) 0 k = unsourced_count (fset cm) k es"
    and ex: "explained_listing (fset cm) (fm_values_at b 0) es"
    using assms True by (auto simp: conflict_scan_ok_def)
  show ?thesis
  proof (cases "immutable_version_id vid")
    case None
    then show ?thesis
      using True by (simp add: conflict_scan_ok_def conflict_step_def e explained_listing_snoc entry_version_def)
  next
    case (Some v)
    then have id: "entry_identity e = (key, v)" "entry_version e = Some v"
      by (simp_all add: e entry_identity_def entry_version_def)
    have mem: "(key, v) |\<in>| cs_seen st \<longleftrightarrow> entry_identity e \<in> entry_identity ` set es"
      using seen id by simp
    have uns: "unsourced_marker (fset cm) e \<longleftrightarrow> dm \<and> (key, v) |\<notin>| cm"
      by (simp add: unsourced_marker_def id) (simp add: e)
    have key: "entry_key e = key" by (simp add: e)
    note step = conflict_step_identified [OF Some, where key = key and dm = dm and st = st and cm = cm and b = b,
        folded e]
    show ?thesis
      using True ex seen used mem uns step
      by (auto simp: conflict_scan_ok_def explained_listing_snoc unsourced_count_snoc id key)
  qed
qed

lemma conflict_scan_all:
  "conflict_scan_ok cm b es
     (foldl (conflict_step cm b) \<lparr>cs_used = fmempty, cs_seen = {||}, cs_conflicts = []\<rparr> es)"
proof (induction es rule: rev_induct)
  case Nil
  then show ?case
    by (simp add: conflict_scan_ok_def explained_listing_def unsourced_count_def fm_values_at_def)
next
  case (snoc e es)
  then show ?case by (simp add: conflict_scan_step)
qed

lemma retry_budget_sum:
  "fm_values_at (foldl retry_budget_step m rs) 0 k =
     fm_values_at m 0 k + sum_list (map delete_budget (filter (\<lambda>r. op_key r = Some k) rs))"
  by (induction rs arbitrary: m) (auto simp: retry_budget_step_def split: option.splits)

text \<open>The delete markers of a key that repeated or unacknowledged deletes may have left behind.\<close>

definition unacknowledged_markers :: "OperationRecord list \<Rightarrow> string \<Rightarrow> nat" where
  "unacknowledged_markers rs k =
     sum_list (map delete_budget
       (filter (\<lambda>r. op_kind r = Delete \<and> op_request_version_id r = None \<and> op_key r = Some k) rs))"

text \<open>
  C20: The checker accepts a version listing exactly when every entry has an
  immutable version id, no identity is listed twice, and the delete markers that
  no acknowledged delete created number at most what the repeated and
  unacknowledged deletes of the key can have left behind.
\<close>

theorem listed_version_lineage_conflicts_iff:
  "listed_version_lineage_conflicts rs lineage es = [] \<longleftrightarrow>
     explained_listing (marker_pair ` set (vl_delete_markers lineage)) (unacknowledged_markers rs) es"
proof -
  let ?cm = "fset_of_list (map marker_pair (vl_delete_markers lineage))"
  have "fm_values_at (retry_delete_budget rs) 0 = unacknowledged_markers rs"
    by (rule ext) (simp add: retry_delete_budget_def retry_budget_sum unacknowledged_markers_def conj_ac)
  moreover have "fset ?cm = marker_pair ` set (vl_delete_markers lineage)" by (simp add: fset_of_list.rep_eq)
  ultimately show ?thesis
    using conflict_scan_all [of ?cm "retry_delete_budget rs" es]
    by (simp add: conflict_scan_ok_def listed_version_lineage_conflicts_def)
qed

subsection \<open>Latest entries\<close>

abbreviation latest_of :: "string \<Rightarrow> ObjectVersionEntry list \<Rightarrow> ObjectVersionEntry list" where
  "latest_of k es \<equiv> filter (\<lambda>e. ov_is_latest e \<and> ov_key e = k) es"

definition latest_scan_ok :: "ObjectVersionEntry list \<Rightarrow> latest_scan \<Rightarrow> bool" where
  "latest_scan_ok es st \<longleftrightarrow>
     (\<forall>k. fmlookup (fst st) k = (case latest_of k es of [e] \<Rightarrow> Some e | _ \<Rightarrow> None) \<and>
          (k |\<in>| snd st \<longleftrightarrow> length (latest_of k es) \<ge> 2))"

lemma single_snoc:
  "(case xs @ [x] of [e] \<Rightarrow> Some e | _ \<Rightarrow> None) = (if xs = [] then Some x else None)"
  by (cases xs; cases "tl xs") auto

lemma case_single_None: "(case xs of [e] \<Rightarrow> Some e | _ \<Rightarrow> None) = None \<longleftrightarrow> length xs \<noteq> 1"
  by (cases xs; cases "tl xs") auto

lemma latest_scan_step:
  assumes "latest_scan_ok es st"
  shows "latest_scan_ok (es @ [e]) (latest_step st e)"
proof (cases "ov_is_latest e")
  case False
  then show ?thesis using assms by (auto simp: latest_scan_ok_def latest_step_def split: prod.splits)
next
  case True
  obtain latest dup where st: "st = (latest, dup)" by (cases st)
  let ?xs = "latest_of (ov_key e) es"
  have inv: "\<And>k. fmlookup latest k = (case latest_of k es of [e] \<Rightarrow> Some e | _ \<Rightarrow> None)"
      "\<And>k. k |\<in>| dup \<longleftrightarrow> length (latest_of k es) \<ge> 2"
    using assms by (auto simp: latest_scan_ok_def st)
  have dom: "ov_key e |\<in>| fmdom latest \<longleftrightarrow> length ?xs = 1"
    using inv(1) [of "ov_key e"] case_single_None [of ?xs] by (auto simp: fmdom_iff_lookup)
  consider "length ?xs = 0" | "length ?xs = 1" | "length ?xs \<ge> 2" by linarith
  then show ?thesis
    by cases (use True inv dom in \<open>auto simp: latest_scan_ok_def latest_step_def st single_snoc fmdrop_lookup_if\<close>)
qed

lemma latest_scan_all: "latest_scan_ok es (foldl latest_step (fmempty, {||}) es)"
proof (induction es rule: rev_induct)
  case Nil
  then show ?case by (simp add: latest_scan_ok_def)
next
  case (snoc e es)
  then show ?case by (simp add: latest_scan_step)
qed

text \<open>
  The latest entry the checker uses for a key is the unique entry of the
  listing flagged latest for it; a key with several such entries has none and is
  reported as a conflict, and only such keys are.
\<close>

theorem latest_version_entries_unique:
  "(fmlookup (fst (latest_version_entries es)) k = Some e \<longleftrightarrow> latest_of k es = [e]) \<and>
   set (snd (latest_version_entries es)) = multiple_latest_message ` {k. length (latest_of k es) \<ge> 2}"
proof -
  obtain latest dup where st: "foldl latest_step (fmempty, {||}) es = (latest, dup)" by (cases "foldl latest_step (fmempty, {||}) es")
  have inv: "\<And>k. fmlookup latest k = (case latest_of k es of [e] \<Rightarrow> Some e | _ \<Rightarrow> None)"
      "\<And>k. k |\<in>| dup \<longleftrightarrow> length (latest_of k es) \<ge> 2"
    using latest_scan_all [of es] by (auto simp: latest_scan_ok_def st)
  have "fset dup = {k. length (latest_of k es) \<ge> 2}" using inv(2) by auto
  then show ?thesis using inv(1) by (auto simp: latest_version_entries_def st split: list.splits)
qed

subsection \<open>The promised listing\<close>

lemma latest_by_key_lookup:
  "fmlookup (foldl (\<lambda>m (key, v). fmupd key v m) m vs) k =
     (case filter (\<lambda>v. fst v = k) vs of [] \<Rightarrow> fmlookup m k | v # vs' \<Rightarrow> Some (snd (last (v # vs'))))"
  by (induction vs arbitrary: m) (auto split: list.splits)

lemma latest_by_key_last:
  "fmlookup (latest_by_key vs) k =
     (if filter (\<lambda>v. fst v = k) vs = [] then None else Some (snd (last (filter (\<lambda>v. fst v = k) vs))))"
  by (simp add: latest_by_key_def latest_by_key_lookup split: list.split)

definition promised_entry :: "bool \<Rightarrow> string \<times> string \<times> bool \<Rightarrow> ListedVersionEntry" where
  "promised_entry latest v =
     \<lparr>lv_key = fst v, lv_version_id = Some (fst (snd v)), lv_is_latest = latest, lv_is_delete_marker = snd (snd v)\<rparr>"

lemma expected_listing_eq:
  "fset (checker_expected_version_listing rs) =
     {promised_entry (v = last (filter (\<lambda>w. fst w = fst v) (promised_versions rs))) v | v. v \<in> set (promised_versions rs)}"
proof -
  let ?vs = "promised_versions rs"
  have "(\<lambda>(key, version_id, dm).
           \<lparr>lv_key = key, lv_version_id = Some version_id,
            lv_is_latest = (case fmlookup (latest_by_key ?vs) key of
                              None \<Rightarrow> False | Some (v, d) \<Rightarrow> version_id = v \<and> dm = d),
            lv_is_delete_marker = dm\<rparr>) v =
        promised_entry (v = last (filter (\<lambda>w. fst w = fst v) ?vs)) v" if "v \<in> set ?vs" for v
  proof -
    obtain k i d where v: "v = (k, i, d)" by (cases v)
    let ?l = "filter (\<lambda>w. fst w = k) ?vs"
    have ne: "?l \<noteq> []" using that v by (force simp: filter_empty_conv)
    then have "fst (last ?l) = k" using last_in_set [OF ne] by simp
    then show ?thesis
      using ne by (cases "last ?l") (auto simp: v promised_entry_def latest_by_key_last)
  qed
  then show ?thesis
    by (force simp: checker_expected_version_listing_def Let_def fset_of_list.rep_eq)
qed

lemma collect_by_key:
  "fmlookup (foldl (\<lambda>m e. fmupd (f e) e m) m es) k =
     (case filter (\<lambda>e. f e = k) es of [] \<Rightarrow> fmlookup m k | e # es' \<Rightarrow> Some (last (e # es')))"
  by (induction es arbitrary: m) (auto split: list.splits)

text \<open>
  For each key the checker expects as latest exactly the version the last
  acknowledged mutation of the key with an immutable version id created, and
  nothing for a key without one. The set order in which the expectations are
  collected does not matter.
\<close>

theorem expected_latest_is_last_promise:
  "fmlookup (expected_latest_versions rs) k =
     (let vs = filter (\<lambda>v. fst v = k) (promised_versions rs)
      in if vs = [] then None else Some (promised_entry True (last vs)))"
proof -
  let ?pv = "promised_versions rs"
  let ?es = "filter lv_is_latest (sorted_list_of_fset (checker_expected_version_listing rs))"
  let ?last = "\<lambda>k. last (filter (\<lambda>v. fst v = k) ?pv)"
  have es: "set ?es = {promised_entry True v | v. v \<in> set ?pv \<and> v = ?last (fst v)}"
    by (auto simp: expected_listing_eq promised_entry_def)
  let ?fs = "filter (\<lambda>e. lv_key e = k) ?es"
  have ex: "?fs = [] \<longleftrightarrow> filter (\<lambda>v. fst v = k) ?pv = []"
  proof
    assume "?fs = []"
    then have none: "\<not> (e \<in> set ?es \<and> lv_key e = k)" for e by (metis (mono_tags) empty_filter_conv)
    show "filter (\<lambda>v. fst v = k) ?pv = []"
    proof (rule ccontr)
      assume "filter (\<lambda>v. fst v = k) ?pv \<noteq> []"
      from last_in_set [OF this] have l: "?last k \<in> set ?pv" "fst (?last k) = k" by auto
      then have "promised_entry True (?last k) \<in> set ?es"
        unfolding es by (intro CollectI exI [of _ "?last k"]) simp
      with none [of "promised_entry True (?last k)"] l(2) show False by (simp add: promised_entry_def)
    qed
  next
    assume nil: "filter (\<lambda>v. fst v = k) ?pv = []"
    have "lv_key e \<noteq> k" if e: "e \<in> set ?es" for e
    proof -
      obtain v where "e = promised_entry True v" "v \<in> set ?pv" using e unfolding es by blast
      with nil show ?thesis by (auto simp: promised_entry_def filter_empty_conv)
    qed
    then show "?fs = []" unfolding filter_empty_conv by blast
  qed
  have "last ?fs = promised_entry True (?last k)" if "?fs \<noteq> []"
  proof -
    have "last ?fs \<in> set ?es" and k: "lv_key (last ?fs) = k" using last_in_set [OF that] by auto
    then obtain v where "last ?fs = promised_entry True v" "v = ?last (fst v)" unfolding es by blast
    with k show ?thesis by (simp add: promised_entry_def)
  qed
  then show ?thesis
    using ex by (auto simp: expected_latest_versions_def collect_by_key Let_def split: list.splits)
qed

end
