(* ===== verification/Checker_Evaluation.thy ===== *)
theory Checker_Evaluation
  imports Version_Lineage
begin

text \<open>
  How the checker turns one observation into report entries
  (\<open>evaluate_*\<close>, \<open>finalize_ambiguous_delete_observations\<close> and the message
  builders of \<open>src/src/fault/checker.rs\<close>). SHA-256 comes from a third-party
  crate: \<open>sha\<close>, a function from bytes to the hexadecimal digest, is an argument
  of every definition that hashes a body. No property assumes anything of it.
\<close>

record GetObjectResult =
  gr_outcome :: OperationOutcome
  gr_http_status :: "nat option"
  gr_error :: "string option"
  gr_body :: "bytes option"

subsection \<open>Matching bodies\<close>

definition object_matches :: "hasher \<Rightarrow> ExpectedObject \<Rightarrow> bytes \<Rightarrow> bool" where
  "object_matches sha expected body \<longleftrightarrow> length body = eo_size_bytes expected \<and> sha body = eo_sha256 expected"

definition committed_get_matches :: "hasher \<Rightarrow> ExpectedObject \<Rightarrow> GetObjectResult \<Rightarrow> bool" where
  "committed_get_matches sha expected get \<longleftrightarrow>
     gr_outcome get = Ok \<and> (case gr_body get of None \<Rightarrow> False | Some body \<Rightarrow> object_matches sha expected body)"

definition matching_active_ambiguous_write ::
  "hasher \<Rightarrow> AmbiguousWriteAttempt list \<Rightarrow> bytes \<Rightarrow> AmbiguousWriteAttempt option" where
  "matching_active_ambiguous_write sha attempts body =
     find (\<lambda>a. object_matches sha (aw_object a) body)
       (filter (\<lambda>a. aw_superseded_by a = None) (rev attempts))"

definition matching_superseded_ambiguous_write ::
  "hasher \<Rightarrow> AmbiguousWriteAttempt list \<Rightarrow> bytes \<Rightarrow> AmbiguousWriteAttempt option" where
  "matching_superseded_ambiguous_write sha attempts body =
     find (\<lambda>a. object_matches sha (aw_object a) body)
       (filter (\<lambda>a. aw_superseded_by a \<noteq> None) (rev attempts))"

subsection \<open>Messages\<close>

definition bytes_suffix :: "nat \<Rightarrow> string" where
  "bytes_suffix n = '' ('' @ show_nat n @ '' bytes)''"

definition ambiguous_write_attempt_label :: "AmbiguousWriteAttempt \<Rightarrow> string" where
  "ambiguous_write_attempt_label a =
     aw_id a @ '' '' @ debug_kind (aw_kind a) @ '' '' @ debug_outcome (aw_outcome a) @ '' '' @
     eo_sha256 (aw_object a) @ bytes_suffix (eo_size_bytes (aw_object a)) @
     (case aw_superseded_by a of
        None \<Rightarrow> []
      | Some s \<Rightarrow> '' superseded_by='' @ sm_id s @ '' '' @ debug_kind (sm_kind s) @ '' started_at_ms='' @
                  show_nat (sm_started_at_ms s))"

definition ambiguous_write_attempt_summary :: "AmbiguousWriteAttempt list \<Rightarrow> string" where
  "ambiguous_write_attempt_summary attempts =
     (if attempts = [] then ''none'' else join_strings '', '' (map ambiguous_write_attempt_label attempts))"

definition hash_mismatch_message :: "hasher \<Rightarrow> string \<Rightarrow> ExpectedObject \<Rightarrow> bytes \<Rightarrow> string" where
  "hash_mismatch_message sha key expected body =
     key @ '': expected '' @ eo_sha256 expected @ bytes_suffix (eo_size_bytes expected) @
     '', got '' @ sha body @ bytes_suffix (length body)"

definition ambiguous_write_materialized_message ::
  "hasher \<Rightarrow> string \<Rightarrow> AmbiguousWriteAttempt \<Rightarrow> bytes \<Rightarrow> string" where
  "ambiguous_write_materialized_message sha key attempt body =
     key @ '': '' @ ambiguous_write_attempt_label attempt @ '' materialized as '' @ sha body @
     bytes_suffix (length body)"

definition ambiguous_version_materialized_from_object_message ::
  "string \<Rightarrow> string \<Rightarrow> AmbiguousWriteAttempt \<Rightarrow> ExpectedObject \<Rightarrow> string" where
  "ambiguous_version_materialized_from_object_message key version_id attempt actual =
     key @ ''@'' @ version_id @ '': '' @ ambiguous_write_attempt_label attempt @
     '' materialized as version '' @ eo_sha256 actual @ bytes_suffix (eo_size_bytes actual)"

definition ambiguous_version_materialized_message ::
  "hasher \<Rightarrow> string \<Rightarrow> string \<Rightarrow> AmbiguousWriteAttempt \<Rightarrow> bytes \<Rightarrow> string" where
  "ambiguous_version_materialized_message sha key version_id attempt body =
     ambiguous_version_materialized_from_object_message key version_id attempt
       \<lparr>eo_sha256 = sha body, eo_size_bytes = length body\<rparr>"

definition committed_label :: "ExpectedObject option \<Rightarrow> string" where
  "committed_label expected =
     (case expected of
        None \<Rightarrow> ''no committed object''
      | Some e \<Rightarrow> ''committed '' @ eo_sha256 e @ bytes_suffix (eo_size_bytes e))"

definition unknown_write_value_conflict_message ::
  "hasher \<Rightarrow> string \<Rightarrow> ExpectedObject option \<Rightarrow> AmbiguousWriteAttempt list \<Rightarrow> bytes \<Rightarrow> string" where
  "unknown_write_value_conflict_message sha key expected attempts body =
     key @ '': observed '' @ sha body @ bytes_suffix (length body) @ '', expected '' @ committed_label expected @
     '' or ambiguous attempts ['' @ ambiguous_write_attempt_summary attempts @ '']''"

definition superseded_ambiguous_write_conflict_message ::
  "hasher \<Rightarrow> string \<Rightarrow> ExpectedObject option \<Rightarrow> AmbiguousWriteAttempt \<Rightarrow> bytes \<Rightarrow> string" where
  "superseded_ambiguous_write_conflict_message sha key expected attempt body =
     key @ '': observed '' @ sha body @ bytes_suffix (length body) @ '' from superseded ambiguous attempt ['' @
     ambiguous_write_attempt_label attempt @ ''], expected '' @ committed_label expected"

definition uncommitted_version_missing_id_message :: "string \<Rightarrow> string \<Rightarrow> string" where
  "uncommitted_version_missing_id_message key attempt_summary =
     key @ '': uncommitted non-delete version from ListObjectVersions did not include a version id; ambiguous attempts ['' @
     attempt_summary @ '']''"

subsection \<open>Final reads of live and ambiguous keys\<close>

definition record_preserved_committed ::
  "hasher \<Rightarrow> CheckerReport \<Rightarrow> string \<Rightarrow> ExpectedObject option \<Rightarrow> AmbiguousWriteAttempt list \<Rightarrow> bytes \<Rightarrow> CheckerReport" where
  "record_preserved_committed sha report key expected attempts body =
     (case expected of
        None \<Rightarrow> report
      | Some e \<Rightarrow>
          if attempts = [] then report
          else if sha body \<noteq> eo_sha256 e \<or> length body \<noteq> eo_size_bytes e
          then report\<lparr>cr_unknown_write_value_conflicts := cr_unknown_write_value_conflicts report @
                        [unknown_write_value_conflict_message sha key (Some e) attempts body]\<rparr>
          else if list_ex (\<lambda>a. eo_sha256 (aw_object a) \<noteq> eo_sha256 e \<or> eo_size_bytes (aw_object a) \<noteq> eo_size_bytes e) attempts
          then report\<lparr>cr_unknown_writes_preserved_committed := cr_unknown_writes_preserved_committed report @
                        [key @ '': observed committed '' @ eo_sha256 e @ bytes_suffix (eo_size_bytes e) @
                         '' after ambiguous attempts ['' @ ambiguous_write_attempt_summary attempts @ '']'']\<rparr>
          else report)"

definition evaluate_final_get ::
  "hasher \<Rightarrow> CheckerReport \<Rightarrow> string \<Rightarrow> ExpectedObject option \<Rightarrow> AmbiguousWriteAttempt list
     \<Rightarrow> GetObjectResult \<Rightarrow> CheckerReport" where
  "evaluate_final_get sha report key expected ambiguous_writes get =
     (case (gr_outcome get, gr_body get) of
        (Ok, Some body) \<Rightarrow>
          if (case expected of None \<Rightarrow> False | Some e \<Rightarrow> object_matches sha e body)
          then record_preserved_committed sha
                 (report\<lparr>cr_verified_live_objects := cr_verified_live_objects report + 1\<rparr>) key expected ambiguous_writes body
          else (case matching_active_ambiguous_write sha ambiguous_writes body of
            Some attempt \<Rightarrow>
              (let report = (if expected \<noteq> None
                             then report\<lparr>cr_verified_live_objects := cr_verified_live_objects report + 1\<rparr> else report)
               in report\<lparr>cr_unknown_writes_materialized := cr_unknown_writes_materialized report @
                           [ambiguous_write_materialized_message sha key attempt body]\<rparr>)
          | None \<Rightarrow>
              (case matching_superseded_ambiguous_write sha ambiguous_writes body of
                 Some attempt \<Rightarrow>
                   report\<lparr>cr_unknown_writes_materialized := cr_unknown_writes_materialized report @
                            [ambiguous_write_materialized_message sha key attempt body],
                          cr_unknown_write_value_conflicts := cr_unknown_write_value_conflicts report @
                            [superseded_ambiguous_write_conflict_message sha key expected attempt body]\<rparr>
               | None \<Rightarrow>
                   if ambiguous_writes \<noteq> []
                   then report\<lparr>cr_unknown_write_value_conflicts := cr_unknown_write_value_conflicts report @
                                 [unknown_write_value_conflict_message sha key expected ambiguous_writes body]\<rparr>
                   else (case expected of
                           Some e \<Rightarrow> report\<lparr>cr_hash_mismatches := cr_hash_mismatches report @
                                              [hash_mismatch_message sha key e body]\<rparr>
                         | None \<Rightarrow> report)))
      | (outcome, body) \<Rightarrow>
          if expected = None then report
          else if outcome = NotFound \<and> body = None
          then report\<lparr>cr_missing_committed_objects := cr_missing_committed_objects report @ [key]\<rparr>
          else if (outcome = Failed \<or> outcome = Timeout) \<and> body = None
          then report\<lparr>cr_unavailable_committed_objects := cr_unavailable_committed_objects report @
                        [Observed key outcome (gr_http_status get) (gr_error get) None]\<rparr>
          else if (outcome = Unknown \<or> outcome = Ok) \<and> body = None
          then report\<lparr>cr_unknown_committed_read_failures := cr_unknown_committed_read_failures report @
                        [Observed key outcome (gr_http_status get) (gr_error get) None]\<rparr>
          else report\<lparr>cr_unknown_committed_read_failures := cr_unknown_committed_read_failures report @
                        [Observed key outcome (gr_http_status get) (gr_error get) (map_option length body)]\<rparr>)"

definition evaluate_deleted_reread :: "string \<Rightarrow> GetObjectResult \<Rightarrow> string option" where
  "evaluate_deleted_reread key get =
     (case (gr_outcome get, gr_body get) of
        (Ok, Some body) \<Rightarrow> Some (key @ '': committed delete resurrected on GET'' @ bytes_suffix (length body))
      | _ \<Rightarrow> None)"

subsection \<open>Committed versions\<close>

definition evaluate_committed_version_get ::
  "hasher \<Rightarrow> CheckerReport \<Rightarrow> CommittedVersion \<Rightarrow> GetObjectResult \<Rightarrow> CheckerReport" where
  "evaluate_committed_version_get sha report version get =
     (let reference = cv_key version @ ''@'' @ cv_version_id version in
      case (gr_outcome get, gr_body get) of
        (Ok, Some body) \<Rightarrow>
          if sha body \<noteq> cv_sha256 version \<or> length body \<noteq> cv_size_bytes version
          then report\<lparr>cr_version_hash_mismatches := cr_version_hash_mismatches report @
                 [reference @ '': expected '' @ cv_sha256 version @ bytes_suffix (cv_size_bytes version) @
                  '', got '' @ sha body @ bytes_suffix (length body)]\<rparr>
          else report\<lparr>cr_verified_committed_versions := cr_verified_committed_versions report + 1\<rparr>
      | (NotFound, None) \<Rightarrow>
          (let report = report\<lparr>cr_missing_committed_versions := cr_missing_committed_versions report @ [reference]\<rparr>
           in if cv_kind version = CompleteMultipartUpload
              then report\<lparr>cr_multipart_upload_lineage_incomplete := cr_multipart_upload_lineage_incomplete report @
                            [reference @ '': committed multipart completion version is missing'']\<rparr>
              else report)
      | (outcome, body) \<Rightarrow>
          report\<lparr>cr_unavailable_committed_versions := cr_unavailable_committed_versions report @
            [read_failure_message reference outcome (gr_http_status get)
               (case gr_error get of
                  Some e \<Rightarrow> Some e
                | None \<Rightarrow> if body \<noteq> None then Some ''unexpected body'' else None)]\<rparr>)"

definition checker_data_version_audit ::
  "hasher \<Rightarrow> CommittedVersion \<Rightarrow> GetObjectResult \<Rightarrow> CheckerDataVersionAudit" where
  "checker_data_version_audit sha version get =
     \<lparr>cd_key = cv_key version, cd_version_id = cv_version_id version, cd_expected_sha256 = cv_sha256 version,
      cd_observed_sha256 = map_option sha (gr_body get), cd_outcome = gr_outcome get,
      cd_http_status = gr_http_status get\<rparr>"

subsection \<open>Latest versions\<close>

record MaterializedAmbiguousVersion =
  ma_key :: string
  ma_version_id :: string
  ma_evidence :: string
  ma_active :: bool

definition push_delete_lineage :: "CheckerReport \<Rightarrow> string \<Rightarrow> CheckerReport" where
  "push_delete_lineage report message =
     report\<lparr>cr_delete_marker_lineage_incomplete := cr_delete_marker_lineage_incomplete report @ [message]\<rparr>"

definition debug_bool :: "bool \<Rightarrow> string" where
  "debug_bool b = (if b then ''true'' else ''false'')"

definition active_ambiguous_versions :: "MaterializedAmbiguousVersion list \<Rightarrow> (string \<times> string) fset" where
  "active_ambiguous_versions materialized =
     fset_of_list (map (\<lambda>v. (ma_key v, ma_version_id v)) (filter ma_active materialized))"

definition active_ambiguous_latest :: "(string \<times> string) fset \<Rightarrow> string \<Rightarrow> ObjectVersionEntry \<Rightarrow> bool" where
  "active_ambiguous_latest active key e \<longleftrightarrow>
     \<not> ov_is_delete_marker e \<and> (case ov_version_id e of None \<Rightarrow> False | Some v \<Rightarrow> (key, v) |\<in>| active)"

definition matches_expected_latest :: "ListedVersionEntry \<Rightarrow> ObjectVersionEntry \<Rightarrow> bool" where
  "matches_expected_latest expected e \<longleftrightarrow>
     ov_version_id e = lv_version_id expected \<and> ov_is_delete_marker e = lv_is_delete_marker expected"

text \<open>The loop body over the expected latest versions.\<close>

definition check_expected_latest ::
  "ObjectModel \<Rightarrow> (string, ObjectVersionEntry) fmap \<Rightarrow> (string \<times> string) fset \<Rightarrow> CommittedDeleteMarker list
     \<Rightarrow> CheckerReport \<Rightarrow> string \<times> ListedVersionEntry \<Rightarrow> CheckerReport" where
  "check_expected_latest model actual active committed_delete_markers report kv =
     (case kv of (key, expected) \<Rightarrow>
        if key |\<in>| om_ambiguous_delete_lineage_pending model
        then (case fmlookup actual key of
          Some e \<Rightarrow>
            if matches_expected_latest expected e \<or> active_ambiguous_latest active key e
               \<or> novel_ambiguous_delete_marker key (ov_is_delete_marker e) (ov_version_id e)
                   (map marker_pair committed_delete_markers)
            then report
            else push_delete_lineage report
              (key @ '': latest version '' @ debug_option debug_str (ov_version_id e) @
               '' does not match its committed, ambiguous write, or ambiguous DELETE lineage'')
        | None \<Rightarrow> push_delete_lineage report
            (key @ '': ListObjectVersions has no unique latest entry after an ambiguous DELETE''))
        else (case fmlookup actual key of
          Some e \<Rightarrow>
            if matches_expected_latest expected e then report
            else if active_ambiguous_latest active key e then report
            else push_delete_lineage report
              (key @ '': latest version '' @ debug_option debug_str (ov_version_id e) @ '' deleteMarker='' @
               debug_bool (ov_is_delete_marker e) @ '' does not match expected '' @
               debug_option debug_str (lv_version_id expected) @ '' deleteMarker='' @
               debug_bool (lv_is_delete_marker expected))
        | None \<Rightarrow> push_delete_lineage report (key @ '': ListObjectVersions has no unique latest entry'')))"

text \<open>The loop body over the listed latest versions.\<close>

definition check_unexpected_latest ::
  "ObjectModel \<Rightarrow> (string, ListedVersionEntry) fmap \<Rightarrow> (string \<times> string) fset
     \<Rightarrow> CheckerReport \<Rightarrow> string \<times> ObjectVersionEntry \<Rightarrow> CheckerReport" where
  "check_unexpected_latest model expected active report kv =
     (case kv of (key, e) \<Rightarrow>
        if key |\<notin>| fmdom expected \<and> key |\<notin>| om_ambiguous_delete_lineage_pending model
           \<and> \<not> active_ambiguous_latest active key e
        then push_delete_lineage report (key @ '': ListObjectVersions returned an unexpected latest entry'')
        else report)"

definition evaluate_latest_version_lineage ::
  "CheckerReport \<Rightarrow> ObjectModel \<Rightarrow> (string, ListedVersionEntry) fmap \<Rightarrow> (string, ObjectVersionEntry) fmap
     \<Rightarrow> MaterializedAmbiguousVersion list \<Rightarrow> CommittedDeleteMarker list \<Rightarrow> CheckerReport" where
  "evaluate_latest_version_lineage report model expected actual materialized committed_delete_markers =
     (let active = active_ambiguous_versions materialized;
          report = foldl (check_expected_latest model actual active committed_delete_markers) report (fm_entries expected)
      in foldl (check_unexpected_latest model expected active) report (fm_entries actual))"

subsection \<open>Ambiguous deletes\<close>

record AmbiguousDeleteFinalObservations =
  ao_absent_on_get :: "string fset"
  ao_present_on_get :: "string fset"
  ao_listed_keys :: "string fset option"
  ao_actual_latest :: "(string, ObjectVersionEntry) fmap option"
  ao_expected_latest :: "(string, ListedVersionEntry) fmap option"
  ao_committed_delete_markers :: "CommittedDeleteMarker list option"
  ao_expect_versioning :: bool

definition actual_latest_of :: "AmbiguousDeleteFinalObservations \<Rightarrow> string \<Rightarrow> ObjectVersionEntry option" where
  "actual_latest_of obs key = Option.bind (ao_actual_latest obs) (\<lambda>latest. fmlookup latest key)"

definition novel_marker_entry :: "AmbiguousDeleteFinalObservations \<Rightarrow> string \<Rightarrow> ObjectVersionEntry \<Rightarrow> bool" where
  "novel_marker_entry obs key e =
     novel_ambiguous_delete_marker key (ov_is_delete_marker e) (ov_version_id e)
       (map marker_pair (case ao_committed_delete_markers obs of None \<Rightarrow> [] | Some ms \<Rightarrow> ms))"

definition delete_is_proven :: "AmbiguousDeleteFinalObservations \<Rightarrow> string \<Rightarrow> bool" where
  "delete_is_proven obs key \<longleftrightarrow>
     (case ao_listed_keys obs of None \<Rightarrow> False | Some listed \<Rightarrow> key |\<notin>| listed) \<and>
     (\<not> ao_expect_versioning obs \<or>
      (case actual_latest_of obs key of None \<Rightarrow> False | Some e \<Rightarrow> novel_marker_entry obs key e))"

definition finalize_absent ::
  "AmbiguousDeleteFinalObservations \<Rightarrow> CheckerReport \<Rightarrow> string \<Rightarrow> CheckerReport" where
  "finalize_absent obs report key =
     (if delete_is_proven obs key
      then report\<lparr>cr_tolerated_ambiguous_deletes := cr_tolerated_ambiguous_deletes report @ [key]\<rparr>
      else if ao_expect_versioning obs
      then (case actual_latest_of obs key of
        None \<Rightarrow> push_delete_lineage report
          (key @ '': GET returned 404 after ambiguous delete but ListObjectVersions has no latest entry'')
      | Some e \<Rightarrow>
          if \<not> ov_is_delete_marker e
          then report\<lparr>cr_missing_committed_objects := cr_missing_committed_objects report @ [key]\<rparr>
          else if \<not> novel_marker_entry obs key e
          then push_delete_lineage report
            (key @ '': GET returned 404 after ambiguous delete but the latest delete marker has no novel version identity'')
          else report)
      else report)"

definition finalize_present ::
  "AmbiguousDeleteFinalObservations \<Rightarrow> CheckerReport \<Rightarrow> string \<Rightarrow> CheckerReport" where
  "finalize_present obs report key =
     (case actual_latest_of obs key of
        None \<Rightarrow> push_delete_lineage report
          (key @ '': ambiguous delete did not materialize but ListObjectVersions has no latest data entry'')
      | Some e \<Rightarrow>
          if ov_is_delete_marker e
          then report\<lparr>cr_unexpected_visible_deleted_objects := cr_unexpected_visible_deleted_objects report @
            [key @ '': GET returned the committed body after ambiguous delete but ListObjectVersions reports a delete marker latest'']\<rparr>
          else if (case Option.bind (ao_expected_latest obs) (\<lambda>latest. fmlookup latest key) of
                     None \<Rightarrow> True
                   | Some expected \<Rightarrow> ov_version_id e \<noteq> lv_version_id expected \<or> lv_is_delete_marker expected)
          then push_delete_lineage report
            (key @ '': ambiguous delete did not materialize but latest data version identity drifted'')
          else report)"

definition finalize_pending_key ::
  "AmbiguousDeleteFinalObservations \<Rightarrow> CheckerReport \<Rightarrow> string \<Rightarrow> CheckerReport" where
  "finalize_pending_key obs report key =
     (if key |\<in>| ao_absent_on_get obs then finalize_absent obs report key
      else if key |\<notin>| ao_present_on_get obs \<or> \<not> ao_expect_versioning obs then report
      else finalize_present obs report key)"

definition finalize_ambiguous_delete_observations ::
  "CheckerReport \<Rightarrow> ObjectModel \<Rightarrow> AmbiguousDeleteFinalObservations \<Rightarrow> CheckerReport" where
  "finalize_ambiguous_delete_observations report model obs =
     foldl (finalize_pending_key obs) report (sorted_list_of_fset (om_ambiguous_delete_pending model))"

subsection \<open>Uncommitted versions\<close>

record AmbiguousVersionCandidate =
  ac_key :: string
  ac_version_id :: string
  ac_is_latest :: bool
  ac_attempt_summary :: string

definition attempt_summary_of :: "ObjectModel \<Rightarrow> string \<Rightarrow> string" where
  "attempt_summary_of model key =
     (case fmlookup (om_version_write_sources model) key of
        None \<Rightarrow> []
      | Some sources \<Rightarrow> ambiguous_write_attempt_summary (map vs_attempt sources))"

definition candidate_step ::
  "ObjectModel \<Rightarrow> (string \<times> string) fset \<Rightarrow> AmbiguousVersionCandidate list \<times> string list \<Rightarrow> ObjectVersionEntry
     \<Rightarrow> AmbiguousVersionCandidate list \<times> string list" where
  "candidate_step model committed_versions st e =
     (case st of (candidates, conflicts) \<Rightarrow>
        (case ov_version_id e of
           None \<Rightarrow> (candidates, conflicts @
                     [uncommitted_version_missing_id_message (ov_key e) (attempt_summary_of model (ov_key e))])
         | Some version_id \<Rightarrow>
             if (ov_key e, version_id) |\<in>| committed_versions then st
             else (candidates @ [\<lparr>ac_key = ov_key e, ac_version_id = version_id, ac_is_latest = ov_is_latest e,
                                  ac_attempt_summary = attempt_summary_of model (ov_key e)\<rparr>], conflicts)))"

definition ambiguous_version_candidates ::
  "ObjectModel \<Rightarrow> VersionLineage \<Rightarrow> ObjectVersionEntry list \<Rightarrow> AmbiguousVersionCandidate list \<times> string list" where
  "ambiguous_version_candidates model lineage entries =
     foldl (candidate_step model (fset_of_list (map version_pair (vl_versions lineage)))) ([], [])
       (filter (\<lambda>e. \<not> ov_is_delete_marker e) entries)"

definition uncommitted_version_unverified_message ::
  "AmbiguousVersionCandidate \<Rightarrow> GetObjectResult \<Rightarrow> string" where
  "uncommitted_version_unverified_message c get =
     ac_key c @ ''@'' @ ac_version_id c @ '': uncommitted version could not be verified; outcome='' @
     debug_outcome (gr_outcome get) @ '' status='' @ debug_option show_nat (gr_http_status get) @
     '' error='' @ debug_option debug_str (gr_error get) @ ''; ambiguous attempts ['' @ ac_attempt_summary c @ '']''"

definition uncommitted_version_value_conflict_message ::
  "hasher \<Rightarrow> AmbiguousVersionCandidate \<Rightarrow> bytes \<Rightarrow> string" where
  "uncommitted_version_value_conflict_message sha c body =
     ac_key c @ ''@'' @ ac_version_id c @ '': observed uncommitted version '' @ sha body @
     bytes_suffix (length body) @ '', but it matched no ambiguous attempt ['' @ ac_attempt_summary c @ '']''"

type_synonym ambiguous_eval =
  "MaterializedAmbiguousVersion list \<times> string list \<times> VersionWriteSourceIndex"

definition evaluate_ambiguous_version_get ::
  "hasher \<Rightarrow> ambiguous_eval \<Rightarrow> AmbiguousVersionCandidate \<times> GetObjectResult \<Rightarrow> panic + ambiguous_eval" where
  "evaluate_ambiguous_version_get sha st observation =
     (case (st, observation) of ((materialized, conflicts, sources), (c, get)) \<Rightarrow>
        (case gr_body get of
           None \<Rightarrow> Inr (materialized, conflicts @ [uncommitted_version_unverified_message c get], sources)
         | Some body \<Rightarrow>
             if gr_outcome get \<noteq> Ok
             then Inr (materialized, conflicts @ [uncommitted_version_unverified_message c get], sources)
             else res_bind (take_version_write_source sources (ac_key c)
                              \<lparr>eo_sha256 = sha body, eo_size_bytes = length body\<rparr> (ac_is_latest c))
               (\<lambda>(sources, found).
                  case found of
                    Some source \<Rightarrow>
                      Inr (materialized @
                        [\<lparr>ma_key = ac_key c, ma_version_id = ac_version_id c,
                          ma_evidence = ambiguous_version_materialized_message sha (ac_key c) (ac_version_id c)
                                          (vm_attempt source) body,
                          ma_active = vm_active source\<rparr>], conflicts, sources)
                  | None \<Rightarrow>
                      Inr (materialized, conflicts @ [uncommitted_version_value_conflict_message sha c body], sources))))"

text \<open>
  \<open>materialized_ambiguous_versions\<close> after its reads have completed, in any order:
  the observations are sorted (latest versions of a key first) and evaluated in turn.
\<close>

definition materialize_observations ::
  "hasher \<Rightarrow> ObjectModel \<Rightarrow> string list \<Rightarrow> (AmbiguousVersionCandidate \<times> GetObjectResult) list
     \<Rightarrow> panic + MaterializedAmbiguousVersion list \<times> string list" where
  "materialize_observations sha model conflicts observations =
     res_bind (fold_res (evaluate_ambiguous_version_get sha)
                 ([], conflicts, from_sources (om_version_write_sources model))
                 (sort_key (\<lambda>(c, _). (ac_key c, \<not> ac_is_latest c, ac_version_id c)) observations))
       (\<lambda>(materialized, conflicts, _). Inr (materialized, conflicts))"

subsection \<open>The final listing\<close>

record WarningSummary =
  ws_total_count :: nat
  ws_samples :: "string list"

definition push_warning :: "WarningSummary \<Rightarrow> string \<Rightarrow> WarningSummary" where
  "push_warning w warning =
     \<lparr>ws_total_count = ws_total_count w + 1, ws_samples = push_sample (ws_samples w) warning\<rparr>"

definition evaluate_final_list_keys ::
  "ObjectModel \<Rightarrow> string fset \<Rightarrow> string fset \<Rightarrow> string fset \<Rightarrow> string \<Rightarrow> WarningSummary \<Rightarrow> WarningSummary" where
  "evaluate_final_list_keys model ambiguous_delete_absent materialized_ambiguous_write_keys listed pre warnings =
     (let w = foldl push_warning warnings
            (map (\<lambda>key. ''LIST prefix '' @ pre @ '' did not include expected live key '' @ key)
               (filter (\<lambda>key. key |\<notin>| listed \<and> key |\<notin>| ambiguous_delete_absent) (fm_keys (om_live model))));
          w = foldl push_warning w
            (map (\<lambda>key. ''GET reported ambiguous-delete key '' @ key @ '' absent but LIST prefix '' @ pre @
                        '' still included it'')
               (filter (\<lambda>key. key |\<in>| listed) (sorted_list_of_fset ambiguous_delete_absent)))
      in foldl push_warning w
            (map (\<lambda>key. ''LIST prefix '' @ pre @ '' included deleted key '' @ key)
               (filter (\<lambda>key. key |\<in>| listed \<and> key |\<notin>| materialized_ambiguous_write_keys)
                  (sorted_list_of_fset (om_deleted model)))))"

definition unexplained_listed_keys :: "ObjectModel \<Rightarrow> string fset \<Rightarrow> string list" where
  "unexplained_listed_keys model listed =
     filter (\<lambda>key. key |\<notin>| fmdom (om_live model) \<and> key |\<notin>| fmdom (om_unknown_writes model)
                   \<and> key |\<notin>| om_deleted model) (sorted_list_of_fset listed)"

definition debug_string_set :: "string fset \<Rightarrow> string" where
  "debug_string_set s = ''{'' @ join_strings '', '' (map debug_str (sorted_list_of_fset s)) @ ''}''"

definition evaluate_unexplained_listed_key ::
  "hasher \<Rightarrow> CheckerReport \<Rightarrow> ObjectModel \<Rightarrow> string \<Rightarrow> GetObjectResult \<Rightarrow> CheckerReport" where
  "evaluate_unexplained_listed_key sha report model key get =
     (case (gr_outcome get, gr_body get) of
        (Ok, Some body) \<Rightarrow>
          (let observed = sha body in
           case fmlookup (om_failed_writes model) key of
             Some attempted \<Rightarrow>
               if observed |\<in>| attempted
               then report\<lparr>cr_failed_writes_materialized := cr_failed_writes_materialized report @ [key]\<rparr>
               else report\<lparr>cr_unexpected_listed_objects := cr_unexpected_listed_objects report @
                      [key @ '': readable bytes sha256='' @ observed @ '' size='' @ show_nat (length body) @
                       '' match no failed write attempt '' @ debug_string_set attempted]\<rparr>
           | None \<Rightarrow> report\<lparr>cr_unexpected_listed_objects := cr_unexpected_listed_objects report @ [key]\<rparr>)
      | (outcome, _) \<Rightarrow>
          report\<lparr>cr_listed_keys_unreadable := cr_listed_keys_unreadable report @
            [key @ '': '' @ debug_outcome outcome @
             (case gr_http_status get of None \<Rightarrow> [] | Some status \<Rightarrow> '' http_status='' @ show_nat status)]\<rparr>)"

definition record_version_list_unavailable :: "WarningSummary \<Rightarrow> string \<Rightarrow> WarningSummary" where
  "record_version_list_unavailable warnings pre =
     push_warning warnings (''ListObjectVersions prefix '' @ pre @ '' did not complete'')"

end
