(* ===== verification/Read_Anomalies.thy ===== *)
theory Read_Anomalies
  imports Checker_Evaluation
begin

text \<open>
  Anomalies of the reads and listings recorded while the workload ran
  (\<open>successful_read_anomalies\<close>, \<open>verify_ranged_get\<close>, \<open>concurrent_committed_read\<close>,
  \<open>stable_live_objects_at_read_starts\<close>, \<open>list_history_warnings\<close> of
  \<open>src/src/fault/checker.rs\<close>). Arithmetic on ranges is checked: an overflow is
  a panic, as in a build with overflow checks, and so is the \<open>expect\<close> on the
  write history of a live key.
\<close>

subsection \<open>Values live when a read starts\<close>

record StableLiveObject =
  sl_object :: ExpectedObject
  sl_payload_ref :: "PayloadRef option"

definition use_recorder_sequences :: "OperationRecord list \<Rightarrow> bool" where
  "use_recorder_sequences records =
     list_all (\<lambda>r. op_started_sequence r \<noteq> None \<and> op_ended_sequence r \<noteq> None) records"

definition unwrap_or_0 :: "nat option \<Rightarrow> nat" where
  "unwrap_or_0 x = (case x of None \<Rightarrow> 0 | Some n \<Rightarrow> n)"

definition start_key :: "bool \<Rightarrow> OperationRecord \<Rightarrow> nat" where
  "start_key sequenced r = (if sequenced then unwrap_or_0 (op_started_sequence r) else op_started_at_ms r)"

definition end_key :: "bool \<Rightarrow> OperationRecord \<Rightarrow> nat" where
  "end_key sequenced r = (if sequenced then unwrap_or_0 (op_ended_sequence r) else op_ended_at_ms r)"

definition stable_reads :: "OperationRecord list \<Rightarrow> (nat \<times> OperationRecord \<times> string) list" where
  "stable_reads records =
     sort_key (\<lambda>(index, r, _). (start_key (use_recorder_sequences records) r, index))
       (List.map_filter (\<lambda>(index, r).
          if op_kind r \<noteq> Get \<or> op_outcome r \<noteq> Ok \<or> op_version_id r \<noteq> None then None
          else map_option (\<lambda>key. (index, r, key)) (op_key r)) (enumerate 0 records))"

definition stable_mutations :: "OperationRecord list \<Rightarrow> OperationRecord list" where
  "stable_mutations records =
     sort_key (end_key (use_recorder_sequences records))
       (filter (\<lambda>r. op_outcome r = Ok \<and> is_object_mutation (op_kind r)) records)"

definition apply_stable_mutation ::
  "(string, StableLiveObject) fmap \<Rightarrow> OperationRecord \<Rightarrow> (string, StableLiveObject) fmap" where
  "apply_stable_mutation live r =
     (if is_object_write (op_kind r) then
        (case record_object r of
           None \<Rightarrow> live
         | Some (key, object) \<Rightarrow> fmupd key \<lparr>sl_object = object, sl_payload_ref = op_payload_ref r\<rparr> live)
      else if op_kind r = Delete then (case op_key r of None \<Rightarrow> live | Some key \<Rightarrow> fmdrop key live)
      else live)"

type_synonym stable_scan =
  "(string, StableLiveObject) fmap \<times> OperationRecord list \<times> (nat, StableLiveObject) fmap"

definition stable_step :: "stable_scan \<Rightarrow> nat \<times> OperationRecord \<times> string \<Rightarrow> stable_scan" where
  "stable_step st entry =
     (case (st, entry) of ((live, mutations, found), (index, read, key)) \<Rightarrow>
        (let passed = (\<lambda>m. operation_completed_before_started m read);
             live = foldl apply_stable_mutation live (takeWhile passed mutations);
             mutations = dropWhile passed mutations
         in (live, mutations,
             case fmlookup live key of None \<Rightarrow> found | Some expected \<Rightarrow> fmupd index expected found)))"

definition stable_live_objects_at_read_starts :: "OperationRecord list \<Rightarrow> (nat, StableLiveObject) fmap" where
  "stable_live_objects_at_read_starts records =
     snd (snd (foldl stable_step (fmempty, stable_mutations records, fmempty) (stable_reads records)))"

subsection \<open>The write history of a key\<close>

record CommittedWriteWindow =
  cw_object :: ExpectedObject
  cw_ended_at_ms :: nat
  cw_ended_sequence :: "nat option"
  cw_payload_ref :: "PayloadRef option"

record CommittedWriteHistory =
  ch_windows :: "CommittedWriteWindow list"
  ch_prior_latest_completion_by_object :: "(ExpectedObject, nat option \<times> nat) fmap"

definition empty_history :: CommittedWriteHistory where
  "empty_history = \<lparr>ch_windows = [], ch_prior_latest_completion_by_object = fmempty\<rparr>"

definition later_completion :: "nat option \<times> nat \<Rightarrow> CommittedWriteWindow \<Rightarrow> nat option \<times> nat" where
  "later_completion completion previous =
     (let current_is_later =
            (case (fst completion, cw_ended_sequence previous) of
               (Some current, Some prev) \<Rightarrow> prev > current
             | _ \<Rightarrow> cw_ended_at_ms previous > snd completion)
      in if current_is_later then (cw_ended_sequence previous, cw_ended_at_ms previous) else completion)"

definition history_push :: "CommittedWriteHistory \<Rightarrow> CommittedWriteWindow \<Rightarrow> CommittedWriteHistory" where
  "history_push h window =
     (let h = (if ch_windows h = [] then h
               else (let previous = last (ch_windows h); prior = ch_prior_latest_completion_by_object h
                     in h\<lparr>ch_prior_latest_completion_by_object :=
                            fmupd (cw_object previous)
                              (case fmlookup prior (cw_object previous) of
                                 Some completion \<Rightarrow> later_completion completion previous
                               | None \<Rightarrow> (cw_ended_sequence previous, cw_ended_at_ms previous)) prior\<rparr>))
      in h\<lparr>ch_windows := ch_windows h @ [window]\<rparr>)"

abbreviation window_precedes :: "CommittedWriteWindow \<Rightarrow> OperationRecord \<Rightarrow> bool" where
  "window_precedes w get \<equiv>
     completion_precedes_start (cw_ended_sequence w) (cw_ended_at_ms w) (op_started_sequence get) (op_started_at_ms get)"

definition concurrent_committed_read ::
  "CommittedWriteHistory \<Rightarrow> OperationRecord \<Rightarrow> ExpectedObject \<Rightarrow> bool" where
  "concurrent_committed_read h get actual =
     (if ch_windows h = [] then False
      else (let latest = last (ch_windows h); prior = butlast (ch_windows h) in
            if (case fmlookup (ch_prior_latest_completion_by_object h) actual of
                  None \<Rightarrow> False
                | Some (ended_sequence, ended_at_ms) \<Rightarrow>
                    \<not> completion_precedes_start ended_sequence ended_at_ms (op_started_sequence get) (op_started_at_ms get))
            then True
            else if \<not> window_precedes latest get \<and> prior \<noteq> []
            then eo_sha256 (cw_object (last prior)) = eo_sha256 actual
                 \<and> eo_size_bytes (cw_object (last prior)) = eo_size_bytes actual
            else False))"

subsection \<open>Anomalies\<close>

record ReadAnomalies =
  ra_corrupted_reads :: "string list"
  ra_visible_deleted_objects :: "string list"
  ra_unknown_writes_materialized :: "string list"
  ra_unknown_write_value_conflicts :: "string list"

definition no_anomalies :: ReadAnomalies where
  "no_anomalies = \<lparr>ra_corrupted_reads = [], ra_visible_deleted_objects = [],
     ra_unknown_writes_materialized = [], ra_unknown_write_value_conflicts = []\<rparr>"

definition push_corrupted :: "string \<Rightarrow> ReadAnomalies \<Rightarrow> ReadAnomalies" where
  "push_corrupted m a = a\<lparr>ra_corrupted_reads := ra_corrupted_reads a @ [m]\<rparr>"

definition push_visible_deleted :: "string \<Rightarrow> ReadAnomalies \<Rightarrow> ReadAnomalies" where
  "push_visible_deleted m a = a\<lparr>ra_visible_deleted_objects := ra_visible_deleted_objects a @ [m]\<rparr>"

definition push_materialized :: "string \<Rightarrow> ReadAnomalies \<Rightarrow> ReadAnomalies" where
  "push_materialized m a = a\<lparr>ra_unknown_writes_materialized := ra_unknown_writes_materialized a @ [m]\<rparr>"

definition push_conflict :: "string \<Rightarrow> ReadAnomalies \<Rightarrow> ReadAnomalies" where
  "push_conflict m a = a\<lparr>ra_unknown_write_value_conflicts := ra_unknown_write_value_conflicts a @ [m]\<rparr>"

definition object_label :: "ExpectedObject \<Rightarrow> string" where
  "object_label e = eo_sha256 e @ bytes_suffix (eo_size_bytes e)"

definition ambiguous_write_materialized_from_object_message ::
  "string \<Rightarrow> AmbiguousWriteAttempt \<Rightarrow> ExpectedObject \<Rightarrow> string" where
  "ambiguous_write_materialized_from_object_message key attempt actual =
     key @ '': '' @ ambiguous_write_attempt_label attempt @ '' materialized as '' @ object_label actual"

definition superseded_ambiguous_object_conflict_message ::
  "string \<Rightarrow> ExpectedObject option \<Rightarrow> AmbiguousWriteAttempt \<Rightarrow> ExpectedObject \<Rightarrow> string" where
  "superseded_ambiguous_object_conflict_message key expected attempt actual =
     key @ '': observed '' @ object_label actual @ '' from superseded ambiguous attempt ['' @
     ambiguous_write_attempt_label attempt @ ''], expected '' @ committed_label expected"

definition unknown_write_value_conflict_from_object_message ::
  "string \<Rightarrow> ExpectedObject option \<Rightarrow> AmbiguousWriteAttempt list \<Rightarrow> ExpectedObject \<Rightarrow> string" where
  "unknown_write_value_conflict_from_object_message key expected attempts actual =
     key @ '': observed '' @ object_label actual @ '', expected '' @ committed_label expected @
     '' or ambiguous attempts ['' @ ambiguous_write_attempt_summary attempts @ '']''"

definition read_mismatch_message :: "string \<Rightarrow> ExpectedObject \<Rightarrow> ExpectedObject \<Rightarrow> string" where
  "read_mismatch_message key expected actual =
     key @ '': expected '' @ object_label expected @ '', got '' @ object_label actual"

definition matching_active_ambiguous_object ::
  "AmbiguousWriteAttempt list \<Rightarrow> ExpectedObject \<Rightarrow> AmbiguousWriteAttempt option" where
  "matching_active_ambiguous_object attempts actual =
     find (\<lambda>a. aw_object a = actual) (filter (\<lambda>a. aw_superseded_by a = None) (rev attempts))"

definition matching_superseded_ambiguous_object ::
  "AmbiguousWriteAttempt list \<Rightarrow> ExpectedObject \<Rightarrow> AmbiguousWriteAttempt option" where
  "matching_superseded_ambiguous_object attempts actual =
     find (\<lambda>a. aw_object a = actual) (filter (\<lambda>a. aw_superseded_by a \<noteq> None) (rev attempts))"

subsection \<open>Ranged reads\<close>

definition add_u64 :: "nat \<Rightarrow> nat \<Rightarrow> panic + nat" where
  "add_u64 a b = (if a + b \<le> usize_max then Inr (a + b) else Inl ArithmeticOverflow)"

text \<open>The last byte of a rng, \<open>offset + length - 1\<close>.\<close>

definition range_last :: "ByteRange \<Rightarrow> panic + nat" where
  "range_last rng =
     res_bind (add_u64 (br_offset rng) (br_length rng)) (\<lambda>n.
       if n = 0 then Inl ArithmeticOverflow else Inr (n - 1))"

definition regenerated_slice_sha ::
  "hasher \<Rightarrow> PayloadRef option \<Rightarrow> nat \<Rightarrow> ByteRange \<Rightarrow> panic + string option" where
  "regenerated_slice_sha sha payload_ref size_bytes rng =
     (case payload_ref of
        None \<Rightarrow> Inr None
      | Some p \<Rightarrow>
          if br_offset rng \<ge> size_bytes \<or> br_length rng = 0 then Inr None
          else res_bind (add_u64 (br_offset rng) (br_length rng)) (\<lambda>end_offset.
            if end_offset > size_bytes then Inr None
            else (let body = seeded_bytes (pr_seed p) (pr_index p) size_bytes
                  in Inr (Some (sha (take (br_length rng) (drop (br_offset rng) body)))))))"

record RangedReadState =
  rr_history :: "CommittedWriteWindow list"
  rr_ambiguous :: "AmbiguousWriteAttempt list"
  rr_stable_at_start :: "StableLiveObject option"
  rr_live_object :: "ExpectedObject option"

definition window_candidate :: "CommittedWriteWindow \<Rightarrow> PayloadRef option \<times> nat" where
  "window_candidate w = (cw_payload_ref w, eo_size_bytes (cw_object w))"

definition ranged_candidates :: "OperationRecord \<Rightarrow> RangedReadState \<Rightarrow> (PayloadRef option \<times> nat) list" where
  "ranged_candidates r state =
     (if rr_history state = [] then []
      else (let latest = last (rr_history state); prior = butlast (rr_history state) in
            [window_candidate latest] @
            map window_candidate (filter (\<lambda>w. \<not> window_precedes w r) prior) @
            (if \<not> window_precedes latest r \<and> prior \<noteq> [] then [window_candidate (last prior)] else []))) @
     (case rr_stable_at_start state of
        None \<Rightarrow> []
      | Some s \<Rightarrow> [(sl_payload_ref s, eo_size_bytes (sl_object s))])"

text \<open>The loop over the candidates: whether one matched, and whether one could not be regenerated.\<close>

fun check_candidates ::
  "hasher \<Rightarrow> string \<Rightarrow> ByteRange \<Rightarrow> bool \<Rightarrow> (PayloadRef option \<times> nat) list \<Rightarrow> panic + bool \<times> bool" where
  "check_candidates sha actual_sha rng unverifiable [] = Inr (False, unverifiable)"
| "check_candidates sha actual_sha rng unverifiable ((p, size_bytes) # cs) =
     res_bind (regenerated_slice_sha sha p size_bytes rng) (\<lambda>regenerated.
       case regenerated of
         Some expected \<Rightarrow>
           if expected = actual_sha then Inr (True, unverifiable)
           else check_candidates sha actual_sha rng unverifiable cs
       | None \<Rightarrow> check_candidates sha actual_sha rng True cs)"

type_synonym ambiguous_scan = "bool \<times> AmbiguousWriteAttempt option \<times> AmbiguousWriteAttempt option"

definition ambiguous_scan_step ::
  "hasher \<Rightarrow> string \<Rightarrow> ByteRange \<Rightarrow> ambiguous_scan \<Rightarrow> AmbiguousWriteAttempt \<Rightarrow> panic + ambiguous_scan" where
  "ambiguous_scan_step sha actual_sha rng st a =
     (case st of (spans, pending, superseded) \<Rightarrow>
        res_bind (regenerated_slice_sha sha (aw_payload_ref a) (eo_size_bytes (aw_object a)) rng) (\<lambda>regenerated.
          case regenerated of
            Some expected \<Rightarrow>
              if expected = actual_sha
              then if aw_superseded_by a = None then Inr (spans, Some a, superseded)
                   else Inr (spans, pending, Some a)
              else Inr st
          | None \<Rightarrow>
              res_bind (add_u64 (br_offset rng) (br_length rng)) (\<lambda>end_offset.
                if end_offset \<le> eo_size_bytes (aw_object a) then Inr (True, pending, superseded) else Inr st)))"

definition ranged_label :: "string \<Rightarrow> ByteRange \<Rightarrow> nat \<Rightarrow> string" where
  "ranged_label key rng last_byte =
     key @ '': ranged GET bytes='' @ show_nat (br_offset rng) @ ''-'' @ show_nat last_byte"

text \<open>The verdict on a slice that matches no committed candidate.\<close>

definition ranged_verdict ::
  "string \<Rightarrow> ByteRange \<Rightarrow> ExpectedObject \<Rightarrow> RangedReadState \<Rightarrow> bool \<Rightarrow> bool \<Rightarrow> ambiguous_scan
     \<Rightarrow> ReadAnomalies \<Rightarrow> panic + ReadAnomalies" where
  "ranged_verdict key rng actual state no_candidates unverifiable scan anomalies =
     (case scan of (spans, pending, superseded) \<Rightarrow>
        (case pending of
           Some attempt \<Rightarrow>
             Inr (push_materialized (ambiguous_write_materialized_from_object_message key attempt actual) anomalies)
         | None \<Rightarrow>
             (case superseded of
                Some attempt \<Rightarrow>
                  Inr (push_conflict
                         (superseded_ambiguous_object_conflict_message key (rr_live_object state) attempt actual)
                         (push_materialized (ambiguous_write_materialized_from_object_message key attempt actual) anomalies))
              | None \<Rightarrow>
                  if unverifiable \<or> spans then Inr anomalies
                  else if rr_ambiguous state \<noteq> []
                  then res_bind (range_last rng) (\<lambda>last_byte.
                    Inr (push_conflict (ranged_label key rng last_byte @ '' returned slice sha '' @ eo_sha256 actual @
                           '' matching no committed value while ambiguous writes exist'') anomalies))
                  else if no_candidates
                  then Inr (if rr_live_object state = None
                            then push_visible_deleted
                              (key @ '': successful ranged GET had no committed live value'') anomalies
                            else anomalies)
                  else res_bind (range_last rng) (\<lambda>last_byte.
                    Inr (push_corrupted (ranged_label key rng last_byte @ '' returned slice sha '' @ eo_sha256 actual @
                           '' matching no committed value'') anomalies)))))"

definition read_value :: "OperationRecord \<Rightarrow> ExpectedObject" where
  "read_value r = \<lparr>eo_sha256 = (case op_value_sha256 r of None \<Rightarrow> [] | Some s \<Rightarrow> s),
     eo_size_bytes = unwrap_or_0 (op_size_bytes r)\<rparr>"

definition verify_ranged_get ::
  "hasher \<Rightarrow> string \<Rightarrow> ByteRange \<Rightarrow> OperationRecord \<Rightarrow> RangedReadState \<Rightarrow> ReadAnomalies \<Rightarrow> panic + ReadAnomalies" where
  "verify_ranged_get sha key rng r state anomalies =
     (let actual = read_value r; candidates = ranged_candidates r state in
      if eo_size_bytes actual \<noteq> br_length rng
      then res_bind (range_last rng) (\<lambda>last_byte.
        Inr (push_corrupted (ranged_label key rng last_byte @ '' returned '' @ show_nat (eo_size_bytes actual) @
               '' bytes instead of '' @ show_nat (br_length rng)) anomalies))
      else res_bind (check_candidates sha (eo_sha256 actual) rng False candidates) (\<lambda>(matched, unverifiable).
        if matched then Inr anomalies
        else res_bind (fold_res (ambiguous_scan_step sha (eo_sha256 actual) rng) (False, None, None) (rr_ambiguous state))
          (\<lambda>scan. ranged_verdict key rng actual state (candidates = []) unverifiable scan anomalies)))"

subsection \<open>Whole-object reads\<close>

definition evaluate_whole_get ::
  "OperationRecord \<Rightarrow> string \<Rightarrow> ExpectedObject option \<Rightarrow> CommittedWriteHistory option \<Rightarrow> AmbiguousWriteAttempt list
     \<Rightarrow> StableLiveObject option \<Rightarrow> ReadAnomalies \<Rightarrow> panic + ReadAnomalies" where
  "evaluate_whole_get r key live_object history attempts stable_expected anomalies =
     (let actual = read_value r
      in if (case stable_expected of None \<Rightarrow> False | Some s \<Rightarrow> sl_object s = actual) then Inr anomalies
         else if (case live_object of
                    None \<Rightarrow> False
                  | Some e \<Rightarrow> eo_sha256 e = eo_sha256 actual \<and> eo_size_bytes e = eo_size_bytes actual)
         then Inr anomalies
         else case matching_active_ambiguous_object attempts actual of
           Some attempt \<Rightarrow>
             Inr (push_materialized (ambiguous_write_materialized_from_object_message key attempt actual) anomalies)
         | None \<Rightarrow>
             (case matching_superseded_ambiguous_object attempts actual of
                Some attempt \<Rightarrow>
                  Inr (push_conflict (superseded_ambiguous_object_conflict_message key live_object attempt actual)
                         (push_materialized (ambiguous_write_materialized_from_object_message key attempt actual) anomalies))
              | None \<Rightarrow>
                  if attempts \<noteq> []
                  then Inr (push_conflict
                         (unknown_write_value_conflict_from_object_message key live_object attempts actual) anomalies)
                  else (case live_object of
                    Some expected \<Rightarrow>
                      (case history of
                         None \<Rightarrow> Inl ExpectFailed
                       | Some h \<Rightarrow>
                           Inr (if concurrent_committed_read h r actual then anomalies
                                else push_corrupted (read_mismatch_message key expected actual) anomalies))
                  | None \<Rightarrow>
                      (case stable_expected of
                         Some s \<Rightarrow> Inr (push_corrupted (read_mismatch_message key (sl_object s) actual) anomalies)
                       | None \<Rightarrow> Inr (push_visible_deleted (key @ '': successful GET had no committed live value'') anomalies)))))"

record anomaly_scan =
  as_live :: "(string, ExpectedObject) fmap"
  as_committed_history :: "(string, CommittedWriteHistory) fmap"
  as_ambiguous_writes :: "(string, AmbiguousWriteAttempt list) fmap"
  as_anomalies :: ReadAnomalies

definition init_anomaly_scan :: anomaly_scan where
  "init_anomaly_scan = \<lparr>as_live = fmempty, as_committed_history = fmempty, as_ambiguous_writes = fmempty,
     as_anomalies = no_anomalies\<rparr>"

definition window_of :: "OperationRecord \<Rightarrow> ExpectedObject \<Rightarrow> CommittedWriteWindow" where
  "window_of r object = \<lparr>cw_object = object, cw_ended_at_ms = op_ended_at_ms r,
     cw_ended_sequence = op_ended_sequence r, cw_payload_ref = op_payload_ref r\<rparr>"

definition anomaly_get ::
  "hasher \<Rightarrow> (nat, StableLiveObject) fmap \<Rightarrow> anomaly_scan \<Rightarrow> nat \<Rightarrow> OperationRecord \<Rightarrow> string \<Rightarrow> panic + ReadAnomalies" where
  "anomaly_get sha stable_at_start st index r key =
     (let history = fmlookup (as_committed_history st) key;
          attempts = fm_values_at (as_ambiguous_writes st) [] key
      in case op_range r of
           Some rng \<Rightarrow>
             verify_ranged_get sha key rng r
               \<lparr>rr_history = (case history of None \<Rightarrow> [] | Some h \<Rightarrow> ch_windows h), rr_ambiguous = attempts,
                rr_stable_at_start = fmlookup stable_at_start index, rr_live_object = fmlookup (as_live st) key\<rparr>
               (as_anomalies st)
         | None \<Rightarrow>
             evaluate_whole_get r key (fmlookup (as_live st) key) history attempts
               (fmlookup stable_at_start index) (as_anomalies st))"

definition anomaly_step ::
  "hasher \<Rightarrow> (nat, StableLiveObject) fmap \<Rightarrow> anomaly_scan \<Rightarrow> nat \<times> OperationRecord \<Rightarrow> panic + anomaly_scan" where
  "anomaly_step sha stable_at_start st entry =
     (case entry of (index, r) \<Rightarrow>
        if is_object_write (op_kind r) \<and> op_outcome r = Ok then
          (case record_object r of
             None \<Rightarrow> Inr st
           | Some (key, object) \<Rightarrow>
               Inr (st\<lparr>as_ambiguous_writes := mark_superseded_attempts (as_ambiguous_writes st) key r,
                       as_committed_history :=
                         fmupd key (history_push (fm_values_at (as_committed_history st) empty_history key)
                                      (window_of r object)) (as_committed_history st),
                       as_live := fmupd key object (as_live st)\<rparr>))
        else if is_object_write (op_kind r) \<and> op_outcome r \<in> {Timeout, Unknown} then
          (case record_object r of
             None \<Rightarrow> Inr st
           | Some (key, object) \<Rightarrow>
               Inr (st\<lparr>as_ambiguous_writes := fm_push key (attempt_of r object) (as_ambiguous_writes st)\<rparr>))
        else if op_kind r = Delete \<and> op_outcome r = Ok then
          (case op_key r of
             None \<Rightarrow> Inr st
           | Some key \<Rightarrow>
               Inr (st\<lparr>as_ambiguous_writes := mark_superseded_attempts (as_ambiguous_writes st) key r,
                       as_committed_history := fmdrop key (as_committed_history st),
                       as_live := fmdrop key (as_live st)\<rparr>))
        else if op_kind r = Get \<and> op_outcome r = Ok \<and> op_version_id r = None then
          (case op_key r of
             None \<Rightarrow> Inr st
           | Some key \<Rightarrow>
               res_bind (anomaly_get sha stable_at_start st index r key) (\<lambda>a. Inr (st\<lparr>as_anomalies := a\<rparr>)))
        else Inr st)"

definition successful_read_anomalies :: "hasher \<Rightarrow> OperationRecord list \<Rightarrow> panic + ReadAnomalies" where
  "successful_read_anomalies sha records =
     res_bind (fold_res (anomaly_step sha (stable_live_objects_at_read_starts records)) init_anomaly_scan
                 (enumerate 0 records)) (\<lambda>st. Inr (as_anomalies st))"

subsection \<open>Recorded listings\<close>

definition listing_mutations :: "OperationRecord list \<Rightarrow> OperationRecord list" where
  "listing_mutations records =
     map snd (sort_key (\<lambda>(index, r). (end_key (use_recorder_sequences records) r, index))
       (filter (\<lambda>(_, r). is_object_mutation (op_kind r)) (enumerate 0 records)))"

definition recorded_lists :: "OperationRecord list \<Rightarrow> (nat \<times> OperationRecord) list" where
  "recorded_lists records =
     sort_key (\<lambda>(index, r). (start_key (use_recorder_sequences records) r, index))
       (filter (\<lambda>(_, r). op_kind r = List \<and> op_outcome r = Ok) (enumerate 0 records))"

text \<open>\<open>range(prefix..).take_while(|key| key.starts_with(prefix))\<close> over sorted keys.\<close>

definition prefix_range :: "string \<Rightarrow> string list \<Rightarrow> string list" where
  "prefix_range pre keys = takeWhile (prefix pre) (dropWhile (\<lambda>k. k < pre) keys)"

definition empty_warnings :: WarningSummary where
  "empty_warnings = \<lparr>ws_total_count = 0, ws_samples = []\<rparr>"

definition check_recorded_list :: "ObjectModel \<Rightarrow> OperationRecord \<Rightarrow> string \<Rightarrow> string list \<Rightarrow> WarningSummary" where
  "check_recorded_list model r pre listed_keys =
     (let listed = fset_of_list listed_keys;
          label = ''LIST '' @ op_id r @ '' prefix '' @ pre
      in foldl push_warning empty_warnings
           (map (\<lambda>key. label @ '' did not include stable live key '' @ key)
              (filter (\<lambda>key. key |\<notin>| listed) (prefix_range pre (fm_keys (om_live model)))) @
            map (\<lambda>key. label @ '' included stable deleted key '' @ key)
              (filter (\<lambda>key. key |\<in>| listed) (prefix_range pre (sorted_list_of_fset (om_deleted model))))))"

type_synonym list_scan = "ObjectModel \<times> OperationRecord list \<times> (nat \<times> WarningSummary) list"

definition list_scan_step :: "list_scan \<Rightarrow> nat \<times> OperationRecord \<Rightarrow> list_scan" where
  "list_scan_step st entry =
     (case (st, entry) of ((model, mutations, warnings_by_record), (index, r)) \<Rightarrow>
        (let passed = (\<lambda>m. operation_completed_before_started m r);
             model = foldl apply_record_to_model model (takeWhile passed mutations);
             mutations = dropWhile passed mutations
         in (model, mutations,
             case op_key r of
               None \<Rightarrow> warnings_by_record
             | Some pre \<Rightarrow>
                 warnings_by_record @
                   [(index, case op_listed_keys r of
                              None \<Rightarrow> push_warning empty_warnings (''LIST '' @ op_id r @ '' did not record returned keys'')
                            | Some keys \<Rightarrow> check_recorded_list model r pre keys)])))"

definition merge_warnings :: "WarningSummary \<Rightarrow> WarningSummary \<Rightarrow> WarningSummary" where
  "merge_warnings w v =
     \<lparr>ws_total_count = ws_total_count w + ws_total_count v,
      ws_samples = ws_samples w @ take (MAX_WARNING_SAMPLES - length (ws_samples w)) (ws_samples v)\<rparr>"

definition list_history_warnings :: "OperationRecord list \<Rightarrow> WarningSummary" where
  "list_history_warnings records =
     (let (_, _, warnings_by_record) =
            foldl list_scan_step (empty_model, listing_mutations records, []) (recorded_lists records);
          warnings = foldl merge_warnings empty_warnings (map snd (sort_key fst warnings_by_record))
      in warnings\<lparr>ws_samples := sort (ws_samples warnings)\<rparr>)"

subsection \<open>Reads concurrent with committed writes\<close>

definition write_history :: "CommittedWriteWindow list \<Rightarrow> CommittedWriteHistory" where
  "write_history ws = foldl history_push empty_history ws"

lemma windows_history_push [simp]: "ch_windows (history_push h w) = ch_windows h @ [w]"
  by (simp add: history_push_def Let_def)

lemma windows_write_history [simp]: "ch_windows (write_history ws) = ws"
proof -
  have "ch_windows (foldl history_push h ws) = ch_windows h @ ws" for h by (induction ws arbitrary: h) simp_all
  then show ?thesis by (simp add: write_history_def empty_history_def)
qed

text \<open>The entry of an object is the latest completion among the earlier writes of that object.\<close>

definition latest_completion :: "CommittedWriteWindow list \<Rightarrow> ExpectedObject \<Rightarrow> (nat option \<times> nat) option \<Rightarrow> bool" where
  "latest_completion ws obj c \<longleftrightarrow>
     (case c of
        None \<Rightarrow> obj \<notin> cw_object ` set ws
      | Some (e, m) \<Rightarrow> \<exists>n. e = Some n \<and>
          (\<exists>w \<in> set ws. cw_object w = obj \<and> cw_ended_sequence w = Some n) \<and>
          (\<forall>w \<in> set ws. cw_object w = obj \<longrightarrow> unwrap_or_0 (cw_ended_sequence w) \<le> n))"

lemma latest_completion_snoc:
  assumes "latest_completion ws obj c" "cw_ended_sequence v = Some n"
  shows "latest_completion (ws @ [v]) obj
    (if cw_object v = obj
     then Some (case c of Some completion \<Rightarrow> later_completion completion v
                        | None \<Rightarrow> (cw_ended_sequence v, cw_ended_at_ms v))
     else c)"
proof (cases "cw_object v = obj")
  case False
  then show ?thesis using assms(1) by (auto simp: latest_completion_def split: option.splits)
next
  case True
  then show ?thesis
    using assms by (auto simp: latest_completion_def later_completion_def unwrap_or_0_def split: option.splits)
      (auto simp: image_iff intro: order_trans less_imp_le)
qed

lemma prior_latest_completion:
  assumes "\<forall>w \<in> set ws. cw_ended_sequence w \<noteq> None"
  shows "latest_completion (butlast ws) obj (fmlookup (ch_prior_latest_completion_by_object (write_history ws)) obj)"
  using assms
proof (induction ws rule: rev_induct)
  case Nil
  then show ?case by (simp add: write_history_def empty_history_def latest_completion_def)
next
  case (snoc w ws)
  let ?h = "write_history ws"
  have step: "write_history (ws @ [w]) = history_push ?h w" by (simp add: write_history_def)
  show ?case
  proof (cases ws rule: rev_cases)
    case Nil
    then show ?thesis by (simp add: write_history_def history_push_def empty_history_def latest_completion_def Let_def)
  next
    case (snoc vs v)
    obtain n where n: "cw_ended_sequence v = Some n" using snoc.prems snoc by auto
    have "latest_completion vs obj (fmlookup (ch_prior_latest_completion_by_object ?h) obj)"
      using snoc.IH snoc.prems snoc by simp
    note inv = latest_completion_snoc [OF this n]
    have "last ws = v" "ws \<noteq> []" using snoc by simp_all
    then have eq: "fmlookup (ch_prior_latest_completion_by_object (history_push ?h w)) obj =
        (if cw_object v = obj
         then Some (case fmlookup (ch_prior_latest_completion_by_object ?h) obj of
                      Some completion \<Rightarrow> later_completion completion v
                    | None \<Rightarrow> (cw_ended_sequence v, cw_ended_at_ms v))
         else fmlookup (ch_prior_latest_completion_by_object ?h) obj)"
      by (auto simp: history_push_def Let_def)
    have "butlast (ws @ [w]) = vs @ [v]" by (simp only: butlast_snoc snoc)
    then show ?thesis using inv by (simp only: step eq)
  qed
qed

text \<open>
  When the recorder's sequences are available, the indexed test for a read
  that races with committed overwrites is the rule the code documents: the value is that of
  an earlier committed write which had not completed when the read started, or
  of the write just before the latest one while the latest was still in flight.
\<close>

theorem concurrent_committed_read_iff:
  assumes "\<forall>w \<in> set ws. cw_ended_sequence w \<noteq> None" "op_started_sequence get \<noteq> None" "ws \<noteq> []"
  shows "concurrent_committed_read (write_history ws) get actual \<longleftrightarrow>
    (\<exists>w \<in> set (butlast ws). cw_object w = actual \<and> \<not> window_precedes w get) \<or>
    (butlast ws \<noteq> [] \<and> cw_object (last (butlast ws)) = actual \<and> \<not> window_precedes (last ws) get)"
proof -
  obtain s where s: "op_started_sequence get = Some s" using assms(2) by auto
  let ?c = "fmlookup (ch_prior_latest_completion_by_object (write_history ws)) actual"
  have lc: "latest_completion (butlast ws) actual ?c" by (rule prior_latest_completion [OF assms(1)])
  have seq: "\<exists>n. cw_ended_sequence w = Some n" if "w \<in> set (butlast ws)" for w
    using assms(1) that in_set_butlastD by fastforce
  have "(case ?c of None \<Rightarrow> False | Some (e, m) \<Rightarrow> \<not> completion_precedes_start e m (op_started_sequence get) (op_started_at_ms get)) \<longleftrightarrow>
      (\<exists>w \<in> set (butlast ws). cw_object w = actual \<and> \<not> window_precedes w get)"
  proof (cases ?c)
    case None
    then show ?thesis using lc by (auto simp: latest_completion_def)
  next
    case (Some em)
    then obtain n m where n: "?c = Some (Some n, m)" "\<exists>w \<in> set (butlast ws). cw_object w = actual \<and> cw_ended_sequence w = Some n"
        "\<forall>w \<in> set (butlast ws). cw_object w = actual \<longrightarrow> unwrap_or_0 (cw_ended_sequence w) \<le> n"
      using lc by (cases em) (auto simp: latest_completion_def)
    have "(\<exists>w \<in> set (butlast ws). cw_object w = actual \<and> \<not> window_precedes w get) \<longleftrightarrow> \<not> n < s"
      using n(2,3) seq by (fastforce simp: completion_precedes_start_def s unwrap_or_0_def)
    then show ?thesis using n(1) by (simp add: completion_precedes_start_def s)
  qed
  moreover have "eo_sha256 x = eo_sha256 actual \<and> eo_size_bytes x = eo_size_bytes actual \<longleftrightarrow> x = actual" for x
    by (auto intro: ExpectedObject.equality)
  ultimately show ?thesis using assms(3) by (auto simp: concurrent_committed_read_def Let_def)
qed

theorem concurrent_committed_read_witness:
  "concurrent_committed_read
     (write_history
       [\<lparr>cw_object = \<lparr>eo_sha256 = ''a'', eo_size_bytes = 1\<rparr>, cw_ended_at_ms = 5, cw_ended_sequence = Some 2, cw_payload_ref = None\<rparr>,
        \<lparr>cw_object = \<lparr>eo_sha256 = ''b'', eo_size_bytes = 1\<rparr>, cw_ended_at_ms = 9, cw_ended_sequence = Some 6, cw_payload_ref = None\<rparr>])
     (sample_op ''g'' Get ''k'' ''a'' Ok 4 7) \<lparr>eo_sha256 = ''a'', eo_size_bytes = 1\<rparr>"
  by (subst concurrent_committed_read_iff) (simp_all add: sample_op_def completion_precedes_start_def)

subsection \<open>Key ranges\<close>

lemma prefix_le_list: "prefix p k \<Longrightarrow> p \<le> (k :: string)"
proof (induction p arbitrary: k)
  case (Cons c p)
  then show ?case by (cases k) auto
qed simp

lemma prefix_between:
  fixes p k k' :: string
  assumes "p \<le> k" "k \<le> k'" "prefix p k'"
  shows "prefix p k"
  using assms
proof (induction p arbitrary: k k')
  case (Cons c p)
  obtain k2 where k': "k' = c # k2" "prefix p k2" using Cons.prems(3) by (cases k') auto
  from Cons.prems(1) obtain d k1 where k: "k = d # k1" by (cases k) auto
  have "d = c" using Cons.prems(1,2) k k' by auto
  with Cons.IH [of k1 k2] Cons.prems(1,2) k k' show ?case by simp
qed simp

lemma prefix_range_filter:
  assumes "sorted keys"
  shows "prefix_range pre keys = filter (prefix pre) keys"
proof -
  have "takeWhile (prefix pre) (dropWhile (\<lambda>k. k < pre) keys) = filter (prefix pre) keys"
    using assms
  proof (induction keys)
    case (Cons k ks)
    show ?case
    proof (cases "k < pre")
      case True
      then have "\<not> prefix pre k" using prefix_le_list by force
      with True Cons show ?thesis by simp
    next
      case False
      show ?thesis
      proof (cases "prefix pre k")
        case True
        have all: "\<forall>x \<in> set ks. \<not> x < pre" using Cons.prems False by auto
        have "dropWhile (\<lambda>k. k < pre) ks = ks" using all by (cases ks) auto
        with True False Cons show ?thesis by simp
      next
        case no: False
        have "\<not> prefix pre x" if "x \<in> set ks" for x
        proof -
          have "pre \<le> k" "k \<le> x" using Cons.prems that False by auto
          with no prefix_between [of pre k x] show ?thesis by blast
        qed
        then show ?thesis using False no by (auto simp: filter_empty_conv)
      qed
    qed
  qed simp
  then show ?thesis by (simp add: prefix_range_def)
qed

subsection \<open>No panic\<close>

text \<open>The ranges the workload requests: not empty and within 64 bits.\<close>

definition proper_range :: "ByteRange \<Rightarrow> bool" where
  "proper_range rng \<longleftrightarrow> 0 < br_length rng \<and> br_offset rng + br_length rng \<le> usize_max"

lemma range_last_proper: "proper_range rng \<Longrightarrow> \<exists>n. range_last rng = Inr n"
  by (auto simp: range_last_def proper_range_def add_u64_def)

lemma regenerated_proper: "proper_range rng \<Longrightarrow> \<exists>x. regenerated_slice_sha sha p n rng = Inr x"
  by (auto simp: regenerated_slice_sha_def proper_range_def add_u64_def Let_def split: option.split)

lemma check_candidates_proper:
  "proper_range rng \<Longrightarrow> \<exists>x. check_candidates sha s rng u cs = Inr x"
proof (induction cs arbitrary: u)
  case Nil
  show ?case unfolding check_candidates.simps by blast
next
  case (Cons c cs)
  obtain p n where c: "c = (p, n)" by (cases c)
  obtain x where "regenerated_slice_sha sha p n rng = Inr x" using regenerated_proper [OF Cons.prems] by blast
  with Cons c show ?case by (auto split: option.split)
qed

lemma ambiguous_scan_proper:
  "proper_range rng \<Longrightarrow> \<exists>x. fold_res (ambiguous_scan_step sha s rng) st as = Inr x"
proof (induction "as" arbitrary: st)
  case Nil
  show ?case unfolding fold_res.simps by blast
next
  case (Cons a as)
  obtain x where x: "regenerated_slice_sha sha (aw_payload_ref a) (eo_size_bytes (aw_object a)) rng = Inr x"
    using regenerated_proper [OF Cons.prems] by blast
  have "\<exists>st'. ambiguous_scan_step sha s rng st a = Inr st'"
    using Cons.prems x
    by (auto simp: ambiguous_scan_step_def proper_range_def add_u64_def split: prod.split option.split)
  with Cons show ?case by auto
qed

lemma verify_ranged_get_proper:
  assumes "proper_range rng" shows "\<exists>b. verify_ranged_get sha key rng r state a = Inr b"
proof -
  obtain n where n: "range_last rng = Inr n" using range_last_proper [OF assms] by blast
  have v: "\<exists>b. ranged_verdict key rng e state c u scan a = Inr b" for e c u scan
    by (cases scan) (simp add: ranged_verdict_def n split: option.split)
  let ?s = "eo_sha256 (read_value r)"
  obtain m u where c: "check_candidates sha ?s rng False (ranged_candidates r state) = Inr (m, u)"
    using check_candidates_proper [OF assms, of sha ?s False "ranged_candidates r state"] by auto
  obtain x where f: "fold_res (ambiguous_scan_step sha ?s rng) (False, None, None) (rr_ambiguous state) = Inr x"
    using ambiguous_scan_proper [OF assms, of sha ?s "(False, None, None)" "rr_ambiguous state"] by auto
  show ?thesis
    using v by (simp add: verify_ranged_get_def Let_def n c f)
qed

definition live_have_history :: "anomaly_scan \<Rightarrow> bool" where
  "live_have_history st \<longleftrightarrow> fmdom (as_live st) |\<subseteq>| fmdom (as_committed_history st)"

lemma evaluate_whole_get_ok:
  assumes "lo \<noteq> None \<Longrightarrow> h \<noteq> None"
  shows "\<exists>b. evaluate_whole_get r key lo h as s a = Inr b"
  using assms by (auto simp: evaluate_whole_get_def Let_def split: option.split)

lemma anomaly_step_ok:
  assumes "live_have_history st" "\<And>rng. op_range r = Some rng \<Longrightarrow> proper_range rng"
  shows "\<exists>st'. anomaly_step sha stab st (i, r) = Inr st' \<and> live_have_history st'"
proof -
  have get: "\<exists>b. anomaly_get sha stab st i r key = Inr b" for key
  proof (cases "op_range r")
    case None
    have "fmlookup (as_live st) key \<noteq> None \<Longrightarrow> fmlookup (as_committed_history st) key \<noteq> None"
      using assms(1) by (force simp: live_have_history_def fmdom_iff_lookup fsubset_iff)
    from evaluate_whole_get_ok [OF this] show ?thesis using None by (simp add: anomaly_get_def Let_def)
  next
    case (Some rng)
    then show ?thesis using assms(2) by (simp add: anomaly_get_def Let_def verify_ranged_get_proper)
  qed
  obtain a where a: "\<And>key. anomaly_get sha stab st i r key = Inr (a key)" using get by metis
  show ?thesis
    using assms(1) by (auto simp: a anomaly_step_def live_have_history_def fmdom_iff_lookup fsubset_iff split: option.split)
qed

text \<open>
  C18: Evaluating the recorded reads never panics when the recorded ranges are
  not empty and fit in 64 bits: the \<open>expect\<close> on the write history of a live key
  cannot fail and the range arithmetic does not overflow.
\<close>

theorem read_anomalies_no_panic:
  assumes "\<forall>r \<in> set rs. \<forall>rng. op_range r = Some rng \<longrightarrow> proper_range rng"
  shows "\<exists>a. successful_read_anomalies sha rs = Inr a"
proof -
  have "\<exists>st'. fold_res (anomaly_step sha stab) st es = Inr st'"
    if "live_have_history st" "\<forall>e \<in> set es. \<forall>rng. op_range (snd e) = Some rng \<longrightarrow> proper_range rng" for stab st es
    using that
  proof (induction es arbitrary: st)
    case (Cons e es)
    obtain i r where e: "e = (i, r)" by (cases e)
    obtain st' where "anomaly_step sha stab st (i, r) = Inr st'" "live_have_history st'"
      using anomaly_step_ok [OF Cons.prems(1)] Cons.prems(2) e by fastforce
    with Cons e show ?case by simp
  qed simp
  moreover have "live_have_history init_anomaly_scan" by (simp add: live_have_history_def init_anomaly_scan_def)
  moreover have "\<forall>e \<in> set (enumerate 0 rs). \<forall>rng. op_range (snd e) = Some rng \<longrightarrow> proper_range rng"
    using assms by (auto simp: in_set_enumerate_eq)
  ultimately obtain st' where
    "fold_res (anomaly_step sha (stable_live_objects_at_read_starts rs)) init_anomaly_scan (enumerate 0 rs) = Inr st'" by blast
  then show ?thesis by (simp add: successful_read_anomalies_def)
qed

theorem read_anomalies_no_panic_witness:
  "\<exists>a. successful_read_anomalies (\<lambda>_. ''h'')
     [(sample_op ''op-1'' Get ''k'' ''h1'' Ok 1 2)\<lparr>op_range := Some \<lparr>br_offset = 2, br_length = 3\<rparr>\<rparr>] = Inr a"
  by (rule read_anomalies_no_panic) (simp add: proper_range_def usize_max_def sample_op_def)

subsection \<open>Fabricated values are reported\<close>

definition alarming :: "ReadAnomalies \<Rightarrow> bool" where
  "alarming a \<longleftrightarrow>
     ra_corrupted_reads a \<noteq> [] \<or> ra_visible_deleted_objects a \<noteq> [] \<or> ra_unknown_write_value_conflicts a \<noteq> []"

lemma alarming_push [simp]:
  "alarming (push_corrupted m a)" "alarming (push_visible_deleted m a)" "alarming (push_conflict m a)"
  "alarming (push_materialized m a) = alarming a"
  by (simp_all add: alarming_def push_corrupted_def push_visible_deleted_def push_conflict_def push_materialized_def)

lemma verify_ranged_get_grows:
  assumes "verify_ranged_get sha key rng r state a = Inr b" "alarming a"
  shows "alarming b"
proof -
  have "alarming b" if "ranged_verdict key rng e state c u scan a = Inr b" for e c u scan
    using that assms(2) by (cases scan) (auto simp: ranged_verdict_def split: if_split_asm option.split_asm)
  then show ?thesis
    using assms by (auto simp: verify_ranged_get_def Let_def split: if_split_asm)
qed

lemma evaluate_whole_get_value:
  "evaluate_whole_get r key lo h as stab a =
     (if map_option sl_object stab = Some (read_value r) \<or> lo = Some (read_value r) then Inr a
      else case matching_active_ambiguous_object as (read_value r) of
        Some attempt \<Rightarrow>
          Inr (push_materialized (ambiguous_write_materialized_from_object_message key attempt (read_value r)) a)
      | None \<Rightarrow>
          (case matching_superseded_ambiguous_object as (read_value r) of
             Some attempt \<Rightarrow>
               Inr (push_conflict (superseded_ambiguous_object_conflict_message key lo attempt (read_value r))
                      (push_materialized (ambiguous_write_materialized_from_object_message key attempt (read_value r)) a))
           | None \<Rightarrow>
               if as \<noteq> []
               then Inr (push_conflict (unknown_write_value_conflict_from_object_message key lo as (read_value r)) a)
               else (case lo of
                 Some expected \<Rightarrow>
                   (case h of
                      None \<Rightarrow> Inl ExpectFailed
                    | Some h \<Rightarrow>
                        Inr (if concurrent_committed_read h r (read_value r) then a
                             else push_corrupted (read_mismatch_message key expected (read_value r)) a))
               | None \<Rightarrow>
                   (case stab of
                      Some s \<Rightarrow> Inr (push_corrupted (read_mismatch_message key (sl_object s) (read_value r)) a)
                    | None \<Rightarrow> Inr (push_visible_deleted (key @ '': successful GET had no committed live value'') a)))))"
proof -
  have eq: "eo_sha256 e = eo_sha256 v \<and> eo_size_bytes e = eo_size_bytes v \<longleftrightarrow> e = v" for e v :: ExpectedObject
    by (auto intro: ExpectedObject.equality)
  show ?thesis
    unfolding evaluate_whole_get_def Let_def eq
    by (cases stab; cases lo) auto
qed

lemma evaluate_whole_get_grows:
  "evaluate_whole_get r key lo h as s a = Inr b \<Longrightarrow> alarming a \<Longrightarrow> alarming b"
  unfolding evaluate_whole_get_value by (auto split: if_split_asm option.split_asm)

lemma anomaly_step_grows:
  assumes "anomaly_step sha stab st e = Inr st'" "alarming (as_anomalies st)"
  shows "alarming (as_anomalies st')"
proof -
  have "alarming b" if "anomaly_get sha stab st i r key = Inr b" for i r key b
    using that assms(2) verify_ranged_get_grows evaluate_whole_get_grows
    by (auto simp: anomaly_get_def Let_def split: option.splits)
  with assms show ?thesis by (auto simp: anomaly_step_def split: prod.splits if_splits option.splits)
qed

definition writes_value :: "OperationRecord list \<Rightarrow> string \<Rightarrow> ExpectedObject \<Rightarrow> bool" where
  "writes_value rs k obj \<longleftrightarrow> (\<exists>w \<in> set rs. is_object_write (op_kind w) \<and> record_object w = Some (k, obj))"

definition whole_read :: "string \<Rightarrow> OperationRecord \<Rightarrow> bool" where
  "whole_read k r \<longleftrightarrow> op_kind r = Get \<and> op_outcome r = Ok \<and> op_version_id r = None \<and> op_key r = Some k \<and> op_range r = None"

text \<open>Everything the scan keeps was written by the history.\<close>

definition history_from :: "(ExpectedObject \<Rightarrow> bool) \<Rightarrow> CommittedWriteHistory \<Rightarrow> bool" where
  "history_from W h \<longleftrightarrow>
     (\<forall>w \<in> set (ch_windows h). W (cw_object w)) \<and>
     (\<forall>obj. obj |\<in>| fmdom (ch_prior_latest_completion_by_object h) \<longrightarrow> W obj)"

definition scan_from :: "OperationRecord list \<Rightarrow> anomaly_scan \<Rightarrow> bool" where
  "scan_from rs st \<longleftrightarrow>
     (\<forall>k obj. fmlookup (as_live st) k = Some obj \<longrightarrow> writes_value rs k obj) \<and>
     (\<forall>k h. fmlookup (as_committed_history st) k = Some h \<longrightarrow> history_from (writes_value rs k) h) \<and>
     (\<forall>k as. fmlookup (as_ambiguous_writes st) k = Some as \<longrightarrow> (\<forall>a \<in> set as. writes_value rs k (aw_object a)))"

lemma history_from_push:
  "history_from W h \<Longrightarrow> W (cw_object w) \<Longrightarrow> history_from W (history_push h w)"
  by (auto simp: history_from_def history_push_def Let_def)

lemma supersede_keeps_object [simp]: "aw_object (supersede_attempt r a) = aw_object a"
  by (simp add: supersede_attempt_def)

lemma mark_superseded_from:
  "\<forall>k as. fmlookup m k = Some as \<longrightarrow> (\<forall>a \<in> set as. P k (aw_object a)) \<Longrightarrow>
   \<forall>k as. fmlookup (mark_superseded_attempts m key r) k = Some as \<longrightarrow> (\<forall>a \<in> set as. P k (aw_object a))"
  by (auto simp: mark_superseded_attempts_def split: option.splits if_splits)

lemma scan_from_step:
  assumes "scan_from rs st" "r \<in> set rs" "anomaly_step sha stab st (i, r) = Inr st'"
  shows "scan_from rs st'"
proof (cases "is_object_write (op_kind r)")
  case True
  show ?thesis
  proof (cases "record_object r")
    case None
    then show ?thesis using assms True by (auto simp: anomaly_step_def is_object_write_def split: if_splits)
  next
    case (Some ko)
    obtain k obj where ko: "record_object r = Some (k, obj)" using Some by (cases ko) auto
    then have w: "writes_value rs k obj" using True assms(2) by (auto simp: writes_value_def)
    have e: "history_from W empty_history" for W by (simp add: history_from_def empty_history_def)
    show ?thesis
      using assms(1,3) True ko w e history_from_push mark_superseded_from [of "as_ambiguous_writes st" "writes_value rs"]
      by (auto simp: anomaly_step_def scan_from_def window_of_def fm_push_def attempt_of_def fm_values_at_def
          is_object_write_def split: if_splits option.splits)
  qed
next
  case False
  show ?thesis
    using assms(1,3) False mark_superseded_from [of "as_ambiguous_writes st" "writes_value rs"]
    by (auto simp: anomaly_step_def scan_from_def fmdrop_lookup_if split: if_splits option.splits)
qed

text \<open>The same for the values live at the start of a read.\<close>

definition stable_from :: "OperationRecord list \<Rightarrow> stable_scan \<Rightarrow> bool" where
  "stable_from rs st \<longleftrightarrow>
     (case st of (live, mutations, found) \<Rightarrow>
        (\<forall>k s. fmlookup live k = Some s \<longrightarrow> writes_value rs k (sl_object s)) \<and>
        set mutations \<subseteq> set rs \<and>
        (\<forall>i s. fmlookup found i = Some s \<longrightarrow>
           (\<exists>k. op_key (rs ! i) = Some k \<and> writes_value rs k (sl_object s))))"

lemma apply_stable_from:
  assumes "\<forall>k s. fmlookup live k = Some s \<longrightarrow> writes_value rs k (sl_object s)" "set ms \<subseteq> set rs"
  shows "\<forall>k s. fmlookup (foldl apply_stable_mutation live ms) k = Some s \<longrightarrow> writes_value rs k (sl_object s)"
  using assms
proof (induction ms arbitrary: live)
  case (Cons m ms)
  have "\<forall>k s. fmlookup (apply_stable_mutation live m) k = Some s \<longrightarrow> writes_value rs k (sl_object s)"
    using Cons.prems by (auto simp: apply_stable_mutation_def writes_value_def fmdrop_lookup_if split: if_splits option.splits)
  with Cons show ?case by simp
qed simp

lemma stable_step_from:
  assumes "stable_from rs st" "op_key (rs ! i) = Some key"
  shows "stable_from rs (stable_step st (i, read, key))"
proof -
  obtain live ms found where st: "st = (live, ms, found)" by (cases st)
  let ?p = "\<lambda>m. operation_completed_before_started m read"
  have ms: "set ms \<subseteq> set rs" using assms(1) st by (simp add: stable_from_def)
  have "set (takeWhile ?p ms) \<subseteq> set rs" using ms by (auto dest: set_takeWhileD)
  moreover have "set (dropWhile ?p ms) \<subseteq> set rs" using ms by (auto dest: set_dropWhileD)
  moreover have "\<forall>k s. fmlookup live k = Some s \<longrightarrow> writes_value rs k (sl_object s)"
    using assms(1) st by (simp add: stable_from_def)
  ultimately show ?thesis
    using apply_stable_from [of live rs "takeWhile ?p ms"] assms
    by (auto simp: st stable_step_def stable_from_def Let_def split: option.split)
qed

lemma stable_reads_key:
  "(i, r, k) \<in> set (stable_reads rs) \<Longrightarrow> op_key (rs ! i) = Some k"
  by (auto simp: stable_reads_def List.map_filter_def in_set_enumerate_eq split: if_splits)

lemma stable_objects_from:
  assumes "fmlookup (stable_live_objects_at_read_starts rs) i = Some s"
  shows "\<exists>k. op_key (rs ! i) = Some k \<and> writes_value rs k (sl_object s)"
proof -
  have "stable_from rs (foldl stable_step st es)"
    if "stable_from rs st" "\<forall>(i, r, k) \<in> set es. op_key (rs ! i) = Some k" for st es
    using that
  proof (induction es arbitrary: st)
    case (Cons e es)
    obtain i r k where e: "e = (i, r, k)" by (cases e)
    with Cons.prems have "stable_from rs (stable_step st e)" by (simp add: stable_step_from)
    from Cons.IH [OF this] Cons.prems(2) show ?case by simp
  qed simp
  moreover have "stable_from rs (fmempty, stable_mutations rs, fmempty)"
    by (auto simp: stable_from_def stable_mutations_def)
  moreover have "\<forall>(i, r, k) \<in> set (stable_reads rs). op_key (rs ! i) = Some k"
    using stable_reads_key by blast
  ultimately have "stable_from rs (foldl stable_step (fmempty, stable_mutations rs, fmempty) (stable_reads rs))"
    by blast
  with assms show ?thesis
    by (auto simp: stable_live_objects_at_read_starts_def stable_from_def split: prod.splits)
qed

lemma matching_ambiguous_from:
  "matching_active_ambiguous_object as v = Some a \<Longrightarrow> a \<in> set as \<and> aw_object a = v"
  "matching_superseded_ambiguous_object as v = Some a \<Longrightarrow> a \<in> set as \<and> aw_object a = v"
  by (auto simp: matching_active_ambiguous_object_def matching_superseded_ambiguous_object_def find_Some_iff
      dest: nth_mem [of _ "filter _ _"])

lemma concurrent_read_from:
  assumes "history_from W h" "concurrent_committed_read h r v" shows "W v"
proof -
  have eq: "(eo_sha256 e = eo_sha256 v \<and> eo_size_bytes e = eo_size_bytes v) \<longleftrightarrow> e = v" for e :: ExpectedObject
    by (auto intro: ExpectedObject.equality)
  have "last (butlast (ch_windows h)) \<in> set (ch_windows h)" if "butlast (ch_windows h) \<noteq> []"
    using last_in_set [OF that] in_set_butlastD by fast
  with assms show ?thesis
    unfolding concurrent_committed_read_def Let_def eq
    by (auto simp: history_from_def fmdom_iff_lookup split: if_splits option.splits)
qed

lemma fabricated_read_alarms:
  assumes "evaluate_whole_get r key lo h as stab a = Inr b"
    and "\<And>s. stab = Some s \<Longrightarrow> W (sl_object s)" "\<And>e. lo = Some e \<Longrightarrow> W e"
    and "\<forall>x \<in> set as. W (aw_object x)" "\<And>g. h = Some g \<Longrightarrow> history_from W g"
    and "\<not> W (read_value r)"
  shows "alarming b"
proof -
  have "map_option sl_object stab \<noteq> Some (read_value r)" "lo \<noteq> Some (read_value r)" using assms by auto
  moreover have "matching_active_ambiguous_object as (read_value r) = None"
    using matching_ambiguous_from(1) assms(4,6) by (metis not_None_eq)
  moreover have "\<not> concurrent_committed_read g r (read_value r)" if "h = Some g" for g
    using concurrent_read_from assms(5,6) that by blast
  ultimately show ?thesis
    using assms(1) unfolding evaluate_whole_get_value by (auto split: if_split_asm option.split_asm)
qed

lemma fabricated_read_alarming:
  assumes "successful_read_anomalies sha rs = Inr a"
    and "i < length rs" "whole_read k (rs ! i)" "\<not> writes_value rs k (read_value (rs ! i))"
  shows "alarming a"
proof -
  let ?stab = "stable_live_objects_at_read_starts rs"
  let ?f = "anomaly_step sha ?stab"
  let ?es = "enumerate 0 rs"
  have split: "?es = take i ?es @ (i, rs ! i) # drop (Suc i) ?es"
    using assms(2) id_take_nth_drop [of i ?es] by (simp add: nth_enumerate_eq)
  obtain st where st: "fold_res ?f init_anomaly_scan ?es = Inr st" "as_anomalies st = a"
    using assms(1) by (auto simp: successful_read_anomalies_def)
  then obtain s1 s2 where s: "fold_res ?f init_anomaly_scan (take i ?es) = Inr s1" "?f s1 (i, rs ! i) = Inr s2"
      "fold_res ?f s2 (drop (Suc i) ?es) = Inr st"
    by (subst (asm) split) (auto simp: fold_res_append split: sum.splits)
  have "scan_from rs s1"
  proof (rule fold_res_invariant [OF s(1)])
    show "scan_from rs init_anomaly_scan" by (simp add: scan_from_def init_anomaly_scan_def)
    show "scan_from rs u" if "e \<in> set (take i ?es)" "scan_from rs v" "?f v e = Inr u" for v e u
    proof -
      obtain j r where e: "e = (j, r)" by (cases e)
      then have "r \<in> set rs" using that(1) by (auto dest!: in_set_takeD simp: in_set_enumerate_eq)
      with that e show ?thesis by (auto intro: scan_from_step)
    qed
  qed
  moreover obtain b where b: "evaluate_whole_get (rs ! i) k (fmlookup (as_live s1) k)
      (fmlookup (as_committed_history s1) k) (fm_values_at (as_ambiguous_writes s1) [] k) (fmlookup ?stab i)
      (as_anomalies s1) = Inr b" "as_anomalies s2 = b"
    using s(2) assms(3)
    by (auto simp: anomaly_step_def anomaly_get_def whole_read_def is_object_write_def Let_def)
  ultimately have "alarming b"
    using assms(3,4) stable_objects_from [of rs i]
    by (intro fabricated_read_alarms [OF b(1), of "writes_value rs k"])
      (auto simp: scan_from_def whole_read_def fm_values_at_def split: option.splits)
  then have "alarming (as_anomalies s2)" using b(2) by simp
  from fold_res_invariant [OF s(3), where P = "\<lambda>s. alarming (as_anomalies s)", OF this]
  show ?thesis using anomaly_step_grows st(2) by blast
qed

text \<open>
  A read that returned a value no recorded write of the key ever sent is
  always reported: the history then yields a corrupted read, a visible deleted
  object, or a value conflict, each of which fails the check.
\<close>

theorem fabricated_read_is_reported:
  assumes "successful_read_anomalies sha rs = Inr a"
    and "i < length rs" "whole_read k (rs ! i)" "\<not> writes_value rs k (read_value (rs ! i))"
  shows "alarming a"
  using assms by (rule fabricated_read_alarming)

theorem fabricated_read_witness:
  "\<exists>a. successful_read_anomalies (\<lambda>_. ''h'')
     [sample_op ''op-1'' Put ''k'' ''h1'' Ok 1 2, sample_op ''op-2'' Get ''k'' ''h9'' Ok 3 4] = Inr a \<and> alarming a"
proof -
  let ?rs = "[sample_op ''op-1'' Put ''k'' ''h1'' Ok 1 2, sample_op ''op-2'' Get ''k'' ''h9'' Ok 3 4]"
  have "\<forall>r \<in> set ?rs. op_range r = None" by (simp add: sample_op_def)
  have "\<exists>a. successful_read_anomalies (\<lambda>_. ''h'') ?rs = Inr a"
    by (simp add: successful_read_anomalies_def enumerate_simps anomaly_step_def anomaly_get_def
        evaluate_whole_get_value record_object_def init_anomaly_scan_def sample_op_def Let_def
        split: option.split)
  then obtain a where a: "successful_read_anomalies (\<lambda>_. ''h'') ?rs = Inr a" by blast
  have "alarming a"
    by (rule fabricated_read_is_reported [OF a, of 1 "''k''"])
      (simp_all add: whole_read_def writes_value_def read_value_def record_object_def unwrap_or_0_def sample_op_def)
  with a show ?thesis by blast
qed

subsection \<open>Recorded listings are checked completely\<close>

lemma push_warnings_count: "ws_total_count (foldl push_warning w xs) = ws_total_count w + length xs"
  by (induction xs arbitrary: w) (simp_all add: push_warning_def)

lemma push_warnings_bounded:
  "length (ws_samples w) \<le> MAX_WARNING_SAMPLES \<Longrightarrow>
   length (ws_samples (foldl push_warning w xs)) \<le> MAX_WARNING_SAMPLES"
  by (induction xs arbitrary: w) (auto simp: push_warning_def push_sample_def)

text \<open>
  A recorded listing of a prefix is checked completely: it raises no
  warning exactly when it contains every stably live key under the prefix and no
  stably deleted one (the ordered scan from the prefix on misses none), and at
  most fifty warnings are kept as samples.
\<close>

theorem recorded_list_check_exact:
  "(ws_total_count (check_recorded_list model r pre keys) = 0 \<longleftrightarrow>
      {k. k |\<in>| fmdom (om_live model) \<and> prefix pre k} \<subseteq> set keys \<and>
      {k. k |\<in>| om_deleted model \<and> prefix pre k} \<inter> set keys = {}) \<and>
   length (ws_samples (check_recorded_list model r pre keys)) \<le> 50"
proof -
  have "sorted (sorted_list_of_fset (om_deleted model))" by (simp add: sorted_list_of_fset.rep_eq)
  then have "ws_total_count (check_recorded_list model r pre keys) =
      length (filter (\<lambda>k. k \<notin> set keys) (filter (prefix pre) (fm_keys (om_live model)))) +
      length (filter (\<lambda>k. k \<in> set keys) (filter (prefix pre) (sorted_list_of_fset (om_deleted model))))"
    by (simp add: check_recorded_list_def Let_def push_warnings_count prefix_range_filter empty_warnings_def
        fset_of_list_elem)
  moreover have "length (ws_samples (check_recorded_list model r pre keys)) \<le> 50"
    unfolding check_recorded_list_def Let_def MAX_WARNING_SAMPLES_def [symmetric]
    by (intro push_warnings_bounded) (simp add: empty_warnings_def)
  ultimately show ?thesis by (auto simp: filter_empty_conv fmlookup_dom'_iff fmdom_iff_lookup)
qed

end
