(* ===== verification/Checker_Run.thy ===== *)
theory Checker_Run
  imports Recorder Read_Anomalies
begin

text \<open>
  One run of the checker: \<open>check_s3_history\<close> of \<open>src/src/fault/checker.rs\<close> with
  every phase in the order of the code.

  The S3 client and the asynchronous runtime are not under \<open>src\<close> or are pure
  input and output: what they deliver is the argument \<open>obs\<close>, a
  \<open>CheckerObservations\<close>. The answers of a batch of concurrent requests
  (\<open>buffer_unordered\<close>) are a list in completion order, each answer an error of
  the client or a response; \<open>observes\<close> says that exactly the requested keys and
  versions were answered. The JSON serialisation of records is the argument
  \<open>to_vec\<close>, SHA-256 the argument \<open>sha\<close>.
\<close>

subsection \<open>Observations\<close>

datatype check_error =
    CheckHistory history_error
  | CheckPanic panic
  | CheckClient string
  | CheckSerialize
  | CheckHistoryShrank

record CheckerObservations =
  ob_final_gets :: "(string \<times> (string + GetObjectResult)) list"
  ob_deleted_gets :: "(string \<times> (string + GetObjectResult)) list"
  ob_version_gets :: "(CommittedVersion \<times> (string + GetObjectResult)) list"
  ob_version_list :: "string + ObjectVersionEntry list option"
  ob_candidate_gets :: "(AmbiguousVersionCandidate \<times> (string + GetObjectResult)) list"
  ob_prefix_list :: "string + string list option"
  ob_unexplained_gets :: "(string \<times> (string + GetObjectResult)) list"
  ob_records :: "OperationRecord list"
  ob_started_at_ms :: nat
  ob_completed_at_ms :: nat

definition lift_history :: "history_error + 'a \<Rightarrow> check_error + 'a" where
  "lift_history r = (case r of Inl e \<Rightarrow> Inl (CheckHistory e) | Inr v \<Rightarrow> Inr v)"

definition lift_run_panic :: "panic + 'a \<Rightarrow> check_error + 'a" where
  "lift_run_panic r = (case r of Inl p \<Rightarrow> Inl (CheckPanic p) | Inr v \<Rightarrow> Inr v)"

definition client_result :: "string + 'a \<Rightarrow> check_error + 'a" where
  "client_result r = (case r of Inl e \<Rightarrow> Inl (CheckClient e) | Inr v \<Rightarrow> Inr v)"

lemma lift_Inr [simp]:
  "lift_history r = Inr v \<longleftrightarrow> r = Inr v"
  "lift_run_panic p = Inr w \<longleftrightarrow> p = Inr w"
  "client_result c = Inr u \<longleftrightarrow> c = Inr u"
  by (auto simp: lift_history_def lift_run_panic_def client_result_def split: sum.splits)

subsection \<open>The initial report\<close>

definition checker_history_records_sha256 ::
  "hasher \<Rightarrow> (OperationRecord list \<Rightarrow> bytes option) \<Rightarrow> OperationRecord list \<Rightarrow> check_error + string" where
  "checker_history_records_sha256 sha to_vec records =
     context_or (to_vec records) CheckSerialize (\<lambda>bytes. Inr (sha bytes))"

definition initial_report ::
  "RecorderState \<Rightarrow> ObjectModel \<Rightarrow> ReadAnomalies \<Rightarrow> WarningSummary \<Rightarrow> bool \<Rightarrow> bool \<Rightarrow> CheckerReport" where
  "initial_report rec model anomalies list_warnings tenant_recovered expect_versioning =
     \<lparr>cr_scenario = rs_scenario rec, cr_run_id = rs_run_id rec,
      cr_committed_puts = om_committed_writes model,
      cr_expected_live_objects = fcard (fmdom (om_live model)),
      cr_verified_live_objects = 0, cr_missing_committed_objects = [],
      cr_unavailable_committed_objects = [], cr_unknown_committed_read_failures = [],
      cr_hash_mismatches = [],
      cr_successful_corrupted_reads = ra_corrupted_reads anomalies,
      cr_unexpected_visible_deleted_objects = ra_visible_deleted_objects anomalies,
      cr_unknown_writes_materialized = ra_unknown_writes_materialized anomalies,
      cr_unknown_writes_preserved_committed = [],
      cr_unknown_write_value_conflicts = ra_unknown_write_value_conflicts anomalies,
      cr_list_history_warning_count = ws_total_count list_warnings,
      cr_final_list_warning_count = 0,
      cr_list_history_warnings = ws_samples list_warnings,
      cr_list_warnings = [], cr_final_listed_objects = None,
      cr_versioning_expected = expect_versioning,
      cr_expected_committed_versions = 0, cr_verified_committed_versions = 0,
      cr_committed_writes_missing_version_id_count = 0, cr_committed_writes_missing_version_id = [],
      cr_missing_committed_versions = [], cr_unavailable_committed_versions = [],
      cr_version_hash_mismatches = [], cr_missing_committed_delete_markers = [],
      cr_resurrected_deleted_objects = [], cr_listed_keys_unreadable = [],
      cr_unexpected_listed_objects = [], cr_failed_writes_materialized = [],
      cr_delete_marker_lineage_incomplete = [], cr_multipart_upload_lineage_incomplete = [],
      cr_tolerated_ambiguous_deletes = [],
      cr_operation_cohorts = operation_cohort_counts (rs_records rec),
      cr_fault_window_relations = fault_window_relation_counts (rs_records rec),
      cr_audit = None, cr_tenant_recovered = tenant_recovered, cr_passed = False\<rparr>"

subsection \<open>Reads of live and ambiguous keys\<close>

definition final_keys :: "ObjectModel \<Rightarrow> string list" where
  "final_keys model = sorted_list_of_fset (fmdom (om_live model) |\<union>| fmdom (om_unknown_writes model))"

record final_scan =
  fs_report :: CheckerReport
  fs_delete_absent :: "string fset"
  fs_delete_present :: "string fset"
  fs_write_absent :: "string fset"
  fs_materialized :: "string fset"

abbreviation unknown_writes_of :: "ObjectModel \<Rightarrow> string \<Rightarrow> AmbiguousWriteAttempt list" where
  "unknown_writes_of model key \<equiv> fm_values_at (om_unknown_writes model) [] key"

definition absent_after_ambiguous_delete :: "ObjectModel \<Rightarrow> string \<Rightarrow> GetObjectResult \<Rightarrow> bool" where
  "absent_after_ambiguous_delete model key get \<longleftrightarrow>
     fmlookup (om_live model) key \<noteq> None \<and> gr_outcome get = NotFound
     \<and> key |\<in>| om_ambiguous_delete_pending model"

definition note_final_get :: "hasher \<Rightarrow> ObjectModel \<Rightarrow> final_scan \<Rightarrow> string \<Rightarrow> GetObjectResult \<Rightarrow> final_scan" where
  "note_final_get sha model st key get =
     (let expected = fmlookup (om_live model) key;
          unknown_writes = unknown_writes_of model key;
          st = (if gr_outcome get = Ok
                   \<and> (case gr_body get of None \<Rightarrow> False
                      | Some body \<Rightarrow> matching_active_ambiguous_write sha unknown_writes body \<noteq> None)
                then st\<lparr>fs_materialized := finsert key (fs_materialized st)\<rparr> else st)
      in if absent_after_ambiguous_delete model key get
         then st\<lparr>fs_delete_absent := finsert key (fs_delete_absent st)\<rparr>
         else (let st = (if (case expected of None \<Rightarrow> False | Some e \<Rightarrow> committed_get_matches sha e get)
                            \<and> unknown_writes = [] \<and> key |\<in>| om_ambiguous_delete_pending model
                         then st\<lparr>fs_delete_present := finsert key (fs_delete_present st)\<rparr> else st);
                   st = (if expected = None \<and> gr_outcome get = NotFound
                         then st\<lparr>fs_write_absent := finsert key (fs_write_absent st)\<rparr> else st)
               in st\<lparr>fs_report := evaluate_final_get sha (fs_report st) key expected unknown_writes get\<rparr>))"

definition final_get_step ::
  "hasher \<Rightarrow> ObjectModel \<Rightarrow> final_scan \<Rightarrow> string \<times> (string + GetObjectResult) \<Rightarrow> check_error + final_scan" where
  "final_get_step sha model st result =
     res_bind (client_result (snd result)) (\<lambda>get. Inr (note_final_get sha model st (fst result) get))"

subsection \<open>Reads of deleted keys\<close>

definition deleted_probe_keys :: "ObjectModel \<Rightarrow> string list" where
  "deleted_probe_keys model =
     filter (\<lambda>key. key |\<notin>| fmdom (om_unknown_writes model)) (sorted_list_of_fset (om_deleted model))"

definition note_deleted_get :: "CheckerReport \<Rightarrow> string \<Rightarrow> GetObjectResult \<Rightarrow> CheckerReport" where
  "note_deleted_get report key get =
     (case evaluate_deleted_reread key get of
        None \<Rightarrow> report
      | Some message \<Rightarrow>
          report\<lparr>cr_resurrected_deleted_objects := cr_resurrected_deleted_objects report @ [message]\<rparr>)"

definition deleted_get_step ::
  "CheckerReport \<Rightarrow> string \<times> (string + GetObjectResult) \<Rightarrow> check_error + CheckerReport" where
  "deleted_get_step report result =
     res_bind (client_result (snd result)) (\<lambda>get. Inr (note_deleted_get report (fst result) get))"

subsection \<open>Versions\<close>

record version_phase =
  vp_report :: CheckerReport
  vp_data_version_checks :: "CheckerDataVersionAudit list"
  vp_delete_marker_checks :: "CheckerDeleteMarkerAudit list"
  vp_completed :: "bool option"
  vp_latest :: "(string, ObjectVersionEntry) fmap option"
  vp_warnings :: WarningSummary

definition record_lineage :: "CheckerReport \<Rightarrow> VersionLineage \<Rightarrow> CheckerReport" where
  "record_lineage report lineage =
     report\<lparr>cr_expected_committed_versions := length (vl_versions lineage),
            cr_committed_writes_missing_version_id_count := vl_missing_version_id_count lineage,
            cr_committed_writes_missing_version_id := vl_missing_version_id_samples lineage,
            cr_delete_marker_lineage_incomplete :=
              cr_delete_marker_lineage_incomplete report @ vl_delete_marker_lineage_incomplete lineage,
            cr_multipart_upload_lineage_incomplete :=
              cr_multipart_upload_lineage_incomplete report @ vl_multipart_upload_lineage_incomplete lineage\<rparr>"

definition version_get_step ::
  "hasher \<Rightarrow> CheckerReport \<times> CheckerDataVersionAudit list \<Rightarrow> CommittedVersion \<times> (string + GetObjectResult)
     \<Rightarrow> check_error + CheckerReport \<times> CheckerDataVersionAudit list" where
  "version_get_step sha st result =
     res_bind (client_result (snd result)) (\<lambda>get.
       Inr (evaluate_committed_version_get sha (fst st) (fst result) get,
            snd st @ [checker_data_version_audit sha (fst result) get]))"

definition collect_step ::
  "('a \<times> GetObjectResult) list \<Rightarrow> 'a \<times> (string + GetObjectResult) \<Rightarrow> check_error + ('a \<times> GetObjectResult) list" where
  "collect_step observations result =
     res_bind (client_result (snd result)) (\<lambda>get. Inr (observations @ [(fst result, get)]))"

definition materialized_ambiguous_versions ::
  "hasher \<Rightarrow> ObjectModel \<Rightarrow> VersionLineage \<Rightarrow> ObjectVersionEntry list
     \<Rightarrow> (AmbiguousVersionCandidate \<times> (string + GetObjectResult)) list
     \<Rightarrow> check_error + MaterializedAmbiguousVersion list \<times> string list" where
  "materialized_ambiguous_versions sha model lineage entries results =
     (let (_, conflicts) = ambiguous_version_candidates model lineage entries
      in res_bind (fold_res collect_step [] results) (\<lambda>observations.
           lift_run_panic (materialize_observations sha model conflicts observations)))"

text \<open>The report after the listing, before its uncommitted versions are read.\<close>

definition record_version_listing ::
  "OperationRecord list \<Rightarrow> VersionLineage \<Rightarrow> ObjectVersionEntry list \<Rightarrow> CheckerReport \<Rightarrow> CheckerReport" where
  "record_version_listing records lineage entries report =
     (let latest_conflicts = snd (latest_version_entries entries);
          (missing_versions, multipart_lineage) = missing_committed_version_entries (vl_versions lineage) entries
      in report\<lparr>cr_delete_marker_lineage_incomplete :=
                  cr_delete_marker_lineage_incomplete report @ latest_conflicts @
                  listed_version_lineage_conflicts records lineage (map object_entry_identity entries),
                cr_missing_committed_versions := cr_missing_committed_versions report @ missing_versions,
                cr_multipart_upload_lineage_incomplete :=
                  cr_multipart_upload_lineage_incomplete report @ multipart_lineage,
                cr_missing_committed_delete_markers :=
                  missing_committed_delete_markers (vl_delete_markers lineage) entries\<rparr>)"

definition record_materialized ::
  "MaterializedAmbiguousVersion list \<Rightarrow> string list \<Rightarrow> CheckerReport \<Rightarrow> CheckerReport" where
  "record_materialized materialized conflicts report =
     report\<lparr>cr_unknown_writes_materialized := cr_unknown_writes_materialized report @ map ma_evidence materialized,
            cr_unknown_write_value_conflicts := cr_unknown_write_value_conflicts report @ conflicts\<rparr>"

definition check_listed_versions ::
  "hasher \<Rightarrow> OperationRecord list \<Rightarrow> ObjectModel \<Rightarrow> VersionLineage \<Rightarrow> ObjectVersionEntry list
     \<Rightarrow> (AmbiguousVersionCandidate \<times> (string + GetObjectResult)) list \<Rightarrow> CheckerReport
     \<Rightarrow> check_error + CheckerReport" where
  "check_listed_versions sha records model lineage entries results report =
     (let report = record_version_listing records lineage entries report
      in res_bind (materialized_ambiguous_versions sha model lineage entries results) (\<lambda>(materialized, conflicts).
           Inr (record_materialized materialized conflicts
                  (evaluate_latest_version_lineage report model (expected_latest_versions records)
                     (fst (latest_version_entries entries)) materialized (vl_delete_markers lineage)))))"

definition check_versions ::
  "hasher \<Rightarrow> OperationRecord list \<Rightarrow> ObjectModel \<Rightarrow> string \<Rightarrow> CheckerObservations \<Rightarrow> CheckerReport
     \<Rightarrow> check_error + version_phase" where
  "check_versions sha records model pre obs report =
     (let lineage = committed_version_lineage records in
      res_bind (fold_res (version_get_step sha) (record_lineage report lineage, []) (ob_version_gets obs))
        (\<lambda>(report, data_version_checks).
      res_bind (client_result (ob_version_list obs)) (\<lambda>listing.
        case listing of
          Some entries \<Rightarrow>
            res_bind (check_listed_versions sha records model lineage entries (ob_candidate_gets obs) report) (\<lambda>report.
              Inr \<lparr>vp_report = report, vp_data_version_checks = data_version_checks,
                   vp_delete_marker_checks = checker_delete_marker_audits (vl_delete_markers lineage) (Some entries),
                   vp_completed = Some True, vp_latest = Some (fst (latest_version_entries entries)),
                   vp_warnings = empty_warnings\<rparr>)
        | None \<Rightarrow>
              Inr \<lparr>vp_report = report, vp_data_version_checks = data_version_checks,
                   vp_delete_marker_checks = checker_delete_marker_audits (vl_delete_markers lineage) None,
                   vp_completed = Some False, vp_latest = None,
                   vp_warnings = record_version_list_unavailable empty_warnings pre\<rparr>)))"

definition no_versions :: "CheckerReport \<Rightarrow> version_phase" where
  "no_versions report =
     \<lparr>vp_report = report, vp_data_version_checks = [], vp_delete_marker_checks = [], vp_completed = None,
      vp_latest = None, vp_warnings = empty_warnings\<rparr>"

subsection \<open>The final listing\<close>

definition unexplained_get_step ::
  "hasher \<Rightarrow> ObjectModel \<Rightarrow> CheckerReport \<Rightarrow> string \<times> (string + GetObjectResult) \<Rightarrow> check_error + CheckerReport" where
  "unexplained_get_step sha model report result =
     res_bind (client_result (snd result)) (\<lambda>get.
       Inr (evaluate_unexplained_listed_key sha report model (fst result) get))"

definition ghost_message :: "string \<Rightarrow> string" where
  "ghost_message key = key @ '': NotFound (ambiguous write listed but absent on GET)''"

definition check_listing ::
  "hasher \<Rightarrow> ObjectModel \<Rightarrow> final_scan \<Rightarrow> string \<Rightarrow> CheckerObservations \<Rightarrow> CheckerReport \<Rightarrow> WarningSummary
     \<Rightarrow> check_error + CheckerReport \<times> WarningSummary \<times> string fset option" where
  "check_listing sha model scan pre obs report warnings =
     res_bind (client_result (ob_prefix_list obs)) (\<lambda>listing.
       case listing of
         None \<Rightarrow> Inr (report, push_warning warnings (''LIST prefix '' @ pre @ '' did not complete''), None)
       | Some keys \<Rightarrow>
           (let report = report\<lparr>cr_final_listed_objects := Some (length keys)\<rparr>;
                listed = fset_of_list keys;
                warnings = evaluate_final_list_keys model (fs_delete_absent scan) (fs_materialized scan) listed pre warnings;
                report = report\<lparr>cr_listed_keys_unreadable := cr_listed_keys_unreadable report @
                           map ghost_message (sorted_list_of_fset (fs_write_absent scan |\<inter>| listed))\<rparr>
            in res_bind (fold_res (unexplained_get_step sha model) report (ob_unexplained_gets obs)) (\<lambda>report.
                 Inr (report, warnings, Some listed))))"

subsection \<open>The report\<close>

definition sort_report :: "CheckerReport \<Rightarrow> CheckerReport" where
  "sort_report r =
     r\<lparr>cr_missing_committed_objects := sort (cr_missing_committed_objects r),
       cr_unavailable_committed_objects := sort_key failure_key (cr_unavailable_committed_objects r),
       cr_unknown_committed_read_failures := sort_key failure_key (cr_unknown_committed_read_failures r),
       cr_hash_mismatches := sort (cr_hash_mismatches r),
       cr_unknown_writes_materialized := sort_dedup (cr_unknown_writes_materialized r),
       cr_unknown_writes_preserved_committed := sort_dedup (cr_unknown_writes_preserved_committed r),
       cr_unknown_write_value_conflicts := sort_dedup (cr_unknown_write_value_conflicts r),
       cr_unexpected_visible_deleted_objects := sort (cr_unexpected_visible_deleted_objects r),
       cr_list_history_warnings := sort (cr_list_history_warnings r),
       cr_list_warnings := sort (cr_list_warnings r),
       cr_committed_writes_missing_version_id := sort (cr_committed_writes_missing_version_id r),
       cr_missing_committed_versions := sort (cr_missing_committed_versions r),
       cr_unavailable_committed_versions := sort (cr_unavailable_committed_versions r),
       cr_version_hash_mismatches := sort (cr_version_hash_mismatches r),
       cr_missing_committed_delete_markers := sort (cr_missing_committed_delete_markers r),
       cr_resurrected_deleted_objects := sort_dedup (cr_resurrected_deleted_objects r),
       cr_listed_keys_unreadable := sort_dedup (cr_listed_keys_unreadable r),
       cr_unexpected_listed_objects := sort_dedup (cr_unexpected_listed_objects r),
       cr_failed_writes_materialized := sort_dedup (cr_failed_writes_materialized r),
       cr_delete_marker_lineage_incomplete := sort_dedup (cr_delete_marker_lineage_incomplete r),
       cr_multipart_upload_lineage_incomplete := sort_dedup (cr_multipart_upload_lineage_incomplete r),
       cr_tolerated_ambiguous_deletes := sort (cr_tolerated_ambiguous_deletes r)\<rparr>"

definition data_version_order :: "CheckerDataVersionAudit \<Rightarrow> string \<times> string" where
  "data_version_order c = (cd_key c, cd_version_id c)"

definition delete_marker_order :: "CheckerDeleteMarkerAudit \<Rightarrow> string \<times> string" where
  "delete_marker_order c = (cm_key c, cm_version_id c)"

definition checker_audit ::
  "hasher \<Rightarrow> (OperationRecord list \<Rightarrow> bytes option) \<Rightarrow> RecorderState \<Rightarrow> string \<Rightarrow> CheckerObservations \<Rightarrow> version_phase
     \<Rightarrow> string \<Rightarrow> check_error + CheckerAudit" where
  "checker_audit sha to_vec rec bucket obs versions prefix_sha256 =
     res_bind (lift_history (validate_history_scope_and_order (ob_records obs) (rs_scenario rec) (rs_run_id rec) bucket))
       (\<lambda>_. ensure (length (rs_records rec) \<le> length (ob_records obs)) CheckHistoryShrank
       (let suffix = drop (length (rs_records rec)) (ob_records obs) in
        res_bind (lift_history (validate_history_phase_boundary (rs_records rec) suffix)) (\<lambda>_.
        res_bind (checker_history_records_sha256 sha to_vec suffix) (\<lambda>suffix_sha256.
          Inr \<lparr>ca_bucket = bucket, ca_started_at_ms = ob_started_at_ms obs,
               ca_completed_at_ms = ob_completed_at_ms obs,
               ca_history_prefix_record_count = length (rs_records rec),
               ca_history_prefix_sha256 = prefix_sha256,
               ca_history_suffix_record_count = length suffix, ca_history_suffix_sha256 = suffix_sha256,
               ca_suffix_operations = checker_operation_audits suffix,
               ca_data_version_checks = sort_key data_version_order (vp_data_version_checks versions),
               ca_delete_marker_checks = sort_key delete_marker_order (vp_delete_marker_checks versions),
               ca_list_object_versions_completed = vp_completed versions\<rparr>))))"

definition delete_observations ::
  "OperationRecord list \<Rightarrow> bool \<Rightarrow> final_scan \<Rightarrow> version_phase \<Rightarrow> string fset option
     \<Rightarrow> AmbiguousDeleteFinalObservations" where
  "delete_observations records expect_versioning scan versions listed =
     \<lparr>ao_absent_on_get = fs_delete_absent scan, ao_present_on_get = fs_delete_present scan,
      ao_listed_keys = listed, ao_actual_latest = vp_latest versions,
      ao_expected_latest = (if expect_versioning then Some (expected_latest_versions records) else None),
      ao_committed_delete_markers =
        (if expect_versioning then Some (vl_delete_markers (committed_version_lineage records)) else None),
      ao_expect_versioning = expect_versioning\<rparr>"

text \<open>The phases that read the store, up to the sorted report without its audit.\<close>

definition observe_store ::
  "hasher \<Rightarrow> OperationRecord list \<Rightarrow> string \<Rightarrow> bool \<Rightarrow> CheckerObservations \<Rightarrow> CheckerReport
     \<Rightarrow> check_error + CheckerReport \<times> version_phase" where
  "observe_store sha records run_id expect_versioning obs report =
     (let model = object_model records; pre = key_prefix run_id in
      res_bind (fold_res (final_get_step sha model)
          \<lparr>fs_report = report, fs_delete_absent = {||}, fs_delete_present = {||}, fs_write_absent = {||},
           fs_materialized = {||}\<rparr> (ob_final_gets obs)) (\<lambda>scan.
      res_bind (fold_res deleted_get_step (fs_report scan) (ob_deleted_gets obs)) (\<lambda>report.
      res_bind (if expect_versioning then check_versions sha records model pre obs report
                else Inr (no_versions report)) (\<lambda>versions.
      res_bind (check_listing sha model scan pre obs (vp_report versions) (vp_warnings versions))
        (\<lambda>(report, warnings, listed).
          Inr (sort_report
                 (finalize_ambiguous_delete_observations
                    (report\<lparr>cr_final_list_warning_count := ws_total_count warnings,
                            cr_list_warnings := ws_samples warnings\<rparr>) model
                    (delete_observations records expect_versioning scan versions listed)),
               versions))))))"

definition check_s3_history ::
  "hasher \<Rightarrow> (OperationRecord list \<Rightarrow> bytes option) \<Rightarrow> RecorderState \<Rightarrow> string \<Rightarrow> bool \<Rightarrow> bool \<Rightarrow> CheckerObservations
     \<Rightarrow> check_error + CheckerReport" where
  "check_s3_history sha to_vec rec bucket tenant_recovered expect_versioning obs =
     (let records = rs_records rec in
      res_bind (lift_history (validate_history_scope_and_order records (rs_scenario rec) (rs_run_id rec) bucket)) (\<lambda>_.
      res_bind (checker_history_records_sha256 sha to_vec records) (\<lambda>prefix_sha256.
      res_bind (lift_run_panic (successful_read_anomalies sha records)) (\<lambda>anomalies.
      res_bind (observe_store sha records (rs_run_id rec) expect_versioning obs
                  (initial_report rec (object_model records) anomalies (list_history_warnings records)
                     tenant_recovered expect_versioning)) (\<lambda>(report, versions).
      res_bind (checker_audit sha to_vec rec bucket obs versions prefix_sha256) (\<lambda>audit.
        (let report = report\<lparr>cr_audit := Some audit\<rparr>
         in Inr (report\<lparr>cr_passed := success_predicate report\<rparr>))))))))"

text \<open>
  What the runtime promises of the streams: every request of a batch is answered
  once, in some order.
\<close>

definition observes :: "OperationRecord list \<Rightarrow> bool \<Rightarrow> CheckerObservations \<Rightarrow> bool" where
  "observes records expect_versioning obs \<longleftrightarrow>
     (let model = object_model records; lineage = committed_version_lineage records in
      mset (map fst (ob_final_gets obs)) = mset (final_keys model)
      \<and> mset (map fst (ob_deleted_gets obs)) = mset (deleted_probe_keys model)
      \<and> (if expect_versioning then mset (map fst (ob_version_gets obs)) = mset (vl_versions lineage) else True)
      \<and> (case ob_version_list obs of
           Inr (Some entries) \<Rightarrow> if expect_versioning
             then mset (map fst (ob_candidate_gets obs)) = mset (fst (ambiguous_version_candidates model lineage entries))
             else True
         | _ \<Rightarrow> True)
      \<and> (case ob_prefix_list obs of
           Inr (Some keys) \<Rightarrow>
             mset (map fst (ob_unexplained_gets obs)) = mset (unexplained_listed_keys model (fset_of_list keys))
         | _ \<Rightarrow> True))"

end
