(* ===== verification/Recovery_Stability.thy ===== *)
theory Recovery_Stability
  imports Checker_Run
begin

text \<open>
  The recovery reread of \<open>src/src/fault/checker.rs\<close>: after a failing check the committed
  reads that only timed out are repeated until a deadline, and the run is
  classified again from what the reread saw.

  Time is an argument. A round of the retry loop is a \<open>RereadRound\<close>: whether the
  deadline was reached while sleeping, the answers the batch delivered in completion
  order, whether the deadline cut the batch off, and the clock after it. The list
  of rounds ends where the deadline ends the loop at its head. The lengths of the
  sleeps only decide how many rounds there are.
\<close>

subsection \<open>The report\<close>

record RecoveryStabilityReport =
  rr_scenario :: "string option"
  rr_run_id :: "string option"
  rr_immediate_passed :: bool
  rr_reread_attempted_keys :: "string list"
  rr_reread_recovered_keys :: "string list"
  rr_still_unavailable_keys :: "string list"
  rr_hash_mismatches :: "string list"
  rr_data_corruption_evidence :: "string list"
  rr_classification_evidence :: "string list"
  rr_ambiguous_write_evidence :: "string list"
  rr_final_list_warning_count :: nat
  rr_list_warnings :: "string list"
  rr_harness_errors :: "string list"
  rr_max_recovery_seconds :: nat
  rr_recovered_within_seconds :: "nat option"
  rr_classification :: RecoveryStabilityClassification

definition recovery_harness_error :: "string \<Rightarrow> nat \<Rightarrow> RecoveryStabilityReport" where
  "recovery_harness_error message max_recovery =
     \<lparr>rr_scenario = None, rr_run_id = None, rr_immediate_passed = False, rr_reread_attempted_keys = [],
      rr_reread_recovered_keys = [], rr_still_unavailable_keys = [], rr_hash_mismatches = [],
      rr_data_corruption_evidence = [], rr_classification_evidence = [], rr_ambiguous_write_evidence = [],
      rr_final_list_warning_count = 0, rr_list_warnings = [], rr_harness_errors = [message],
      rr_max_recovery_seconds = max_recovery, rr_recovered_within_seconds = None,
      rr_classification = HarnessError\<rparr>"

definition with_identity :: "RecoveryStabilityReport \<Rightarrow> string \<Rightarrow> string \<Rightarrow> RecoveryStabilityReport" where
  "with_identity report scenario run_id = report\<lparr>rr_scenario := Some scenario, rr_run_id := Some run_id\<rparr>"

definition evidence_classifications :: "RecoveryStabilityReport \<Rightarrow> string list" where
  "evidence_classifications r =
     (let cs = {|recovery_as_str (rr_classification r)|};
          cs = (if rr_hash_mismatches r \<noteq> [] \<or> rr_data_corruption_evidence r \<noteq> []
                then finsert (recovery_as_str DataCorruption) cs else cs);
          cs = cs |\<union>| fset_of_list (map recovery_as_str
                 (List.map_filter from_classification_evidence (rr_classification_evidence r)));
          cs = (if list_ex (\<lambda>key. \<not> prefix ''version:'' key) (rr_still_unavailable_keys r)
                then finsert (recovery_as_str CommittedObjectUnavailable) cs else cs);
          cs = (if rr_classification r = ListUnavailableOrUnknown
                then finsert (recovery_as_str ListUnavailableOrUnknown) cs else cs);
          cs = (if rr_ambiguous_write_evidence r \<noteq> []
                then finsert (recovery_as_str AmbiguousWriteMaterialized) cs else cs);
          cs = (if rr_reread_attempted_keys r \<noteq> [] \<and> rr_reread_attempted_keys r = rr_reread_recovered_keys r
                   \<and> rr_still_unavailable_keys r = [] \<and> rr_hash_mismatches r = []
                   \<and> rr_classification_evidence r = [] \<and> rr_harness_errors r = []
                then finsert (recovery_as_str RecoveryTailReadLatency) cs else cs);
          cs = (if rr_harness_errors r \<noteq> [] then finsert (recovery_as_str HarnessError) cs else cs)
      in sorted_list_of_fset cs)"

subsection \<open>Which failures are reread\<close>

definition is_recovery_tail_read_failure :: "OperationOutcome \<Rightarrow> nat option \<Rightarrow> string option \<Rightarrow> bool" where
  "is_recovery_tail_read_failure outcome http_status error =
     (if outcome \<noteq> Timeout \<and> outcome \<noteq> Unknown then False
      else case error of
        None \<Rightarrow> False
      | Some error \<Rightarrow>
          (let error = to_ascii_lowercase error
           in if http_status = Some 200
              then str_contains error ''body read timed out'' \<or> str_contains error ''body read timeout''
                   \<or> str_contains error ''streaming error''
              else http_status = None
                   \<and> (str_contains error ''get object timed out'' \<or> str_contains error ''request timed out'')))"

definition tail_candidate :: "ObjectModel \<Rightarrow> OperationRecord \<Rightarrow> string option" where
  "tail_candidate model r =
     Option.bind (op_key r) (\<lambda>key.
       if op_kind r = Get \<and> op_version_id r = None \<and> key |\<in>| fmdom (om_live model)
          \<and> is_recovery_tail_read_failure (op_outcome r) (op_http_status r) (op_error r)
       then Some key else None)"

definition recovery_tail_candidate_keys :: "OperationRecord list \<Rightarrow> ObjectModel \<Rightarrow> string list" where
  "recovery_tail_candidate_keys immediate_records model =
     sorted_list_of_fset (fset_of_list (List.map_filter (tail_candidate model) immediate_records))"

subsection \<open>Evidence of the failing check\<close>

definition immediate_data_corruption_evidence :: "CheckerReport \<Rightarrow> string list" where
  "immediate_data_corruption_evidence report =
     (let conflicts = map (\<lambda>item. ''unknown_write_value_conflict: '' @ item) (cr_unknown_write_value_conflicts report);
          warnings = map (\<lambda>item. ''final_list_warning: '' @ item)
                       (filter (final_list_content_corruption_warning report) (cr_list_warnings report));
          counts = (if final_list_content_corruption_signal report
                       \<and> cr_final_list_warning_count report > length warnings
                    then [''final_list_content_warning_count: '' @ show_nat (cr_final_list_warning_count report) @
                          '' total, '' @ show_nat (length warnings) @ '' sampled''] else [])
      in sort (conflicts @ warnings @ counts))"

definition missing_id_count_evidence :: "CheckerReport \<Rightarrow> string list" where
  "missing_id_count_evidence report =
     (if cr_committed_writes_missing_version_id_count report > length (cr_committed_writes_missing_version_id report)
      then [''committed_writes_missing_version_id_count: '' @
            show_nat (cr_committed_writes_missing_version_id_count report) @ '' total, '' @
            show_nat (length (cr_committed_writes_missing_version_id report)) @ '' sampled''] else [])"

definition immediate_classification_evidence :: "CheckerReport \<Rightarrow> string list" where
  "immediate_classification_evidence report =
     sort_dedup
       (map (\<lambda>item. ''version_hash_mismatch: '' @ item) (cr_version_hash_mismatches report) @
        map (\<lambda>item. ''missing_committed_version: '' @ item) (cr_missing_committed_versions report) @
        map (\<lambda>item. ''unavailable_committed_version: '' @ item) (cr_unavailable_committed_versions report) @
        map (\<lambda>item. ''missing_committed_delete_marker: '' @ item) (cr_missing_committed_delete_markers report) @
        map (\<lambda>item. ''resurrected_deleted_object: '' @ item)
          (cr_resurrected_deleted_objects report @ cr_unexpected_visible_deleted_objects report) @
        map (\<lambda>item. ''listed_key_unreadable: '' @ item) (cr_listed_keys_unreadable report) @
        map (\<lambda>item. ''unexpected_listed_object: '' @ item) (cr_unexpected_listed_objects report) @
        map (\<lambda>item. ''committed_write_missing_version_id: '' @ item) (cr_committed_writes_missing_version_id report) @
        missing_id_count_evidence report @
        map (\<lambda>item. ''delete_marker_lineage_incomplete: '' @ item) (cr_delete_marker_lineage_incomplete report) @
        map (\<lambda>item. ''multipart_upload_lineage_incomplete: '' @ item) (cr_multipart_upload_lineage_incomplete report))"

definition immediate_ambiguous_write_evidence :: "CheckerReport \<Rightarrow> string list" where
  "immediate_ambiguous_write_evidence report =
     sort (map (\<lambda>item. ''ambiguous_write_materialized: '' @ item) (cr_unknown_writes_materialized report))"

datatype recovery_error =
    DuplicateMissingKeys
  | AmbiguousReadFailure CommittedReadFailure
  | DuplicateReadEvidence string
  | UnparseableReadFailure CommittedReadFailure
  | ImmediateVerdictMismatch
  | InconsistentKeySets
  | AttemptedNotCandidates
  | UnexplainedUnavailableKeys
  | UnavailableKeysMismatch
  | ClassificationMismatch RecoveryStabilityClassification
  | RereadPanic panic

abbreviation committed_read_failures :: "CheckerReport \<Rightarrow> CommittedReadFailure list" where
  "committed_read_failures report \<equiv>
     cr_unavailable_committed_objects report @ cr_unknown_committed_read_failures report"

definition still_unavailable_step ::
  "string fset \<Rightarrow> string fset \<times> string fset \<Rightarrow> CommittedReadFailure \<Rightarrow> recovery_error + string fset \<times> string fset" where
  "still_unavailable_step attempted st failure =
     context_or (failure_key failure) (AmbiguousReadFailure failure) (\<lambda>key.
     ensure (key |\<notin>| snd st) (DuplicateReadEvidence key)
       (Inr (if key |\<in>| attempted then fst st else finsert key (fst st), finsert key (snd st))))"

definition immediate_still_unavailable_keys :: "CheckerReport \<Rightarrow> string list \<Rightarrow> recovery_error + string list" where
  "immediate_still_unavailable_keys report reread_attempted_keys =
     (let attempted = fset_of_list reread_attempted_keys;
          keys = fset_of_list (cr_missing_committed_objects report)
      in ensure (fcard keys = length (cr_missing_committed_objects report)) DuplicateMissingKeys
         (res_bind (fold_res (still_unavailable_step attempted) (keys, keys) (committed_read_failures report))
           (\<lambda>(keys, _). Inr (sorted_list_of_fset
              (keys |\<union>| fset_of_list (map (\<lambda>item. ''version:'' @ item) (cr_unavailable_committed_versions report)))))))"

definition candidate_key_step ::
  "string fset \<times> string fset \<Rightarrow> CommittedReadFailure \<Rightarrow> recovery_error + string fset \<times> string fset" where
  "candidate_key_step st failure =
     context_or (failure_key failure) (AmbiguousReadFailure failure) (\<lambda>key.
     ensure (key |\<notin>| snd st) (DuplicateReadEvidence key)
     (context_or (failure_evidence failure) (UnparseableReadFailure failure) (\<lambda>parsed.
       Inr (if is_recovery_tail_read_failure (rf_outcome parsed) (rf_http_status parsed) (rf_error parsed)
            then finsert (rf_key parsed) (fst st) else fst st, finsert key (snd st)))))"

definition immediate_recovery_candidate_keys :: "CheckerReport \<Rightarrow> recovery_error + string fset" where
  "immediate_recovery_candidate_keys report =
     res_bind (fold_res candidate_key_step ({||}, {||}) (committed_read_failures report)) (\<lambda>(keys, _). Inr keys)"

definition immediate_recovery_tail_candidate_keys :: "CheckerReport \<Rightarrow> string fset option" where
  "immediate_recovery_tail_candidate_keys report =
     (case immediate_recovery_candidate_keys report of
        Inl _ \<Rightarrow> None
      | Inr candidates \<Rightarrow>
          if fcard candidates
             = length (cr_unavailable_committed_objects report) + length (cr_unknown_committed_read_failures report)
          then Some candidates else None)"

subsection \<open>Classification after the reread\<close>

definition has_non_availability_result :: "RecoveryStabilityReport \<Rightarrow> bool" where
  "has_non_availability_result r \<longleftrightarrow>
     rr_hash_mismatches r \<noteq> [] \<or> rr_data_corruption_evidence r \<noteq> [] \<or> rr_ambiguous_write_evidence r \<noteq> []
     \<or> rr_harness_errors r \<noteq> []"

definition recovery_key_sets_are_consistent :: "RecoveryStabilityReport \<Rightarrow> bool" where
  "recovery_key_sets_are_consistent r =
     (let attempted = fset_of_list (rr_reread_attempted_keys r);
          recovered = fset_of_list (rr_reread_recovered_keys r);
          still_unavailable = fset_of_list (rr_still_unavailable_keys r)
      in if fcard attempted \<noteq> length (rr_reread_attempted_keys r)
            \<or> fcard recovered \<noteq> length (rr_reread_recovered_keys r)
            \<or> fcard still_unavailable \<noteq> length (rr_still_unavailable_keys r)
            \<or> \<not> recovered |\<subseteq>| attempted
            \<or> recovered |\<inter>| still_unavailable \<noteq> {||}
         then False
         else has_non_availability_result r \<or> attempted |-| recovered |\<subseteq>| still_unavailable)"

definition immediate_failures_are_only_reread_candidates ::
  "CheckerReport \<Rightarrow> RecoveryStabilityReport \<Rightarrow> bool" where
  "immediate_failures_are_only_reread_candidates i r =
     (case immediate_recovery_tail_candidate_keys i of
        None \<Rightarrow> False
      | Some candidate_keys \<Rightarrow>
          (let attempted_keys = fset_of_list (rr_reread_attempted_keys r);
               recovered_keys = fset_of_list (rr_reread_recovered_keys r)
           in cr_tenant_recovered i
              \<and> cr_missing_committed_objects i = []
              \<and> cr_hash_mismatches i = []
              \<and> cr_successful_corrupted_reads i = []
              \<and> cr_unexpected_visible_deleted_objects i = []
              \<and> cr_unknown_write_value_conflicts i = []
              \<and> cr_final_list_warning_count i = 0
              \<and> cr_committed_writes_missing_version_id_count i = 0
              \<and> cr_missing_committed_versions i = []
              \<and> cr_unavailable_committed_versions i = []
              \<and> cr_version_hash_mismatches i = []
              \<and> cr_missing_committed_delete_markers i = []
              \<and> cr_resurrected_deleted_objects i = []
              \<and> cr_listed_keys_unreadable i = []
              \<and> cr_unexpected_listed_objects i = []
              \<and> cr_delete_marker_lineage_incomplete i = []
              \<and> cr_multipart_upload_lineage_incomplete i = []
              \<and> candidate_keys \<noteq> {||}
              \<and> recovery_key_sets_are_consistent r
              \<and> candidate_keys = attempted_keys
              \<and> attempted_keys = recovered_keys))"

definition lineage_evidence_class :: "RecoveryStabilityReport \<Rightarrow> RecoveryStabilityClassification option" where
  "lineage_evidence_class r =
     find (\<lambda>c. list_ex (matches_classification_evidence c) (rr_classification_evidence r))
       [DeleteMarkerLineageIncomplete, MultipartUploadLineageIncomplete, VersionIdMissingOnCommittedWrite]"

definition classify_recovery_stability ::
  "RecoveryStabilityReport \<Rightarrow> CheckerReport \<Rightarrow> RecoveryStabilityClassification" where
  "classify_recovery_stability r i =
     (let immediate_classification = failure_classification i in
      if rr_classification_evidence r \<noteq> []
         \<and> immediate_classification \<in> {CommittedVersionMissing, VersionHashMismatch, DeleteMarkerMissing,
                                        DeletedObjectResurrected}
      then immediate_classification
      else if rr_hash_mismatches r \<noteq> [] \<or> rr_data_corruption_evidence r \<noteq> [] then DataCorruption
      else if rr_harness_errors r \<noteq> [] then HarnessError
      else if rr_classification_evidence r \<noteq> [] \<and> immediate_classification = CommittedVersionUnavailable
      then immediate_classification
      else if rr_still_unavailable_keys r \<noteq> [] then CommittedObjectUnavailable
      else if rr_ambiguous_write_evidence r \<noteq> [] then AmbiguousWriteMaterialized
      else if has_list_unavailable_or_unknown_signal i then ListUnavailableOrUnknown
      else case lineage_evidence_class r of
        Some classification \<Rightarrow> classification
      | None \<Rightarrow>
          if rr_reread_attempted_keys r \<noteq> [] \<and> immediate_failures_are_only_reread_candidates i r
          then RecoveryTailReadLatency
          else classify_without_reread i)"

definition finish_recovery_stability_report ::
  "RecoveryStabilityReport \<Rightarrow> CheckerReport \<Rightarrow> RecoveryStabilityReport" where
  "finish_recovery_stability_report r i = r\<lparr>rr_classification := classify_recovery_stability r i\<rparr>"

definition validate_recovery_key_sets :: "RecoveryStabilityReport \<Rightarrow> CheckerReport \<Rightarrow> recovery_error + unit" where
  "validate_recovery_key_sets r i =
     ensure (recovery_key_sets_are_consistent r) InconsistentKeySets
     (let attempted = fset_of_list (rr_reread_attempted_keys r) in
      res_bind (immediate_recovery_candidate_keys i) (\<lambda>candidates.
      ensure (attempted = candidates) AttemptedNotCandidates
      (let recovered = fset_of_list (rr_reread_recovered_keys r);
           still = fset_of_list (rr_still_unavailable_keys r)
       in res_bind (immediate_still_unavailable_keys i (sorted_list_of_fset candidates)) (\<lambda>baseline_keys.
          (let baseline = fset_of_list baseline_keys
           in ensure (still |\<subseteq>| baseline |\<union>| attempted) UnexplainedUnavailableKeys
              (if \<not> has_non_availability_result r
               then ensure (still = baseline |\<union>| (attempted |-| recovered)) UnavailableKeysMismatch (Inr ())
               else Inr ()))))))"

definition validate_recovery_stability_against_checker ::
  "RecoveryStabilityReport \<Rightarrow> CheckerReport \<Rightarrow> recovery_error + unit" where
  "validate_recovery_stability_against_checker r i =
     ensure (rr_immediate_passed r = cr_passed i
             \<and> rr_final_list_warning_count r = cr_final_list_warning_count i
             \<and> rr_list_warnings r = cr_list_warnings i) ImmediateVerdictMismatch
     (res_bind (validate_recovery_key_sets r i) (\<lambda>_.
      ensure (rr_classification r = classify_recovery_stability r i)
        (ClassificationMismatch (classify_recovery_stability r i)) (Inr ())))"

subsection \<open>The reread\<close>

record reread_state =
  re_report :: RecoveryStabilityReport
  re_pending :: "string fset"

text \<open>\<open>still_unavailable_keys.push\<close> and the other updates of an answer.\<close>

definition evaluate_recovery_reread_get ::
  "hasher \<Rightarrow> reread_state \<Rightarrow> string \<Rightarrow> ExpectedObject \<Rightarrow> AmbiguousWriteAttempt list \<Rightarrow> GetObjectResult \<Rightarrow> reread_state" where
  "evaluate_recovery_reread_get sha st key expected ambiguous_writes get =
     (let report = re_report st; removed = re_pending st |-| {|key|} in
      if committed_get_matches sha expected get
      then \<lparr>re_report = report\<lparr>rr_reread_recovered_keys := rr_reread_recovered_keys report @ [key]\<rparr>,
            re_pending = removed\<rparr>
      else case gr_body get of
        None \<Rightarrow> st
      | Some body \<Rightarrow>
          (case matching_active_ambiguous_write sha ambiguous_writes body of
             Some attempt \<Rightarrow>
               \<lparr>re_report = report\<lparr>rr_ambiguous_write_evidence := rr_ambiguous_write_evidence report @
                  [ambiguous_write_materialized_message sha key attempt body]\<rparr>, re_pending = removed\<rparr>
           | None \<Rightarrow>
               (case matching_superseded_ambiguous_write sha ambiguous_writes body of
                  Some attempt \<Rightarrow>
                    \<lparr>re_report = report\<lparr>rr_ambiguous_write_evidence := rr_ambiguous_write_evidence report @
                       [ambiguous_write_materialized_message sha key attempt body],
                       rr_data_corruption_evidence := rr_data_corruption_evidence report @
                       [''unknown_write_value_conflict: '' @
                        superseded_ambiguous_write_conflict_message sha key (Some expected) attempt body]\<rparr>,
                     re_pending = removed\<rparr>
                | None \<Rightarrow>
                    \<lparr>re_report = report\<lparr>rr_hash_mismatches := rr_hash_mismatches report @
                       [hash_mismatch_message sha key expected body]\<rparr>, re_pending = removed\<rparr>)))"

definition reread_harness_failure :: "reread_state \<Rightarrow> string \<Rightarrow> string \<Rightarrow> reread_state" where
  "reread_harness_failure st key error =
     (let report = re_report st in
      \<lparr>re_report = report\<lparr>rr_still_unavailable_keys := rr_still_unavailable_keys report @ [key],
                          rr_classification := HarnessError,
                          rr_harness_errors := rr_harness_errors report @ [''reread failed: '' @ error]\<rparr>,
       re_pending = {||}\<rparr>)"

text \<open>The answers of one batch: the loop ends at the first client error.\<close>

fun reread_batch ::
  "hasher \<Rightarrow> (string, ExpectedObject \<times> AmbiguousWriteAttempt list) fmap \<Rightarrow> reread_state
     \<Rightarrow> (string \<times> (string + GetObjectResult)) list \<Rightarrow> panic + bool \<times> reread_state" where
  "reread_batch sha expected st [] = Inr (False, st)"
| "reread_batch sha expected st ((key, answer) # answers) =
     (case fmlookup expected key of
        None \<Rightarrow> Inl ExpectFailed
      | Some (object, ambiguous_writes) \<Rightarrow>
          (case answer of
             Inr get \<Rightarrow>
               reread_batch sha expected (evaluate_recovery_reread_get sha st key object ambiguous_writes get) answers
           | Inl error \<Rightarrow> Inr (True, reread_harness_failure st key error)))"

record RereadRound =
  rd_expired_asleep :: bool
  rd_answers :: "(string \<times> (string + GetObjectResult)) list"
  rd_cut_off :: bool
  rd_elapsed_seconds :: nat
  rd_expired_after :: bool

definition note_recovered :: "RereadRound \<Rightarrow> reread_state \<Rightarrow> reread_state" where
  "note_recovered round' st =
     (if re_pending st = {||} \<and> rr_recovered_within_seconds (re_report st) = None
      then st\<lparr>re_report := (re_report st)\<lparr>rr_recovered_within_seconds := Some (rd_elapsed_seconds round')\<rparr>\<rparr>
      else st)"

text \<open>The retry loop; a batch that ends with a client error is not cut off by the deadline.\<close>

fun reread_loop ::
  "hasher \<Rightarrow> (string, ExpectedObject \<times> AmbiguousWriteAttempt list) fmap \<Rightarrow> reread_state \<Rightarrow> RereadRound list
     \<Rightarrow> panic + reread_state" where
  "reread_loop sha expected st [] = Inr st"
| "reread_loop sha expected st (round' # rounds) =
     (if re_pending st = {||} \<or> rr_hash_mismatches (re_report st) \<noteq> [] \<or> rd_expired_asleep round' then Inr st
      else res_bind (reread_batch sha expected st (rd_answers round')) (\<lambda>(failed, st).
        if rd_cut_off round' \<and> \<not> failed then Inr st
        else (let st = note_recovered round' st
              in if re_pending st = {||} \<or> rr_hash_mismatches (re_report st) \<noteq> [] \<or> rd_expired_after round'
                 then Inr st
                 else reread_loop sha expected st rounds)))"

definition initial_recovery_report ::
  "CheckerReport \<Rightarrow> string list \<Rightarrow> string list \<Rightarrow> nat \<Rightarrow> RecoveryStabilityReport" where
  "initial_recovery_report i attempted_keys still_unavailable_keys max_recovery =
     \<lparr>rr_scenario = Some (cr_scenario i), rr_run_id = Some (cr_run_id i), rr_immediate_passed = cr_passed i,
      rr_reread_attempted_keys = attempted_keys, rr_reread_recovered_keys = [],
      rr_still_unavailable_keys = still_unavailable_keys,
      rr_hash_mismatches = cr_hash_mismatches i @ cr_successful_corrupted_reads i,
      rr_data_corruption_evidence = immediate_data_corruption_evidence i,
      rr_classification_evidence = immediate_classification_evidence i,
      rr_ambiguous_write_evidence = immediate_ambiguous_write_evidence i,
      rr_final_list_warning_count = cr_final_list_warning_count i, rr_list_warnings = cr_list_warnings i,
      rr_harness_errors = [], rr_max_recovery_seconds = max_recovery, rr_recovered_within_seconds = None,
      rr_classification = classify_without_reread i\<rparr>"

definition reread_expectations ::
  "ObjectModel \<Rightarrow> string list \<Rightarrow> (string, ExpectedObject \<times> AmbiguousWriteAttempt list) fmap" where
  "reread_expectations model attempted_keys =
     fmap_of_list (List.map_filter (\<lambda>key.
       map_option (\<lambda>expected. (key, expected, unknown_writes_of model key)) (fmlookup (om_live model) key)) attempted_keys)"

definition settle_recovery_report :: "reread_state \<Rightarrow> RecoveryStabilityReport" where
  "settle_recovery_report st =
     (let r = re_report st
      in r\<lparr>rr_reread_recovered_keys := sort (rr_reread_recovered_keys r),
           rr_still_unavailable_keys := sort (rr_still_unavailable_keys r @ sorted_list_of_fset (re_pending st)),
           rr_hash_mismatches := sort_dedup (rr_hash_mismatches r),
           rr_data_corruption_evidence := sort_dedup (rr_data_corruption_evidence r),
           rr_ambiguous_write_evidence := sort_dedup (rr_ambiguous_write_evidence r),
           rr_list_warnings := sort_dedup (rr_list_warnings r),
           rr_harness_errors := sort_dedup (rr_harness_errors r)\<rparr>)"

definition recovery_stability_reread ::
  "hasher \<Rightarrow> OperationRecord list \<Rightarrow> CheckerReport \<Rightarrow> nat \<Rightarrow> nat \<Rightarrow> RereadRound list
     \<Rightarrow> recovery_error + RecoveryStabilityReport" where
  "recovery_stability_reread sha records i immediate_record_start max_recovery rounds =
     (let model = object_model (take immediate_record_start records);
          attempted_keys = recovery_tail_candidate_keys (drop immediate_record_start records) model
      in res_bind (immediate_still_unavailable_keys i attempted_keys) (\<lambda>still_unavailable_keys.
         (let report = initial_recovery_report i attempted_keys still_unavailable_keys max_recovery
          in if cr_passed i \<or> attempted_keys = [] \<or> max_recovery = 0
             then Inr (finish_recovery_stability_report report i)
             else (let expected = reread_expectations model attempted_keys
                   in case reread_loop sha expected \<lparr>re_report = report, re_pending = fmdom expected\<rparr> rounds of
                        Inl p \<Rightarrow> Inl (RereadPanic p)
                      | Inr st \<Rightarrow> Inr (finish_recovery_stability_report (settle_recovery_report st) i)))))"

text \<open>
  What the runtime promises of the rounds: a batch answers keys that were pending when it
  started, each at most once, and all of them unless the deadline cut it off or a
  client error ended it.
\<close>

definition round_answers :: "string fset \<Rightarrow> RereadRound \<Rightarrow> bool" where
  "round_answers pending round' \<longleftrightarrow>
     distinct (map fst (rd_answers round')) \<and> fset_of_list (map fst (rd_answers round')) |\<subseteq>| pending
     \<and> (rd_cut_off round' \<or> list_ex (\<lambda>a. isl (snd a)) (rd_answers round')
        \<or> fset_of_list (map fst (rd_answers round')) = pending)"

fun rereads ::
  "hasher \<Rightarrow> (string, ExpectedObject \<times> AmbiguousWriteAttempt list) fmap \<Rightarrow> reread_state \<Rightarrow> RereadRound list \<Rightarrow> bool" where
  "rereads sha expected st [] = True"
| "rereads sha expected st (round' # rounds) \<longleftrightarrow>
     round_answers (re_pending st) round'
     \<and> (case reread_batch sha expected st (rd_answers round') of
          Inl _ \<Rightarrow> True
        | Inr (_, st) \<Rightarrow> rereads sha expected (note_recovered round' st) rounds)"

subsection \<open>Invariants of the reread loop\<close>

text \<open>What every answer, every client error and every round keeps holds after the loop.\<close>

locale reread_scan =
  fixes sha :: hasher
    and expected :: "(string, ExpectedObject \<times> AmbiguousWriteAttempt list) fmap"
    and answered :: "string \<Rightarrow> GetObjectResult \<Rightarrow> bool"
    and Q :: "reread_state \<Rightarrow> bool"
  assumes eval: "\<lbrakk>Q st; fmlookup expected key = Some (object, writes); key |\<in>| re_pending st; answered key get\<rbrakk>
      \<Longrightarrow> Q (evaluate_recovery_reread_get sha st key object writes get)"
    and harness: "\<lbrakk>Q st; key |\<in>| re_pending st\<rbrakk> \<Longrightarrow> Q (reread_harness_failure st key error)"
    and noted: "Q st \<Longrightarrow> Q (note_recovered round' st)"

lemma pending_evaluate:
  "re_pending (evaluate_recovery_reread_get sha st key object writes get) = re_pending st \<or>
   re_pending (evaluate_recovery_reread_get sha st key object writes get) = re_pending st |-| {|key|}"
  by (auto simp: evaluate_recovery_reread_get_def Let_def split: option.splits)

lemma pending_evaluate_other:
  "\<lbrakk>k |\<in>| re_pending st; k \<noteq> key\<rbrakk> \<Longrightarrow> k |\<in>| re_pending (evaluate_recovery_reread_get sha st key object writes get)"
  using pending_evaluate [of sha st key object writes get] by auto

context reread_scan
begin

lemma batch:
  assumes "Q st" and "reread_batch sha expected st answers = Inr (failed, st')"
    and "distinct (map fst answers)" and "fset_of_list (map fst answers) |\<subseteq>| re_pending st"
    and "\<And>key get. (key, Inr get) \<in> set answers \<Longrightarrow> answered key get"
  shows "Q st'"
  using assms
proof (induction answers arbitrary: st)
  case Nil
  then show ?case by simp
next
  case (Cons a answers)
  obtain key answer where a: "a = (key, answer)" by (cases a)
  from Cons.prems(2) obtain object writes where e: "fmlookup expected key = Some (object, writes)"
    by (auto simp: a split: option.splits)
  have key: "key |\<in>| re_pending st" using Cons.prems(4) by (auto simp: a)
  show ?case
  proof (cases answer)
    case (Inl error)
    with Cons.prems(2) e a have "st' = reread_harness_failure st key error" by simp
    then show ?thesis using harness [OF Cons.prems(1) key] by simp
  next
    case (Inr get)
    let ?st = "evaluate_recovery_reread_get sha st key object writes get"
    have "Q ?st" using eval [OF Cons.prems(1) e key] Cons.prems(5) [of key get] a Inr by simp
    moreover have "reread_batch sha expected ?st answers = Inr (failed, st')" using Cons.prems(2) e a Inr by simp
    moreover have "fset_of_list (map fst answers) |\<subseteq>| re_pending ?st"
    proof
      fix k assume k: "k |\<in>| fset_of_list (map fst answers)"
      then have "k \<noteq> key" "k |\<in>| re_pending st" using Cons.prems(3,4) by (auto simp: a fset_of_list_elem)
      then show "k |\<in>| re_pending ?st" by (intro pending_evaluate_other)
    qed
    ultimately show ?thesis using Cons.IH [of ?st] Cons.prems(3,5) by (auto simp: a)
  qed
qed

lemma loop:
  assumes "Q st" and "reread_loop sha expected st rounds = Inr st'" and "rereads sha expected st rounds"
    and "\<And>round' key get. \<lbrakk>round' \<in> set rounds; (key, Inr get) \<in> set (rd_answers round')\<rbrakk> \<Longrightarrow> answered key get"
  shows "Q st'"
  using assms
proof (induction rounds arbitrary: st)
  case Nil
  then show ?case by simp
next
  case (Cons r rounds)
  show ?case
  proof (cases "re_pending st = {||} \<or> rr_hash_mismatches (re_report st) \<noteq> [] \<or> rd_expired_asleep r")
    case True
    then show ?thesis using Cons.prems(1,2) by simp
  next
    case False
    with Cons.prems(2) obtain failed u where u: "reread_batch sha expected st (rd_answers r) = Inr (failed, u)"
      by (auto simp del: fold_res.simps)
    have "Q u" using batch [OF Cons.prems(1) u] Cons.prems(3,4) by (auto simp: round_answers_def)
    note nu = noted [OF this, of r]
    from Cons.prems(3) u have "rereads sha expected (note_recovered r u) rounds" by simp
    then show ?thesis
      using Cons.prems(2,4) u False \<open>Q u\<close> nu Cons.IH [OF nu] by (auto simp: Let_def split: if_splits)
  qed
qed

end

text \<open>The key sets: \<open>A\<close> are the reread keys, \<open>B\<close> those the check already found unavailable.\<close>

definition reread_keys_ok :: "string fset \<Rightarrow> string fset \<Rightarrow> reread_state \<Rightarrow> bool" where
  "reread_keys_ok A B st \<longleftrightarrow>
     (let r = re_report st; recovered = set (rr_reread_recovered_keys r); still = set (rr_still_unavailable_keys r) in
      re_pending st |\<subseteq>| A \<and> distinct (rr_reread_recovered_keys r) \<and> recovered \<subseteq> fset A
      \<and> distinct (rr_still_unavailable_keys r) \<and> fset B \<subseteq> still \<and> still \<subseteq> fset B \<union> fset A
      \<and> recovered \<inter> still = {} \<and> fset (re_pending st) \<inter> (recovered \<union> still) = {}
      \<and> (has_non_availability_result r \<or> fset A \<subseteq> fset (re_pending st) \<union> recovered \<and> still = fset B))"

text \<open>What the reread never takes back of the report it started with.\<close>

definition reread_extends :: "RecoveryStabilityReport \<Rightarrow> reread_state \<Rightarrow> bool" where
  "reread_extends r0 st \<longleftrightarrow>
     (let r = re_report st in
      rr_immediate_passed r = rr_immediate_passed r0 \<and> rr_reread_attempted_keys r = rr_reread_attempted_keys r0
      \<and> rr_classification_evidence r = rr_classification_evidence r0
      \<and> rr_final_list_warning_count r = rr_final_list_warning_count r0 \<and> rr_list_warnings r = rr_list_warnings r0
      \<and> set (rr_hash_mismatches r0) \<subseteq> set (rr_hash_mismatches r)
      \<and> set (rr_data_corruption_evidence r0) \<subseteq> set (rr_data_corruption_evidence r)
      \<and> set (rr_ambiguous_write_evidence r0) \<subseteq> set (rr_ambiguous_write_evidence r))"

text \<open>A recovered key was read back with its committed value.\<close>

definition recovered_read_back ::
  "hasher \<Rightarrow> (string, ExpectedObject \<times> AmbiguousWriteAttempt list) fmap \<Rightarrow> (string \<Rightarrow> GetObjectResult \<Rightarrow> bool)
     \<Rightarrow> reread_state \<Rightarrow> bool" where
  "recovered_read_back sha expected answered st \<longleftrightarrow>
     (\<forall>key \<in> set (rr_reread_recovered_keys (re_report st)). \<exists>object writes get.
        fmlookup expected key = Some (object, writes) \<and> answered key get \<and> committed_get_matches sha object get)"

lemma note_recovered_fields [simp]:
  "re_pending (note_recovered rd st) = re_pending st"
  "rr_reread_recovered_keys (re_report (note_recovered rd st)) = rr_reread_recovered_keys (re_report st)"
  "rr_still_unavailable_keys (re_report (note_recovered rd st)) = rr_still_unavailable_keys (re_report st)"
  "rr_hash_mismatches (re_report (note_recovered rd st)) = rr_hash_mismatches (re_report st)"
  "rr_data_corruption_evidence (re_report (note_recovered rd st)) = rr_data_corruption_evidence (re_report st)"
  "rr_ambiguous_write_evidence (re_report (note_recovered rd st)) = rr_ambiguous_write_evidence (re_report st)"
  "rr_harness_errors (re_report (note_recovered rd st)) = rr_harness_errors (re_report st)"
  "has_non_availability_result (re_report (note_recovered rd st)) = has_non_availability_result (re_report st)"
  by (simp_all add: note_recovered_def has_non_availability_result_def)

lemma reread_keys_ok_evaluate:
  assumes "reread_keys_ok A B st" and "key |\<in>| re_pending st"
  shows "reread_keys_ok A B (evaluate_recovery_reread_get sha st key object writes get)"
proof (cases "committed_get_matches sha object get")
  case True
  with assms show ?thesis
    by (auto simp: evaluate_recovery_reread_get_def reread_keys_ok_def Let_def has_non_availability_result_def)
next
  case False
  with assms show ?thesis
    by (auto simp: evaluate_recovery_reread_get_def reread_keys_ok_def Let_def has_non_availability_result_def
        split: option.splits)
qed

interpretation key_sets: reread_scan sha expected "\<lambda>_ _. True" "reread_keys_ok A B" for sha expected A B
proof
  show "\<And>st key object writes get. \<lbrakk>reread_keys_ok A B st; key |\<in>| re_pending st\<rbrakk>
      \<Longrightarrow> reread_keys_ok A B (evaluate_recovery_reread_get sha st key object writes get)"
    by (rule reread_keys_ok_evaluate)
  show "\<And>st key error. \<lbrakk>reread_keys_ok A B st; key |\<in>| re_pending st\<rbrakk>
      \<Longrightarrow> reread_keys_ok A B (reread_harness_failure st key error)"
    by (auto simp: reread_harness_failure_def reread_keys_ok_def Let_def has_non_availability_result_def)
  show "\<And>st rd. reread_keys_ok A B st \<Longrightarrow> reread_keys_ok A B (note_recovered rd st)"
    by (simp add: reread_keys_ok_def Let_def)
qed

interpretation extends: reread_scan sha expected "\<lambda>_ _. True" "reread_extends r0" for sha expected r0
  by unfold_locales
    (auto simp: reread_extends_def evaluate_recovery_reread_get_def reread_harness_failure_def note_recovered_def Let_def
      split: option.splits)

interpretation read_back: reread_scan sha expected answered "recovered_read_back sha expected answered"
  for sha expected answered
  by unfold_locales
    (auto simp: recovered_read_back_def evaluate_recovery_reread_get_def reread_harness_failure_def Let_def
      split: option.splits)

text \<open>Every key the loop asks for has an expectation, so \<open>expect("pending key")\<close> cannot fail.\<close>

lemma reread_batch_total:
  assumes "fset_of_list (map fst answers) |\<subseteq>| fmdom expected"
  shows "\<exists>out. reread_batch sha expected st answers = Inr out"
  using assms
proof (induction answers arbitrary: st)
  case (Cons a answers)
  obtain key answer where a: "a = (key, answer)" by (cases a)
  from Cons.prems a have "key |\<in>| fmdom expected" by simp
  then obtain object writes where "fmlookup expected key = Some (object, writes)" by (auto simp: fmdom_iff_lookup)
  with Cons a show ?case by (cases answer) auto
qed auto

lemma pending_batch:
  assumes "reread_batch sha expected st answers = Inr (failed, st')"
  shows "re_pending st' |\<subseteq>| re_pending st"
  using assms
proof (induction answers arbitrary: st)
  case (Cons a answers)
  obtain key answer where a: "a = (key, answer)" by (cases a)
  from Cons.prems obtain object writes where e: "fmlookup expected key = Some (object, writes)"
    by (auto simp: a split: option.splits)
  show ?case
  proof (cases answer)
    case (Inl error)
    then show ?thesis using Cons.prems e a by (auto simp: reread_harness_failure_def Let_def)
  next
    case (Inr get)
    then have "re_pending st' |\<subseteq>| re_pending (evaluate_recovery_reread_get sha st key object writes get)"
      using Cons e a by simp
    then show ?thesis using pending_evaluate [of sha st key object writes get] by auto
  qed
qed simp

lemma reread_loop_total:
  assumes "re_pending st |\<subseteq>| fmdom expected" and "rereads sha expected st rounds"
  shows "\<exists>st'. reread_loop sha expected st rounds = Inr st'"
  using assms
proof (induction rounds arbitrary: st)
  case (Cons r rounds)
  from Cons.prems have "fset_of_list (map fst (rd_answers r)) |\<subseteq>| fmdom expected"
    by (auto simp: round_answers_def)
  from reread_batch_total [OF this] obtain failed u where u: "reread_batch sha expected st (rd_answers r) = Inr (failed, u)"
    by (metis surj_pair)
  have "re_pending (note_recovered r u) |\<subseteq>| fmdom expected" using pending_batch [OF u] Cons.prems(1) by auto
  moreover have "rereads sha expected (note_recovered r u) rounds" using Cons.prems(2) u by simp
  ultimately show ?case using Cons.IH u by (auto simp: Let_def)
qed simp

subsection \<open>Evidence\<close>

lemma evidence_class [simp]:
  "from_classification_evidence (''version_hash_mismatch: '' @ x) = Some VersionHashMismatch"
  "from_classification_evidence (''missing_committed_version: '' @ x) = Some CommittedVersionMissing"
  "from_classification_evidence (''unavailable_committed_version: '' @ x) = Some CommittedVersionUnavailable"
  "from_classification_evidence (''missing_committed_delete_marker: '' @ x) = Some DeleteMarkerMissing"
  "from_classification_evidence (''resurrected_deleted_object: '' @ x) = Some DeletedObjectResurrected"
  "from_classification_evidence (''listed_key_unreadable: '' @ x) = Some ListedKeyUnreadable"
  "from_classification_evidence (''unexpected_listed_object: '' @ x) = Some UnexpectedListedObject"
  "from_classification_evidence (''committed_write_missing_version_id: '' @ x) = Some VersionIdMissingOnCommittedWrite"
  "from_classification_evidence (''committed_writes_missing_version_id_count: '' @ x) = Some VersionIdMissingOnCommittedWrite"
  "from_classification_evidence (''delete_marker_lineage_incomplete: '' @ x) = Some DeleteMarkerLineageIncomplete"
  "from_classification_evidence (''multipart_upload_lineage_incomplete: '' @ x) = Some MultipartUploadLineageIncomplete"
  by (simp_all add: from_classification_evidence_def)

definition class_evidence :: "CheckerReport \<Rightarrow> RecoveryStabilityClassification \<Rightarrow> bool" where
  "class_evidence i c = (case c of
     VersionHashMismatch \<Rightarrow> cr_version_hash_mismatches i \<noteq> []
   | CommittedVersionMissing \<Rightarrow> cr_missing_committed_versions i \<noteq> []
   | CommittedVersionUnavailable \<Rightarrow> cr_unavailable_committed_versions i \<noteq> []
   | DeleteMarkerMissing \<Rightarrow> cr_missing_committed_delete_markers i \<noteq> []
   | DeletedObjectResurrected \<Rightarrow> cr_resurrected_deleted_objects i \<noteq> [] \<or> cr_unexpected_visible_deleted_objects i \<noteq> []
   | ListedKeyUnreadable \<Rightarrow> cr_listed_keys_unreadable i \<noteq> []
   | UnexpectedListedObject \<Rightarrow> cr_unexpected_listed_objects i \<noteq> []
   | VersionIdMissingOnCommittedWrite \<Rightarrow> cr_committed_writes_missing_version_id i \<noteq> []
       \<or> cr_committed_writes_missing_version_id_count i > 0
   | DeleteMarkerLineageIncomplete \<Rightarrow> cr_delete_marker_lineage_incomplete i \<noteq> []
   | MultipartUploadLineageIncomplete \<Rightarrow> cr_multipart_upload_lineage_incomplete i \<noteq> []
   | _ \<Rightarrow> False)"

lemma missing_id_count_class:
  "evidence \<in> set (missing_id_count_evidence i) \<Longrightarrow> from_classification_evidence evidence = Some VersionIdMissingOnCommittedWrite"
  unfolding missing_id_count_evidence_def by (simp only: set_simps split: if_splits) (auto simp only: evidence_class)

lemma missing_id_count_Nil:
  "missing_id_count_evidence i = [] \<longleftrightarrow>
     cr_committed_writes_missing_version_id_count i \<le> length (cr_committed_writes_missing_version_id i)"
  by (simp add: missing_id_count_evidence_def)

lemma list_ex_const: "list_ex (\<lambda>_. b) xs \<longleftrightarrow> b \<and> xs \<noteq> []"
  by (cases xs) (auto simp: list_ex_iff)

lemma list_ex_mapped: "list_ex f (map g xs) = list_ex (\<lambda>x. f (g x)) xs"
  by (simp add: list_ex_iff)

lemma list_ex_sort_dedup: "list_ex f (sort_dedup xs) = list_ex f xs"
  by (simp add: list_ex_iff)

lemma classification_evidence_class:
  "list_ex (matches_classification_evidence c) (immediate_classification_evidence i) \<longleftrightarrow> class_evidence i c"
proof -
  have "list_ex (matches_classification_evidence c) (missing_id_count_evidence i) \<longleftrightarrow>
      VersionIdMissingOnCommittedWrite = c \<and> missing_id_count_evidence i \<noteq> []"
    using missing_id_count_class [of _ i]
    by (fastforce simp: list_ex_iff matches_classification_evidence_def neq_Nil_conv)
  then show ?thesis
    unfolding immediate_classification_evidence_def
    by (cases c)
      (simp_all only: list_ex_sort_dedup list_ex_append list_ex_mapped matches_classification_evidence_def
        evidence_class option.inject list_ex_const missing_id_count_Nil class_evidence_def
        RecoveryStabilityClassification.simps append_is_Nil_conv simp_thms de_Morgan_conj not_le, auto)
qed

lemma data_corruption_evidence_Nil:
  "immediate_data_corruption_evidence i = [] \<longleftrightarrow>
     cr_unknown_write_value_conflicts i = [] \<and> \<not> final_list_content_corruption_signal i"
  by (auto simp: immediate_data_corruption_evidence_def final_list_content_corruption_signal_def Let_def list_ex_iff
      filter_empty_conv)

lemma ambiguous_write_evidence_Nil:
  "immediate_ambiguous_write_evidence i = [] \<longleftrightarrow> cr_unknown_writes_materialized i = []"
  by (simp add: immediate_ambiguous_write_evidence_def)

text \<open>The keys of the failed committed reads.\<close>

abbreviation failure_keys :: "CommittedReadFailure list \<Rightarrow> string list" where
  "failure_keys failures \<equiv> map (the \<circ> failure_key) failures"

lemma evidence_key: "failure_evidence f = Some p \<Longrightarrow> failure_key f = Some (rf_key p)"
  by (cases f) (auto simp: failure_evidence_def failure_key_def legacy_read_failure_key_def split: if_splits)

definition tail_failure :: "CommittedReadFailure \<Rightarrow> bool" where
  "tail_failure f = (case failure_evidence f of
     None \<Rightarrow> False
   | Some p \<Rightarrow> is_recovery_tail_read_failure (rf_outcome p) (rf_http_status p) (rf_error p))"

lemma candidate_key_step_Inr:
  "candidate_key_step st f = Inr st' \<longleftrightarrow>
     (\<exists>p. failure_evidence f = Some p \<and> rf_key p |\<notin>| snd st
        \<and> st' = (if tail_failure f then finsert (rf_key p) (fst st) else fst st, finsert (rf_key p) (snd st)))"
  by (auto simp: candidate_key_step_def tail_failure_def evidence_key dest: evidence_key)

lemma candidate_fold:
  "fold_res candidate_key_step ({||}, {||}) fs = Inr (keys, observed) \<longleftrightarrow>
     (\<forall>f \<in> set fs. failure_evidence f \<noteq> None) \<and> distinct (failure_keys fs)
     \<and> keys = fset_of_list (failure_keys (filter tail_failure fs)) \<and> observed = fset_of_list (failure_keys fs)"
proof (induction fs arbitrary: keys observed rule: rev_induct)
  case Nil
  then show ?case by auto
next
  case (snoc f fs)
  show ?case
    by (auto simp: fold_res_snoc_Inr candidate_key_step_Inr snoc.IH fset_of_list_elem evidence_key)
qed

lemma recovery_candidates:
  "immediate_recovery_candidate_keys i = Inr keys \<longleftrightarrow>
     (\<forall>f \<in> set (committed_read_failures i). failure_evidence f \<noteq> None)
     \<and> distinct (failure_keys (committed_read_failures i))
     \<and> keys = fset_of_list (failure_keys (filter tail_failure (committed_read_failures i)))"
  unfolding immediate_recovery_candidate_keys_def res_bind_Inr split_paired_Ex candidate_fold by auto

lemma fcard_map_le: "fcard (fset_of_list (map g xs)) \<le> length xs"
  using card_length [of "map g xs"] by (simp add: fcard.rep_eq fset_of_list.rep_eq)

lemma tail_candidates_all:
  assumes "immediate_recovery_tail_candidate_keys i = Some keys"
  shows "\<forall>f \<in> set (committed_read_failures i). tail_failure f \<and> failure_key f = Some (the (failure_key f))"
    and "keys = fset_of_list (failure_keys (committed_read_failures i))"
proof -
  let ?fs = "committed_read_failures i"
  from assms have k: "immediate_recovery_candidate_keys i = Inr keys" and c: "fcard keys = length ?fs"
    by (auto simp: immediate_recovery_tail_candidate_keys_def split: sum.splits if_splits)
  from k have e: "\<forall>f \<in> set ?fs. failure_evidence f \<noteq> None"
    and keys: "keys = fset_of_list (failure_keys (filter tail_failure ?fs))"
    unfolding recovery_candidates by blast+
  have "fcard keys \<le> length (filter tail_failure ?fs)"
    unfolding keys by (rule fcard_map_le)
  with c have "filter tail_failure ?fs = ?fs"
    by (metis filter_id_conv le_antisym length_filter_le length_filter_less nat_less_le)
  then have all: "\<forall>f \<in> set ?fs. tail_failure f" and same: "keys = fset_of_list (failure_keys ?fs)"
    using keys by (simp only: filter_id_conv, metis)
  show "\<forall>f \<in> set ?fs. tail_failure f \<and> failure_key f = Some (the (failure_key f))"
  proof
    fix f assume f: "f \<in> set ?fs"
    with e obtain p where "failure_evidence f = Some p" by blast
    then show "tail_failure f \<and> failure_key f = Some (the (failure_key f))" using all f by (simp add: evidence_key)
  qed
  show "keys = fset_of_list (failure_keys ?fs)" by (rule same)
qed

lemma still_unavailable_fold:
  "fold_res (still_unavailable_step attempted) (M, M) fs = Inr (keys, observed) \<longleftrightarrow>
     (\<forall>f \<in> set fs. failure_key f \<noteq> None) \<and> distinct (failure_keys fs)
     \<and> set (failure_keys fs) \<inter> fset M = {}
     \<and> keys = M |\<union>| (fset_of_list (failure_keys fs) |-| attempted) \<and> observed = M |\<union>| fset_of_list (failure_keys fs)"
proof (induction fs arbitrary: keys observed rule: rev_induct)
  case Nil
  then show ?case by auto
next
  case (snoc f fs)
  show ?case
  proof (cases "failure_key f")
    case None
    then show ?thesis by (simp add: fold_res_snoc_Inr still_unavailable_step_def)
  next
    case (Some k)
    let ?F = "fset_of_list (failure_keys fs)"
    have step: "still_unavailable_step attempted (K, Ob) f = Inr (keys, observed) \<longleftrightarrow>
        k |\<notin>| Ob \<and> keys = (if k |\<in>| attempted then K else finsert k K) \<and> observed = finsert k Ob" for K Ob
      by (auto simp: still_unavailable_step_def Some)
    have known: "(\<forall>g \<in> set (fs @ [f]). failure_key g \<noteq> None) \<longleftrightarrow> (\<forall>g \<in> set fs. failure_key g \<noteq> None)"
      using Some by simp
    have fresh: "distinct (failure_keys (fs @ [f])) \<longleftrightarrow> distinct (failure_keys fs) \<and> k |\<notin>| ?F"
      using Some by (auto simp: fset_of_list_elem)
    have apart: "set (failure_keys (fs @ [f])) \<inter> fset M = {} \<longleftrightarrow> set (failure_keys fs) \<inter> fset M = {} \<and> k |\<notin>| M"
      using Some by auto
    have kept: "M |\<union>| (fset_of_list (failure_keys (fs @ [f])) |-| attempted) =
        (if k |\<in>| attempted then M |\<union>| (?F |-| attempted) else finsert k (M |\<union>| (?F |-| attempted)))"
      using Some by auto
    have seen: "M |\<union>| fset_of_list (failure_keys (fs @ [f])) = finsert k (M |\<union>| ?F)" using Some by simp
    show ?thesis
      unfolding fold_res_snoc_Inr split_paired_Ex snoc.IH step known fresh apart kept seen funion_iff by blast
  qed
qed

lemma still_unavailable_keys_Inr:
  "immediate_still_unavailable_keys i attempted = Inr keys \<longleftrightarrow>
     distinct (cr_missing_committed_objects i)
     \<and> (\<forall>f \<in> set (committed_read_failures i). failure_key f \<noteq> None)
     \<and> distinct (failure_keys (committed_read_failures i))
     \<and> set (failure_keys (committed_read_failures i)) \<inter> set (cr_missing_committed_objects i) = {}
     \<and> keys = sorted_list_of_set (set (cr_missing_committed_objects i)
          \<union> (set (failure_keys (committed_read_failures i)) - set attempted)
          \<union> set (map (\<lambda>item. ''version:'' @ item) (cr_unavailable_committed_versions i)))"
  unfolding immediate_still_unavailable_keys_def Let_def ensure_Inr res_bind_Inr split_paired_Ex still_unavailable_fold
  by (auto simp add: fcard.rep_eq fset_of_list.rep_eq distinct_card card_distinct sorted_list_of_fset.rep_eq)

subsection \<open>A run of the reread\<close>

lemma lookup_expectations:
  "fmlookup (reread_expectations model keys) k =
     (if k \<in> set keys then map_option (\<lambda>e. (e, unknown_writes_of model k)) (fmlookup (om_live model) k) else None)"
  unfolding reread_expectations_def fmlookup_of_list
  by (induction keys) (auto simp: List.map_filter_simps split: option.splits)

lemma candidates_live: "set (recovery_tail_candidate_keys rs model) \<subseteq> fset (fmdom (om_live model))"
  by (auto simp: recovery_tail_candidate_keys_def List.map_filter_def tail_candidate_def fset_of_list_elem
      split: bind_splits if_splits)

lemma sorted_candidates [simp]:
  "sorted (recovery_tail_candidate_keys rs model)" "distinct (recovery_tail_candidate_keys rs model)"
  by (simp_all add: recovery_tail_candidate_keys_def sorted_list_of_fset.rep_eq)

lemma expectations_dom:
  "fmdom (reread_expectations model (recovery_tail_candidate_keys rs model)) =
     fset_of_list (recovery_tail_candidate_keys rs model)"
  using candidates_live [of rs model]
  by (auto simp: fmdom_iff_lookup lookup_expectations fset_of_list_elem subset_iff split: if_splits)

lemma key_sets_consistent_iff:
  "recovery_key_sets_are_consistent r \<longleftrightarrow>
     distinct (rr_reread_attempted_keys r) \<and> distinct (rr_reread_recovered_keys r)
     \<and> distinct (rr_still_unavailable_keys r) \<and> set (rr_reread_recovered_keys r) \<subseteq> set (rr_reread_attempted_keys r)
     \<and> set (rr_reread_recovered_keys r) \<inter> set (rr_still_unavailable_keys r) = {}
     \<and> (has_non_availability_result r
        \<or> set (rr_reread_attempted_keys r) - set (rr_reread_recovered_keys r) \<subseteq> set (rr_still_unavailable_keys r))"
proof -
  have card: "fcard (fset_of_list xs) = length xs \<longleftrightarrow> distinct xs" for xs :: "string list"
    by (auto simp: fcard.rep_eq fset_of_list.rep_eq distinct_card card_distinct)
  have sub: "fset_of_list xs |\<subseteq>| fset_of_list ys \<longleftrightarrow> set xs \<subseteq> set ys"
    "fset_of_list xs |-| fset_of_list ys |\<subseteq>| fset_of_list zs \<longleftrightarrow> set xs - set ys \<subseteq> set zs"
    "fset_of_list xs |\<inter>| fset_of_list ys = {||} \<longleftrightarrow> set xs \<inter> set ys = {}" for xs ys zs :: "string list"
    by (simp_all add: less_eq_fset.rep_eq fset_of_list.rep_eq fset_inject [symmetric])
  show ?thesis unfolding recovery_key_sets_are_consistent_def Let_def card sub by metis
qed

text \<open>What the runtime promises of a whole reread.\<close>

abbreviation checked_model :: "OperationRecord list \<Rightarrow> nat \<Rightarrow> ObjectModel" where
  "checked_model records start \<equiv> object_model (take start records)"

abbreviation reread_keys :: "OperationRecord list \<Rightarrow> nat \<Rightarrow> string list" where
  "reread_keys records start \<equiv> recovery_tail_candidate_keys (drop start records) (checked_model records start)"

definition reread_rounds ::
  "hasher \<Rightarrow> OperationRecord list \<Rightarrow> CheckerReport \<Rightarrow> nat \<Rightarrow> nat \<Rightarrow> RereadRound list \<Rightarrow> bool" where
  "reread_rounds sha records i start max_recovery rounds \<longleftrightarrow>
     (case immediate_still_unavailable_keys i (reread_keys records start) of
        Inl _ \<Rightarrow> True
      | Inr still \<Rightarrow>
          rereads sha (reread_expectations (checked_model records start) (reread_keys records start))
            \<lparr>re_report = initial_recovery_report i (reread_keys records start) still max_recovery,
             re_pending = fset_of_list (reread_keys records start)\<rparr> rounds)"

definition answered_in :: "RereadRound list \<Rightarrow> string \<Rightarrow> GetObjectResult \<Rightarrow> bool" where
  "answered_in rounds key get \<longleftrightarrow> (\<exists>round' \<in> set rounds. (key, Inr get) \<in> set (rd_answers round'))"

lemma reread_cases:
  assumes "recovery_stability_reread sha records i start max_recovery rounds = Inr R"
    and "reread_rounds sha records i start max_recovery rounds"
  obtains (skipped) still where
      "cr_passed i \<or> reread_keys records start = [] \<or> max_recovery = 0"
      "immediate_still_unavailable_keys i (reread_keys records start) = Inr still"
      "R = finish_recovery_stability_report (initial_recovery_report i (reread_keys records start) still max_recovery) i"
  | (reread) still st where
      "immediate_still_unavailable_keys i (reread_keys records start) = Inr still"
      "R = finish_recovery_stability_report (settle_recovery_report st) i"
      "reread_extends (initial_recovery_report i (reread_keys records start) still max_recovery) st"
      "recovered_read_back sha (reread_expectations (checked_model records start) (reread_keys records start))
         (answered_in rounds) st"
      "set still \<inter> set (reread_keys records start) = {} \<Longrightarrow>
         reread_keys_ok (fset_of_list (reread_keys records start)) (fset_of_list still) st"
proof -
  let ?keys = "reread_keys records start"
  let ?expected = "reread_expectations (checked_model records start) ?keys"
  from assms(1) obtain still where still: "immediate_still_unavailable_keys i ?keys = Inr still"
    unfolding recovery_stability_reread_def Let_def res_bind_Inr by blast
  let ?r0 = "initial_recovery_report i ?keys still max_recovery"
  let ?st0 = "\<lparr>re_report = ?r0, re_pending = fset_of_list ?keys\<rparr>"
  show thesis
  proof (cases "cr_passed i \<or> ?keys = [] \<or> max_recovery = 0")
    case True
    then have "R = finish_recovery_stability_report ?r0 i"
      using assms(1) still unfolding recovery_stability_reread_def Let_def by auto
    with True still show thesis by (intro skipped)
  next
    case False
    with assms(1) still obtain st where st: "reread_loop sha ?expected ?st0 rounds = Inr st"
      and R: "R = finish_recovery_stability_report (settle_recovery_report st) i"
      unfolding recovery_stability_reread_def Let_def expectations_dom by (auto split: sum.splits)
    from assms(2) still have rd: "rereads sha ?expected ?st0 rounds" by (simp add: reread_rounds_def)
    show thesis
    proof (rule reread [OF still R])
      show "reread_extends ?r0 st"
        by (rule extends.loop [OF _ st rd]) (simp_all add: reread_extends_def)
      show "recovered_read_back sha ?expected (answered_in rounds) st"
        by (rule read_back.loop [OF _ st rd])
          (auto simp: recovered_read_back_def initial_recovery_report_def answered_in_def)
      show "reread_keys_ok (fset_of_list ?keys) (fset_of_list still) st" if "set still \<inter> set ?keys = {}"
        by (rule key_sets.loop [OF _ st rd])
          (use that still in \<open>auto simp: reread_keys_ok_def initial_recovery_report_def fset_of_list.rep_eq Let_def
             still_unavailable_keys_Inr\<close>)
    qed
  qed
qed

subsection \<open>Verdicts of the reread\<close>

lemma lineage_class_cases:
  "lineage_evidence_class r = Some c \<Longrightarrow>
     c \<in> {DeleteMarkerLineageIncomplete, MultipartUploadLineageIncomplete, VersionIdMissingOnCommittedWrite}"
  by (auto simp: lineage_evidence_class_def split: if_splits)

lemma classify_without_reread_not_tail: "classify_without_reread i \<noteq> RecoveryTailReadLatency"
  by (simp add: classify_without_reread_def)

lemma classify_tail:
  assumes "classify_recovery_stability r i = RecoveryTailReadLatency"
  shows "rr_hash_mismatches r = []" "rr_data_corruption_evidence r = []" "rr_harness_errors r = []"
    "rr_still_unavailable_keys r = []" "rr_ambiguous_write_evidence r = []" "lineage_evidence_class r = None"
    "rr_reread_attempted_keys r \<noteq> []" "immediate_failures_are_only_reread_candidates i r"
  using assms lineage_class_cases [of r] classify_without_reread_not_tail [of i]
  by (auto simp: classify_recovery_stability_def Let_def failure_classification_def split: if_splits option.splits)

lemma finish_fields [simp]:
  "rr_reread_attempted_keys (finish_recovery_stability_report r i) = rr_reread_attempted_keys r"
  "rr_reread_recovered_keys (finish_recovery_stability_report r i) = rr_reread_recovered_keys r"
  "rr_still_unavailable_keys (finish_recovery_stability_report r i) = rr_still_unavailable_keys r"
  "rr_hash_mismatches (finish_recovery_stability_report r i) = rr_hash_mismatches r"
  "rr_data_corruption_evidence (finish_recovery_stability_report r i) = rr_data_corruption_evidence r"
  "rr_classification_evidence (finish_recovery_stability_report r i) = rr_classification_evidence r"
  "rr_ambiguous_write_evidence (finish_recovery_stability_report r i) = rr_ambiguous_write_evidence r"
  "rr_harness_errors (finish_recovery_stability_report r i) = rr_harness_errors r"
  "rr_immediate_passed (finish_recovery_stability_report r i) = rr_immediate_passed r"
  "rr_final_list_warning_count (finish_recovery_stability_report r i) = rr_final_list_warning_count r"
  "rr_list_warnings (finish_recovery_stability_report r i) = rr_list_warnings r"
  "rr_recovered_within_seconds (finish_recovery_stability_report r i) = rr_recovered_within_seconds r"
  "rr_classification (finish_recovery_stability_report r i) = classify_recovery_stability r i"
  by (simp_all add: finish_recovery_stability_report_def)

lemma finish_consistent [simp]:
  "recovery_key_sets_are_consistent (finish_recovery_stability_report r i) = recovery_key_sets_are_consistent r"
  "has_non_availability_result (finish_recovery_stability_report r i) = has_non_availability_result r"
  "lineage_evidence_class (finish_recovery_stability_report r i) = lineage_evidence_class r"
  by (simp_all add: key_sets_consistent_iff has_non_availability_result_def lineage_evidence_class_def)

lemma finish_only_candidates [simp]:
  "immediate_failures_are_only_reread_candidates j (finish_recovery_stability_report r i) =
     immediate_failures_are_only_reread_candidates j r"
  unfolding immediate_failures_are_only_reread_candidates_def finish_fields finish_consistent ..

lemma classify_finished [simp]:
  "classify_recovery_stability (finish_recovery_stability_report r i) j = classify_recovery_stability r j"
  unfolding classify_recovery_stability_def finish_fields finish_consistent finish_only_candidates ..

lemma only_candidates_recovered:
  assumes "immediate_failures_are_only_reread_candidates i r"
  shows "set (failure_keys (committed_read_failures i)) = set (rr_reread_recovered_keys r)"
    and "rr_reread_recovered_keys r \<noteq> []"
    and "\<forall>f \<in> set (committed_read_failures i). failure_key f = Some (the (failure_key f))"
    and "cr_missing_committed_objects i = []"
    and "\<not> final_list_content_corruption_signal i \<Longrightarrow> \<not> correctness_evidence i"
proof -
  from assms obtain keys where k: "immediate_recovery_tail_candidate_keys i = Some keys"
    and r: "keys = fset_of_list (rr_reread_recovered_keys r)" and "keys \<noteq> {||}"
    by (auto simp: immediate_failures_are_only_reread_candidates_def Let_def split: option.splits)
  then show "set (failure_keys (committed_read_failures i)) = set (rr_reread_recovered_keys r)"
    and "rr_reread_recovered_keys r \<noteq> []"
    using tail_candidates_all(2) [OF k] by (metis fset_of_list.rep_eq, auto)
  show "\<forall>f \<in> set (committed_read_failures i). failure_key f = Some (the (failure_key f))"
    using tail_candidates_all(1) [OF k] by blast
  from assms show "cr_missing_committed_objects i = []"
    and "\<not> final_list_content_corruption_signal i \<Longrightarrow> \<not> correctness_evidence i"
    by (simp_all add: immediate_failures_are_only_reread_candidates_def Let_def correctness_evidence_def
        has_data_corruption_signal_def split: option.splits)
qed

text \<open>
  C11: A run is excused as recovery tail latency only when it deserves it. If the reread
  classifies the run as \<open>RecoveryTailReadLatency\<close>, the check found no missing object and no correctness
  evidence, and every committed read that had failed was answered in some round of the reread
  with exactly the committed value of its key.
\<close>

theorem recovery_tail_verdict_justified:
  assumes "recovery_stability_reread sha records i start max_recovery rounds = Inr R"
    and "reread_rounds sha records i start max_recovery rounds"
    and "rr_classification R = RecoveryTailReadLatency"
  shows "cr_missing_committed_objects i = [] \<and> \<not> correctness_evidence i \<and>
    (\<forall>f \<in> set (committed_read_failures i). \<exists>key e get.
       failure_key f = Some key \<and> fmlookup (om_live (object_model (take start records))) key = Some e \<and>
       answered_in rounds key get \<and> committed_get_matches sha e get)"
  using assms(1,2)
proof (cases rule: reread_cases)
  case (skipped still)
  with assms(3) have "immediate_failures_are_only_reread_candidates i R"
    by (simp add: classify_tail(8))
  then show ?thesis using only_candidates_recovered(2) skipped(3) by (fastforce simp: initial_recovery_report_def)
next
  case (reread still st)
  let ?r = "settle_recovery_report st"
  from assms(3) reread(2) have c: "classify_recovery_stability ?r i = RecoveryTailReadLatency" by simp
  note tail = classify_tail [OF c]
  note only = only_candidates_recovered [OF tail(8)]
  have "\<not> final_list_content_corruption_signal i"
    using tail(2) reread(3)
    by (simp add: settle_recovery_report_def Let_def reread_extends_def initial_recovery_report_def
        data_corruption_evidence_Nil)
  moreover have "\<exists>key e get. failure_key f = Some key \<and> fmlookup (om_live (checked_model records start)) key = Some e \<and>
      answered_in rounds key get \<and> committed_get_matches sha e get" if "f \<in> set (committed_read_failures i)" for f
  proof -
    from only(1) that have "the (failure_key f) \<in> set (rr_reread_recovered_keys (re_report st))"
      by (force simp: settle_recovery_report_def Let_def)
    with reread(4) obtain e writes get where
      "fmlookup (reread_expectations (checked_model records start) (reread_keys records start)) (the (failure_key f))
         = Some (e, writes)"
      "answered_in rounds (the (failure_key f)) get" "committed_get_matches sha e get"
      unfolding recovered_read_back_def by blast
    then show ?thesis using only(3) that by (auto simp: lookup_expectations split: if_splits)
  qed
  ultimately show ?thesis using only(4,5) by blast
qed

lemma settle_fields [simp]:
  "set (rr_hash_mismatches (settle_recovery_report st)) = set (rr_hash_mismatches (re_report st))"
  "set (rr_data_corruption_evidence (settle_recovery_report st)) = set (rr_data_corruption_evidence (re_report st))"
  "set (rr_ambiguous_write_evidence (settle_recovery_report st)) = set (rr_ambiguous_write_evidence (re_report st))"
  "rr_classification_evidence (settle_recovery_report st) = rr_classification_evidence (re_report st)"
  "rr_reread_attempted_keys (settle_recovery_report st) = rr_reread_attempted_keys (re_report st)"
  "rr_reread_recovered_keys (settle_recovery_report st) = sort (rr_reread_recovered_keys (re_report st))"
  "rr_still_unavailable_keys (settle_recovery_report st) =
     sort (rr_still_unavailable_keys (re_report st) @ sorted_list_of_fset (re_pending st))"
  "rr_immediate_passed (settle_recovery_report st) = rr_immediate_passed (re_report st)"
  "rr_final_list_warning_count (settle_recovery_report st) = rr_final_list_warning_count (re_report st)"
  "rr_list_warnings (settle_recovery_report st) = sort_dedup (rr_list_warnings (re_report st))"
  "rr_recovered_within_seconds (settle_recovery_report st) = rr_recovered_within_seconds (re_report st)"
  "has_non_availability_result (settle_recovery_report st) = has_non_availability_result (re_report st)"
  by (simp_all add: settle_recovery_report_def Let_def has_non_availability_result_def)

text \<open>The evidence of the check that a reread report carries on, whatever the reread saw.\<close>

lemma reread_evidence:
  assumes "recovery_stability_reread sha records i start max_recovery rounds = Inr R"
    and "reread_rounds sha records i start max_recovery rounds"
  shows "rr_classification R = classify_recovery_stability R i"
    and "rr_reread_attempted_keys R = reread_keys records start"
    and "rr_immediate_passed R = cr_passed i"
    and "rr_final_list_warning_count R = cr_final_list_warning_count i"
    and "rr_classification_evidence R = immediate_classification_evidence i"
    and "set (cr_hash_mismatches i) \<union> set (cr_successful_corrupted_reads i) \<subseteq> set (rr_hash_mismatches R)"
    and "set (immediate_data_corruption_evidence i) \<subseteq> set (rr_data_corruption_evidence R)"
    and "set (immediate_ambiguous_write_evidence i) \<subseteq> set (rr_ambiguous_write_evidence R)"
proof -
  have "rr_classification R = classify_recovery_stability R i
    \<and> rr_reread_attempted_keys R = reread_keys records start
    \<and> rr_immediate_passed R = cr_passed i
    \<and> rr_final_list_warning_count R = cr_final_list_warning_count i
    \<and> rr_classification_evidence R = immediate_classification_evidence i
    \<and> set (cr_hash_mismatches i) \<union> set (cr_successful_corrupted_reads i) \<subseteq> set (rr_hash_mismatches R)
    \<and> set (immediate_data_corruption_evidence i) \<subseteq> set (rr_data_corruption_evidence R)
    \<and> set (immediate_ambiguous_write_evidence i) \<subseteq> set (rr_ambiguous_write_evidence R)"
    using assms
  proof (cases rule: reread_cases)
    case (skipped still)
    then show ?thesis by (simp add: initial_recovery_report_def)
  next
    case (reread still st)
    then show ?thesis by (simp add: reread_extends_def Let_def initial_recovery_report_def)
  qed
  then show "rr_classification R = classify_recovery_stability R i"
    and "rr_reread_attempted_keys R = reread_keys records start"
    and "rr_immediate_passed R = cr_passed i"
    and "rr_final_list_warning_count R = cr_final_list_warning_count i"
    and "rr_classification_evidence R = immediate_classification_evidence i"
    and "set (cr_hash_mismatches i) \<union> set (cr_successful_corrupted_reads i) \<subseteq> set (rr_hash_mismatches R)"
    and "set (immediate_data_corruption_evidence i) \<subseteq> set (rr_data_corruption_evidence R)"
    and "set (immediate_ambiguous_write_evidence i) \<subseteq> set (rr_ambiguous_write_evidence R)"
    by blast+
qed

lemma data_corruption_kept:
  assumes "recovery_stability_reread sha records i start max_recovery rounds = Inr R"
    and "reread_rounds sha records i start max_recovery rounds" and "has_data_corruption_signal i"
  shows "rr_hash_mismatches R \<noteq> [] \<or> rr_data_corruption_evidence R \<noteq> []"
  using reread_evidence(6,7) [OF assms(1,2)] assms(3) data_corruption_evidence_Nil [of i]
  by (auto simp: has_data_corruption_signal_def)

lemma classified_evidence:
  assumes "failure_classification i = c" and "class_evidence i c"
  shows "immediate_classification_evidence i \<noteq> []"
  using assms classification_evidence_class [of c i] by (auto simp: list_ex_iff)

lemma precise_class_evidence:
  "failure_classification i = c \<Longrightarrow>
     c \<in> {VersionHashMismatch, CommittedVersionMissing, CommittedVersionUnavailable, DeleteMarkerMissing,
           DeletedObjectResurrected, ListedKeyUnreadable, UnexpectedListedObject, DeleteMarkerLineageIncomplete,
           MultipartUploadLineageIncomplete, VersionIdMissingOnCommittedWrite} \<Longrightarrow> class_evidence i c"
  by (auto simp: failure_classification_def classify_without_reread_def class_evidence_def split: if_splits)

lemma only_candidates_listed:
  assumes "immediate_failures_are_only_reread_candidates i r"
  shows "classify_without_reread i \<notin> {ListedKeyUnreadable, UnexpectedListedObject}"
proof -
  from assms have "cr_listed_keys_unreadable i = []" "cr_unexpected_listed_objects i = []"
    by (simp_all add: immediate_failures_are_only_reread_candidates_def Let_def split: option.splits)
  then show ?thesis by (simp add: classify_without_reread_def)
qed

lemma correctness_class:
  "severity (of_recovery_classification c) = FailCorrectness \<longleftrightarrow>
     c \<in> {CommittedVersionMissing, VersionHashMismatch, DeleteMarkerMissing, DeletedObjectResurrected}
     \<or> c = DataCorruption \<or> c \<in> {ListedKeyUnreadable, UnexpectedListedObject}"
  by (cases c) simp_all

text \<open>
  C33: When the reread reports a correctness failure. It does for every hash mismatch and every value
  conflict, and for a check that was classified as a missing version, a version hash mismatch,
  a missing delete marker or a resurrected object. A check classified as an unreadable or unexplained
  listed key, a correctness failure too, is reported as such only when the reread left no key
  unavailable, saw no client error and no ambiguous write, and the check has no LIST or lineage
  evidence; otherwise the verdict drops to an availability or harness failure.
\<close>

theorem reread_correctness_exact:
  assumes "recovery_stability_reread sha records i start max_recovery rounds = Inr R"
    and "reread_rounds sha records i start max_recovery rounds"
  shows "severity (of_recovery_classification (rr_classification R)) = FailCorrectness \<longleftrightarrow>
    rr_hash_mismatches R \<noteq> [] \<or> rr_data_corruption_evidence R \<noteq> [] \<or>
    failure_classification i \<in> {CommittedVersionMissing, VersionHashMismatch, DeleteMarkerMissing, DeletedObjectResurrected} \<or>
    failure_classification i \<in> {ListedKeyUnreadable, UnexpectedListedObject} \<and> rr_harness_errors R = [] \<and>
    rr_still_unavailable_keys R = [] \<and> rr_ambiguous_write_evidence R = [] \<and>
    \<not> has_list_unavailable_or_unknown_signal i \<and> lineage_evidence_class R = None"
proof -
  note ev = reread_evidence [OF assms]
  have dc: "failure_classification i = DataCorruption \<Longrightarrow> rr_hash_mismatches R \<noteq> [] \<or> rr_data_corruption_evidence R \<noteq> []"
    by (rule data_corruption_kept [OF assms])
      (auto simp: failure_classification_def classify_without_reread_def split: if_splits)
  have ne: "failure_classification i \<in> {CommittedVersionMissing, VersionHashMismatch, DeleteMarkerMissing,
      DeletedObjectResurrected, CommittedVersionUnavailable} \<Longrightarrow> rr_classification_evidence R \<noteq> []"
    unfolding ev(5) by (rule classified_evidence [OF refl], rule precise_class_evidence [OF refl]) auto
  show ?thesis
  proof (cases "failure_classification i \<in> {CommittedVersionMissing, VersionHashMismatch, DeleteMarkerMissing,
      DeletedObjectResurrected}")
    case True
    then have "rr_classification R = failure_classification i"
      using ne unfolding ev(1) classify_recovery_stability_def Let_def by auto
    with True show ?thesis by (simp add: correctness_class)
  next
    case False
    note x = this
    show ?thesis
    proof (cases "lineage_evidence_class R")
      case None
      then show ?thesis
        unfolding correctness_class ev(1) classify_recovery_stability_def Let_def
        using x dc only_candidates_listed [of i R] by (auto simp: failure_classification_def)
    next
      case (Some c)
      then show ?thesis
        unfolding correctness_class ev(1) classify_recovery_stability_def Let_def
        using x lineage_class_cases [OF Some] by auto
    qed
  qed
qed

end
