(* ===== verification/Checker_Soundness.thy ===== *)
theory Checker_Soundness
  imports Checker_Run
begin

text \<open>
  What a passing report of \<open>check_s3_history\<close> (theory \<open>Checker_Run\<close>) means for
  the store that was observed: every committed object and version was read back,
  nothing deleted came back, the listing is complete and explained.

  The phases share one contract, the locale \<open>report_scan\<close>: a step only adds
  evidence, so a report that ends quiet was quiet all along and every single
  observation was a good one.
\<close>

subsection \<open>Quiet reports\<close>

text \<open>None of the evidence lists that fail a report has an entry.\<close>

definition quiet :: "CheckerReport \<Rightarrow> bool" where
  "quiet r \<longleftrightarrow>
     cr_missing_committed_objects r = [] \<and> cr_unavailable_committed_objects r = [] \<and>
     cr_unknown_committed_read_failures r = [] \<and> cr_hash_mismatches r = [] \<and>
     cr_successful_corrupted_reads r = [] \<and> cr_unexpected_visible_deleted_objects r = [] \<and>
     cr_unknown_write_value_conflicts r = [] \<and> cr_missing_committed_versions r = [] \<and>
     cr_unavailable_committed_versions r = [] \<and> cr_version_hash_mismatches r = [] \<and>
     cr_resurrected_deleted_objects r = [] \<and> cr_listed_keys_unreadable r = [] \<and>
     cr_unexpected_listed_objects r = [] \<and> cr_delete_marker_lineage_incomplete r = [] \<and>
     cr_multipart_upload_lineage_incomplete r = []"

lemma success_quiet: "success_predicate r \<Longrightarrow> quiet r"
  by (simp add: success_predicate_def quiet_def Let_def)

lemma quiet_sort_report [simp]: "quiet (sort_report r) \<longleftrightarrow> quiet r"
  by (simp add: quiet_def sort_report_def)

text \<open>The counters of live objects, which only the reads of live keys change.\<close>

definition live_count :: "CheckerReport \<Rightarrow> nat \<times> nat \<times> string list" where
  "live_count r = (cr_expected_live_objects r, cr_verified_live_objects r, cr_tolerated_ambiguous_deletes r)"

text \<open>The same with the fields that the version phase sets once.\<close>

definition frame :: "CheckerReport \<Rightarrow> (nat \<times> nat \<times> string list) \<times> nat \<times> string list" where
  "frame r = (live_count r, cr_committed_writes_missing_version_id_count r, cr_missing_committed_delete_markers r)"

subsection \<open>Scans that only add evidence\<close>

locale report_scan =
  fixes step :: "'s \<Rightarrow> 'a \<Rightarrow> 'e + 's"
    and quiet_at :: "'s \<Rightarrow> bool"
    and good :: "'a \<Rightarrow> bool"
    and count_at :: "'s \<Rightarrow> 'c"
  assumes step_quiet: "step s x = Inr t \<Longrightarrow> quiet_at t \<longleftrightarrow> quiet_at s \<and> good x"
    and step_count: "step s x = Inr t \<Longrightarrow> count_at t = count_at s"
begin

lemma scan_quiet: "fold_res step s xs = Inr t \<Longrightarrow> quiet_at t \<longleftrightarrow> quiet_at s \<and> (\<forall>x \<in> set xs. good x)"
proof (induction xs arbitrary: t rule: rev_induct)
  case Nil
  then show ?case by simp
next
  case (snoc x xs)
  then obtain u where "fold_res step s xs = Inr u" "step u x = Inr t" by (auto simp: fold_res_snoc_Inr)
  with snoc.IH [of u] step_quiet [of u x t] show ?case by auto
qed

lemma scan_count: "fold_res step s xs = Inr t \<Longrightarrow> count_at t = count_at s"
  by (rule fold_res_invariant [where P = "\<lambda>t. count_at t = count_at s"]) (auto dest: step_count)

end

subsection \<open>Reads of live and ambiguous keys\<close>

text \<open>The body is the committed value or that of an ambiguous write still active.\<close>

definition explains_body :: "hasher \<Rightarrow> ExpectedObject option \<Rightarrow> AmbiguousWriteAttempt list \<Rightarrow> bytes \<Rightarrow> bool" where
  "explains_body sha expected attempts body \<longleftrightarrow>
     (case expected of None \<Rightarrow> False | Some e \<Rightarrow> object_matches sha e body) \<or>
     (\<exists>a \<in> set attempts. aw_superseded_by a = None \<and> object_matches sha (aw_object a) body)"

lemma matching_active_Some:
  "(\<exists>a. matching_active_ambiguous_write sha attempts body = Some a) \<longleftrightarrow>
     (\<exists>a \<in> set attempts. aw_superseded_by a = None \<and> object_matches sha (aw_object a) body)"
proof -
  have "matching_active_ambiguous_write sha attempts body = None \<longleftrightarrow>
      \<not> (\<exists>a \<in> set attempts. aw_superseded_by a = None \<and> object_matches sha (aw_object a) body)"
    by (auto simp: matching_active_ambiguous_write_def find_None_iff)
  then show ?thesis by auto
qed

definition read_accepted ::
  "hasher \<Rightarrow> ExpectedObject option \<Rightarrow> AmbiguousWriteAttempt list \<Rightarrow> GetObjectResult \<Rightarrow> bool" where
  "read_accepted sha expected attempts get \<longleftrightarrow>
     (if gr_outcome get = Ok \<and> gr_body get \<noteq> None
      then explains_body sha expected attempts (the (gr_body get)) \<or> (expected = None \<and> attempts = [])
      else expected = None)"

lemma matching_superseded_Nil [simp]: "matching_superseded_ambiguous_write sha [] body = None"
  by (simp add: matching_superseded_ambiguous_write_def)

lemma quiet_record_preserved:
  "object_matches sha e body \<Longrightarrow>
   quiet (record_preserved_committed sha r key (Some e) attempts body) = quiet r"
  by (simp add: record_preserved_committed_def object_matches_def quiet_def)

lemma explains_active:
  "matching_active_ambiguous_write sha attempts body = Some a \<Longrightarrow> explains_body sha expected attempts body"
  using matching_active_Some [of sha attempts body] by (auto simp: explains_body_def)

lemma not_explains:
  "matching_active_ambiguous_write sha attempts body = None \<Longrightarrow>
   \<not> (case expected of None \<Rightarrow> False | Some e \<Rightarrow> object_matches sha e body) \<Longrightarrow>
   \<not> explains_body sha expected attempts body"
  using matching_active_Some [of sha attempts body] by (simp add: explains_body_def)

lemma quiet_evaluate_final_get:
  "quiet (evaluate_final_get sha r key expected attempts get) \<longleftrightarrow>
     quiet r \<and> read_accepted sha expected attempts get"
proof (cases "gr_outcome get = Ok \<and> gr_body get \<noteq> None")
  case True
  then obtain body where b: "gr_outcome get = Ok" "gr_body get = Some body" by auto
  show ?thesis
  proof (cases "\<exists>e. expected = Some e \<and> object_matches sha e body")
    case True
    with b show ?thesis
      by (auto simp: evaluate_final_get_def read_accepted_def explains_body_def quiet_record_preserved)
        (auto simp: quiet_def)
  next
    case nm: False
    show ?thesis
    proof (cases "matching_active_ambiguous_write sha attempts body")
      case None
      from nm None have "\<not> explains_body sha expected attempts body"
        by (intro not_explains) (auto split: option.split)
      with b nm None show ?thesis
        by (auto simp: evaluate_final_get_def read_accepted_def quiet_def split: option.split)
    next
      case (Some a)
      with b nm explains_active [OF Some, of expected] show ?thesis
        by (auto simp: evaluate_final_get_def read_accepted_def quiet_def Let_def split: option.split)
    qed
  qed
next
  case False
  then show ?thesis
    by (cases "gr_outcome get"; cases "gr_body get")
      (simp_all add: evaluate_final_get_def read_accepted_def quiet_def)
qed


lemma record_preserved_count [simp]: "live_count (record_preserved_committed sha r key e attempts body) = live_count r"
  by (simp add: record_preserved_committed_def live_count_def split: option.split)

lemma evaluate_final_get_count:
  assumes "read_accepted sha expected attempts get"
  shows "live_count (evaluate_final_get sha r key expected attempts get) =
    (cr_expected_live_objects r, cr_verified_live_objects r + (if expected = None then 0 else 1),
     cr_tolerated_ambiguous_deletes r)"
proof (cases "gr_outcome get = Ok \<and> gr_body get \<noteq> None")
  case True
  then obtain body where b: "gr_outcome get = Ok" "gr_body get = Some body" by auto
  show ?thesis
  proof (cases "\<exists>e. expected = Some e \<and> object_matches sha e body")
    case True
    with b show ?thesis by (auto simp: evaluate_final_get_def) (auto simp: live_count_def)
  next
    case nm: False
    show ?thesis
    proof (cases "matching_active_ambiguous_write sha attempts body")
      case None
      with nm have "\<not> explains_body sha expected attempts body"
        by (intro not_explains) (auto split: option.split)
      with assms b have "expected = None \<and> attempts = []" by (simp add: read_accepted_def)
      with b None show ?thesis by (simp add: evaluate_final_get_def live_count_def)
    next
      case (Some a)
      with b nm show ?thesis
        by (auto simp: evaluate_final_get_def live_count_def Let_def split: option.split)
    qed
  qed
next
  case False
  with assms have "expected = None" by (auto simp: read_accepted_def)
  with False show ?thesis
    by (cases "gr_outcome get"; cases "gr_body get") (simp_all add: evaluate_final_get_def live_count_def)
qed

definition good_final_read :: "hasher \<Rightarrow> ObjectModel \<Rightarrow> string \<Rightarrow> GetObjectResult \<Rightarrow> bool" where
  "good_final_read sha model key get \<longleftrightarrow>
     absent_after_ambiguous_delete model key get \<or>
     read_accepted sha (fmlookup (om_live model) key) (unknown_writes_of model key) get"

lemma note_final_get_report:
  "fs_report (note_final_get sha model st key get) =
     (if absent_after_ambiguous_delete model key get then fs_report st
      else evaluate_final_get sha (fs_report st) key (fmlookup (om_live model) key) (unknown_writes_of model key) get)"
  by (simp add: note_final_get_def Let_def)

lemma note_final_get_sets:
  "fs_delete_absent (note_final_get sha model st key get) =
     (if absent_after_ambiguous_delete model key get then finsert key (fs_delete_absent st) else fs_delete_absent st)"
  "fs_materialized (note_final_get sha model st key get) =
     (if gr_outcome get = Ok
         \<and> (case gr_body get of None \<Rightarrow> False
            | Some body \<Rightarrow> matching_active_ambiguous_write sha (unknown_writes_of model key) body \<noteq> None)
      then finsert key (fs_materialized st) else fs_materialized st)"
  "fs_write_absent (note_final_get sha model st key get) =
     (if fmlookup (om_live model) key = None \<and> gr_outcome get = NotFound
      then finsert key (fs_write_absent st) else fs_write_absent st)"
  by (auto simp: note_final_get_def Let_def absent_after_ambiguous_delete_def)

lemma final_get_step_Inr:
  "final_get_step sha model st x = Inr t \<longleftrightarrow>
     (\<exists>get. snd x = Inr get \<and> t = note_final_get sha model st (fst x) get)"
  by (auto simp: final_get_step_def)

lemma note_final_get_quiet:
  "quiet (fs_report (note_final_get sha model st key get)) \<longleftrightarrow> quiet (fs_report st) \<and> good_final_read sha model key get"
  by (simp add: note_final_get_report good_final_read_def quiet_evaluate_final_get)

abbreviation (input) answered :: "(string \<Rightarrow> GetObjectResult \<Rightarrow> bool) \<Rightarrow> string \<times> (string + GetObjectResult) \<Rightarrow> bool" where
  "answered P x \<equiv> \<exists>get. snd x = Inr get \<and> P (fst x) get"

interpretation final_reads: report_scan
  "final_get_step sha model" "\<lambda>st. quiet (fs_report st)" "answered (good_final_read sha model)" "\<lambda>_. ()"
  for sha model
  by unfold_locales (auto simp: final_get_step_Inr note_final_get_quiet)

lemma final_scan_absent:
  "fold_res (final_get_step sha model) st xs = Inr t \<Longrightarrow>
     k |\<in>| fs_delete_absent t \<longleftrightarrow> k |\<in>| fs_delete_absent st \<or>
       (\<exists>get. (k, Inr get) \<in> set xs \<and> absent_after_ambiguous_delete model k get)"
proof (induction xs arbitrary: t rule: rev_induct)
  case Nil
  then show ?case by simp
next
  case (snoc x xs)
  then obtain u get where u: "fold_res (final_get_step sha model) st xs = Inr u" "snd x = Inr get"
      "t = note_final_get sha model u (fst x) get"
    by (auto simp: fold_res_snoc_Inr final_get_step_Inr)
  with snoc.IH [OF u(1)] show ?case by (cases x) (auto simp: note_final_get_sets)
qed

text \<open>Each quiet read of a live key that was not excused counts one verified object.\<close>

lemma final_scan_count:
  assumes "fold_res (final_get_step sha model) st xs = Inr t" and "quiet (fs_report t)"
  shows "live_count (fs_report t) =
    (cr_expected_live_objects (fs_report st),
     cr_verified_live_objects (fs_report st) +
       length (filter (\<lambda>(k, r). fmlookup (om_live model) k \<noteq> None \<and>
                 \<not> answered (absent_after_ambiguous_delete model) (k, r)) xs),
     cr_tolerated_ambiguous_deletes (fs_report st))"
  using assms
proof (induction xs arbitrary: t rule: rev_induct)
  case Nil
  then show ?case by (simp add: live_count_def)
next
  case (snoc x xs)
  from snoc.prems(1) obtain u get where u: "fold_res (final_get_step sha model) st xs = Inr u"
    and g: "snd x = Inr get" and t: "t = note_final_get sha model u (fst x) get"
    by (auto simp: fold_res_snoc_Inr final_get_step_Inr)
  from snoc.prems(2) t have q: "quiet (fs_report u)" "good_final_read sha model (fst x) get"
    by (simp_all add: note_final_get_quiet)
  show ?case
  proof (cases "absent_after_ambiguous_delete model (fst x) get")
    case True
    with snoc.IH [OF u q(1)] g t show ?thesis by (cases x) (auto simp: note_final_get_report)
  next
    case False
    with q(2) have "read_accepted sha (fmlookup (om_live model) (fst x)) (unknown_writes_of model (fst x)) get"
      by (simp add: good_final_read_def)
    from evaluate_final_get_count [OF this, of "fs_report u" "fst x"] False t
    have "live_count (fs_report t) = (cr_expected_live_objects (fs_report u),
        cr_verified_live_objects (fs_report u) + (if fmlookup (om_live model) (fst x) = None then 0 else 1),
        cr_tolerated_ambiguous_deletes (fs_report u))"
      by (simp add: note_final_get_report)
    with snoc.IH [OF u q(1)] g False show ?thesis by (cases x) (auto simp: live_count_def)
  qed
qed

subsection \<open>Reads of deleted keys, committed versions and unexplained keys\<close>

abbreviation serves_body :: "GetObjectResult \<Rightarrow> bool" where
  "serves_body get \<equiv> gr_outcome get = Ok \<and> gr_body get \<noteq> None"

lemma note_deleted_get_quiet: "quiet (note_deleted_get r key get) \<longleftrightarrow> quiet r \<and> \<not> serves_body get"
  by (cases "gr_outcome get"; cases "gr_body get")
    (simp_all add: note_deleted_get_def evaluate_deleted_reread_def quiet_def)

lemma note_deleted_get_count [simp]: "live_count (note_deleted_get r key get) = live_count r"
  by (simp add: note_deleted_get_def live_count_def split: option.split)

interpretation deleted_reads: report_scan
  deleted_get_step quiet "answered (\<lambda>_ get. \<not> serves_body get)" live_count
  by unfold_locales (auto simp: deleted_get_step_def note_deleted_get_quiet)

definition reads_version :: "hasher \<Rightarrow> CommittedVersion \<Rightarrow> GetObjectResult \<Rightarrow> bool" where
  "reads_version sha version get \<longleftrightarrow>
     gr_outcome get = Ok \<and>
     (\<exists>body. gr_body get = Some body \<and> sha body = cv_sha256 version \<and> length body = cv_size_bytes version)"

lemma evaluate_committed_version_get_quiet:
  "quiet (evaluate_committed_version_get sha r version get) \<longleftrightarrow> quiet r \<and> reads_version sha version get"
  by (cases "gr_outcome get"; cases "gr_body get")
    (auto simp: evaluate_committed_version_get_def reads_version_def quiet_def Let_def)

lemma evaluate_committed_version_get_frame:
  "frame (evaluate_committed_version_get sha r version get) = frame r"
  by (cases "gr_outcome get"; cases "gr_body get")
    (simp_all add: evaluate_committed_version_get_def frame_def live_count_def Let_def)

interpretation version_reads: report_scan
  "version_get_step sha" "\<lambda>st. quiet (fst st)" "\<lambda>x. \<exists>get. snd x = Inr get \<and> reads_version sha (fst x) get"
  "\<lambda>st. frame (fst st)"
  for sha
  by unfold_locales
    (auto simp: version_get_step_def evaluate_committed_version_get_quiet evaluate_committed_version_get_frame)

text \<open>A listed key no committed or ambiguous state explains holds the bytes of a failed write.\<close>

definition holds_failed_write :: "hasher \<Rightarrow> ObjectModel \<Rightarrow> string \<Rightarrow> GetObjectResult \<Rightarrow> bool" where
  "holds_failed_write sha model key get \<longleftrightarrow>
     gr_outcome get = Ok \<and>
     (\<exists>body hashes. gr_body get = Some body \<and> fmlookup (om_failed_writes model) key = Some hashes \<and>
        sha body |\<in>| hashes)"

lemma evaluate_unexplained_quiet:
  "quiet (evaluate_unexplained_listed_key sha r model key get) \<longleftrightarrow> quiet r \<and> holds_failed_write sha model key get"
  by (cases "gr_outcome get"; cases "gr_body get"; cases "fmlookup (om_failed_writes model) key")
    (auto simp: evaluate_unexplained_listed_key_def holds_failed_write_def quiet_def Let_def)

lemma evaluate_unexplained_frame [simp]:
  "frame (evaluate_unexplained_listed_key sha r model key get) = frame r"
  by (cases "gr_outcome get"; cases "gr_body get"; cases "fmlookup (om_failed_writes model) key")
    (simp_all add: evaluate_unexplained_listed_key_def frame_def live_count_def Let_def)

interpretation unexplained_reads: report_scan
  "unexplained_get_step sha model" quiet "answered (holds_failed_write sha model)" frame
  for sha model
  by unfold_locales (auto simp: unexplained_get_step_def evaluate_unexplained_quiet)

subsection \<open>Latest versions\<close>

lemma quiet_push_delete_lineage [simp]: "\<not> quiet (push_delete_lineage r m)"
  by (simp add: push_delete_lineage_def quiet_def)

lemma frame_push [simp]: "frame (push_delete_lineage r m) = frame r"
  by (simp add: push_delete_lineage_def frame_def live_count_def)

text \<open>The latest entry of a key is the one its records promise, or an allowed ambiguous one.\<close>

definition latest_allowed ::
  "ObjectModel \<Rightarrow> (string, ObjectVersionEntry) fmap \<Rightarrow> (string \<times> string) fset \<Rightarrow> CommittedDeleteMarker list
     \<Rightarrow> string \<times> ListedVersionEntry \<Rightarrow> bool" where
  "latest_allowed model actual active markers kv \<longleftrightarrow>
     (\<exists>e. fmlookup actual (fst kv) = Some e \<and>
        (matches_expected_latest (snd kv) e \<or> active_ambiguous_latest active (fst kv) e \<or>
         fst kv |\<in>| om_ambiguous_delete_lineage_pending model \<and>
         novel_ambiguous_delete_marker (fst kv) (ov_is_delete_marker e) (ov_version_id e) (map marker_pair markers)))"

interpretation expected_latest: report_scan
  "\<lambda>r kv. Inr (check_expected_latest model actual active markers r kv) :: unit + CheckerReport"
  quiet "latest_allowed model actual active markers" frame
  for model actual active markers
  by unfold_locales
    (auto simp: check_expected_latest_def latest_allowed_def split: option.splits if_splits prod.splits)

definition latest_known ::
  "ObjectModel \<Rightarrow> (string, ListedVersionEntry) fmap \<Rightarrow> (string \<times> string) fset \<Rightarrow> string \<times> ObjectVersionEntry \<Rightarrow> bool" where
  "latest_known model expected active kv \<longleftrightarrow>
     fst kv |\<in>| fmdom expected \<or> fst kv |\<in>| om_ambiguous_delete_lineage_pending model \<or>
     active_ambiguous_latest active (fst kv) (snd kv)"

interpretation unexpected_latest: report_scan
  "\<lambda>r kv. Inr (check_unexpected_latest model expected active r kv) :: unit + CheckerReport"
  quiet "latest_known model expected active" frame
  for model expected active
  by unfold_locales (auto simp: check_unexpected_latest_def latest_known_def split: prod.splits if_splits)

lemma evaluate_latest_quiet:
  "quiet (evaluate_latest_version_lineage r model expected actual materialized markers) \<longleftrightarrow>
     quiet r \<and>
     (\<forall>kv \<in> set (fm_entries expected). latest_allowed model actual (active_ambiguous_versions materialized) markers kv) \<and>
     (\<forall>kv \<in> set (fm_entries actual). latest_known model expected (active_ambiguous_versions materialized) kv)"
  using expected_latest.scan_quiet [OF fold_res_total] unexpected_latest.scan_quiet [OF fold_res_total]
  by (auto simp: evaluate_latest_version_lineage_def Let_def)

lemma evaluate_latest_frame [simp]:
  "frame (evaluate_latest_version_lineage r model expected actual materialized markers) = frame r"
  using expected_latest.scan_count [OF fold_res_total] unexpected_latest.scan_count [OF fold_res_total]
  by (simp add: evaluate_latest_version_lineage_def Let_def)

subsection \<open>The version phase\<close>

lemma record_lineage_quiet:
  "quiet (record_lineage r lineage) \<longleftrightarrow>
     quiet r \<and> vl_delete_marker_lineage_incomplete lineage = [] \<and> vl_multipart_upload_lineage_incomplete lineage = []"
  by (auto simp: record_lineage_def quiet_def)

lemma record_version_listing_quiet:
  "quiet (record_version_listing records lineage entries r) \<longleftrightarrow>
     quiet r \<and> snd (latest_version_entries entries) = [] \<and>
     listed_version_lineage_conflicts records lineage (map object_entry_identity entries) = [] \<and>
     fst (missing_committed_version_entries (vl_versions lineage) entries) = [] \<and>
     snd (missing_committed_version_entries (vl_versions lineage) entries) = []"
  by (auto simp: record_version_listing_def quiet_def Let_def split: prod.splits)

lemma record_materialized_quiet: "quiet (record_materialized ms conflicts r) \<longleftrightarrow> quiet r \<and> conflicts = []"
  by (auto simp: record_materialized_def quiet_def)

lemma version_record_counts [simp]:
  "frame (record_lineage r lineage) =
     (live_count r, vl_missing_version_id_count lineage, cr_missing_committed_delete_markers r)"
  "frame (record_version_listing records lineage entries r) =
     (live_count r, cr_committed_writes_missing_version_id_count r,
      missing_committed_delete_markers (vl_delete_markers lineage) entries)"
  "frame (record_materialized ms conflicts r) = frame r"
  by (simp_all add: frame_def record_lineage_def record_version_listing_def record_materialized_def live_count_def Let_def
      split: prod.split)

text \<open>What a quiet evaluation of the version listing has established.\<close>

definition listing_verified ::
  "hasher \<Rightarrow> OperationRecord list \<Rightarrow> ObjectModel \<Rightarrow> ObjectVersionEntry list
     \<Rightarrow> (AmbiguousVersionCandidate \<times> (string + GetObjectResult)) list \<Rightarrow> bool" where
  "listing_verified sha records model entries results \<longleftrightarrow>
     (let lineage = committed_version_lineage records; latest = latest_version_entries entries in
      snd latest = [] \<and>
      listed_version_lineage_conflicts records lineage (map object_entry_identity entries) = [] \<and>
      fst (missing_committed_version_entries (vl_versions lineage) entries) = [] \<and>
      (\<exists>ms. materialized_ambiguous_versions sha model lineage entries results = Inr (ms, []) \<and>
         (\<forall>kv \<in> set (fm_entries (expected_latest_versions records)).
            latest_allowed model (fst latest) (active_ambiguous_versions ms) (vl_delete_markers lineage) kv) \<and>
         (\<forall>kv \<in> set (fm_entries (fst latest)).
            latest_known model (expected_latest_versions records) (active_ambiguous_versions ms) kv)))"

lemma check_listed_versions_quiet:
  assumes "check_listed_versions sha records model (committed_version_lineage records) entries results r = Inr r'"
    and "quiet r'"
  shows "quiet r \<and> listing_verified sha records model entries results"
proof -
  let ?l = "committed_version_lineage records" and ?f = "fst (latest_version_entries entries)"
  let ?r = "record_version_listing records ?l entries r"
  obtain ms conflicts where ms: "materialized_ambiguous_versions sha model ?l entries results = Inr (ms, conflicts)"
    and r': "r' = record_materialized ms conflicts (evaluate_latest_version_lineage ?r model
        (expected_latest_versions records) ?f ms (vl_delete_markers ?l))"
    using assms(1) by (auto simp: check_listed_versions_def Let_def)
  from assms(2) r' have "conflicts = []"
    and q: "quiet (evaluate_latest_version_lineage ?r model (expected_latest_versions records) ?f ms (vl_delete_markers ?l))"
    by (simp_all add: record_materialized_quiet)
  from q have "quiet ?r"
    and "\<forall>kv \<in> set (fm_entries (expected_latest_versions records)).
        latest_allowed model ?f (active_ambiguous_versions ms) (vl_delete_markers ?l) kv"
    and "\<forall>kv \<in> set (fm_entries ?f). latest_known model (expected_latest_versions records) (active_ambiguous_versions ms) kv"
    unfolding evaluate_latest_quiet by blast+
  with ms \<open>conflicts = []\<close> show ?thesis
    unfolding listing_verified_def Let_def record_version_listing_quiet by blast
qed

definition versions_verified :: "hasher \<Rightarrow> OperationRecord list \<Rightarrow> ObjectModel \<Rightarrow> CheckerObservations \<Rightarrow> bool" where
  "versions_verified sha records model obs \<longleftrightarrow>
     vl_delete_marker_lineage_incomplete (committed_version_lineage records) = [] \<and>
     vl_multipart_upload_lineage_incomplete (committed_version_lineage records) = [] \<and>
     (\<forall>x \<in> set (ob_version_gets obs). \<exists>get. snd x = Inr get \<and> reads_version sha (fst x) get) \<and>
     (\<forall>entries. ob_version_list obs = Inr (Some entries) \<longrightarrow>
        listing_verified sha records model entries (ob_candidate_gets obs))"

lemma check_listed_versions_frame:
  "check_listed_versions sha records model lineage entries results r = Inr r' \<Longrightarrow>
     frame r' = (live_count r, cr_committed_writes_missing_version_id_count r,
       missing_committed_delete_markers (vl_delete_markers lineage) entries)"
  by (auto simp: check_listed_versions_def Let_def)

lemma frame_live: "frame r' = frame r \<Longrightarrow> live_count r' = live_count r"
  by (simp add: frame_def)

lemma check_versions_quiet:
  assumes "check_versions sha records model pre obs r = Inr v" and "quiet (vp_report v)"
  shows "quiet r \<and> versions_verified sha records model obs"
proof -
  let ?l = "committed_version_lineage records"
  obtain r1 dv where reads: "fold_res (version_get_step sha) (record_lineage r ?l, []) (ob_version_gets obs) = Inr (r1, dv)"
    and rest: "(\<exists>entries r2. ob_version_list obs = Inr (Some entries) \<and>
        check_listed_versions sha records model ?l entries (ob_candidate_gets obs) r1 = Inr r2 \<and> vp_report v = r2)
      \<or> ob_version_list obs = Inr None \<and> vp_report v = r1"
    using assms(1) by (auto simp: check_versions_def Let_def split: prod.splits option.splits)
  have "quiet r1 \<and> (\<forall>entries. ob_version_list obs = Inr (Some entries) \<longrightarrow>
      listing_verified sha records model entries (ob_candidate_gets obs))"
    using rest assms(2) by (auto dest!: check_listed_versions_quiet)
  with version_reads.scan_quiet [OF reads] show ?thesis
    by (simp add: versions_verified_def record_lineage_quiet)
qed

lemma check_versions_frame:
  assumes "check_versions sha records model pre obs r = Inr v"
  shows "live_count (vp_report v) = live_count r"
    and "cr_committed_writes_missing_version_id_count (vp_report v) =
      vl_missing_version_id_count (committed_version_lineage records)"
    and "ob_version_list obs = Inr (Some entries) \<Longrightarrow> cr_missing_committed_delete_markers (vp_report v) =
      missing_committed_delete_markers (vl_delete_markers (committed_version_lineage records)) entries"
proof -
  obtain r1 dv where reads: "fold_res (version_get_step sha) (record_lineage r (committed_version_lineage records), [])
        (ob_version_gets obs) = Inr (r1, dv)"
    and v: "frame (vp_report v) = (live_count r1, cr_committed_writes_missing_version_id_count r1,
        (case ob_version_list obs of
           Inr (Some entries) \<Rightarrow> missing_committed_delete_markers (vl_delete_markers (committed_version_lineage records)) entries
         | _ \<Rightarrow> cr_missing_committed_delete_markers r1))"
    using assms
    by (auto simp: check_versions_def Let_def split: prod.splits option.splits dest!: check_listed_versions_frame)
      (simp add: frame_def)
  have "frame r1 = (live_count r, vl_missing_version_id_count (committed_version_lineage records),
      cr_missing_committed_delete_markers r)"
    using version_reads.scan_count [OF reads] by simp
  with v show "live_count (vp_report v) = live_count r"
    "cr_committed_writes_missing_version_id_count (vp_report v) =
      vl_missing_version_id_count (committed_version_lineage records)"
    "ob_version_list obs = Inr (Some entries) \<Longrightarrow> cr_missing_committed_delete_markers (vp_report v) =
      missing_committed_delete_markers (vl_delete_markers (committed_version_lineage records)) entries"
    by (simp_all add: frame_def)
qed

text \<open>A run without warnings had its version listing answered.\<close>

lemma push_warning_count [simp]: "ws_total_count (push_warning w m) = ws_total_count w + 1"
  by (simp add: push_warning_def)

lemma check_versions_warnings:
  assumes "check_versions sha records model pre obs r = Inr v" and "ws_total_count (vp_warnings v) = 0"
  shows "\<exists>entries. ob_version_list obs = Inr (Some entries) \<and> vp_latest v = Some (fst (latest_version_entries entries))"
  using assms
  by (auto simp: check_versions_def Let_def record_version_list_unavailable_def split: prod.splits option.splits)

subsection \<open>The listing phase\<close>

lemma evaluate_final_list_keys_count:
  "ws_total_count (evaluate_final_list_keys model absent materialized listed pre w) = 0 \<longleftrightarrow>
     ws_total_count w = 0 \<and>
     (\<forall>k. k |\<in>| fmdom (om_live model) \<longrightarrow> k |\<in>| listed \<or> k |\<in>| absent) \<and>
     (\<forall>k. k |\<in>| absent \<longrightarrow> k |\<notin>| listed) \<and>
     (\<forall>k. k |\<in>| om_deleted model \<longrightarrow> k |\<notin>| listed \<or> k |\<in>| materialized)"
  by (auto simp: evaluate_final_list_keys_def Let_def push_warnings_count filter_empty_conv fmdom'_alt_def)

lemma check_listing_elim:
  assumes "check_listing sha model scan pre obs r w = Inr (r', w', listed)"
  shows "(ob_prefix_list obs = Inr None \<and> r' = r \<and> listed = None \<and> ws_total_count w' = ws_total_count w + 1) \<or>
    (\<exists>keys. ob_prefix_list obs = Inr (Some keys) \<and> listed = Some (fset_of_list keys) \<and>
      w' = evaluate_final_list_keys model (fs_delete_absent scan) (fs_materialized scan) (fset_of_list keys) pre w \<and>
      fold_res (unexplained_get_step sha model)
        (r\<lparr>cr_final_listed_objects := Some (length keys),
           cr_listed_keys_unreadable := cr_listed_keys_unreadable r @
             map ghost_message (sorted_list_of_fset (fs_write_absent scan |\<inter>| fset_of_list keys))\<rparr>)
        (ob_unexplained_gets obs) = Inr r')"
  using assms by (auto simp: check_listing_def Let_def split: option.splits)

lemma check_listing_frame:
  assumes "check_listing sha model scan pre obs r w = Inr (r', w', listed)"
  shows "frame r' = frame r"
  using check_listing_elim [OF assms]
proof (elim disjE exE conjE)
  fix keys
  assume "fold_res (unexplained_get_step sha model)
      (r\<lparr>cr_final_listed_objects := Some (length keys),
         cr_listed_keys_unreadable := cr_listed_keys_unreadable r @
           map ghost_message (sorted_list_of_fset (fs_write_absent scan |\<inter>| fset_of_list keys))\<rparr>)
      (ob_unexplained_gets obs) = Inr r'"
  from unexplained_reads.scan_count [OF this] show ?thesis by (simp add: frame_def live_count_def)
qed simp

lemma check_listing_quiet:
  assumes "check_listing sha model scan pre obs r w = Inr (r', w', listed)" and "quiet r'"
  shows "quiet r"
  using check_listing_elim [OF assms(1)]
proof (elim disjE exE conjE)
  fix keys
  assume "fold_res (unexplained_get_step sha model)
      (r\<lparr>cr_final_listed_objects := Some (length keys),
         cr_listed_keys_unreadable := cr_listed_keys_unreadable r @
           map ghost_message (sorted_list_of_fset (fs_write_absent scan |\<inter>| fset_of_list keys))\<rparr>)
      (ob_unexplained_gets obs) = Inr r'"
  from unexplained_reads.scan_quiet [OF this] assms(2) show ?thesis by (simp add: quiet_def)
qed (use assms(2) in simp)

subsection \<open>Ambiguous deletes\<close>

lemma finalize_pending_quiet: "quiet (finalize_pending_key obs r k) \<Longrightarrow> quiet r"
  by (auto simp: finalize_pending_key_def finalize_absent_def finalize_present_def quiet_def push_delete_lineage_def
      split: if_splits option.splits)

lemma finalize_pending_tolerated:
  "cr_tolerated_ambiguous_deletes (finalize_pending_key obs r k) =
     cr_tolerated_ambiguous_deletes r @ (if k |\<in>| ao_absent_on_get obs \<and> delete_is_proven obs k then [k] else [])"
  "cr_expected_live_objects (finalize_pending_key obs r k) = cr_expected_live_objects r"
  "cr_verified_live_objects (finalize_pending_key obs r k) = cr_verified_live_objects r"
  "cr_final_list_warning_count (finalize_pending_key obs r k) = cr_final_list_warning_count r"
  "cr_missing_committed_delete_markers (finalize_pending_key obs r k) = cr_missing_committed_delete_markers r"
  "cr_committed_writes_missing_version_id_count (finalize_pending_key obs r k) = cr_committed_writes_missing_version_id_count r"
  by (simp_all add: finalize_pending_key_def finalize_absent_def finalize_present_def push_delete_lineage_def
      split: option.split)

lemma finalize_quiet: "quiet (foldl (finalize_pending_key obs) r ks) \<Longrightarrow> quiet r"
  by (induction ks arbitrary: r) (auto dest: finalize_pending_quiet)

lemma finalize_tolerated:
  "cr_tolerated_ambiguous_deletes (foldl (finalize_pending_key obs) r ks) =
     cr_tolerated_ambiguous_deletes r @ filter (\<lambda>k. k |\<in>| ao_absent_on_get obs \<and> delete_is_proven obs k) ks"
  "cr_expected_live_objects (foldl (finalize_pending_key obs) r ks) = cr_expected_live_objects r"
  "cr_verified_live_objects (foldl (finalize_pending_key obs) r ks) = cr_verified_live_objects r"
  "cr_final_list_warning_count (foldl (finalize_pending_key obs) r ks) = cr_final_list_warning_count r"
  "cr_missing_committed_delete_markers (foldl (finalize_pending_key obs) r ks) = cr_missing_committed_delete_markers r"
  "cr_committed_writes_missing_version_id_count (foldl (finalize_pending_key obs) r ks) =
     cr_committed_writes_missing_version_id_count r"
  by (induction ks arbitrary: r) (simp_all add: finalize_pending_tolerated)

lemma sort_report_counts [simp]:
  "cr_expected_live_objects (sort_report r) = cr_expected_live_objects r"
  "cr_verified_live_objects (sort_report r) = cr_verified_live_objects r"
  "cr_tolerated_ambiguous_deletes (sort_report r) = sort (cr_tolerated_ambiguous_deletes r)"
  "cr_final_list_warning_count (sort_report r) = cr_final_list_warning_count r"
  "cr_missing_committed_delete_markers (sort_report r) = sort (cr_missing_committed_delete_markers r)"
  "cr_committed_writes_missing_version_id_count (sort_report r) = cr_committed_writes_missing_version_id_count r"
  by (simp_all add: sort_report_def)

subsection \<open>The phases of a passing run\<close>

abbreviation start_scan :: "CheckerReport \<Rightarrow> final_scan" where
  "start_scan r \<equiv> \<lparr>fs_report = r, fs_delete_absent = {||}, fs_delete_present = {||}, fs_write_absent = {||},
     fs_materialized = {||}\<rparr>"

text \<open>The intermediate results of a run that ended quiet and without a listing warning.\<close>

definition quiet_run ::
  "hasher \<Rightarrow> OperationRecord list \<Rightarrow> string \<Rightarrow> bool \<Rightarrow> CheckerObservations \<Rightarrow> CheckerReport
     \<Rightarrow> final_scan \<Rightarrow> CheckerReport \<Rightarrow> version_phase \<Rightarrow> CheckerReport \<Rightarrow> WarningSummary \<Rightarrow> string fset option \<Rightarrow> bool" where
  "quiet_run sha records run_id expect obs r0 scan dr v lr w listed \<longleftrightarrow>
     (let model = object_model records; pre = key_prefix run_id in
      fold_res (final_get_step sha model) (start_scan r0) (ob_final_gets obs) = Inr scan \<and> quiet (fs_report scan) \<and>
      fold_res deleted_get_step (fs_report scan) (ob_deleted_gets obs) = Inr dr \<and> quiet dr \<and>
      (if expect then check_versions sha records model pre obs dr = Inr v else v = no_versions dr) \<and>
      quiet (vp_report v) \<and>
      check_listing sha model scan pre obs (vp_report v) (vp_warnings v) = Inr (lr, w, listed) \<and>
      quiet lr \<and> ws_total_count w = 0)"

lemma observe_store_phases:
  assumes "observe_store sha records run_id expect obs r0 = Inr (report, versions)"
  obtains scan dr lr w listed where
    "fold_res (final_get_step sha (object_model records)) (start_scan r0) (ob_final_gets obs) = Inr scan"
    "fold_res deleted_get_step (fs_report scan) (ob_deleted_gets obs) = Inr dr"
    "if expect then check_versions sha records (object_model records) (key_prefix run_id) obs dr = Inr versions
     else versions = no_versions dr"
    "check_listing sha (object_model records) scan (key_prefix run_id) obs (vp_report versions) (vp_warnings versions)
       = Inr (lr, w, listed)"
    "report = sort_report (finalize_ambiguous_delete_observations
       (lr\<lparr>cr_final_list_warning_count := ws_total_count w, cr_list_warnings := ws_samples w\<rparr>)
       (object_model records) (delete_observations records expect scan versions listed))"
  using assms by (auto simp: observe_store_def Let_def split: if_split_asm)

lemma observe_store_run:
  assumes "observe_store sha records run_id expect obs r0 = Inr (report, versions)"
    and "quiet report" and "cr_final_list_warning_count report = 0"
  obtains scan dr lr w listed where
    "quiet_run sha records run_id expect obs r0 scan dr versions lr w listed"
    "report = sort_report (finalize_ambiguous_delete_observations
       (lr\<lparr>cr_final_list_warning_count := ws_total_count w, cr_list_warnings := ws_samples w\<rparr>)
       (object_model records) (delete_observations records expect scan versions listed))"
proof -
  let ?m = "object_model records" and ?p = "key_prefix run_id"
  from assms(1) obtain scan dr lr w listed where
    scan: "fold_res (final_get_step sha ?m) (start_scan r0) (ob_final_gets obs) = Inr scan"
    and dr: "fold_res deleted_get_step (fs_report scan) (ob_deleted_gets obs) = Inr dr"
    and v: "if expect then check_versions sha records ?m ?p obs dr = Inr versions else versions = no_versions dr"
    and l: "check_listing sha ?m scan ?p obs (vp_report versions) (vp_warnings versions) = Inr (lr, w, listed)"
    and rep: "report = sort_report (finalize_ambiguous_delete_observations
       (lr\<lparr>cr_final_list_warning_count := ws_total_count w, cr_list_warnings := ws_samples w\<rparr>)
       ?m (delete_observations records expect scan versions listed))"
    by (rule observe_store_phases)
  from assms(3) rep have w0: "ws_total_count w = 0"
    by (simp add: finalize_ambiguous_delete_observations_def finalize_tolerated)
  from assms(2) rep have "quiet (lr\<lparr>cr_final_list_warning_count := ws_total_count w, cr_list_warnings := ws_samples w\<rparr>)"
    by (auto simp: finalize_ambiguous_delete_observations_def dest: finalize_quiet)
  then have ql: "quiet lr" by (simp add: quiet_def)
  from check_listing_quiet [OF l ql] have qv: "quiet (vp_report versions)" .
  with v have qd: "quiet dr" by (auto simp: no_versions_def dest: check_versions_quiet split: if_split_asm)
  with deleted_reads.scan_quiet [OF dr] have "quiet (fs_report scan)" by simp
  with scan dr v l w0 ql qv qd that rep show thesis unfolding quiet_run_def Let_def by blast
qed

lemma quiet_run_live_count:
  assumes "quiet_run sha records run_id expect obs r0 scan dr v lr w listed"
  shows "live_count lr = live_count (fs_report scan)"
proof -
  note q = assms [unfolded quiet_run_def Let_def]
  from q have dr: "fold_res deleted_get_step (fs_report scan) (ob_deleted_gets obs) = Inr dr"
    and l: "check_listing sha (object_model records) scan (key_prefix run_id) obs (vp_report v) (vp_warnings v) =
      Inr (lr, w, listed)"
    and v: "if expect then check_versions sha records (object_model records) (key_prefix run_id) obs dr = Inr v
      else v = no_versions dr" by blast+
  have "live_count (vp_report v) = live_count dr"
    using v by (auto simp: no_versions_def check_versions_frame(1) split: if_split_asm)
  with frame_live [OF check_listing_frame [OF l]] deleted_reads.scan_count [OF dr] show ?thesis by simp
qed

lemma passed_check_run:
  assumes "check_s3_history sha to_vec rec bucket tenant expect obs = Inr report" and "cr_passed report"
  obtains anomalies scan dr v lr w listed where
    "successful_read_anomalies sha (rs_records rec) = Inr anomalies"
    "quiet_run sha (rs_records rec) (rs_run_id rec) expect obs
       (initial_report rec (object_model (rs_records rec)) anomalies (list_history_warnings (rs_records rec)) tenant expect)
       scan dr v lr w listed"
    "cr_verified_live_objects lr + length (filter (\<lambda>k. k |\<in>| fs_delete_absent scan \<and>
       delete_is_proven (delete_observations (rs_records rec) expect scan v listed) k)
       (sorted_list_of_fset (om_ambiguous_delete_pending (object_model (rs_records rec))))) =
     fcard (fmdom (om_live (object_model (rs_records rec))))"
    "cr_missing_committed_delete_markers lr = []" "cr_committed_writes_missing_version_id_count lr = 0"
proof -
  let ?rs = "rs_records rec" and ?m = "object_model (rs_records rec)"
  obtain anomalies r versions audit where
    an: "successful_read_anomalies sha ?rs = Inr anomalies"
    and os: "observe_store sha ?rs (rs_run_id rec) expect obs
        (initial_report rec ?m anomalies (list_history_warnings ?rs) tenant expect) = Inr (r, versions)"
    and rep: "report = r\<lparr>cr_audit := Some audit, cr_passed := success_predicate (r\<lparr>cr_audit := Some audit\<rparr>)\<rparr>"
    using assms(1) by (auto simp: check_s3_history_def Let_def)
  from assms(2) rep have s: "success_predicate (r\<lparr>cr_audit := Some audit\<rparr>)" by simp
  have "quiet r" using success_quiet [OF s] by (simp add: quiet_def)
  moreover have "cr_final_list_warning_count r = 0"
    using s by (simp add: success_predicate_def Let_def)
  ultimately obtain scan dr lr w listed where
    run: "quiet_run sha ?rs (rs_run_id rec) expect obs
        (initial_report rec ?m anomalies (list_history_warnings ?rs) tenant expect) scan dr versions lr w listed"
    and r: "r = sort_report (finalize_ambiguous_delete_observations
       (lr\<lparr>cr_final_list_warning_count := ws_total_count w, cr_list_warnings := ws_samples w\<rparr>)
       ?m (delete_observations ?rs expect scan versions listed))"
    using observe_store_run [OF os] by blast
  let ?tol = "filter (\<lambda>k. k |\<in>| fs_delete_absent scan \<and>
       delete_is_proven (delete_observations ?rs expect scan versions listed) k)
       (sorted_list_of_fset (om_ambiguous_delete_pending ?m))"
  from run have f: "fold_res (final_get_step sha ?m)
      (start_scan (initial_report rec ?m anomalies (list_history_warnings ?rs) tenant expect)) (ob_final_gets obs) = Inr scan"
    "quiet (fs_report scan)" unfolding quiet_run_def Let_def by blast+
  from final_scan_count [OF f] quiet_run_live_count [OF run]
  have lr: "cr_expected_live_objects lr = fcard (fmdom (om_live ?m))" "cr_tolerated_ambiguous_deletes lr = []"
    by (simp_all add: live_count_def initial_report_def)
  have absent: "ao_absent_on_get (delete_observations ?rs expect scan versions listed) = fs_delete_absent scan"
    by (simp add: delete_observations_def)
  from r lr absent have rc: "cr_expected_live_objects r = fcard (fmdom (om_live ?m))"
    "cr_verified_live_objects r = cr_verified_live_objects lr"
    "cr_tolerated_ambiguous_deletes r = sort ?tol"
    by (simp_all add: finalize_ambiguous_delete_observations_def finalize_tolerated)
  from s rc have "cr_verified_live_objects lr + length ?tol = fcard (fmdom (om_live ?m))"
    by (auto simp: success_predicate_def Let_def)
  moreover have "cr_missing_committed_delete_markers lr = []" "cr_committed_writes_missing_version_id_count lr = 0"
    using s r by (simp_all add: success_predicate_def Let_def finalize_ambiguous_delete_observations_def finalize_tolerated)
  ultimately show thesis using that an run by blast
qed

lemma live_keys_counted:
  assumes "distinct (map fst xs)" and "set (map fst xs) = fset (fmdom m |\<union>| A)"
  shows "fcard (fmdom m) = length (filter (\<lambda>x. fmlookup m (fst x) \<noteq> None) xs)"
proof -
  let ?f = "filter (\<lambda>x. fmlookup m (fst x) \<noteq> None) xs"
  have "k \<in> set (map fst ?f) \<longleftrightarrow> k \<in> set (map fst xs) \<and> fmlookup m k \<noteq> None" for k by auto
  then have "fset (fmdom m) = set (map fst ?f)"
    using assms(2) by (auto simp: fmdom_iff_lookup)
  moreover have "distinct (map fst ?f)" using assms(1) by (rule distinct_map_filter)
  ultimately show ?thesis by (metis distinct_card fcard.rep_eq length_map)
qed

text \<open>Every key excused by an ambiguous delete has its proof.\<close>

lemma passed_absent_proven:
  assumes run: "quiet_run sha records run_id expect obs r0 scan dr v lr w listed"
    and r0: "cr_verified_live_objects r0 = 0"
    and obs: "mset (map fst (ob_final_gets obs)) = mset (final_keys (object_model records))"
    and cnt: "cr_verified_live_objects lr + length (filter (\<lambda>k. k |\<in>| fs_delete_absent scan \<and>
       delete_is_proven (delete_observations records expect scan v listed) k)
       (sorted_list_of_fset (om_ambiguous_delete_pending (object_model records)))) =
     fcard (fmdom (om_live (object_model records)))"
    and k: "k |\<in>| fs_delete_absent scan"
  shows "delete_is_proven (delete_observations records expect scan v listed) k"
proof -
  let ?m = "object_model records" and ?gets = "ob_final_gets obs"
  let ?absent = "answered (absent_after_ambiguous_delete ?m)"
  let ?proven = "delete_is_proven (delete_observations records expect scan v listed)"
  from run have f: "fold_res (final_get_step sha ?m) (start_scan r0) ?gets = Inr scan" "quiet (fs_report scan)"
    unfolding quiet_run_def Let_def by blast+
  have dist: "distinct (map fst ?gets)"
    using obs by (metis distinct_sorted_list_of_fset final_keys_def mset_eq_imp_distinct_iff)
  have keys: "set (map fst ?gets) = set (final_keys ?m)" using obs by (metis mset_eq_setD)
  have vl: "cr_verified_live_objects lr = length (filter (\<lambda>x. fmlookup (om_live ?m) (fst x) \<noteq> None \<and> \<not> ?absent x) ?gets)"
    using final_scan_count [OF f] quiet_run_live_count [OF run] r0
    by (simp add: live_count_def case_prod_unfold)
  have in_absent: "x |\<in>| fs_delete_absent scan \<longleftrightarrow> (\<exists>y \<in> set ?gets. fst y = x \<and> ?absent y)" for x
    by (simp add: final_scan_absent [OF f(1), of x]) force
  have live_absent: "?absent y \<Longrightarrow> fmlookup (om_live ?m) (fst y) \<noteq> None" for y
    by (auto simp: absent_after_ambiguous_delete_def)
  have "fcard (fmdom (om_live ?m)) = length (filter (\<lambda>x. fmlookup (om_live ?m) (fst x) \<noteq> None) ?gets)"
    using dist keys by (intro live_keys_counted) (simp_all add: final_keys_def)
  also have "\<dots> = length (filter (\<lambda>x. fmlookup (om_live ?m) (fst x) \<noteq> None \<and> \<not> ?absent x) ?gets) +
      length (filter ?absent ?gets)"
  proof -
    have "filter ?absent (filter (\<lambda>x. fmlookup (om_live ?m) (fst x) \<noteq> None) ?gets) = filter ?absent ?gets"
      using live_absent by (auto intro!: filter_cong)
    moreover have "filter (\<lambda>x. \<not> ?absent x) (filter (\<lambda>x. fmlookup (om_live ?m) (fst x) \<noteq> None) ?gets) =
        filter (\<lambda>x. fmlookup (om_live ?m) (fst x) \<noteq> None \<and> \<not> ?absent x) ?gets"
      unfolding filter_filter by (rule filter_cong) auto
    ultimately show ?thesis
      using sum_length_filter_compl [of ?absent "filter (\<lambda>x. fmlookup (om_live ?m) (fst x) \<noteq> None) ?gets"]
      by (simp only: add.commute)
  qed
  finally have n: "length (filter (\<lambda>k. k |\<in>| fs_delete_absent scan \<and> ?proven k)
      (sorted_list_of_fset (om_ambiguous_delete_pending ?m))) = length (filter ?absent ?gets)"
    using cnt vl by simp
  let ?P = "{k. k |\<in>| om_ambiguous_delete_pending ?m \<and> k |\<in>| fs_delete_absent scan \<and> ?proven k}"
  have "card ?P = card (fset (fs_delete_absent scan))"
  proof -
    have "?P = set (filter (\<lambda>k. k |\<in>| fs_delete_absent scan \<and> ?proven k)
        (sorted_list_of_fset (om_ambiguous_delete_pending ?m)))" by auto
    then have "card ?P = length (filter (\<lambda>k. k |\<in>| fs_delete_absent scan \<and> ?proven k)
        (sorted_list_of_fset (om_ambiguous_delete_pending ?m)))"
      by (simp only: distinct_card distinct_filter distinct_sorted_list_of_fset)
    also have "\<dots> = card (set (map fst (filter ?absent ?gets)))"
      unfolding n distinct_card [OF distinct_map_filter [OF dist]] by (simp only: length_map)
    also have "set (map fst (filter ?absent ?gets)) = fset (fs_delete_absent scan)"
      by (rule set_eqI, simp only: in_absent set_map image_iff set_filter mem_Collect_eq bex_simps) blast
    finally show ?thesis .
  qed
  moreover have "?P \<subseteq> fset (fs_delete_absent scan)" by auto
  ultimately have "?P = fset (fs_delete_absent scan)" by (simp add: card_subset_eq)
  with k show ?thesis by auto
qed

subsection \<open>What a passing report means\<close>

lemma observes_final: "observes records expect obs \<Longrightarrow>
    mset (map fst (ob_final_gets obs)) = mset (final_keys (object_model records))"
  and observes_deleted: "observes records expect obs \<Longrightarrow>
    mset (map fst (ob_deleted_gets obs)) = mset (deleted_probe_keys (object_model records))"
  and observes_versions: "observes records True obs \<Longrightarrow>
    mset (map fst (ob_version_gets obs)) = mset (vl_versions (committed_version_lineage records))"
  and observes_unexplained: "observes records expect obs \<Longrightarrow> ob_prefix_list obs = Inr (Some keys) \<Longrightarrow>
    mset (map fst (ob_unexplained_gets obs)) =
      mset (unexplained_listed_keys (object_model records) (fset_of_list keys))"
  by (simp_all add: observes_def Let_def)

lemma request_answered: "mset (map fst xs) = mset ks \<Longrightarrow> k \<in> set ks \<Longrightarrow> \<exists>res. (k, res) \<in> set xs"
  by (metis eq_fst_iff image_iff list.set_map mset_eq_setD)

lemma verified_initially [simp]: "cr_verified_live_objects (initial_report rec m a l t e) = 0"
  by (simp add: initial_report_def)

text \<open>
  C1: A passing report means that every object the history committed and did not
  delete was read back with its committed bytes or with those of an ambiguous
  write that may still take effect; the only excuse is an ambiguous delete, and
  then the read was a 404 and the completed final listing does not show the key.
\<close>

theorem passed_check_live_objects:
  assumes "check_s3_history sha to_vec rec bucket tenant expect obs = Inr report" and "cr_passed report"
    and "observes (rs_records rec) expect obs"
    and "fmlookup (om_live (object_model (rs_records rec))) k = Some e"
  shows "\<exists>get. (k, Inr get) \<in> set (ob_final_gets obs) \<and>
    (gr_outcome get = Ok \<and> (\<exists>body. gr_body get = Some body \<and>
       explains_body sha (Some e) (unknown_writes_of (object_model (rs_records rec)) k) body) \<or>
     gr_outcome get = NotFound \<and> k |\<in>| om_ambiguous_delete_pending (object_model (rs_records rec)) \<and>
     (\<exists>keys. ob_prefix_list obs = Inr (Some keys) \<and> k \<notin> set keys))"
proof -
  let ?m = "object_model (rs_records rec)"
  from assms(1,2) obtain anomalies scan dr v lr w listed where
    run: "quiet_run sha (rs_records rec) (rs_run_id rec) expect obs
       (initial_report rec ?m anomalies (list_history_warnings (rs_records rec)) tenant expect) scan dr v lr w listed"
    and cnt: "cr_verified_live_objects lr + length (filter (\<lambda>k. k |\<in>| fs_delete_absent scan \<and>
       delete_is_proven (delete_observations (rs_records rec) expect scan v listed) k)
       (sorted_list_of_fset (om_ambiguous_delete_pending ?m))) = fcard (fmdom (om_live ?m))"
    by (rule passed_check_run)
  from run have f: "fold_res (final_get_step sha ?m)
      (start_scan (initial_report rec ?m anomalies (list_history_warnings (rs_records rec)) tenant expect))
      (ob_final_gets obs) = Inr scan" "quiet (fs_report scan)"
    and l: "check_listing sha ?m scan (key_prefix (rs_run_id rec)) obs (vp_report v) (vp_warnings v) = Inr (lr, w, listed)"
    unfolding quiet_run_def Let_def by blast+
  have "k \<in> set (final_keys ?m)" using assms(4) by (auto simp: final_keys_def fmdom_iff_lookup)
  from request_answered [OF observes_final [OF assms(3)] this]
  obtain res where res: "(k, res) \<in> set (ob_final_gets obs)" by blast
  with final_reads.scan_quiet [OF f(1)] f(2) obtain get where
    get: "res = Inr get" "good_final_read sha ?m k get" by force
  show ?thesis
  proof (cases "absent_after_ambiguous_delete ?m k get")
    case True
    with res get have "k |\<in>| fs_delete_absent scan" using final_scan_absent [OF f(1), of k] by auto
    from passed_absent_proven [OF run _ observes_final [OF assms(3)] cnt this]
    have "delete_is_proven (delete_observations (rs_records rec) expect scan v listed) k" by simp
    then obtain ks where "listed = Some ks" "k |\<notin>| ks"
      by (auto simp: delete_is_proven_def delete_observations_def split: option.splits)
    with check_listing_elim [OF l] have "\<exists>keys. ob_prefix_list obs = Inr (Some keys) \<and> k \<notin> set keys"
      by (auto simp: fset_of_list_elem)
    with True res get show ?thesis by (auto simp: absent_after_ambiguous_delete_def)
  next
    case False
    with get assms(4) have "read_accepted sha (Some e) (unknown_writes_of ?m k) get"
      by (simp add: good_final_read_def)
    with res get show ?thesis by (auto simp: read_accepted_def split: if_splits)
  qed
qed

lemma materialized_has_attempt:
  assumes "fold_res (final_get_step sha model) (start_scan r) xs = Inr scan" and "k |\<in>| fs_materialized scan"
  shows "k |\<in>| fmdom (om_unknown_writes model)"
proof -
  have "\<forall>k. k |\<in>| fs_materialized scan \<longrightarrow> k |\<in>| fmdom (om_unknown_writes model)"
    by (rule fold_res_invariant [OF assms(1)])
      (auto simp: final_get_step_Inr note_final_get_sets matching_active_ambiguous_write_def fm_values_at_def
        fmdom_iff_lookup split: if_splits option.splits)
  with assms(2) show ?thesis by blast
qed


lemma in_listed_pairs:
  "p \<in> set (listed_pairs d entries) \<longleftrightarrow>
     (\<exists>e \<in> set entries. ov_is_delete_marker e = d \<and> ov_key e = fst p \<and> ov_version_id e = Some (snd p))"
  by (cases p) (force simp: listed_pairs_def List.map_filter_def)

lemma no_missing_versions:
  "fst (missing_committed_version_entries vs entries) = [] \<longleftrightarrow>
     (\<forall>v \<in> set vs. version_pair v \<in> set (listed_pairs False entries))"
  "missing_committed_delete_markers ms entries = [] \<longleftrightarrow>
     (\<forall>m \<in> set ms. marker_pair m \<in> set (listed_pairs True entries))"
  by (auto simp: missing_committed_version_entries_def missing_committed_delete_markers_def Let_def
      filter_empty_conv fset_of_list_elem)

lemma latest_entry_listed:
  "fmlookup (fst (latest_version_entries entries)) k = Some e \<Longrightarrow> latest_of k entries = [e]"
proof -
  assume e: "fmlookup (fst (latest_version_entries entries)) k = Some e"
  obtain latest dup where st: "foldl latest_step (fmempty, {||}) entries = (latest, dup)"
    by (cases "foldl latest_step (fmempty, {||}) entries")
  then have "fmlookup latest k = (case latest_of k entries of [e] \<Rightarrow> Some e | _ \<Rightarrow> None)"
    using latest_scan_all [of entries] by (auto simp: latest_scan_ok_def)
  with e st show ?thesis by (auto simp: latest_version_entries_def split: list.splits)
qed

text \<open>
  C4: After a passing check of a versioned bucket every committed write named its
  version and that version was read back exactly; the version listing was
  answered and shows every committed version and delete marker; and the unique
  latest entry of every key is the one its last commit promised, a version an
  active ambiguous write explains, or a novel delete marker of a pending
  ambiguous delete.
\<close>

theorem passed_check_versions:
  assumes "check_s3_history sha to_vec rec bucket tenant True obs = Inr report" and "cr_passed report"
    and "observes (rs_records rec) True obs"
  shows "\<exists>entries. ob_version_list obs = Inr (Some entries) \<and>
    (let m = object_model (rs_records rec); lineage = committed_version_lineage (rs_records rec) in
     vl_missing_version_id_count lineage = 0 \<and>
     (\<forall>v \<in> set (vl_versions lineage).
        (\<exists>get. (v, Inr get) \<in> set (ob_version_gets obs) \<and> reads_version sha v get) \<and>
        version_pair v \<in> set (listed_pairs False entries)) \<and>
     (\<forall>d \<in> set (vl_delete_markers lineage). marker_pair d \<in> set (listed_pairs True entries)) \<and>
     (\<forall>k p. fmlookup (expected_latest_versions (rs_records rec)) k = Some p \<longrightarrow>
        (\<exists>e ms. latest_of k entries = [e] \<and>
           materialized_ambiguous_versions sha m lineage entries (ob_candidate_gets obs) = Inr (ms, []) \<and>
           (matches_expected_latest p e \<or> active_ambiguous_latest (active_ambiguous_versions ms) k e \<or>
            k |\<in>| om_ambiguous_delete_lineage_pending m \<and>
            novel_ambiguous_delete_marker k (ov_is_delete_marker e) (ov_version_id e)
              (map marker_pair (vl_delete_markers lineage))))))"
proof -
  let ?rs = "rs_records rec" and ?m = "object_model (rs_records rec)" and ?l = "committed_version_lineage (rs_records rec)"
  from assms(1,2) obtain anomalies scan dr v lr w listed where
    run: "quiet_run sha ?rs (rs_run_id rec) True obs
       (initial_report rec ?m anomalies (list_history_warnings ?rs) tenant True) scan dr v lr w listed"
    and lr: "cr_missing_committed_delete_markers lr = []" "cr_committed_writes_missing_version_id_count lr = 0"
    by (rule passed_check_run)
  from run have v: "check_versions sha ?rs ?m (key_prefix (rs_run_id rec)) obs dr = Inr v" "quiet (vp_report v)"
    and l: "check_listing sha ?m scan (key_prefix (rs_run_id rec)) obs (vp_report v) (vp_warnings v) = Inr (lr, w, listed)"
      "ws_total_count w = 0"
    unfolding quiet_run_def Let_def by auto
  have "ws_total_count (vp_warnings v) = 0"
    using check_listing_elim [OF l(1)] l(2) by (auto simp: evaluate_final_list_keys_count)
  from check_versions_warnings [OF v(1) this] obtain entries where entries: "ob_version_list obs = Inr (Some entries)" by blast
  have markers: "missing_committed_delete_markers (vl_delete_markers ?l) entries = []"
    and ids: "vl_missing_version_id_count ?l = 0"
    using check_versions_frame(2,3) [OF v(1)] entries check_listing_frame [OF l(1)] lr by (simp_all add: frame_def)
  from check_versions_quiet [OF v] entries have
    reads: "\<forall>x \<in> set (ob_version_gets obs). \<exists>get. snd x = Inr get \<and> reads_version sha (fst x) get"
    and lv: "listing_verified sha ?rs ?m entries (ob_candidate_gets obs)"
    by (simp_all add: versions_verified_def)
  from lv obtain ms where missing: "fst (missing_committed_version_entries (vl_versions ?l) entries) = []"
    and ms: "materialized_ambiguous_versions sha ?m ?l entries (ob_candidate_gets obs) = Inr (ms, [])"
      "\<forall>kv \<in> set (fm_entries (expected_latest_versions ?rs)).
        latest_allowed ?m (fst (latest_version_entries entries)) (active_ambiguous_versions ms) (vl_delete_markers ?l) kv"
    unfolding listing_verified_def Let_def by blast
  have read: "\<exists>get. (c, Inr get) \<in> set (ob_version_gets obs) \<and> reads_version sha c get" if "c \<in> set (vl_versions ?l)" for c
    using request_answered [OF observes_versions [OF assms(3)] that] reads by fastforce
  have latest: "\<exists>e. latest_of k entries = [e] \<and>
      (matches_expected_latest p e \<or> active_ambiguous_latest (active_ambiguous_versions ms) k e \<or>
       k |\<in>| om_ambiguous_delete_lineage_pending ?m \<and> novel_ambiguous_delete_marker k (ov_is_delete_marker e)
         (ov_version_id e) (map marker_pair (vl_delete_markers ?l)))"
    if "fmlookup (expected_latest_versions ?rs) k = Some p" for k p
    using ms(2) [rule_format, of "(k, p)"] that by (auto simp: latest_allowed_def dest: latest_entry_listed)
  show ?thesis
    unfolding Let_def using entries ids read missing markers latest ms(1) no_missing_versions
    by (intro exI [of _ entries]) (metis (no_types, lifting))
qed

text \<open>
  C5: A passing check also vouches for the reads of the workload itself: every
  successful whole-object read in the recorded history returned a value that
  some recorded write of the key sent.
\<close>

theorem passed_check_history_reads:
  assumes "check_s3_history sha to_vec rec bucket tenant expect obs = Inr report" and "cr_passed report"
    and "r \<in> set (rs_records rec)" and "whole_read k r"
  shows "writes_value (rs_records rec) k (read_value r)"
proof (rule ccontr)
  assume no: "\<not> writes_value (rs_records rec) k (read_value r)"
  let ?m = "object_model (rs_records rec)"
  from assms(1,2) obtain anomalies scan dr v lr w listed where
    an: "successful_read_anomalies sha (rs_records rec) = Inr anomalies"
    and run: "quiet_run sha (rs_records rec) (rs_run_id rec) expect obs
       (initial_report rec ?m anomalies (list_history_warnings (rs_records rec)) tenant expect) scan dr v lr w listed"
    by (rule passed_check_run)
  from run have "quiet (initial_report rec ?m anomalies (list_history_warnings (rs_records rec)) tenant expect)"
    using final_reads.scan_quiet unfolding quiet_run_def Let_def by fastforce
  then have "\<not> alarming anomalies" by (simp add: quiet_def initial_report_def alarming_def)
  moreover from assms(3) obtain i where i: "i < length (rs_records rec)" "r = rs_records rec ! i"
    by (auto simp: in_set_conv_nth)
  ultimately show False using fabricated_read_alarming [OF an i(1), of k] assms(4) no by simp
qed

end
