(* ===== verification/Recovery_Validation.thy ===== *)
theory Recovery_Validation
  imports Recovery_Stability Checker_Soundness
begin

text \<open>
  The artifact validator's side of the recovery reread (\<open>src/src/fault/artifact_validation.rs\<close>): the shape a
  stored recovery report must have for its classification, and the fields of the
  failure summary the runner (\<open>src/src/fault/runner/verification.rs\<close>) writes next to it. The
  theorems compare the producer with the validator.
\<close>

subsection \<open>The validators\<close>

datatype artifact_error =
    NotSortedUnique string
  | WarningCountBelowSamples
  | InconsistentRereadKeys
  | ClassificationWithoutEvidence RecoveryStabilityClassification
  | VerdictNotFailed
  | SummaryEvidenceMismatch
  | SummaryWarningsMismatch
  | SummaryClassificationMismatch
  | SummaryProjection summary_error
  | TailLatencySecondsMismatch
  | AmbiguousWriteClaimsRecovery

definition ensure_sorted_unique :: "string list \<Rightarrow> string \<Rightarrow> artifact_error + unit" where
  "ensure_sorted_unique values field =
     fold_res (\<lambda>_ pair. ensure (fst pair < snd pair) (NotSortedUnique field) (Inr ())) () (zip values (tl values))"

definition classification_shape :: "RecoveryStabilityReport \<Rightarrow> bool" where
  "classification_shape r =
     (let matching = list_ex (matches_classification_evidence (rr_classification r)) (rr_classification_evidence r)
      in case rr_classification r of
        RecoveryTailReadLatency \<Rightarrow>
          rr_reread_attempted_keys r \<noteq> [] \<and> rr_reread_attempted_keys r = rr_reread_recovered_keys r
          \<and> rr_still_unavailable_keys r = [] \<and> rr_hash_mismatches r = [] \<and> rr_data_corruption_evidence r = []
          \<and> rr_ambiguous_write_evidence r = [] \<and> rr_harness_errors r = []
      | CommittedObjectUnavailable \<Rightarrow>
          rr_still_unavailable_keys r \<noteq> [] \<and> rr_hash_mismatches r = [] \<and> rr_data_corruption_evidence r = []
          \<and> rr_harness_errors r = []
      | CommittedVersionMissing \<Rightarrow> matching
      | VersionHashMismatch \<Rightarrow> matching
      | DeleteMarkerMissing \<Rightarrow> matching
      | DeletedObjectResurrected \<Rightarrow> matching
      | ListedKeyUnreadable \<Rightarrow> matching
      | UnexpectedListedObject \<Rightarrow> matching
      | CommittedVersionUnavailable \<Rightarrow>
          matching \<and> rr_still_unavailable_keys r \<noteq> [] \<and> rr_hash_mismatches r = [] \<and> rr_data_corruption_evidence r = []
      | DeleteMarkerLineageIncomplete \<Rightarrow>
          matching \<and> rr_hash_mismatches r = [] \<and> rr_data_corruption_evidence r = [] \<and> rr_still_unavailable_keys r = []
      | VersionIdMissingOnCommittedWrite \<Rightarrow>
          matching \<and> rr_hash_mismatches r = [] \<and> rr_data_corruption_evidence r = [] \<and> rr_still_unavailable_keys r = []
      | MultipartUploadLineageIncomplete \<Rightarrow>
          matching \<and> rr_hash_mismatches r = [] \<and> rr_data_corruption_evidence r = [] \<and> rr_still_unavailable_keys r = []
      | ListUnavailableOrUnknown \<Rightarrow>
          rr_final_list_warning_count r > 0 \<and> rr_still_unavailable_keys r = [] \<and> rr_hash_mismatches r = []
          \<and> rr_data_corruption_evidence r = [] \<and> rr_ambiguous_write_evidence r = [] \<and> rr_harness_errors r = []
      | DataCorruption \<Rightarrow> rr_hash_mismatches r \<noteq> [] \<or> rr_data_corruption_evidence r \<noteq> []
      | AmbiguousWriteMaterialized \<Rightarrow>
          rr_ambiguous_write_evidence r \<noteq> [] \<and> rr_hash_mismatches r = [] \<and> rr_data_corruption_evidence r = []
          \<and> rr_still_unavailable_keys r = [] \<and> rr_harness_errors r = []
      | HarnessError \<Rightarrow>
          rr_harness_errors r \<noteq> [] \<and> rr_hash_mismatches r = [] \<and> rr_data_corruption_evidence r = [])"

definition validate_recovery_stability_report :: "RecoveryStabilityReport \<Rightarrow> artifact_error + unit" where
  "validate_recovery_stability_report r =
     res_bind (ensure_sorted_unique (rr_reread_attempted_keys r) ''reread_attempted_keys'') (\<lambda>_.
     res_bind (ensure_sorted_unique (rr_reread_recovered_keys r) ''reread_recovered_keys'') (\<lambda>_.
     res_bind (ensure_sorted_unique (rr_still_unavailable_keys r) ''still_unavailable_keys'') (\<lambda>_.
     res_bind (ensure_sorted_unique (rr_data_corruption_evidence r) ''data_corruption_evidence'') (\<lambda>_.
     res_bind (ensure_sorted_unique (rr_classification_evidence r) ''classification_evidence'') (\<lambda>_.
     res_bind (ensure_sorted_unique (rr_ambiguous_write_evidence r) ''ambiguous_write_evidence'') (\<lambda>_.
     res_bind (ensure_sorted_unique (rr_list_warnings r) ''list_warnings'') (\<lambda>_.
     ensure (rr_final_list_warning_count r \<ge> length (rr_list_warnings r)) WarningCountBelowSamples
     (ensure (recovery_key_sets_are_consistent r) InconsistentRereadKeys
     (ensure (classification_shape r) (ClassificationWithoutEvidence (rr_classification r)) (Inr ()))))))))))"

definition validate_recovery_failure_summary_fields ::
  "FailureSummary \<Rightarrow> RecoveryStabilityReport \<Rightarrow> artifact_error + unit" where
  "validate_recovery_failure_summary_fields s r =
     ensure (su_verdict s = VerdictFailed) VerdictNotFailed
     (ensure (su_evidence_classifications s = evidence_classifications r) SummaryEvidenceMismatch
     (ensure (su_final_list_warning_count s = rr_final_list_warning_count r \<and> su_list_warnings s = rr_list_warnings r)
        SummaryWarningsMismatch
     (ensure (su_classification s = recovery_as_str (rr_classification r)) SummaryClassificationMismatch
     (case validate_classification_projection s of
        Inl e \<Rightarrow> Inl (SummaryProjection e)
      | Inr _ \<Rightarrow>
          (case rr_classification r of
             RecoveryTailReadLatency \<Rightarrow>
               ensure (su_recovered_within_seconds s = rr_recovered_within_seconds r \<and> su_recovered_within_seconds s \<noteq> None)
                 TailLatencySecondsMismatch (Inr ())
           | AmbiguousWriteMaterialized \<Rightarrow>
               ensure (su_recovered_within_seconds s = None) AmbiguousWriteClaimsRecovery (Inr ())
           | _ \<Rightarrow> Inr ())))))"

text \<open>The summary the runner writes after a failing check and its reread.\<close>

definition recovery_failure_summary :: "nat \<Rightarrow> string \<Rightarrow> RecoveryStabilityReport \<Rightarrow> string \<Rightarrow> FailureSummary" where
  "recovery_failure_summary now_ms scenario r message =
     with_list_warnings
       (with_evidence_classifications
          (with_recovered_within_seconds
             (summary_from_checker now_ms scenario ''checker-pre-recommit-verdict'' (rr_classification r) message)
             (rr_recovered_within_seconds r))
          (evidence_classifications r))
       (rr_final_list_warning_count r) (rr_list_warnings r)"

subsection \<open>Sorted lists\<close>

lemma ensure_sorted_unique_Inr:
  "ensure_sorted_unique xs field = Inr () \<longleftrightarrow> sorted xs \<and> distinct xs"
proof -
  have *: "fold_res (\<lambda>_ pair. ensure (fst pair < snd pair) (NotSortedUnique field) (Inr ())) () (zip xs (tl xs)) = Inr ()
      \<longleftrightarrow> sorted_wrt (<) xs"
  proof (induction xs)
    case (Cons x xs)
    then show ?case
      by (cases xs) (auto simp: ensure_def sorted_wrt2_simps split: if_splits dest: less_trans)
  qed simp
  show ?thesis unfolding ensure_sorted_unique_def * by (rule strict_sorted_iff)
qed

lemma sort_dedup_id: "sorted xs \<Longrightarrow> distinct xs \<Longrightarrow> sort_dedup xs = xs"
  by (simp add: sort_dedup_def sorted_sort_id remdups_adj_distinct)

subsection \<open>Reports of the checker\<close>

text \<open>A warning summary that has seen the warnings \<open>xs\<close>.\<close>

definition warnings_of :: "string list \<Rightarrow> WarningSummary" where
  "warnings_of xs = \<lparr>ws_total_count = length xs, ws_samples = take MAX_WARNING_SAMPLES xs\<rparr>"

lemma push_warning_of: "push_warning (warnings_of xs) x = warnings_of (xs @ [x])"
  by (simp add: push_warning_def warnings_of_def push_sample_take)

lemma push_warnings_of: "foldl push_warning (warnings_of xs) ys = warnings_of (xs @ ys)"
  by (induction ys arbitrary: xs) (simp_all add: push_warning_of)

lemma empty_warnings_of: "empty_warnings = warnings_of []"
  by (simp add: empty_warnings_def warnings_of_def)

definition checker_report_normal :: "CheckerReport \<Rightarrow> bool" where
  "checker_report_normal i \<longleftrightarrow>
     sorted (cr_list_warnings i) \<and> distinct (cr_list_warnings i)
     \<and> length (cr_list_warnings i) \<le> cr_final_list_warning_count i
     \<and> distinct (cr_unknown_write_value_conflicts i) \<and> distinct (cr_unknown_writes_materialized i)"

lemma final_list_warnings:
  "evaluate_final_list_keys model absent materialized listed pre (warnings_of xs) =
     warnings_of (xs @
       map (\<lambda>key. ''LIST prefix '' @ pre @ '' did not include expected live key '' @ key)
         (filter (\<lambda>key. key |\<notin>| listed \<and> key |\<notin>| absent) (fm_keys (om_live model))) @
       map (\<lambda>key. ''GET reported ambiguous-delete key '' @ key @ '' absent but LIST prefix '' @ pre @ '' still included it'')
         (filter (\<lambda>key. key |\<in>| listed) (sorted_list_of_fset absent)) @
       map (\<lambda>key. ''LIST prefix '' @ pre @ '' included deleted key '' @ key)
         (filter (\<lambda>key. key |\<in>| listed \<and> key |\<notin>| materialized) (sorted_list_of_fset (om_deleted model))))"
  unfolding evaluate_final_list_keys_def Let_def push_warnings_of by simp

lemma listing_warnings:
  assumes "check_listing sha model scan pre obs r (warnings_of xs) = Inr (r', w', listed)"
    and "distinct xs" and "\<forall>x \<in> set xs. prefix ''ListObjectVersions'' x"
  shows "\<exists>ys. w' = warnings_of ys \<and> distinct ys"
proof (cases "ob_prefix_list obs")
  case (Inl e)
  then show ?thesis using assms(1) by (simp add: check_listing_def client_result_def)
next
  case (Inr listing)
  show ?thesis
  proof (cases listing)
    case None
    then have "w' = warnings_of (xs @ [''LIST prefix '' @ pre @ '' did not complete''])"
      using assms(1) Inr by (auto simp: check_listing_def push_warning_of)
    moreover have "distinct (xs @ [''LIST prefix '' @ pre @ '' did not complete''])" using assms(2,3) by auto
    ultimately show ?thesis by blast
  next
    case (Some keys)
    with assms(1) Inr have "w' = evaluate_final_list_keys model (fs_delete_absent scan) (fs_materialized scan)
        (fset_of_list keys) pre (warnings_of xs)"
      by (auto dest!: check_listing_elim)
    then show ?thesis
      unfolding final_list_warnings using assms(2,3)
      by (intro exI conjI) (assumption, force simp: distinct_map inj_on_def)
  qed
qed

lemma version_warnings:
  assumes "check_versions sha records model pre obs r = Inr v"
  shows "\<exists>xs. vp_warnings v = warnings_of xs \<and> distinct xs \<and> (\<forall>x \<in> set xs. prefix ''ListObjectVersions'' x)"
proof -
  from assms have "vp_warnings v = warnings_of [] \<or>
      vp_warnings v = warnings_of [''ListObjectVersions prefix '' @ pre @ '' did not complete'']"
    by (auto simp: check_versions_def Let_def record_version_list_unavailable_def empty_warnings_of push_warning_of
        split: prod.splits option.splits)
  then show ?thesis by force
qed

lemma finalize_warnings:
  "cr_list_warnings (foldl (finalize_pending_key obs) r ks) = cr_list_warnings r"
proof (induction ks arbitrary: r)
  case (Cons k ks)
  have "cr_list_warnings (finalize_pending_key obs r k) = cr_list_warnings r"
    by (simp add: finalize_pending_key_def finalize_absent_def finalize_present_def push_delete_lineage_def
        split: option.split)
  with Cons show ?case by simp
qed simp

lemma checked_report_normal:
  assumes "check_s3_history sha to_vec rec bucket tenant expect obs = Inr i"
  shows "checker_report_normal i"
proof -
  let ?records = "rs_records rec"
  from assms obtain r0 report versions audit where
    os: "observe_store sha ?records (rs_run_id rec) expect obs r0 = Inr (report, versions)"
    and i: "i = report\<lparr>cr_audit := Some audit, cr_passed := cr_passed i\<rparr>"
    by (auto simp: check_s3_history_def Let_def)
  from os obtain scan dr lr w listed where
    v: "if expect then check_versions sha ?records (object_model ?records) (key_prefix (rs_run_id rec)) obs dr = Inr versions
        else versions = no_versions dr"
    and l: "check_listing sha (object_model ?records) scan (key_prefix (rs_run_id rec)) obs (vp_report versions)
        (vp_warnings versions) = Inr (lr, w, listed)"
    and rep: "report = sort_report (finalize_ambiguous_delete_observations
       (lr\<lparr>cr_final_list_warning_count := ws_total_count w, cr_list_warnings := ws_samples w\<rparr>)
       (object_model ?records) (delete_observations ?records expect scan versions listed))"
    by (rule observe_store_phases)
  from v obtain xs where "vp_warnings versions = warnings_of xs" "distinct xs"
    "\<forall>x \<in> set xs. prefix ''ListObjectVersions'' x"
    by (cases expect) (auto simp: no_versions_def empty_warnings_of dest!: version_warnings)
  with l listing_warnings obtain ys where w: "w = warnings_of ys" "distinct ys" by metis
  have f: "cr_list_warnings i = sort (take MAX_WARNING_SAMPLES ys)" "cr_final_list_warning_count i = length ys"
    by (subst i, simp add: rep sort_report_def finalize_ambiguous_delete_observations_def finalize_warnings w warnings_of_def
        finalize_tolerated)+
  have c: "distinct (cr_unknown_write_value_conflicts i)" "distinct (cr_unknown_writes_materialized i)"
    by (subst i, simp add: rep sort_report_def)+
  show ?thesis unfolding checker_report_normal_def f using w(2) c by simp
qed

subsection \<open>The reread report is accepted\<close>

text \<open>
  What the runtime and the S3 client promise a reread: its rounds answer pending keys, and the
  history of the check has a timed-out GET for exactly the committed reads the report calls so.
  Workload keys never start with the \<open>version:\<close> tag of the report.
\<close>

definition reread_ready ::
  "hasher \<Rightarrow> OperationRecord list \<Rightarrow> CheckerReport \<Rightarrow> nat \<Rightarrow> nat \<Rightarrow> RereadRound list \<Rightarrow> bool" where
  "reread_ready sha records i start max_recovery rounds \<longleftrightarrow>
     reread_rounds sha records i start max_recovery rounds
     \<and> immediate_recovery_candidate_keys i = Inr (fset_of_list (reread_keys records start))
     \<and> list_all (\<lambda>key. \<not> prefix ''version:'' key) (reread_keys records start)
     \<and> 0 < max_recovery"

definition reread_keys_settled :: "string set \<Rightarrow> RecoveryStabilityReport \<Rightarrow> bool" where
  "reread_keys_settled B R \<longleftrightarrow>
     sorted (rr_reread_recovered_keys R) \<and> sorted (rr_still_unavailable_keys R)
     \<and> recovery_key_sets_are_consistent R
     \<and> B \<subseteq> set (rr_still_unavailable_keys R) \<and> set (rr_still_unavailable_keys R) \<subseteq> B \<union> set (rr_reread_attempted_keys R)
     \<and> (has_non_availability_result R
        \<or> set (rr_still_unavailable_keys R) = B \<union> (set (rr_reread_attempted_keys R) - set (rr_reread_recovered_keys R)))"

lemma baseline_disjoint:
  assumes "immediate_still_unavailable_keys i keys = Inr still"
    and "immediate_recovery_candidate_keys i = Inr (fset_of_list keys)"
    and "list_all (\<lambda>key. \<not> prefix ''version:'' key) keys"
  shows "set still \<inter> set keys = {}"
proof -
  have "set keys \<subseteq> set (failure_keys (committed_read_failures i))"
  proof
    fix k assume "k \<in> set keys"
    then have "k |\<in>| fset_of_list (failure_keys (filter tail_failure (committed_read_failures i)))"
      using assms(2) unfolding recovery_candidates by (metis fset_of_list_elem)
    then show "k \<in> set (failure_keys (committed_read_failures i))" unfolding fset_of_list_elem set_map set_filter by blast
  qed
  moreover have "\<forall>k \<in> set keys. \<not> prefix ''version:'' k" using assms(3) by (simp add: list_all_iff)
  moreover from assms(1) have
    "set (failure_keys (committed_read_failures i)) \<inter> set (cr_missing_committed_objects i) = {}"
    unfolding still_unavailable_keys_Inr by (elim conjE)
  moreover have "x \<in> set (cr_missing_committed_objects i) \<or>
      x \<in> set (failure_keys (committed_read_failures i)) - set keys \<or> prefix ''version:'' x" if "x \<in> set still" for x
    using assms(1) that unfolding still_unavailable_keys_Inr by (elim conjE, hypsubst) auto
  ultimately show ?thesis by blast
qed

lemma settled_keys:
  assumes "reread_keys_ok (fset_of_list keys) (fset_of_list still) st" and "distinct keys"
    and "rr_reread_attempted_keys (re_report st) = keys"
  shows "reread_keys_settled (set still) (settle_recovery_report st)"
  using assms
  unfolding reread_keys_settled_def key_sets_consistent_iff reread_keys_ok_def Let_def settle_fields
  by (auto simp: fset_of_list.rep_eq less_eq_fset.rep_eq)

lemma reread_settles:
  assumes run: "recovery_stability_reread sha records i start max_recovery rounds = Inr R"
    and ready: "reread_ready sha records i start max_recovery rounds" and "\<not> cr_passed i"
  obtains still where "immediate_still_unavailable_keys i (reread_keys records start) = Inr still"
    and "reread_keys_settled (set still) R"
  using run ready [unfolded reread_ready_def, THEN conjunct1]
proof (cases rule: reread_cases)
  case (skipped still)
  with assms(3) ready have k: "reread_keys records start = []" by (auto simp: reread_ready_def)
  have "reread_keys_settled (set still) R"
    using skipped(2)
    by (simp add: reread_keys_settled_def key_sets_consistent_iff skipped(3) initial_recovery_report_def k
        still_unavailable_keys_Inr)
  then show thesis by (rule that [OF skipped(2)])
next
  case (reread still st)
  have "set still \<inter> set (reread_keys records start) = {}"
    using baseline_disjoint [OF reread(1)] ready by (simp add: reread_ready_def)
  from settled_keys [OF reread(5) [OF this]] reread(3)
  have "reread_keys_settled (set still) (settle_recovery_report st)"
    by (simp add: reread_extends_def Let_def initial_recovery_report_def)
  then have "reread_keys_settled (set still) R"
    unfolding reread(2) reread_keys_settled_def finish_fields finish_consistent .
  then show thesis by (rule that [OF reread(1)])
qed

lemma no_lineage_class:
  assumes "lineage_evidence_class R = None" and "rr_classification_evidence R = immediate_classification_evidence i"
  shows "cr_delete_marker_lineage_incomplete i = []" "cr_multipart_upload_lineage_incomplete i = []"
    "cr_committed_writes_missing_version_id_count i = 0"
  using assms
  by (simp_all add: lineage_evidence_class_def classification_evidence_class class_evidence_def split: if_splits)

lemma lineage_class_matches:
  assumes "lineage_evidence_class R = Some c"
  shows "list_ex (matches_classification_evidence c) (rr_classification_evidence R)"
  using assms by (auto simp: lineage_evidence_class_def split: if_splits)

text \<open>When nothing but timed-out reads failed and all of them recovered, the verdict is tail latency.\<close>

lemma all_recovered_only_candidates:
  assumes un: "classify_without_reread i = CommittedObjectUnavailable" and tenant: "cr_tenant_recovered i"
    and still: "immediate_still_unavailable_keys i (rr_reread_attempted_keys R) = Inr still"
    and cand: "immediate_recovery_candidate_keys i = Inr (fset_of_list (rr_reread_attempted_keys R))"
    and settled: "reread_keys_settled (set still) R"
    and none: "rr_still_unavailable_keys R = []" "\<not> has_non_availability_result R"
    and lineage: "lineage_evidence_class R = None" "rr_classification_evidence R = immediate_classification_evidence i"
    and listing: "\<not> has_list_unavailable_or_unknown_signal i"
  shows "rr_reread_attempted_keys R \<noteq> [] \<and> immediate_failures_are_only_reread_candidates i R"
proof -
  let ?fs = "committed_read_failures i" and ?A = "rr_reread_attempted_keys R"
  from un have i: "cr_version_hash_mismatches i = []" "cr_missing_committed_delete_markers i = []"
    "cr_resurrected_deleted_objects i = []" "cr_unexpected_visible_deleted_objects i = []"
    "cr_listed_keys_unreadable i = []" "cr_unexpected_listed_objects i = []" "cr_missing_committed_versions i = []"
    "\<not> has_data_corruption_signal i" "cr_unavailable_committed_versions i = []" "has_committed_unavailable_signal i"
    by (auto simp: classify_without_reread_def split: if_splits)
  have zero: "cr_final_list_warning_count i = 0"
    using i(8) listing by (simp add: has_list_unavailable_or_unknown_signal_def has_data_corruption_signal_def)
  from settled none have B: "set still = {}" and AR: "set ?A \<subseteq> set (rr_reread_recovered_keys R)"
    by (auto simp: reread_keys_settled_def)
  from B still have missing: "cr_missing_committed_objects i = []" and sub: "set (failure_keys ?fs) \<subseteq> set ?A"
    unfolding still_unavailable_keys_Inr by auto
  have fs: "?fs \<noteq> []" using i(10) missing by (auto simp: has_committed_unavailable_signal_def)
  from cand have d: "distinct (failure_keys ?fs)"
    and A: "fset_of_list ?A = fset_of_list (failure_keys (filter tail_failure ?fs))"
    unfolding recovery_candidates by blast+
  have "set ?A = set (failure_keys (filter tail_failure ?fs))" using arg_cong [OF A, of fset] unfolding fset_of_list.rep_eq .
  then have "set ?A \<subseteq> set (failure_keys ?fs)" by (simp only: set_map set_filter) blast
  with sub have same: "set ?A = set (failure_keys ?fs)" by blast
  then have "fcard (fset_of_list ?A) = length ?fs"
    using distinct_card [OF d] by (simp only: fcard.rep_eq fset_of_list.rep_eq length_map)
  then have tail: "immediate_recovery_tail_candidate_keys i = Some (fset_of_list ?A)"
    using cand by (simp add: immediate_recovery_tail_candidate_keys_def)
  have ne: "?A \<noteq> []" using same fs by (metis map_is_Nil_conv set_empty)
  from settled AR have "recovery_key_sets_are_consistent R" "set ?A = set (rr_reread_recovered_keys R)"
    by (auto simp: reread_keys_settled_def key_sets_consistent_iff)
  then show ?thesis
    using ne tenant missing i zero no_lineage_class [OF lineage]
    unfolding immediate_failures_are_only_reread_candidates_def tail
    by (auto simp: has_data_corruption_signal_def fset_of_list.rep_eq fset_inject [symmetric])
qed

text \<open>What a reread report keeps of the report of the check, as far as its shape depends on it.\<close>

definition carries_evidence :: "CheckerReport \<Rightarrow> RecoveryStabilityReport \<Rightarrow> bool" where
  "carries_evidence i R \<longleftrightarrow>
     rr_classification R = classify_recovery_stability R i
     \<and> rr_classification_evidence R = immediate_classification_evidence i
     \<and> rr_final_list_warning_count R = cr_final_list_warning_count i
     \<and> (has_data_corruption_signal i \<longrightarrow> rr_hash_mismatches R \<noteq> [] \<or> rr_data_corruption_evidence R \<noteq> [])
     \<and> (cr_unknown_writes_materialized i \<noteq> [] \<longrightarrow> rr_ambiguous_write_evidence R \<noteq> [])"

lemma precise_shape:
  assumes "carries_evidence i R" and "rr_classification R = failure_classification i"
    and "failure_classification i \<in> {CommittedVersionMissing, VersionHashMismatch, DeleteMarkerMissing,
           DeletedObjectResurrected, ListedKeyUnreadable, UnexpectedListedObject}"
  shows "classification_shape R"
proof -
  have "class_evidence i (failure_classification i)" by (rule precise_class_evidence [OF refl]) (use assms(3) in auto)
  then have "list_ex (matches_classification_evidence (rr_classification R)) (rr_classification_evidence R)"
    using assms(1,2) by (simp add: carries_evidence_def classification_evidence_class)
  then show ?thesis using assms(2,3) by (auto simp: classification_shape_def Let_def)
qed

lemma version_unavailable_shape:
  assumes "carries_evidence i R" and "rr_classification R = CommittedVersionUnavailable"
    and "failure_classification i = CommittedVersionUnavailable"
    and "rr_hash_mismatches R = []" "rr_data_corruption_evidence R = []"
    and "immediate_still_unavailable_keys i keys = Inr still" and "reread_keys_settled (set still) R"
  shows "classification_shape R"
proof -
  have c: "class_evidence i CommittedVersionUnavailable" by (rule precise_class_evidence [OF assms(3)]) simp
  then have "list_ex (matches_classification_evidence CommittedVersionUnavailable) (rr_classification_evidence R)"
    using assms(1) by (simp add: carries_evidence_def classification_evidence_class)
  moreover have "set still \<noteq> {}"
    using assms(6) c unfolding still_unavailable_keys_Inr by (auto simp: class_evidence_def)
  ultimately show ?thesis
    using assms(2,4,5,7) by (auto simp: classification_shape_def Let_def reread_keys_settled_def)
qed

lemma tail_shape:
  assumes "rr_classification R = RecoveryTailReadLatency" and "classify_recovery_stability R i = RecoveryTailReadLatency"
    and "reread_keys_settled B R" and "sorted (rr_reread_attempted_keys R)"
  shows "classification_shape R"
proof -
  note t = classify_tail [OF assms(2)]
  from t(8) have "fset_of_list (rr_reread_attempted_keys R) = fset_of_list (rr_reread_recovered_keys R)"
    and c: "recovery_key_sets_are_consistent R"
    by (auto simp: immediate_failures_are_only_reread_candidates_def Let_def split: option.splits)
  then have "set (rr_reread_attempted_keys R) = set (rr_reread_recovered_keys R)"
    by (metis fset_of_list.rep_eq)
  then have "rr_reread_attempted_keys R = rr_reread_recovered_keys R"
    using c assms(3,4) by (auto simp: key_sets_consistent_iff reread_keys_settled_def intro: sorted_distinct_set_unique)
  with t assms(1) show ?thesis by (simp add: classification_shape_def Let_def)
qed

lemma fallback_shape:
  assumes ev: "carries_evidence i R" and c: "rr_classification R = classify_without_reread i"
    and none: "rr_still_unavailable_keys R = []" "\<not> has_non_availability_result R"
    and precise: "failure_classification i \<notin> {CommittedVersionMissing, VersionHashMismatch, DeleteMarkerMissing,
           DeletedObjectResurrected, CommittedVersionUnavailable}"
    and lineage: "lineage_evidence_class R = None" and listing: "\<not> has_list_unavailable_or_unknown_signal i"
    and notail: "\<not> (rr_reread_attempted_keys R \<noteq> [] \<and> immediate_failures_are_only_reread_candidates i R)"
    and classified: "classify_without_reread i \<noteq> HarnessError" and tenant: "cr_tenant_recovered i"
    and still: "immediate_still_unavailable_keys i (rr_reread_attempted_keys R) = Inr still"
    and cand: "immediate_recovery_candidate_keys i = Inr (fset_of_list (rr_reread_attempted_keys R))"
    and settled: "reread_keys_settled (set still) R"
  shows "classification_shape R"
proof (rule precise_shape [OF ev])
  let ?x = "classify_without_reread i"
  have e: "rr_classification_evidence R = immediate_classification_evidence i" using ev by (simp add: carries_evidence_def)
  have "?x \<noteq> CommittedObjectUnavailable"
    using all_recovered_only_candidates [OF _ tenant still cand settled none lineage e listing] notail by blast
  moreover have "?x \<noteq> DataCorruption"
    using ev none(2) by (auto simp: carries_evidence_def has_non_availability_result_def classify_without_reread_def)
  moreover have "?x \<noteq> ListUnavailableOrUnknown" using listing by (simp add: classify_without_reread_def)
  moreover have "?x \<notin> {DeleteMarkerLineageIncomplete, MultipartUploadLineageIncomplete, VersionIdMissingOnCommittedWrite}"
    using no_lineage_class [OF lineage e] by (simp add: classify_without_reread_def)
  moreover have "?x \<noteq> AmbiguousWriteMaterialized"
    using ev none(2) by (auto simp: carries_evidence_def has_non_availability_result_def classify_without_reread_def)
  moreover have "?x \<noteq> RecoveryTailReadLatency" by (rule classify_without_reread_not_tail)
  ultimately show "failure_classification i \<in> {CommittedVersionMissing, VersionHashMismatch, DeleteMarkerMissing,
           DeletedObjectResurrected, ListedKeyUnreadable, UnexpectedListedObject}"
    using precise classified by (cases ?x) (simp_all add: failure_classification_def)
qed (simp add: c failure_classification_def)

text \<open>The last rungs of the classification: nothing is unavailable and no hard evidence was found.\<close>

lemma soft_shape:
  assumes ev: "carries_evidence i R"
    and sorted: "sorted (rr_reread_attempted_keys R)"
    and classified: "classify_without_reread i \<noteq> HarnessError" and tenant: "cr_tenant_recovered i"
    and still: "immediate_still_unavailable_keys i (rr_reread_attempted_keys R) = Inr still"
    and cand: "immediate_recovery_candidate_keys i = Inr (fset_of_list (rr_reread_attempted_keys R))"
    and settled: "reread_keys_settled (set still) R"
    and x: "failure_classification i \<notin> {CommittedVersionMissing, VersionHashMismatch, DeleteMarkerMissing,
      DeletedObjectResurrected, CommittedVersionUnavailable}"
    and none: "rr_hash_mismatches R = []" "rr_data_corruption_evidence R = []" "rr_harness_errors R = []"
      "rr_still_unavailable_keys R = []" "rr_ambiguous_write_evidence R = []"
  shows "classification_shape R"
proof -
  from ev have c: "rr_classification R = classify_recovery_stability R i" by (simp add: carries_evidence_def)
  note c' = c [unfolded classify_recovery_stability_def Let_def]
  consider (listing) "has_list_unavailable_or_unknown_signal i"
    | (lineage) c where "\<not> has_list_unavailable_or_unknown_signal i" "lineage_evidence_class R = Some c"
    | (tail) "\<not> has_list_unavailable_or_unknown_signal i" "lineage_evidence_class R = None"
      "rr_reread_attempted_keys R \<noteq> [] \<and> immediate_failures_are_only_reread_candidates i R"
    | (fallback) "\<not> has_list_unavailable_or_unknown_signal i" "lineage_evidence_class R = None"
      "\<not> (rr_reread_attempted_keys R \<noteq> [] \<and> immediate_failures_are_only_reread_candidates i R)"
    by (cases "lineage_evidence_class R") blast+
  then show ?thesis
  proof cases
    case listing
    then have "rr_classification R = ListUnavailableOrUnknown" using c' x none by auto
    then show ?thesis
      using none listing ev
      by (simp add: classification_shape_def Let_def carries_evidence_def has_list_unavailable_or_unknown_signal_def)
  next
    case (lineage l)
    then have l: "rr_classification R = l" using c' x none by auto
    show ?thesis
      using lineage_class_cases [OF lineage(2)] lineage_class_matches [OF lineage(2)] none l
      by (auto simp: classification_shape_def Let_def)
  next
    case tail
    then have "rr_classification R = RecoveryTailReadLatency" using c' x none by auto
    then show ?thesis using c by (intro tail_shape [OF _ _ settled sorted]) simp_all
  next
    case fallback
    then have "rr_classification R = classify_without_reread i" using c' x none by auto
    then show ?thesis
      using x none fallback classified tenant still cand settled
      by (intro fallback_shape [OF ev]) (simp_all add: has_non_availability_result_def)
  qed
qed

lemma reread_shape:
  assumes ev: "carries_evidence i R"
    and sorted: "sorted (rr_reread_attempted_keys R)"
    and classified: "classify_without_reread i \<noteq> HarnessError" and tenant: "cr_tenant_recovered i"
    and still: "immediate_still_unavailable_keys i (rr_reread_attempted_keys R) = Inr still"
    and cand: "immediate_recovery_candidate_keys i = Inr (fset_of_list (rr_reread_attempted_keys R))"
    and settled: "reread_keys_settled (set still) R"
  shows "classification_shape R"
proof -
  let ?x = "failure_classification i"
  let ?four = "{CommittedVersionMissing, VersionHashMismatch, DeleteMarkerMissing, DeletedObjectResurrected}"
  from ev have c: "rr_classification R = classify_recovery_stability R i" by (simp add: carries_evidence_def)
  note c' = c [unfolded classify_recovery_stability_def Let_def]
  have evid: "rr_classification_evidence R \<noteq> []" if "?x \<in> ?four \<union> {CommittedVersionUnavailable}"
  proof -
    have "immediate_classification_evidence i \<noteq> []"
      by (rule classified_evidence [OF refl], rule precise_class_evidence [OF refl]) (use that in auto)
    then show ?thesis using ev by (simp add: carries_evidence_def)
  qed
  consider (precise) "?x \<in> ?four"
    | (hard) "?x \<notin> ?four" "rr_hash_mismatches R \<noteq> [] \<or> rr_data_corruption_evidence R \<noteq> [] \<or> rr_harness_errors R \<noteq> []"
    | (version) "?x = CommittedVersionUnavailable" "rr_hash_mismatches R = []" "rr_data_corruption_evidence R = []"
      "rr_harness_errors R = []"
    | (soft) "?x \<notin> ?four" "?x \<noteq> CommittedVersionUnavailable" "rr_hash_mismatches R = []"
      "rr_data_corruption_evidence R = []" "rr_harness_errors R = []"
    by blast
  then show ?thesis
  proof cases
    case precise
    then have "rr_classification R = ?x" using c' evid by simp
    then show ?thesis using precise by (intro precise_shape [OF ev]) auto
  next
    case hard
    then show ?thesis using c' by (auto simp: classification_shape_def Let_def)
  next
    case version
    then have "rr_classification R = CommittedVersionUnavailable" using c' evid by simp
    then show ?thesis by (rule version_unavailable_shape [OF ev _ version(1-3) still settled])
  next
    case soft
    show ?thesis
    proof (cases "rr_still_unavailable_keys R = [] \<and> rr_ambiguous_write_evidence R = []")
      case True
      then show ?thesis using soft by (intro soft_shape [OF ev sorted classified tenant still cand settled]) auto
    next
      case False
      then show ?thesis using c' soft by (auto simp: classification_shape_def Let_def)
    qed
  qed
qed

lemma reread_carries:
  assumes "recovery_stability_reread sha records i start max_recovery rounds = Inr R"
    and "reread_rounds sha records i start max_recovery rounds"
  shows "carries_evidence i R"
  using reread_evidence [OF assms] data_corruption_kept [OF assms] ambiguous_write_evidence_Nil [of i]
  by (auto simp: carries_evidence_def)

lemma distinct_data_evidence:
  assumes "checker_report_normal i"
  shows "distinct (immediate_data_corruption_evidence i)"
  using assms
  by (auto simp: immediate_data_corruption_evidence_def checker_report_normal_def Let_def distinct_map inj_on_def)

lemma distinct_ambiguous_evidence:
  "checker_report_normal i \<Longrightarrow> distinct (immediate_ambiguous_write_evidence i)"
  by (auto simp: immediate_ambiguous_write_evidence_def checker_report_normal_def distinct_map inj_on_def)

lemma reread_sorted:
  assumes "recovery_stability_reread sha records i start max_recovery rounds = Inr R"
    and "reread_rounds sha records i start max_recovery rounds" and "checker_report_normal i"
  shows "sorted (rr_data_corruption_evidence R) \<and> distinct (rr_data_corruption_evidence R)
    \<and> sorted (rr_classification_evidence R) \<and> distinct (rr_classification_evidence R)
    \<and> sorted (rr_ambiguous_write_evidence R) \<and> distinct (rr_ambiguous_write_evidence R)
    \<and> rr_list_warnings R = cr_list_warnings i"
  using assms(1,2)
proof (cases rule: reread_cases)
  case (skipped still)
  then show ?thesis
    using distinct_data_evidence [OF assms(3)] distinct_ambiguous_evidence [OF assms(3)]
    by (simp add: initial_recovery_report_def immediate_data_corruption_evidence_def immediate_classification_evidence_def
        immediate_ambiguous_write_evidence_def Let_def sorted_sort_dedup distinct_sort_dedup)
next
  case (reread still st)
  then have "rr_classification_evidence (re_report st) = immediate_classification_evidence i"
    "rr_list_warnings (re_report st) = cr_list_warnings i"
    by (simp_all add: reread_extends_def Let_def initial_recovery_report_def)
  then show ?thesis
    using assms(3) reread(2)
    by (simp add: sort_dedup_id checker_report_normal_def immediate_classification_evidence_def)
      (simp add: settle_recovery_report_def Let_def)
qed


subsection \<open>The failure summary\<close>

lemma evidence_classifications_sorted [simp]: "sort_dedup (evidence_classifications r) = evidence_classifications r"
  unfolding evidence_classifications_def Let_def by (intro sort_dedup_id) (simp_all add: sorted_list_of_fset.rep_eq)

lemma summary_fields_accepted:
  assumes "sorted (rr_list_warnings r)" and "distinct (rr_list_warnings r)"
  shows "validate_recovery_failure_summary_fields (recovery_failure_summary now_ms scenario r message) r =
    (if rr_classification r = RecoveryTailReadLatency \<and> rr_recovered_within_seconds r = None
     then Inl TailLatencySecondsMismatch
     else if rr_classification r = AmbiguousWriteMaterialized \<and> rr_recovered_within_seconds r \<noteq> None
     then Inl AmbiguousWriteClaimsRecovery else Inr ())"
proof -
  let ?s = "recovery_failure_summary now_ms scenario r message"
  have ok: "validate_classification_projection ?s = Inr ()"
    unfolding recovery_failure_summary_def summary_from_checker_def Let_def validate_builders
    by (simp add: validate_classification_projection_def summary_of_classification_def Let_def)
  have fields: "su_verdict ?s = VerdictFailed" "su_evidence_classifications ?s = evidence_classifications r"
    "su_final_list_warning_count ?s = rr_final_list_warning_count r" "su_list_warnings ?s = rr_list_warnings r"
    "su_classification ?s = recovery_as_str (rr_classification r)"
    "su_recovered_within_seconds ?s = rr_recovered_within_seconds r"
    using sort_dedup_id [OF assms]
    by (simp_all add: recovery_failure_summary_def with_list_warnings_def with_evidence_classifications_def
        with_recovered_within_seconds_def summary_from_checker_def summary_of_classification_def recovery_as_str_def Let_def)
  show ?thesis
    by (cases "rr_classification r")
      (simp_all add: validate_recovery_failure_summary_fields_def ok fields ensure_def)
qed

text \<open>
  C36: Exactly which failure summaries the validator accepts after a reread. The summary the
  runner writes is refused in two cases: a run classified as tail latency without a recovery time, and
  a run classified as a materialized ambiguous write that has one. Every other reread gives a summary
  that is accepted.
\<close>

theorem recovery_summary_accepted_iff:
  assumes "check_s3_history sha to_vec rec bucket tenant expect obs = Inr i"
    and "reread_rounds sha records i start max_recovery rounds"
    and "recovery_stability_reread sha records i start max_recovery rounds = Inr R"
  shows "validate_recovery_failure_summary_fields (recovery_failure_summary now_ms scenario R message) R = Inr () \<longleftrightarrow>
    (rr_classification R = RecoveryTailReadLatency \<longrightarrow> rr_recovered_within_seconds R \<noteq> None) \<and>
    (rr_classification R = AmbiguousWriteMaterialized \<longrightarrow> rr_recovered_within_seconds R = None)"
proof -
  have normal: "checker_report_normal i" by (rule checked_report_normal [OF assms(1)])
  have "rr_list_warnings R = cr_list_warnings i" using reread_sorted [OF assms(3,2) normal] by blast
  then show ?thesis
    using summary_fields_accepted [of R] normal by (auto simp: checker_report_normal_def)
qed

end
