(* ===== verification/Checker_Completeness.thy ===== *)
theory Checker_Completeness
  imports Checker_Soundness
begin

text \<open>
  The other direction of \<open>Checker_Soundness\<close>: the checker raises no false alarm. A
  store that answers as the history promises passes \<open>check_s3_history\<close>, whatever
  the order in which the concurrent reads complete.
\<close>

subsection \<open>What the reads leave alone\<close>

definition version_fields :: "CheckerReport \<Rightarrow> nat \<times> string list \<times> nat \<times> nat \<times> string list \<times> bool" where
  "version_fields r =
     (cr_committed_writes_missing_version_id_count r, cr_committed_writes_missing_version_id r,
      cr_expected_committed_versions r, cr_verified_committed_versions r,
      cr_missing_committed_delete_markers r, cr_tenant_recovered r)"

lemma evaluate_final_get_version_fields [simp]:
  "version_fields (evaluate_final_get sha r key expected attempts get) = version_fields r"
proof -
  have "version_fields (record_preserved_committed sha r' key expected attempts body) = version_fields r'" for r' body
    by (simp add: record_preserved_committed_def version_fields_def split: option.split)
  then show ?thesis
    by (cases "gr_outcome get"; cases "gr_body get"; simp add: evaluate_final_get_def Let_def split: option.split;
        simp add: version_fields_def)
qed

lemma final_scan_version_fields:
  "fold_res (final_get_step sha model) st xs = Inr t \<Longrightarrow> version_fields (fs_report t) = version_fields (fs_report st)"
  by (rule fold_res_invariant [where P = "\<lambda>t. version_fields (fs_report t) = version_fields (fs_report st)"])
    (auto simp: final_get_step_Inr note_final_get_report)

lemma deleted_scan_version_fields:
  "fold_res deleted_get_step r xs = Inr t \<Longrightarrow> version_fields t = version_fields r"
  by (rule fold_res_invariant [where P = "\<lambda>t. version_fields t = version_fields r"])
    (auto simp: deleted_get_step_def note_deleted_get_def version_fields_def split: option.splits)

subsection \<open>Loops that cannot fail\<close>

lemma fold_res_progress:
  assumes "\<And>s x. x \<in> set xs \<Longrightarrow> \<exists>t. f s x = Inr t"
  shows "\<exists>t. fold_res f s xs = Inr t"
  using assms
proof (induction xs arbitrary: s)
  case Nil
  then show ?case by simp
next
  case (Cons x xs)
  from Cons.prems [of x s] obtain u where "f s x = Inr u" by auto
  with Cons.IH [of u] Cons.prems show ?case by simp
qed

subsection \<open>A faithful store\<close>

text \<open>
  The answers of a store without versioning that kept every promise: live keys
  return their committed bytes, everything else is not found, and the listing
  shows exactly the live keys.
\<close>

definition faithful_answers :: "hasher \<Rightarrow> ObjectModel \<Rightarrow> CheckerObservations \<Rightarrow> bool" where
  "faithful_answers sha model obs \<longleftrightarrow>
     list_all (\<lambda>(k, res). case res of
         Inl _ \<Rightarrow> False
       | Inr get \<Rightarrow> (case fmlookup (om_live model) k of
                      Some e \<Rightarrow> committed_get_matches sha e get
                    | None \<Rightarrow> gr_outcome get = NotFound)) (ob_final_gets obs)
     \<and> list_all (\<lambda>(_, res). case res of Inl _ \<Rightarrow> False | Inr get \<Rightarrow> gr_outcome get = NotFound) (ob_deleted_gets obs)
     \<and> (case ob_prefix_list obs of
          Inr (Some keys) \<Rightarrow> fset_of_list keys = fmdom (om_live model)
        | _ \<Rightarrow> False)"

lemma faithful_final:
  assumes "faithful_answers sha model obs" and "x \<in> set (ob_final_gets obs)"
  obtains get where "snd x = Inr get" "good_final_read sha model (fst x) get"
    "\<not> absent_after_ambiguous_delete model (fst x) get"
proof -
  from assms obtain get where g: "snd x = Inr get"
    and c: "case fmlookup (om_live model) (fst x) of Some e \<Rightarrow> committed_get_matches sha e get | None \<Rightarrow> gr_outcome get = NotFound"
    by (cases x) (auto simp: faithful_answers_def list_all_iff split: sum.splits)
  show thesis
  proof (rule that [OF g])
    show "good_final_read sha model (fst x) get" "\<not> absent_after_ambiguous_delete model (fst x) get"
      using c by (auto simp: good_final_read_def read_accepted_def explains_body_def absent_after_ambiguous_delete_def
          committed_get_matches_def split: option.splits)
  qed
qed

lemma faithful_not_absent:
  assumes "faithful_answers sha model obs" and "(k, Inr get) \<in> set (ob_final_gets obs)"
  shows "\<not> absent_after_ambiguous_delete model k get"
  by (rule faithful_final [OF assms]) simp

lemma faithful_final_scan:
  assumes "faithful_answers sha model obs" and "quiet r"
  obtains scan where "fold_res (final_get_step sha model) (start_scan r) (ob_final_gets obs) = Inr scan"
    "quiet (fs_report scan)" "fs_delete_absent scan = {||}"
    "\<And>k. k |\<in>| fs_write_absent scan \<Longrightarrow> fmlookup (om_live model) k = None"
proof -
  have "\<exists>t. final_get_step sha model s x = Inr t" if "x \<in> set (ob_final_gets obs)" for s x
    by (rule faithful_final [OF assms(1) that]) (auto simp: final_get_step_Inr)
  from fold_res_progress [of _ "final_get_step sha model", OF this] obtain scan
    where scan: "fold_res (final_get_step sha model) (start_scan r) (ob_final_gets obs) = Inr scan" by blast
  have "quiet (fs_report scan)"
    using final_reads.scan_quiet [OF scan] assms(2) by (auto elim: faithful_final [OF assms(1)])
  moreover have "k |\<notin>| fs_delete_absent scan" for k
    using final_scan_absent [OF scan, of k] by (auto dest: faithful_not_absent [OF assms(1)])
  then have "fs_delete_absent scan = {||}" by blast
  moreover have "\<forall>k. k |\<in>| fs_write_absent scan \<longrightarrow> fmlookup (om_live model) k = None"
    by (rule fold_res_invariant [OF scan]) (auto simp: final_get_step_Inr note_final_get_sets split: if_splits)
  ultimately show thesis using that scan by blast
qed

lemma faithful_deleted_scan:
  assumes "faithful_answers sha model obs" and "quiet r"
  obtains dr where "fold_res deleted_get_step r (ob_deleted_gets obs) = Inr dr" "quiet dr"
proof -
  have ans: "\<exists>get. snd x = Inr get \<and> gr_outcome get = NotFound" if "x \<in> set (ob_deleted_gets obs)" for x
    using assms(1) that by (cases x) (auto simp: faithful_answers_def list_all_iff split: sum.splits)
  then have "\<exists>t. deleted_get_step s x = Inr t" if "x \<in> set (ob_deleted_gets obs)" for s x
    using ans [OF that] by (auto simp: deleted_get_step_def)
  from fold_res_progress [of _ deleted_get_step, OF this] obtain dr where dr: "fold_res deleted_get_step r (ob_deleted_gets obs) = Inr dr"
    by blast
  with deleted_reads.scan_quiet [OF dr] assms(2) ans that show thesis by fastforce
qed

lemma sorted_list_of_fset_small [simp]: "sorted_list_of_fset {||} = []" "sorted_list_of_fset {|x|} = [x]"
  by (simp_all add: sorted_list_of_fset.rep_eq)

lemma faithful_listing:
  assumes "faithful_answers sha model obs" and "quiet r" and "fs_delete_absent scan = {||}"
    and "\<And>k. k |\<in>| fs_write_absent scan \<Longrightarrow> fmlookup (om_live model) k = None"
    and "fmdom (om_live model) |\<inter>| om_deleted model = {||}"
    and "ob_unexplained_gets obs = []"
  obtains lr w listed where "check_listing sha model scan pre obs r empty_warnings = Inr (lr, w, listed)"
    "quiet lr" "live_count lr = live_count r" "version_fields lr = version_fields r" "ws_total_count w = 0" "ws_samples w = []"
proof -
  from assms(1) obtain keys where keys: "ob_prefix_list obs = Inr (Some keys)" "fset_of_list keys = fmdom (om_live model)"
    by (auto simp: faithful_answers_def split: sum.splits option.splits)
  have ghosts: "fs_write_absent scan |\<inter>| fmdom (om_live model) = {||}"
    using assms(4) by (auto simp: fmdom_iff_lookup)
  have nofilter: "filter (\<lambda>k. k |\<notin>| fmdom (om_live model) \<and> k |\<notin>| A) (fm_keys (om_live model)) = []" for A
    by (simp add: filter_empty_conv fmdom'_alt_def)
  have nodel: "filter (\<lambda>k. k |\<in>| fmdom (om_live model) \<and> k |\<notin>| A) (sorted_list_of_fset (om_deleted model)) = []" for A
    using assms(5) by (auto simp: filter_empty_conv)
  let ?lr = "r\<lparr>cr_final_listed_objects := Some (length keys)\<rparr>"
  have "check_listing sha model scan pre obs r empty_warnings = Inr (?lr, empty_warnings, Some (fmdom (om_live model)))"
    using keys ghosts assms(3,6) nofilter [of "{||}"] nodel
    by (simp add: check_listing_def Let_def evaluate_final_list_keys_def)
  then show thesis
    by (rule that) (use assms(2) in \<open>simp_all add: quiet_def live_count_def version_fields_def empty_warnings_def\<close>)
qed

lemma finalize_nothing_absent:
  assumes "ao_absent_on_get obs = {||}" and "\<not> ao_expect_versioning obs"
  shows "finalize_ambiguous_delete_observations r model obs = r"
proof -
  have "foldl (finalize_pending_key obs) r ks = r" for ks
    using assms by (induction ks) (simp_all add: finalize_pending_key_def)
  then show ?thesis by (simp add: finalize_ambiguous_delete_observations_def)
qed

lemma sort_report_fields:
  "version_fields (sort_report r) =
     (cr_committed_writes_missing_version_id_count r, sort (cr_committed_writes_missing_version_id r),
      cr_expected_committed_versions r, cr_verified_committed_versions r,
      sort (cr_missing_committed_delete_markers r), cr_tenant_recovered r)"
  "cr_list_warnings (sort_report r) = sort (cr_list_warnings r)"
  by (simp_all add: sort_report_def version_fields_def)

lemma success_without_versions:
  assumes "quiet r" and "version_fields r = (0, [], 0, 0, [], True)"
    and "live_count r = (n, n, [])" and "n \<le> usize_max"
    and "cr_final_list_warning_count r = 0" and "cr_list_warnings r = []"
  shows "success_predicate r"
  using assms
  by (simp add: success_predicate_def Let_def quiet_def version_fields_def live_count_def
      tolerated_ambiguous_deletes_have_audit_proof_def fcard.rep_eq)

lemma faithful_verified:
  assumes f: "fold_res (final_get_step sha model) (start_scan r) (ob_final_gets obs) = Inr scan" "quiet (fs_report scan)"
    and ans: "faithful_answers sha model obs"
    and keys: "mset (map fst (ob_final_gets obs)) = mset (final_keys model)"
    and r: "live_count r = (n, 0, [])"
  shows "live_count (fs_report scan) = (n, fcard (fmdom (om_live model)), [])"
proof -
  have "filter (\<lambda>(k, res). fmlookup (om_live model) k \<noteq> None \<and>
      \<not> answered (absent_after_ambiguous_delete model) (k, res)) (ob_final_gets obs) =
    filter (\<lambda>x. fmlookup (om_live model) (fst x) \<noteq> None) (ob_final_gets obs)"
    by (rule filter_cong) (auto dest: faithful_not_absent [OF ans])
  moreover have "fcard (fmdom (om_live model)) =
      length (filter (\<lambda>x. fmlookup (om_live model) (fst x) \<noteq> None) (ob_final_gets obs))"
  proof (rule live_keys_counted)
    show "distinct (map fst (ob_final_gets obs))"
      using keys by (metis distinct_sorted_list_of_fset final_keys_def mset_eq_imp_distinct_iff)
    show "set (map fst (ob_final_gets obs)) = fset (fmdom (om_live model) |\<union>| fmdom (om_unknown_writes model))"
      using mset_eq_setD [OF keys] by (simp add: final_keys_def)
  qed
  ultimately show ?thesis using final_scan_count [OF f] r by (simp add: live_count_def)
qed

lemma live_deleted_disjoint: "fmdom (om_live (object_model rs)) |\<inter>| om_deleted (object_model rs) = {||}"
  using object_model_key_inv [of rs] by (auto simp: key_inv_def fmdom_iff_lookup)

lemma initial_report_fields:
  assumes "\<not> alarming anomalies"
  shows "quiet (initial_report rec m anomalies ws True False)"
    "live_count (initial_report rec m anomalies ws True False) = (fcard (fmdom (om_live m)), 0, [])"
    "version_fields (initial_report rec m anomalies ws True False) = (0, [], 0, 0, [], True)"
  using assms by (simp_all add: initial_report_def quiet_def alarming_def live_count_def version_fields_def)

lemma faithful_observe_store:
  assumes ans: "faithful_answers sha (object_model rs) obs" and obs: "observes rs False obs"
    and r: "quiet r" "live_count r = (fcard (fmdom (om_live (object_model rs))), 0, [])"
      "version_fields r = (0, [], 0, 0, [], True)"
    and bound: "fcard (fmdom (om_live (object_model rs))) \<le> usize_max"
  obtains report versions where "observe_store sha rs run_id False obs r = Inr (report, versions)"
    "\<And>audit. success_predicate (report\<lparr>cr_audit := audit\<rparr>)"
proof -
  let ?m = "object_model rs" and ?n = "fcard (fmdom (om_live (object_model rs)))"
  from faithful_final_scan [OF ans r(1)] obtain scan where
    scan: "fold_res (final_get_step sha ?m) (start_scan r) (ob_final_gets obs) = Inr scan" "quiet (fs_report scan)"
    and sets: "fs_delete_absent scan = {||}" "\<And>k. k |\<in>| fs_write_absent scan \<Longrightarrow> fmlookup (om_live ?m) k = None"
    by blast
  from faithful_deleted_scan [OF ans scan(2)] obtain dr where
    dr: "fold_res deleted_get_step (fs_report scan) (ob_deleted_gets obs) = Inr dr" "quiet dr" by blast
  from ans obtain keys where keys: "ob_prefix_list obs = Inr (Some keys)" "fset_of_list keys = fmdom (om_live ?m)"
    by (auto simp: faithful_answers_def split: sum.splits option.splits)
  have "unexplained_listed_keys ?m (fset_of_list keys) = []"
    by (simp add: keys unexplained_listed_keys_def filter_empty_conv)
  then have "ob_unexplained_gets obs = []" using observes_unexplained [OF obs keys(1)] by simp
  from faithful_listing [OF ans dr(2) sets live_deleted_disjoint this, of "key_prefix run_id"]
  obtain lr w listed where
    l: "check_listing sha ?m scan (key_prefix run_id) obs dr empty_warnings = Inr (lr, w, listed)"
    and lr: "quiet lr" "live_count lr = live_count dr" "version_fields lr = version_fields dr"
    and w: "ws_total_count w = 0" "ws_samples w = []" by blast
  let ?r = "lr\<lparr>cr_final_list_warning_count := ws_total_count w, cr_list_warnings := ws_samples w\<rparr>"
  have "finalize_ambiguous_delete_observations ?r ?m (delete_observations rs False scan (no_versions dr) listed) = ?r"
    by (rule finalize_nothing_absent) (simp_all add: delete_observations_def sets)
  then have run: "observe_store sha rs run_id False obs r = Inr (sort_report ?r, no_versions dr)"
    using scan(1) dr(1) l by (simp add: observe_store_def Let_def no_versions_def)
  have "live_count lr = (?n, ?n, [])"
    using faithful_verified [OF scan ans observes_final [OF obs] r(2)] lr(2) deleted_reads.scan_count [OF dr(1)] by simp
  moreover have "version_fields lr = (0, [], 0, 0, [], True)"
    using lr(3) deleted_scan_version_fields [OF dr(1)] final_scan_version_fields [OF scan(1)] r(3) by simp
  ultimately have "success_predicate ((sort_report ?r)\<lparr>cr_audit := audit\<rparr>)" for audit
    using lr(1) w bound
    by (intro success_without_versions [of _ ?n])
      (simp_all add: quiet_def sort_report_def live_count_def version_fields_def)
  with run that show thesis by blast
qed

lemma faithful_store_run:
  assumes "validate_history_scope_and_order (rs_records rec) (rs_scenario rec) (rs_run_id rec) bucket = Inr ()"
    and "successful_read_anomalies sha (rs_records rec) = Inr anomalies" and "\<not> alarming anomalies"
    and "observes (rs_records rec) False obs" and "faithful_answers sha (object_model (rs_records rec)) obs"
    and "ob_records obs = rs_records rec @ tl_records"
    and "validate_history_scope_and_order (ob_records obs) (rs_scenario rec) (rs_run_id rec) bucket = Inr ()"
    and "validate_history_phase_boundary (rs_records rec) tl_records = Inr ()"
    and "\<And>records. to_vec records \<noteq> None"
    and "fcard (fmdom (om_live (object_model (rs_records rec)))) \<le> usize_max"
  shows "\<exists>report. check_s3_history sha to_vec rec bucket True False obs = Inr report \<and> cr_passed report"
proof -
  let ?rs = "rs_records rec"
  let ?r = "initial_report rec (object_model ?rs) anomalies (list_history_warnings ?rs) True False"
  from faithful_observe_store [OF assms(5,4) initial_report_fields [OF assms(3)] assms(10)]
  obtain report versions where
    run: "observe_store sha ?rs (rs_run_id rec) False obs ?r = Inr (report, versions)"
    and ok: "\<And>audit. success_predicate (report\<lparr>cr_audit := audit\<rparr>)" by blast
  have sha: "\<exists>h. checker_history_records_sha256 sha to_vec records = Inr h" for records
    using assms(9) [of records] by (auto simp: checker_history_records_sha256_def)
  then obtain h where h: "checker_history_records_sha256 sha to_vec ?rs = Inr h" by blast
  from sha [of tl_records] assms(6-8) obtain audit where
    "checker_audit sha to_vec rec bucket obs versions h = Inr audit"
    by (auto simp: checker_audit_def lift_history_def Let_def)
  with assms(1,2) run h ok show ?thesis
    by (simp add: check_s3_history_def Let_def lift_history_def lift_run_panic_def)
qed


subsection \<open>A concrete run\<close>

text \<open>One committed and versioned object that was read once, and a store that still has it.\<close>

definition demo_records :: "OperationRecord list" where
  "demo_records =
     [(sample_op ''op-1'' Put ''k'' ''h'' Ok 1 2)\<lparr>op_version_id := Some ''v1''\<rparr>,
      sample_op ''op-2'' Get ''k'' ''h'' Ok 3 4]"

definition demo_recorder :: RecorderState where
  "demo_recorder = (recorder_create ''eio'' ''run'')\<lparr>rs_records := demo_records\<rparr>"

definition demo_get :: GetObjectResult where
  "demo_get = \<lparr>gr_outcome = Ok, gr_http_status = Some 200, gr_error = None, gr_body = Some [0, 0, 0]\<rparr>"

definition demo_version :: CommittedVersion where
  "demo_version = \<lparr>cv_key = ''k'', cv_version_id = ''v1'', cv_sha256 = ''h'', cv_size_bytes = 3, cv_kind = Put\<rparr>"

definition demo_entry :: ObjectVersionEntry where
  "demo_entry = \<lparr>ov_key = ''k'', ov_version_id = Some ''v1'', ov_is_latest = True, ov_is_delete_marker = False\<rparr>"

definition demo_observations :: CheckerObservations where
  "demo_observations =
     \<lparr>ob_final_gets = [(''k'', Inr demo_get)], ob_deleted_gets = [],
      ob_version_gets = [(demo_version, Inr demo_get)],
      ob_version_list = Inr (Some [demo_entry]),
      ob_candidate_gets = [], ob_prefix_list = Inr (Some [''k'']), ob_unexplained_gets = [],
      ob_records = demo_records, ob_started_at_ms = 5, ob_completed_at_ms = 6\<rparr>"

lemma demo_observations_simps [simp]:
  "ob_deleted_gets demo_observations = []" "ob_version_list demo_observations = Inr (Some [demo_entry])"
  "ob_candidate_gets demo_observations = []" "ob_prefix_list demo_observations = Inr (Some [''k''])"
  "ob_unexplained_gets demo_observations = []" "ob_records demo_observations = demo_records"
  by (simp_all add: demo_observations_def)

lemma demo_recorder_simps [simp]:
  "rs_records demo_recorder = demo_records" "rs_scenario demo_recorder = ''eio''" "rs_run_id demo_recorder = ''run''"
  by (simp_all add: demo_recorder_def recorder_create_def)

lemma demo_valid: "validate_history_scope_and_order demo_records ''eio'' ''run'' ''b'' = Inr ()"
  unfolding validate_history_scope_and_order_def validate_mode_iff
  by (simp add: demo_records_def sample_eval)

lemma demo_model:
  "object_model demo_records =
     empty_model\<lparr>om_live := fmupd ''k'' \<lparr>eo_sha256 = ''h'', eo_size_bytes = 3\<rparr> fmempty, om_committed_writes := 1\<rparr>"
  by (simp add: demo_records_def object_model_def apply_record_to_model_def apply_committed_write_def
      record_version_write_source_def version_write_source_budget_def mutation_attempts_def
      mark_superseded_version_sources_def mark_superseded_ambiguous_writes_def mark_superseded_attempts_def
      record_object_def sample_op_def empty_model_def Let_def)

lemma demo_anomalies: "\<exists>a. successful_read_anomalies sha demo_records = Inr a \<and> \<not> alarming a"
  by (simp add: demo_records_def successful_read_anomalies_def enumerate_simps anomaly_step_def anomaly_get_def
      evaluate_whole_get_value record_object_def init_anomaly_scan_def sample_op_def Let_def read_value_def
      unwrap_or_0_def alarming_def no_anomalies_def split: option.split)

lemma demo_lineage:
  "committed_version_lineage demo_records = empty_lineage\<lparr>vl_versions := [demo_version]\<rparr>"
  by (simp add: demo_records_def committed_version_lineage_def lineage_step_def is_committed_write_def
      is_committed_delete_def is_unconfirmed_delete_def sample_op_def record_object_def empty_lineage_def
      demo_version_def Let_def)

lemma demo_observes: "observes demo_records expect demo_observations"
  by (simp add: observes_def demo_observations_def demo_model demo_lineage final_keys_def deleted_probe_keys_def Let_def
      unexplained_listed_keys_def empty_model_def empty_lineage_def ambiguous_version_candidates_def candidate_step_def
      demo_version_def demo_entry_def)

lemma demo_faithful: "faithful_answers (\<lambda>_. ''h'') (object_model demo_records) demo_observations"
  by (simp add: faithful_answers_def demo_observations_def demo_model demo_get_def committed_get_matches_def
      object_matches_def)

lemma demo_run_unversioned:
  "\<exists>report. check_s3_history (\<lambda>_. ''h'') (\<lambda>_. Some []) demo_recorder ''b'' True False demo_observations = Inr report \<and>
     cr_passed report"
proof -
  from demo_anomalies [of "\<lambda>_. ''h''"] obtain a where a: "successful_read_anomalies (\<lambda>_. ''h'') demo_records = Inr a"
    "\<not> alarming a" by blast
  show ?thesis
    by (rule faithful_store_run [where tl_records = "[]"])
      (use a demo_valid demo_observes demo_faithful in
        \<open>simp_all add: demo_observations_def validate_history_phase_boundary_def demo_model usize_max_def fcard.rep_eq\<close>)
qed

lemma demo_no_anomalies: "successful_read_anomalies sha demo_records = Inr no_anomalies"
  by (simp add: demo_records_def successful_read_anomalies_def enumerate_simps anomaly_step_def anomaly_get_def
      evaluate_whole_get_value record_object_def init_anomaly_scan_def sample_op_def Let_def read_value_def
      unwrap_or_0_def split: option.split)

lemma demo_expected_latest:
  "expected_latest_versions demo_records = fmupd ''k''
     \<lparr>lv_key = ''k'', lv_version_id = Some ''v1'', lv_is_latest = True, lv_is_delete_marker = False\<rparr> fmempty"
  by (simp add: expected_latest_versions_def checker_expected_version_listing_def promised_versions_def
      promised_version_def listing_record_def latest_by_key_def demo_records_def sample_op_def immutable_version_id_def Let_def
      List.map_filter_def is_object_write_def) (rule exI [of _ False], simp)

lemma demo_latest: "latest_version_entries [demo_entry] = (fmupd ''k'' demo_entry fmempty, [])"
  by (simp add: latest_version_entries_def latest_step_def demo_entry_def)

lemma demo_conflicts: "listed_version_lineage_conflicts demo_records (committed_version_lineage demo_records) [object_entry_identity demo_entry] = []"
  by (simp add: listed_version_lineage_conflicts_def conflict_step_def object_entry_identity_def demo_entry_def
      immutable_version_id_def Let_def)

lemma demo_check_versions:
  "\<exists>v. check_versions (\<lambda>_. ''h'') demo_records (object_model demo_records) pre demo_observations r = Inr v \<and>
     vp_report v = r\<lparr>cr_expected_committed_versions := 1, cr_committed_writes_missing_version_id_count := 0,
       cr_committed_writes_missing_version_id := [],
       cr_verified_committed_versions := cr_verified_committed_versions r + 1,
       cr_missing_committed_delete_markers := []\<rparr> \<and> vp_warnings v = empty_warnings"
proof -
  let ?l = "committed_version_lineage demo_records"
  have read: "fold_res (version_get_step (\<lambda>_. ''h'')) (r', []) (ob_version_gets demo_observations) =
      Inr (r'\<lparr>cr_verified_committed_versions := cr_verified_committed_versions r' + 1\<rparr>,
        [checker_data_version_audit (\<lambda>_. ''h'') demo_version demo_get])" for r'
    by (simp add: demo_observations_def version_get_step_def client_result_def evaluate_committed_version_get_def
        demo_get_def demo_version_def)
  have none: "materialized_ambiguous_versions (\<lambda>_. ''h'') (object_model demo_records) ?l [demo_entry] [] = Inr ([], [])"
    by (simp add: materialized_ambiguous_versions_def ambiguous_version_candidates_def candidate_step_def demo_lineage
        demo_version_def demo_entry_def empty_lineage_def materialize_observations_def lift_run_panic_def)
  have present: "missing_committed_version_entries (vl_versions ?l) [demo_entry] = ([], [])"
    "missing_committed_delete_markers (vl_delete_markers ?l) [demo_entry] = []"
    by (simp_all add: missing_committed_version_entries_def missing_committed_delete_markers_def demo_lineage
        demo_version_def demo_entry_def empty_lineage_def listed_pairs_def List.map_filter_def Let_def)
  have latest: "evaluate_latest_version_lineage r' (object_model demo_records) (expected_latest_versions demo_records)
      (fmupd ''k'' demo_entry fmempty) [] (vl_delete_markers ?l) = r'" for r'
    by (simp add: evaluate_latest_version_lineage_def demo_expected_latest check_expected_latest_def
        check_unexpected_latest_def fm_entries_def fm_keys_def matches_expected_latest_def demo_entry_def demo_model
        empty_model_def Let_def)
  have listed: "check_listed_versions (\<lambda>_. ''h'') demo_records (object_model demo_records) ?l [demo_entry] [] r' =
      Inr (r'\<lparr>cr_missing_committed_delete_markers := []\<rparr>)" for r'
    by (simp add: check_listed_versions_def none latest record_version_listing_def present demo_latest demo_conflicts
        record_materialized_def Let_def)
  show ?thesis
    by (simp add: check_versions_def Let_def read client_result_def listed record_lineage_def)
      (simp add: demo_lineage empty_lineage_def)
qed

lemma demo_run_versioned:
  "\<exists>report. check_s3_history (\<lambda>_. ''h'') (\<lambda>_. Some []) demo_recorder ''b'' True True demo_observations = Inr report \<and>
     cr_passed report"
proof -
  let ?sha = "\<lambda>_. ''h''" and ?m = "object_model demo_records" and ?obs = demo_observations
  let ?r = "initial_report demo_recorder ?m no_anomalies (list_history_warnings demo_records) True True"
  obtain scan where scan: "fold_res (final_get_step ?sha ?m) (start_scan ?r) (ob_final_gets ?obs) = Inr scan"
    and s: "scan = (start_scan ?r)\<lparr>fs_report := ?r\<lparr>cr_verified_live_objects := 1\<rparr>\<rparr>"
    by (simp add: demo_observations_def final_get_step_def client_result_def note_final_get_def demo_model demo_get_def
        absent_after_ambiguous_delete_def evaluate_final_get_def object_matches_def matching_active_ambiguous_write_def
        committed_get_matches_def record_preserved_committed_def empty_model_def fm_values_at_def initial_report_def)
  obtain v where v: "check_versions ?sha demo_records ?m (key_prefix ''run'') ?obs (fs_report scan) = Inr v"
    and vr: "vp_report v = (fs_report scan)\<lparr>cr_expected_committed_versions := 1,
       cr_committed_writes_missing_version_id_count := 0, cr_committed_writes_missing_version_id := [],
       cr_verified_committed_versions := cr_verified_committed_versions (fs_report scan) + 1,
       cr_missing_committed_delete_markers := []\<rparr>" "vp_warnings v = empty_warnings"
    using demo_check_versions by blast
  have l: "check_listing ?sha ?m scan (key_prefix ''run'') ?obs (vp_report v) empty_warnings =
      Inr ((vp_report v)\<lparr>cr_final_listed_objects := Some 1\<rparr>, empty_warnings, Some {|''k''|})"
    by (simp add: check_listing_def demo_observations_def client_result_def s evaluate_final_list_keys_def demo_model
        empty_model_def fm_keys_def Let_def)
  have fin: "finalize_ambiguous_delete_observations r' ?m obs' = r'" for r' obs'
    by (simp add: finalize_ambiguous_delete_observations_def demo_model empty_model_def)
  have store: "observe_store ?sha demo_records ''run'' True ?obs ?r = Inr (sort_report
      ((vp_report v)\<lparr>cr_final_listed_objects := Some 1, cr_final_list_warning_count := 0, cr_list_warnings := []\<rparr>), v)"
    using scan v l by (simp add: observe_store_def Let_def vr(2) fin) (simp add: empty_warnings_def)
  have ok: "success_predicate ((sort_report ((vp_report v)\<lparr>cr_final_listed_objects := Some 1,
      cr_final_list_warning_count := 0, cr_list_warnings := []\<rparr>))\<lparr>cr_audit := audit\<rparr>)" for audit
    by (simp add: success_predicate_def sort_report_def vr s initial_report_def demo_model empty_model_def no_anomalies_def
        fcard.rep_eq usize_max_def tolerated_ambiguous_deletes_have_audit_proof_def Let_def)
  obtain audit where "checker_audit ?sha (\<lambda>_. Some []) demo_recorder ''b'' ?obs v ''h'' = Inr audit"
    using demo_valid by (auto simp: checker_audit_def lift_history_def validate_history_phase_boundary_def
        checker_history_records_sha256_def)
  then show ?thesis
    using store demo_valid demo_no_anomalies ok
    by (simp add: check_s3_history_def lift_history_def lift_run_panic_def checker_history_records_sha256_def Let_def)
qed


theorem passed_check_live_objects_witness:
  "\<exists>get. (''k'', Inr get) \<in> set (ob_final_gets demo_observations) \<and>
    (gr_outcome get = Ok \<and> (\<exists>body. gr_body get = Some body \<and>
       explains_body (\<lambda>_. ''h'') (Some \<lparr>eo_sha256 = ''h'', eo_size_bytes = 3\<rparr>)
         (unknown_writes_of (object_model demo_records) ''k'') body) \<or>
     gr_outcome get = NotFound \<and> ''k'' |\<in>| om_ambiguous_delete_pending (object_model demo_records) \<and>
     (\<exists>keys. ob_prefix_list demo_observations = Inr (Some keys) \<and> ''k'' \<notin> set keys))"
proof -
  from demo_run_versioned obtain report where
    run: "check_s3_history (\<lambda>_. ''h'') (\<lambda>_. Some []) demo_recorder ''b'' True True demo_observations = Inr report"
    "cr_passed report" by blast
  have "fmlookup (om_live (object_model (rs_records demo_recorder))) ''k'' = Some \<lparr>eo_sha256 = ''h'', eo_size_bytes = 3\<rparr>"
    by (simp add: demo_model)
  from passed_check_live_objects [OF run _ this] show ?thesis
    unfolding demo_recorder_simps using demo_observes by blast
qed


theorem passed_check_versions_witness:
  "\<exists>get. (demo_version, Inr get) \<in> set (ob_version_gets demo_observations) \<and> reads_version (\<lambda>_. ''h'') demo_version get"
proof -
  from demo_run_versioned obtain report where
    "check_s3_history (\<lambda>_. ''h'') (\<lambda>_. Some []) demo_recorder ''b'' True True demo_observations = Inr report"
    "cr_passed report" by blast
  from passed_check_versions [OF this] show ?thesis
    unfolding demo_recorder_simps Let_def using demo_observes by (auto simp: demo_lineage)
qed

theorem passed_check_history_reads_witness:
  "writes_value demo_records ''k'' (read_value (demo_records ! 1))"
proof -
  from demo_run_versioned obtain report where
    run: "check_s3_history (\<lambda>_. ''h'') (\<lambda>_. Some []) demo_recorder ''b'' True True demo_observations = Inr report"
    "cr_passed report" by blast
  show ?thesis
    using passed_check_history_reads [OF run, of "demo_records ! 1" "''k''"]
    by (simp add: demo_records_def whole_read_def sample_op_def)
qed

end
