(* ===== verification/Recovery_Demo.thy ===== *)
theory Recovery_Demo
  imports Recovery_Validation Checker_Completeness
begin

text \<open>
  A failing check and its rereads on concrete inputs: the read of the only object times out during the
  check. The witnesses of the recovery properties, and the two rereads whose
  failure summary the artifact validator refuses.
\<close>

subsection \<open>A check whose read times out\<close>

definition slow_get :: GetObjectResult where
  "slow_get = \<lparr>gr_outcome = Timeout, gr_http_status = None, gr_error = Some ''get object timed out'', gr_body = None\<rparr>"

definition slow_record :: OperationRecord where
  "slow_record = (sample_op ''op-3'' Get ''k'' ''h'' Timeout 5 6)
     \<lparr>op_value_sha256 := None, op_size_bytes := None, op_http_status := None, op_error := Some ''get object timed out''\<rparr>"

definition slow_observations :: CheckerObservations where
  "slow_observations = demo_observations
     \<lparr>ob_final_gets := [(''k'', Inr slow_get)], ob_records := demo_records @ [slow_record]\<rparr>"

definition timed_out_check :: "CheckerReport \<Rightarrow> bool" where
  "timed_out_check i \<longleftrightarrow>
     cr_tenant_recovered i \<and> \<not> cr_passed i \<and> cr_missing_committed_objects i = []
     \<and> cr_unavailable_committed_objects i = [Observed ''k'' Timeout None (Some ''get object timed out'') None]
     \<and> cr_unknown_committed_read_failures i = [] \<and> cr_hash_mismatches i = [] \<and> cr_successful_corrupted_reads i = []
     \<and> cr_unexpected_visible_deleted_objects i = [] \<and> cr_unknown_writes_materialized i = []
     \<and> cr_unknown_write_value_conflicts i = [] \<and> cr_final_list_warning_count i = 0 \<and> cr_list_warnings i = []
     \<and> cr_committed_writes_missing_version_id_count i = 0 \<and> cr_committed_writes_missing_version_id i = []
     \<and> cr_missing_committed_versions i = [] \<and> cr_unavailable_committed_versions i = []
     \<and> cr_version_hash_mismatches i = [] \<and> cr_missing_committed_delete_markers i = []
     \<and> cr_resurrected_deleted_objects i = [] \<and> cr_listed_keys_unreadable i = [] \<and> cr_unexpected_listed_objects i = []
     \<and> cr_delete_marker_lineage_incomplete i = [] \<and> cr_multipart_upload_lineage_incomplete i = []"

lemma slow_valid:
  "validate_history_scope_and_order (demo_records @ [slow_record]) ''eio'' ''run'' ''b'' = Inr ()"
  unfolding validate_history_scope_and_order_def validate_mode_iff
  by (simp add: demo_records_def slow_record_def sample_eval)

lemma slow_run:
  "\<exists>i. check_s3_history (\<lambda>_. ''h'') (\<lambda>_. Some []) demo_recorder ''b'' True False slow_observations = Inr i \<and>
     timed_out_check i"
proof -
  let ?sha = "\<lambda>_. ''h''" and ?m = "object_model demo_records" and ?obs = slow_observations
  let ?r = "initial_report demo_recorder ?m no_anomalies (list_history_warnings demo_records) True False"
  let ?u = "?r\<lparr>cr_unavailable_committed_objects := [Observed ''k'' Timeout None (Some ''get object timed out'') None]\<rparr>"
  have scan: "fold_res (final_get_step ?sha ?m) (start_scan ?r) (ob_final_gets ?obs) = Inr ((start_scan ?r)\<lparr>fs_report := ?u\<rparr>)"
    by (simp add: slow_observations_def final_get_step_def client_result_def note_final_get_def demo_model slow_get_def
        absent_after_ambiguous_delete_def evaluate_final_get_def committed_get_matches_def empty_model_def fm_values_at_def
        initial_report_def)
  have l: "check_listing ?sha ?m ((start_scan ?r)\<lparr>fs_report := ?u\<rparr>) (key_prefix ''run'') ?obs r' empty_warnings =
      Inr (r'\<lparr>cr_final_listed_objects := Some 1\<rparr>, empty_warnings, Some {|''k''|})" for r'
    by (simp add: check_listing_def slow_observations_def client_result_def evaluate_final_list_keys_def demo_model
        empty_model_def fm_keys_def Let_def)
  have fin: "finalize_ambiguous_delete_observations r' ?m obs' = r'" for r' obs'
    by (simp add: finalize_ambiguous_delete_observations_def demo_model empty_model_def)
  let ?s = "sort_report (?u\<lparr>cr_final_listed_objects := Some 1, cr_final_list_warning_count := 0, cr_list_warnings := []\<rparr>)"
  have store: "observe_store ?sha demo_records ''run'' False ?obs ?r = Inr (?s, no_versions ?u)"
    using scan l by (simp add: observe_store_def Let_def fin no_versions_def slow_observations_def)
      (simp add: empty_warnings_def)
  obtain audit where audit: "checker_audit ?sha (\<lambda>_. Some []) demo_recorder ''b'' ?obs (no_versions ?u) ''h'' = Inr audit"
    using slow_valid by (auto simp: checker_audit_def lift_history_def validate_history_phase_boundary_def
        checker_history_records_sha256_def slow_observations_def started_sequences_def ended_sequences_def
        demo_records_def slow_record_def sample_op_def Let_def)
  have fields: "timed_out_check (?s\<lparr>cr_audit := Some audit, cr_passed := success_predicate (?s\<lparr>cr_audit := Some audit\<rparr>)\<rparr>)"
    by (simp add: timed_out_check_def sort_report_def initial_report_def no_anomalies_def success_predicate_def)
  show ?thesis
    using store audit demo_valid demo_no_anomalies fields
    by (simp add: check_s3_history_def lift_history_def lift_run_panic_def checker_history_records_sha256_def Let_def)
qed

subsection \<open>Rereads\<close>

abbreviation slow_records :: "OperationRecord list" where
  "slow_records \<equiv> demo_records @ [slow_record]"

definition reread_round :: "GetObjectResult \<Rightarrow> bool \<Rightarrow> RereadRound" where
  "reread_round get cut_off = \<lparr>rd_expired_asleep = False, rd_answers = [(''k'', Inr get)], rd_cut_off = cut_off,
     rd_elapsed_seconds = 1, rd_expired_after = False\<rparr>"

lemma slow_is_tail: "is_recovery_tail_read_failure Timeout None (Some ''get object timed out'')"
  by (simp add: is_recovery_tail_read_failure_def to_ascii_lowercase_def ascii_lower_char_def str_contains_def)

lemma slow_keys:
  assumes "''k'' |\<in>| fmdom (om_live model)"
  shows "recovery_tail_candidate_keys [slow_record] model = [''k'']"
  using assms slow_is_tail
  by (simp add: recovery_tail_candidate_keys_def List.map_filter_simps tail_candidate_def slow_record_def sample_op_def)

lemma timed_out_keys:
  assumes "timed_out_check i"
  shows "immediate_still_unavailable_keys i [''k''] = Inr []"
    and "immediate_recovery_candidate_keys i = Inr {|''k''|}"
    and "immediate_recovery_tail_candidate_keys i = Some {|''k''|}"
    and "classify_without_reread i = CommittedObjectUnavailable"
    and "immediate_classification_evidence i = []" and "immediate_data_corruption_evidence i = []"
    and "immediate_ambiguous_write_evidence i = []"
proof -
  note i = assms [unfolded timed_out_check_def]
  have k: "failure_key (Observed ''k'' Timeout None (Some ''get object timed out'') None) = Some ''k''"
    by (simp add: failure_key_def)
  have e: "failure_evidence (Observed ''k'' Timeout None (Some ''get object timed out'') None) =
      Some \<lparr>rf_key = ''k'', rf_outcome = Timeout, rf_http_status = None, rf_error = Some ''get object timed out''\<rparr>"
    by (simp add: failure_evidence_def)
  show "immediate_still_unavailable_keys i [''k''] = Inr []"
    by (simp add: immediate_still_unavailable_keys_def still_unavailable_step_def i k Let_def)
  show c: "immediate_recovery_candidate_keys i = Inr {|''k''|}"
    by (simp add: immediate_recovery_candidate_keys_def candidate_key_step_def i k e slow_is_tail)
  show "immediate_recovery_tail_candidate_keys i = Some {|''k''|}"
    by (simp add: immediate_recovery_tail_candidate_keys_def c i fcard.rep_eq)
  show "classify_without_reread i = CommittedObjectUnavailable"
    by (simp add: classify_without_reread_def i has_data_corruption_signal_def final_list_content_corruption_signal_def
        has_committed_unavailable_signal_def)
  show "immediate_classification_evidence i = []" "immediate_data_corruption_evidence i = []"
    "immediate_ambiguous_write_evidence i = []"
    by (simp_all add: immediate_classification_evidence_def missing_id_count_evidence_def sort_dedup_def i
        data_corruption_evidence_Nil ambiguous_write_evidence_Nil final_list_content_corruption_signal_def)
qed

lemma slow_reread_keys:
  "checked_model slow_records 2 = object_model demo_records"
  "recovery_tail_candidate_keys (drop 2 slow_records) (object_model demo_records) = [''k'']"
proof -
  have t: "take 2 slow_records = demo_records" "drop 2 slow_records = [slow_record]" by (simp_all add: demo_records_def)
  then show "checked_model slow_records 2 = object_model demo_records" by simp
  show "recovery_tail_candidate_keys (drop 2 slow_records) (object_model demo_records) = [''k'']"
    unfolding t by (rule slow_keys) (simp add: demo_model)
qed

text \<open>The object is back in the first round; \<open>cut_off\<close> says whether the deadline fell right after its answer.\<close>

lemma slow_reread:
  assumes "timed_out_check i"
  obtains R where "recovery_stability_reread (\<lambda>_. ''h'') slow_records i 2 60 [reread_round demo_get cut_off] = Inr R"
    and "rr_classification R = RecoveryTailReadLatency"
    and "rr_recovered_within_seconds R = (if cut_off then None else Some 1)"
    and "rr_list_warnings R = []"
    and "reread_ready (\<lambda>_. ''h'') slow_records i 2 60 [reread_round demo_get cut_off]"
proof -
  note i = assms [unfolded timed_out_check_def] and k = timed_out_keys [OF assms]
  let ?expected = "reread_expectations (object_model demo_records) [''k'']"
  let ?r0 = "initial_recovery_report i [''k''] [] 60"
  let ?init = "\<lparr>re_report = ?r0, re_pending = {|''k''|}\<rparr>"
  let ?st = "\<lparr>re_report = ?r0\<lparr>rr_reread_recovered_keys := [''k''],
      rr_recovered_within_seconds := (if cut_off then None else Some 1)\<rparr>, re_pending = {||}\<rparr>"
  have e: "fmlookup ?expected ''k'' = Some (\<lparr>eo_sha256 = ''h'', eo_size_bytes = 3\<rparr>, [])" "fmdom ?expected = {|''k''|}"
    by (simp_all add: reread_expectations_def demo_model List.map_filter_simps empty_model_def fm_values_at_def)
  have r0: "rr_hash_mismatches ?r0 = []" "rr_reread_recovered_keys ?r0 = []" "rr_recovered_within_seconds ?r0 = None"
    by (simp_all add: initial_recovery_report_def i)
  have b: "reread_batch (\<lambda>_. ''h'') ?expected ?init [(''k'', Inr demo_get)] =
      Inr (False, \<lparr>re_report = ?r0\<lparr>rr_reread_recovered_keys := [''k'']\<rparr>, re_pending = {||}\<rparr>)"
    using e(1) r0 by (simp add: evaluate_recovery_reread_get_def committed_get_matches_def demo_get_def object_matches_def)
  have loop: "reread_loop (\<lambda>_. ''h'') ?expected ?init [reread_round demo_get cut_off] = Inr ?st"
    using b r0 by (auto simp: reread_round_def note_recovered_def)
  let ?R = "finish_recovery_stability_report (settle_recovery_report ?st) i"
  have run: "recovery_stability_reread (\<lambda>_. ''h'') slow_records i 2 60 [reread_round demo_get cut_off] = Inr ?R"
    using loop unfolding recovery_stability_reread_def Let_def slow_reread_keys k(1) res_bind_simps e(2)
    by (simp add: i del: reread_loop.simps)
  have c: "rr_classification ?R = RecoveryTailReadLatency"
    by (simp add: classify_recovery_stability_def failure_classification_def settle_recovery_report_def Let_def
        initial_recovery_report_def k i sort_dedup_def has_list_unavailable_or_unknown_signal_def lineage_evidence_class_def
        immediate_failures_are_only_reread_candidates_def key_sets_consistent_iff)
  have "rereads (\<lambda>_. ''h'') ?expected ?init [reread_round demo_get cut_off]"
    using b by (simp add: reread_round_def round_answers_def)
  then have ready: "reread_ready (\<lambda>_. ''h'') slow_records i 2 60 [reread_round demo_get cut_off]"
    unfolding reread_ready_def reread_rounds_def slow_reread_keys k by simp
  show thesis
    by (rule that [OF run c _ _ ready]) (simp_all add: settle_recovery_report_def Let_def initial_recovery_report_def i sort_dedup_def)
qed

text \<open>The same check, but a second write of unknown outcome, whose value the reread finds.\<close>

abbreviation unsure_records :: "OperationRecord list" where
  "unsure_records \<equiv> [sample_op ''op-1'' Put ''k'' ''h'' Ok 1 2, sample_op ''op-2'' Put ''k'' ''g'' Timeout 3 4] @ [slow_record]"

definition unsure_sha :: hasher where
  "unsure_sha body = (if body = [0, 0, 0] then ''h'' else ''g'')"

definition unsure_get :: GetObjectResult where
  "unsure_get = \<lparr>gr_outcome = Ok, gr_http_status = Some 200, gr_error = None, gr_body = Some [1, 1, 1]\<rparr>"

lemma unsure_model:
  "fmlookup (om_live (checked_model unsure_records 2)) ''k'' = Some \<lparr>eo_sha256 = ''h'', eo_size_bytes = 3\<rparr>"
  "\<exists>a. unknown_writes_of (checked_model unsure_records 2) ''k'' = [a] \<and> aw_superseded_by a = None
     \<and> aw_object a = \<lparr>eo_sha256 = ''g'', eo_size_bytes = 3\<rparr>"
  by (simp_all add: object_model_def apply_record_to_model_def apply_committed_write_def apply_ambiguous_write_def
      push_unknown_write_def attempt_of_def
      record_version_write_source_def version_write_source_budget_def mutation_attempts_def
      mark_superseded_version_sources_def mark_superseded_ambiguous_writes_def mark_superseded_attempts_def
      record_object_def sample_op_def empty_model_def Let_def fm_values_at_def fm_push_def)

lemma unsure_reread_keys:
  "recovery_tail_candidate_keys (drop 2 unsure_records) (checked_model unsure_records 2) = [''k'']"
proof -
  have "drop 2 unsure_records = [slow_record]" by simp
  moreover have "''k'' |\<in>| fmdom (om_live (checked_model unsure_records 2))" using unsure_model(1) by (rule fmdomI)
  ultimately show ?thesis by (simp only: slow_keys)
qed

text \<open>
  The reread resolves the key by the ambiguous write, sets a recovery time all the same, and the
  summary written from its report is refused.
\<close>

lemma unsure_reread_refused:
  assumes "timed_out_check i"
  shows "\<exists>R. recovery_stability_reread unsure_sha unsure_records i 2 60 [reread_round unsure_get False] = Inr R \<and>
    rr_classification R = AmbiguousWriteMaterialized \<and>
    validate_recovery_failure_summary_fields (recovery_failure_summary now_ms scenario R message) R =
      Inl AmbiguousWriteClaimsRecovery"
proof -
  note i = assms [unfolded timed_out_check_def] and k = timed_out_keys [OF assms]
  let ?model = "checked_model unsure_records 2"
  let ?expected = "reread_expectations ?model [''k'']"
  let ?first = "initial_recovery_report i [''k''] [] 60"
  let ?init = "\<lparr>re_report = ?first, re_pending = {|''k''|}\<rparr>"
  from unsure_model(2) obtain a where a: "unknown_writes_of ?model ''k'' = [a]" "aw_superseded_by a = None"
    "aw_object a = \<lparr>eo_sha256 = ''g'', eo_size_bytes = 3\<rparr>" by blast
  let ?done = "\<lparr>re_report = ?first\<lparr>rr_ambiguous_write_evidence := [ambiguous_write_materialized_message unsure_sha ''k'' a [1, 1, 1]],
      rr_recovered_within_seconds := Some 1\<rparr>, re_pending = {||}\<rparr>"
  have e: "fmlookup ?expected ''k'' = Some (\<lparr>eo_sha256 = ''h'', eo_size_bytes = 3\<rparr>, [a])"
    unfolding lookup_expectations a(1) using unsure_model(1) by simp
  have d: "fmdom ?expected = {|''k''|}" unfolding unsure_reread_keys [symmetric] expectations_dom
    unfolding unsure_reread_keys by simp
  have first: "rr_hash_mismatches ?first = []" "rr_ambiguous_write_evidence ?first = []" "rr_recovered_within_seconds ?first = None"
    by (simp_all add: initial_recovery_report_def i k)
  have "reread_batch unsure_sha ?expected ?init [(''k'', Inr unsure_get)] = Inr (False, \<lparr>re_report = ?first
      \<lparr>rr_ambiguous_write_evidence := [ambiguous_write_materialized_message unsure_sha ''k'' a [1, 1, 1]]\<rparr>, re_pending = {||}\<rparr>)"
    using e first a
    by (simp add: evaluate_recovery_reread_get_def committed_get_matches_def unsure_get_def object_matches_def unsure_sha_def
        matching_active_ambiguous_write_def)
  then have loop: "reread_loop unsure_sha ?expected ?init [reread_round unsure_get False] = Inr ?done"
    using first by (simp add: reread_round_def note_recovered_def)
  let ?R = "finish_recovery_stability_report (settle_recovery_report ?done) i"
  have run: "recovery_stability_reread unsure_sha unsure_records i 2 60 [reread_round unsure_get False] = Inr ?R"
    using loop unfolding recovery_stability_reread_def Let_def unsure_reread_keys k(1) res_bind_simps d
    by (simp add: i del: reread_loop.simps)
  have c: "rr_classification ?R = AmbiguousWriteMaterialized" "rr_recovered_within_seconds ?R = Some 1" "rr_list_warnings ?R = []"
    by (simp_all add: classify_recovery_stability_def failure_classification_def settle_recovery_report_def Let_def
        initial_recovery_report_def k i sort_dedup_def)
  show ?thesis using run c summary_fields_accepted [of ?R] by auto
qed

subsection \<open>Witnesses\<close>

lemma slow_check_reread:
  obtains i R where
    "check_s3_history (\<lambda>_. ''h'') (\<lambda>_. Some []) demo_recorder ''b'' True False slow_observations = Inr i" "timed_out_check i"
    "recovery_stability_reread (\<lambda>_. ''h'') slow_records i 2 60 [reread_round demo_get cut_off] = Inr R"
    "rr_classification R = RecoveryTailReadLatency" "rr_recovered_within_seconds R = (if cut_off then None else Some 1)"
    "rr_list_warnings R = []" "reread_ready (\<lambda>_. ''h'') slow_records i 2 60 [reread_round demo_get cut_off]"
    "reread_rounds (\<lambda>_. ''h'') slow_records i 2 60 [reread_round demo_get cut_off]"
proof -
  from slow_run obtain i where i:
    "check_s3_history (\<lambda>_. ''h'') (\<lambda>_. Some []) demo_recorder ''b'' True False slow_observations = Inr i" "timed_out_check i"
    by blast
  from slow_reread [OF i(2), of cut_off] show thesis using that [OF i] by (metis reread_ready_def)
qed

text \<open>The witnesses apply the recovery properties to the demonstration runs.\<close>

theorem recovery_tail_verdict_witness:
  "\<exists>i. cr_missing_committed_objects i = [] \<and> \<not> correctness_evidence i \<and> committed_read_failures i \<noteq> [] \<and>
    (\<forall>f \<in> set (committed_read_failures i). \<exists>key e get.
       failure_key f = Some key \<and> fmlookup (om_live (object_model (take 2 slow_records))) key = Some e \<and>
       answered_in [reread_round demo_get False] key get \<and> committed_get_matches (\<lambda>_. ''h'') e get)"
proof -
  obtain i R where i: "timed_out_check i"
    and run: "recovery_stability_reread (\<lambda>_. ''h'') slow_records i 2 60 [reread_round demo_get False] = Inr R"
    and c: "rr_classification R = RecoveryTailReadLatency"
    and rounds: "reread_rounds (\<lambda>_. ''h'') slow_records i 2 60 [reread_round demo_get False]"
    by (rule slow_check_reread)
  from i have "committed_read_failures i \<noteq> []" by (simp add: timed_out_check_def)
  with recovery_tail_verdict_justified [OF run rounds c] show ?thesis by blast
qed

theorem reread_correctness_witness:
  "\<exists>i R. recovery_stability_reread (\<lambda>_. ''h'') slow_records i 2 60 [reread_round demo_get False] = Inr R \<and>
    (severity (of_recovery_classification (rr_classification R)) = FailCorrectness \<longleftrightarrow>
    rr_hash_mismatches R \<noteq> [] \<or> rr_data_corruption_evidence R \<noteq> [] \<or>
    failure_classification i \<in> {CommittedVersionMissing, VersionHashMismatch, DeleteMarkerMissing, DeletedObjectResurrected} \<or>
    failure_classification i \<in> {ListedKeyUnreadable, UnexpectedListedObject} \<and> rr_harness_errors R = [] \<and>
    rr_still_unavailable_keys R = [] \<and> rr_ambiguous_write_evidence R = [] \<and>
    \<not> has_list_unavailable_or_unknown_signal i \<and> lineage_evidence_class R = None)"
proof -
  obtain i R where
    run: "recovery_stability_reread (\<lambda>_. ''h'') slow_records i 2 60 [reread_round demo_get False] = Inr R"
    and rounds: "reread_rounds (\<lambda>_. ''h'') slow_records i 2 60 [reread_round demo_get False]"
    by (rule slow_check_reread)
  from reread_correctness_exact [OF run rounds] run show ?thesis by blast
qed


theorem recovery_summary_witness:
  "\<exists>i R. recovery_stability_reread (\<lambda>_. ''h'') slow_records i 2 60 [reread_round demo_get False] = Inr R \<and>
    validate_recovery_failure_summary_fields (recovery_failure_summary 7 ''eio'' R ''m'') R = Inr ()"
proof -
  obtain i R where
    check: "check_s3_history (\<lambda>_. ''h'') (\<lambda>_. Some []) demo_recorder ''b'' True False slow_observations = Inr i"
    and run: "recovery_stability_reread (\<lambda>_. ''h'') slow_records i 2 60 [reread_round demo_get False] = Inr R"
    and c: "rr_classification R = RecoveryTailReadLatency" "rr_recovered_within_seconds R = (if False then None else Some 1)"
    and rounds: "reread_rounds (\<lambda>_. ''h'') slow_records i 2 60 [reread_round demo_get False]"
    by (rule slow_check_reread)
  from recovery_summary_accepted_iff [OF check rounds run, of 7 "''eio''" "''m''"] run c show ?thesis by auto
qed

text \<open>
  The two refused summaries. First: the deadline falls right after the last answer of a batch, so the
  loop leaves without recording the recovery time; the report is classified as tail latency and
  accepted, its summary is not. Second: the reread finds the value of an ambiguous write.
\<close>

theorem late_tail_summary_refused:
  "\<exists>i R. check_s3_history (\<lambda>_. ''h'') (\<lambda>_. Some []) demo_recorder ''b'' True False slow_observations = Inr i \<and>
    recovery_stability_reread (\<lambda>_. ''h'') slow_records i 2 60 [reread_round demo_get True] = Inr R \<and>
    rr_classification R = RecoveryTailReadLatency \<and>
    validate_recovery_failure_summary_fields (recovery_failure_summary 7 ''eio'' R ''m'') R = Inl TailLatencySecondsMismatch"
proof -
  obtain i R where
    check: "check_s3_history (\<lambda>_. ''h'') (\<lambda>_. Some []) demo_recorder ''b'' True False slow_observations = Inr i"
    and run: "recovery_stability_reread (\<lambda>_. ''h'') slow_records i 2 60 [reread_round demo_get True] = Inr R"
    and c: "rr_classification R = RecoveryTailReadLatency" "rr_recovered_within_seconds R = (if True then None else Some 1)"
      "rr_list_warnings R = []"
    by (rule slow_check_reread)
  then show ?thesis using summary_fields_accepted [of R] by auto
qed

theorem ambiguous_reread_summary_refused:
  "\<exists>i R. timed_out_check i \<and>
    recovery_stability_reread unsure_sha unsure_records i 2 60 [reread_round unsure_get False] = Inr R \<and>
    rr_classification R = AmbiguousWriteMaterialized \<and>
    validate_recovery_failure_summary_fields (recovery_failure_summary 7 ''eio'' R ''m'') R = Inl AmbiguousWriteClaimsRecovery"
  using slow_run unsure_reread_refused by blast

end
