(* ===== verification/Checker_Audit.thy ===== *)
theory Checker_Audit
  imports Checker_Run
begin

text \<open>
  The audit of a stored checker report (\<open>src/src/fault/checker.rs\<close>): a report that claims success is
  believed only if the recorded history, split into the workload's prefix and the checker's
  suffix, proves every observation it rests on. \<open>validate_checker_audit_receipt\<close> binds report and history by
  digests; \<open>validate_successful_checker_observations\<close> and \<open>validate_versioned_checker_suffix\<close> replay the check on the
  recorded GET, LIST and ListObjectVersions operations.
\<close>

subsection \<open>Errors\<close>

datatype audit_error =
    NoAudit
  | InvertedTimestamps
  | BoundsOverflow
  | BoundsExceedHistory
  | AuditHistory history_error
  | AuditSerialize
  | AuditPanic panic
  | PrefixDigestMismatch
  | SuffixDigestMismatch
  | OperationsMismatch
  | SuffixIdentityMismatch
  | SuffixMutates
  | PrefixReadAnomaly
  | ListWarningsMismatch
  | CommittedPutsMismatch
  | ExpectedLiveMismatch
  | CohortsMismatch
  | RelationsMismatch
  | ToleratedNotDerived
  | FailedWritesMismatch
  | CurrentGetWithoutKey
  | DuplicateCurrentGet string
  | CurrentGetCoverage
  | ToleratedNot404 string
  | GetWithoutDigest
  | GetWithoutSize
  | GetNotCommitted
  | GetMatchesNothing string
  | GetNotSuccessful string
  | UnresolvedNot404 string
  | FailedWriteNotRead string
  | UnexpectedMaterialization string
  | VerifiedMismatch
  | FinalListCount
  | FinalListFailed
  | FinalListWithoutKeys
  | FinalListMismatch
  | UnversionedEvidence
  | VersionListCount
  | VersionListFailed
  | VersionListWithoutEntries
  | MultipleLatest string
  | IncompleteLineage
  | MultipleExpectedLatest
  | VersionCountsMismatch
  | RepeatedVersion string string
  | VersionGetWithoutKey
  | DuplicateVersionGet string string
  | VersionGetCoverage
  | VersionGetOmitted
  | VersionGetMismatch string string
  | VersionNotListed string string
  | AmbiguousVersionGetFailed string string
  | NoRetryCapableWrite string string
  | BudgetExceeded string string
  | MaterializationOmitted
  | LatestKeysMismatch
  | ToleratedNotNovel string
  | LatestMismatch string
  | DataVersionAuditMismatch
  | DeleteMarkerOmitted string string
  | DeleteMarkerAuditMismatch
  | MaterializationMismatch

definition lift_audit_history :: "history_error + 'a \<Rightarrow> audit_error + 'a" where
  "lift_audit_history r = (case r of Inl e \<Rightarrow> Inl (AuditHistory e) | Inr v \<Rightarrow> Inr v)"

definition lift_audit_panic :: "panic + 'a \<Rightarrow> audit_error + 'a" where
  "lift_audit_panic r = (case r of Inl p \<Rightarrow> Inl (AuditPanic p) | Inr v \<Rightarrow> Inr v)"

definition lift_audit_digest :: "check_error + 'a \<Rightarrow> audit_error + 'a" where
  "lift_audit_digest r = (case r of Inl _ \<Rightarrow> Inl AuditSerialize | Inr v \<Rightarrow> Inr v)"

lemma lift_audit_Inr [simp]:
  "lift_audit_history r = Inr v \<longleftrightarrow> r = Inr v"
  "lift_audit_panic p = Inr w \<longleftrightarrow> p = Inr w"
  "lift_audit_digest d = Inr u \<longleftrightarrow> d = Inr u"
  by (auto simp: lift_audit_history_def lift_audit_panic_def lift_audit_digest_def split: sum.splits)

subsection \<open>The receipt\<close>

definition suffix_in_window :: "CheckerReport \<Rightarrow> CheckerAudit \<Rightarrow> OperationRecord \<Rightarrow> bool" where
  "suffix_in_window report audit r \<longleftrightarrow>
     op_scenario r = cr_scenario report \<and> op_run_id r = Some (cr_run_id report) \<and> op_bucket r = ca_bucket audit
     \<and> ca_started_at_ms audit \<le> op_started_at_ms r \<and> op_ended_at_ms r \<le> ca_completed_at_ms audit"

definition validate_checker_audit_receipt ::
  "hasher \<Rightarrow> (OperationRecord list \<Rightarrow> bytes option) \<Rightarrow> CheckerReport \<Rightarrow> OperationRecord list
     \<Rightarrow> audit_error + OperationRecord list \<times> OperationRecord list" where
  "validate_checker_audit_receipt sha to_vec report history =
     context_or (cr_audit report) NoAudit (\<lambda>audit.
     ensure (ca_started_at_ms audit \<le> ca_completed_at_ms audit) InvertedTimestamps
     (context_or (checked_add (ca_history_prefix_record_count audit) (ca_history_suffix_record_count audit))
        BoundsOverflow (\<lambda>suffix_end.
      ensure (suffix_end \<le> length history) BoundsExceedHistory
      (let pre = take (ca_history_prefix_record_count audit) history;
           suf = drop (ca_history_prefix_record_count audit) (take suffix_end history)
       in res_bind (lift_audit_history (validate_history_scope_and_order (take suffix_end history)
             (cr_scenario report) (cr_run_id report) (ca_bucket audit))) (\<lambda>_.
          res_bind (lift_audit_history (validate_history_phase_boundary pre suf)) (\<lambda>_.
          res_bind (lift_audit_digest (checker_history_records_sha256 sha to_vec pre)) (\<lambda>digest.
          ensure (digest = ca_history_prefix_sha256 audit) PrefixDigestMismatch
          (res_bind (lift_audit_digest (checker_history_records_sha256 sha to_vec suf)) (\<lambda>digest.
           ensure (digest = ca_history_suffix_sha256 audit) SuffixDigestMismatch
           (ensure (checker_operation_audits suf = ca_suffix_operations audit) OperationsMismatch
           (ensure (list_all (suffix_in_window report audit) suf) SuffixIdentityMismatch
           (ensure (list_all (\<lambda>r. op_kind r = Get \<or> op_kind r = List \<or> op_kind r = ListVersions) suf) SuffixMutates
             (Inr (pre, suf))))))))))))))"

subsection \<open>Current reads\<close>

definition checker_expected_current_get_keys :: "OperationRecord list \<Rightarrow> string fset" where
  "checker_expected_current_get_keys records =
     (let model = object_model records
      in fmdom (om_live model) |\<union>| fmdom (om_unknown_writes model)
         |\<union>| ffilter (\<lambda>key. key |\<notin>| fmdom (om_unknown_writes model)) (om_deleted model))"

definition checker_expected_live_keys :: "OperationRecord list \<Rightarrow> string fset" where
  "checker_expected_live_keys records = fmdom (om_live (object_model records))"

abbreviation is_current_get :: "OperationRecord \<Rightarrow> bool" where
  "is_current_get r \<equiv> op_kind r = Get \<and> op_version_id r = None"

abbreviation is_final_list :: "string \<Rightarrow> OperationRecord \<Rightarrow> bool" where
  "is_final_list pre r \<equiv> op_kind r = List \<and> op_key r = Some pre"

definition unexplained_listed :: "string \<Rightarrow> string fset \<Rightarrow> OperationRecord list \<Rightarrow> string fset" where
  "unexplained_listed pre expected_current_keys suf =
     fset_of_list (filter (\<lambda>key. key |\<notin>| expected_current_keys)
       (concat (List.map_filter op_listed_keys (filter (is_final_list pre) suf))))"

definition current_get_step ::
  "(string, OperationRecord) fmap \<Rightarrow> OperationRecord \<Rightarrow> audit_error + (string, OperationRecord) fmap" where
  "current_get_step gets r =
     context_or (op_key r) CurrentGetWithoutKey (\<lambda>key.
     ensure (fmlookup gets key = None) (DuplicateCurrentGet key) (Inr (fmupd key r gets)))"

definition get_is :: "OperationRecord \<Rightarrow> OperationOutcome \<Rightarrow> nat \<Rightarrow> bool" where
  "get_is r outcome status \<longleftrightarrow> op_outcome r = outcome \<and> op_http_status r = Some status"

definition read_object :: "OperationRecord \<Rightarrow> (ExpectedObject \<Rightarrow> audit_error + 'a) \<Rightarrow> audit_error + 'a" where
  "read_object r k =
     context_or (op_value_sha256 r) GetWithoutDigest (\<lambda>sha256.
     context_or (op_size_bytes r) GetWithoutSize (\<lambda>size_bytes.
       k \<lparr>eo_sha256 = sha256, eo_size_bytes = size_bytes\<rparr>))"

definition reads_committed :: "ExpectedObject \<Rightarrow> OperationRecord \<Rightarrow> bool" where
  "reads_committed expected r \<longleftrightarrow>
     get_is r Ok 200 \<and> op_value_sha256 r = Some (eo_sha256 expected) \<and> op_size_bytes r = Some (eo_size_bytes expected)"

record audit_scan =
  as_materialized_keys :: "string fset"
  as_evidence :: "string fset"

definition note_materialized :: "audit_scan \<Rightarrow> string \<Rightarrow> AmbiguousWriteAttempt \<Rightarrow> ExpectedObject \<Rightarrow> audit_scan" where
  "note_materialized st key attempt actual =
     \<lparr>as_materialized_keys = finsert key (as_materialized_keys st),
      as_evidence = finsert (ambiguous_write_materialized_from_object_message key attempt actual) (as_evidence st)\<rparr>"

definition audit_live_key ::
  "ObjectModel \<Rightarrow> string fset \<Rightarrow> audit_scan \<Rightarrow> string \<Rightarrow> ExpectedObject \<Rightarrow> OperationRecord \<Rightarrow> audit_error + audit_scan" where
  "audit_live_key model tolerated st key expected r =
     (if key |\<in>| tolerated then ensure (get_is r NotFound 404) (ToleratedNot404 key) (Inr st)
      else if reads_committed expected r then Inr st
      else read_object r (\<lambda>actual.
        context_or (fmlookup (om_unknown_writes model) key) GetNotCommitted (\<lambda>attempts.
        context_or (matching_active_ambiguous_object attempts actual) (GetMatchesNothing key) (\<lambda>attempt.
        ensure (get_is r Ok 200) (GetNotSuccessful key)
          (Inr (note_materialized st key attempt actual))))))"

definition audit_unknown_key ::
  "audit_scan \<Rightarrow> string \<Rightarrow> AmbiguousWriteAttempt list \<Rightarrow> OperationRecord \<Rightarrow> audit_error + audit_scan" where
  "audit_unknown_key st key attempts r =
     (if get_is r Ok 200
      then read_object r (\<lambda>actual.
        context_or (matching_active_ambiguous_object attempts actual) (GetMatchesNothing key) (\<lambda>attempt.
          Inr (note_materialized st key attempt actual)))
      else ensure (get_is r NotFound 404) (UnresolvedNot404 key) (Inr st))"

definition reads_failed_write :: "ObjectModel \<Rightarrow> string \<Rightarrow> OperationRecord \<Rightarrow> bool" where
  "reads_failed_write model key r \<longleftrightarrow>
     get_is r Ok 200 \<and> (case op_value_sha256 r of
        None \<Rightarrow> False
      | Some observed \<Rightarrow> (case fmlookup (om_failed_writes model) key of
          None \<Rightarrow> False | Some attempted \<Rightarrow> observed |\<in>| attempted))"

definition audit_key_step ::
  "ObjectModel \<Rightarrow> string fset \<Rightarrow> string fset \<Rightarrow> (string, OperationRecord) fmap \<Rightarrow> audit_scan \<Rightarrow> string
     \<Rightarrow> audit_error + audit_scan" where
  "audit_key_step model tolerated unexplained gets st key =
     context_or (fmlookup gets key) CurrentGetCoverage (\<lambda>r.
       case fmlookup (om_live model) key of
         Some expected \<Rightarrow> audit_live_key model tolerated st key expected r
       | None \<Rightarrow>
           (case fmlookup (om_unknown_writes model) key of
              Some attempts \<Rightarrow> audit_unknown_key st key attempts r
            | None \<Rightarrow>
                if key |\<in>| unexplained
                then ensure (reads_failed_write model key r) (FailedWriteNotRead key) (Inr st)
                else ensure (get_is r NotFound 404) (UnexpectedMaterialization key) (Inr st)))"

subsection \<open>Versions\<close>

record listed_scan =
  sl_data_versions :: "(string \<times> string) fset"
  sl_data_latest :: "(string \<times> string, bool) fmap"
  sl_delete_markers :: "(string \<times> string) fset"
  sl_latest :: "(string, ListedVersionEntry) fmap"

definition note_listed :: "listed_scan \<Rightarrow> ListedVersionEntry \<Rightarrow> listed_scan" where
  "note_listed st e =
     (case lv_version_id e of
        None \<Rightarrow> st
      | Some version_id \<Rightarrow>
          if lv_is_delete_marker e
          then st\<lparr>sl_delete_markers := finsert (lv_key e, version_id) (sl_delete_markers st)\<rparr>
          else st\<lparr>sl_data_versions := finsert (lv_key e, version_id) (sl_data_versions st),
                  sl_data_latest := fmupd (lv_key e, version_id) (lv_is_latest e) (sl_data_latest st)\<rparr>)"

definition listed_step :: "listed_scan \<Rightarrow> ListedVersionEntry \<Rightarrow> audit_error + listed_scan" where
  "listed_step st e =
     (let st = note_listed st e
      in if lv_is_latest e
         then ensure (fmlookup (sl_latest st) (lv_key e) = None) (MultipleLatest (lv_key e))
                (Inr (st\<lparr>sl_latest := fmupd (lv_key e) e (sl_latest st)\<rparr>))
         else Inr st)"

definition init_listed_scan :: listed_scan where
  "init_listed_scan = \<lparr>sl_data_versions = {||}, sl_data_latest = fmempty, sl_delete_markers = {||}, sl_latest = fmempty\<rparr>"

definition expected_latest_step ::
  "(string, ListedVersionEntry) fmap \<Rightarrow> ListedVersionEntry \<Rightarrow> audit_error + (string, ListedVersionEntry) fmap" where
  "expected_latest_step m e =
     ensure (fmlookup m (lv_key e) = None) MultipleExpectedLatest (Inr (fmupd (lv_key e) e m))"

definition expected_version_step ::
  "(string \<times> string, CommittedVersion) fmap \<Rightarrow> CommittedVersion \<Rightarrow> audit_error + (string \<times> string, CommittedVersion) fmap" where
  "expected_version_step m v =
     ensure (fmlookup m (cv_key v, cv_version_id v) = None) (RepeatedVersion (cv_key v) (cv_version_id v))
       (Inr (fmupd (cv_key v, cv_version_id v) v m))"

definition version_record_step ::
  "(string \<times> string, OperationRecord) fmap \<Rightarrow> OperationRecord \<Rightarrow> audit_error + (string \<times> string, OperationRecord) fmap" where
  "version_record_step m r =
     context_or (op_key r) VersionGetWithoutKey (\<lambda>key.
     context_or (op_version_id r) (AuditPanic ExpectFailed) (\<lambda>version_id.
     ensure (fmlookup m (key, version_id) = None) (DuplicateVersionGet key version_id)
       (Inr (fmupd (key, version_id) r m))))"

definition committed_version_step ::
  "(string \<times> string, OperationRecord) fmap \<Rightarrow> (string \<times> string) fset \<Rightarrow> CheckerDataVersionAudit list
     \<Rightarrow> (string \<times> string) \<times> CommittedVersion \<Rightarrow> audit_error + CheckerDataVersionAudit list" where
  "committed_version_step gets listed audits entry =
     (let v = snd entry in
      context_or (fmlookup gets (fst entry)) (AuditPanic IndexOutOfBounds) (\<lambda>r.
      ensure (reads_committed \<lparr>eo_sha256 = cv_sha256 v, eo_size_bytes = cv_size_bytes v\<rparr> r)
        (VersionGetMismatch (cv_key v) (cv_version_id v))
      (ensure ((cv_key v, cv_version_id v) |\<in>| listed) (VersionNotListed (cv_key v) (cv_version_id v))
        (Inr (audits @ [\<lparr>cd_key = cv_key v, cd_version_id = cv_version_id v, cd_expected_sha256 = cv_sha256 v,
           cd_observed_sha256 = op_value_sha256 r, cd_outcome = op_outcome r, cd_http_status = op_http_status r\<rparr>])))))"

record version_audit =
  va_sources :: VersionWriteSourceIndex
  va_active :: "(string \<times> string) fset"
  va_evidence :: "string fset"

definition uncommitted_version_step ::
  "ObjectModel \<Rightarrow> ((string \<times> string) \<Rightarrow> bool) \<Rightarrow> string fset \<Rightarrow> version_audit \<Rightarrow> (string \<times> string) \<times> OperationRecord
     \<Rightarrow> audit_error + version_audit" where
  "uncommitted_version_step model is_latest reported st entry =
     (let (key, version_id) = fst entry; r = snd entry in
      ensure (get_is r Ok 200) (AmbiguousVersionGetFailed key version_id)
      (read_object r (\<lambda>actual.
       ensure (key |\<in>| fmdom (om_version_write_sources model)) (NoRetryCapableWrite key version_id)
       (res_bind (lift_audit_panic (take_version_write_source (va_sources st) key actual (is_latest (key, version_id))))
         (\<lambda>(sources, found).
          context_or found (BudgetExceeded key version_id) (\<lambda>source.
          (let evidence = ambiguous_version_materialized_from_object_message key version_id (vm_attempt source) actual in
           ensure (evidence |\<in>| reported) MaterializationOmitted
             (Inr \<lparr>va_sources = sources,
                   va_active = (if vm_active source then finsert (key, version_id) (va_active st) else va_active st),
                   va_evidence = finsert evidence (va_evidence st)\<rparr>))))))))"

definition audit_matches_committed :: "(string, ListedVersionEntry) fmap \<Rightarrow> string \<Rightarrow> ListedVersionEntry \<Rightarrow> bool" where
  "audit_matches_committed expected_latest key actual =
     (case fmlookup expected_latest key of
        None \<Rightarrow> False
      | Some e \<Rightarrow> lv_version_id actual = lv_version_id e \<and> lv_is_delete_marker actual = lv_is_delete_marker e)"

definition audit_matches_active :: "(string \<times> string) fset \<Rightarrow> string \<Rightarrow> ListedVersionEntry \<Rightarrow> bool" where
  "audit_matches_active active key actual \<longleftrightarrow>
     \<not> lv_is_delete_marker actual
     \<and> (case lv_version_id actual of None \<Rightarrow> False | Some version_id \<Rightarrow> (key, version_id) |\<in>| active)"

definition novel_latest_marker :: "VersionLineage \<Rightarrow> string \<Rightarrow> ListedVersionEntry \<Rightarrow> bool" where
  "novel_latest_marker lineage key actual =
     novel_ambiguous_delete_marker key (lv_is_delete_marker actual) (lv_version_id actual)
       (map marker_pair (vl_delete_markers lineage))"

definition latest_key_step ::
  "ObjectModel \<Rightarrow> VersionLineage \<Rightarrow> string fset \<Rightarrow> (string, ListedVersionEntry) fmap \<Rightarrow> (string \<times> string) fset
     \<Rightarrow> (string, ListedVersionEntry) fmap \<Rightarrow> unit \<Rightarrow> string \<Rightarrow> audit_error + unit" where
  "latest_key_step model lineage tolerated expected_latest active actual_latest _ key =
     context_or (fmlookup actual_latest key) (AuditPanic IndexOutOfBounds) (\<lambda>actual.
       if key |\<in>| tolerated
       then ensure (novel_latest_marker lineage key actual) (ToleratedNotNovel key) (Inr ())
       else if key |\<in>| om_ambiguous_delete_lineage_pending model
       then ensure (audit_matches_committed expected_latest key actual \<or> audit_matches_active active key actual
                    \<or> novel_latest_marker lineage key actual) (LatestMismatch key) (Inr ())
       else ensure (audit_matches_committed expected_latest key actual \<or> audit_matches_active active key actual)
              (LatestMismatch key) (Inr ()))"

definition delete_marker_step ::
  "(string \<times> string) fset \<Rightarrow> CheckerDeleteMarkerAudit list \<Rightarrow> CommittedDeleteMarker
     \<Rightarrow> audit_error + CheckerDeleteMarkerAudit list" where
  "delete_marker_step listed audits m =
     ensure (marker_pair m |\<in>| listed) (DeleteMarkerOmitted (dm_key m) (dm_version_id m))
       (Inr (audits @ [\<lparr>cm_key = dm_key m, cm_version_id = dm_version_id m, cm_visible_in_list_object_versions = True\<rparr>]))"

definition unversioned_audit :: "CheckerReport \<Rightarrow> bool" where
  "unversioned_audit report =
     (case cr_audit report of
        None \<Rightarrow> False
      | Some audit \<Rightarrow> ca_list_object_versions_completed audit = None \<and> ca_data_version_checks audit = []
                      \<and> ca_delete_marker_checks audit = [])"

definition version_list_completed :: "CheckerReport \<Rightarrow> OperationRecord \<Rightarrow> bool" where
  "version_list_completed report r \<longleftrightarrow>
     get_is r Ok 200 \<and> (case cr_audit report of
        None \<Rightarrow> False | Some audit \<Rightarrow> ca_list_object_versions_completed audit = Some True)"

text \<open>The sort key of the uncommitted versions: by key, the latest version first.\<close>

definition uncommitted_order :: "((string \<times> string) \<Rightarrow> bool) \<Rightarrow> (string \<times> string) \<times> OperationRecord \<Rightarrow> string \<times> bool \<times> string" where
  "uncommitted_order is_latest entry = (fst (fst entry), \<not> is_latest (fst entry), snd (fst entry))"

text \<open>The comparison of the stored audit summaries with the ones the history gives.\<close>

definition compare_version_audits ::
  "CheckerReport \<Rightarrow> VersionLineage \<Rightarrow> (string \<times> string) fset \<Rightarrow> CheckerDataVersionAudit list \<Rightarrow> string fset
     \<Rightarrow> audit_error + string fset" where
  "compare_version_audits report lineage listed_markers data_audits evidence =
     context_or (cr_audit report) NoAudit (\<lambda>audit.
     ensure (ca_data_version_checks audit = sort_key data_version_order data_audits) DataVersionAuditMismatch
     (res_bind (fold_res (delete_marker_step listed_markers) [] (vl_delete_markers lineage)) (\<lambda>marker_audits.
      ensure (ca_delete_marker_checks audit = sort_key delete_marker_order marker_audits) DeleteMarkerAuditMismatch
        (Inr evidence))))"

definition audit_version_reads ::
  "CheckerReport \<Rightarrow> OperationRecord list \<Rightarrow> OperationRecord list \<Rightarrow> listed_scan
     \<Rightarrow> audit_error + CheckerDataVersionAudit list \<times> version_audit" where
  "audit_version_reads report pre suf listed =
     (let lineage = committed_version_lineage pre; model = object_model pre;
          is_latest = (\<lambda>identity. fm_values_at (sl_data_latest listed) False identity)
      in res_bind (fold_res expected_version_step fmempty (vl_versions lineage)) (\<lambda>expected_gets.
         res_bind (fold_res version_record_step fmempty
             (filter (\<lambda>r. op_kind r = Get \<and> op_version_id r \<noteq> None) suf)) (\<lambda>actual_gets.
         ensure (fmdom actual_gets = sl_data_versions listed) VersionGetCoverage
         (ensure (fmdom expected_gets |\<subseteq>| fmdom actual_gets) VersionGetOmitted
         (res_bind (fold_res (committed_version_step actual_gets (sl_data_versions listed)) [] (fm_entries expected_gets))
           (\<lambda>data_audits.
          res_bind (fold_res (uncommitted_version_step model is_latest (fset_of_list (cr_unknown_writes_materialized report)))
              \<lparr>va_sources = from_sources (om_version_write_sources model), va_active = {||}, va_evidence = {||}\<rparr>
              (sort_key (uncommitted_order is_latest)
                 (filter (\<lambda>entry. fst entry |\<notin>| fmdom expected_gets) (fm_entries actual_gets))))
            (\<lambda>va. Inr (data_audits, va))))))))"

definition validate_versioned_checker_suffix ::
  "CheckerReport \<Rightarrow> OperationRecord list \<Rightarrow> OperationRecord list \<Rightarrow> string fset \<Rightarrow> string \<Rightarrow> audit_error + string fset" where
  "validate_versioned_checker_suffix report pre suf tolerated prefix_key =
     (let version_lists = filter (\<lambda>r. op_kind r = ListVersions \<and> op_key r = Some prefix_key) suf in
      if \<not> cr_versioning_expected report
      then ensure (version_lists = [] \<and> unversioned_audit report) UnversionedEvidence (Inr {||})
      else (case version_lists of
        [version_list] \<Rightarrow>
          ensure (version_list_completed report version_list) VersionListFailed
          (context_or (op_listed_versions version_list) VersionListWithoutEntries (\<lambda>listed_versions.
           res_bind (fold_res listed_step init_listed_scan listed_versions) (\<lambda>listed.
           (let lineage = committed_version_lineage pre; model = object_model pre in
            ensure (vl_missing_version_id_count lineage = 0 \<and> vl_delete_marker_lineage_incomplete lineage = []
                    \<and> vl_multipart_upload_lineage_incomplete lineage = []
                    \<and> listed_version_lineage_conflicts pre lineage (map listed_entry_identity listed_versions) = [])
              IncompleteLineage
            (res_bind (fold_res expected_latest_step fmempty
                (filter lv_is_latest (sorted_list_of_fset (checker_expected_version_listing pre)))) (\<lambda>expected_latest.
             ensure (cr_expected_committed_versions report = length (vl_versions lineage)
                     \<and> cr_verified_committed_versions report = length (vl_versions lineage)) VersionCountsMismatch
             (res_bind (audit_version_reads report pre suf listed) (\<lambda>(data_audits, va).
              (let expected_latest_keys = fmdom expected_latest |\<union>| fst |`| va_active va in
               ensure (fmdom (sl_latest listed) = expected_latest_keys) LatestKeysMismatch
               (res_bind (fold_res (latest_key_step model lineage tolerated expected_latest (va_active va) (sl_latest listed)) ()
                   (sorted_list_of_fset expected_latest_keys)) (\<lambda>_.
                compare_version_audits report lineage (sl_delete_markers listed) data_audits (va_evidence va))))))))))))
      | _ \<Rightarrow> Inl VersionListCount))"

subsection \<open>The observations of a successful report\<close>

definition audit_prefix_summary ::
  "hasher \<Rightarrow> CheckerReport \<Rightarrow> OperationRecord list \<Rightarrow> audit_error + ReadAnomalies" where
  "audit_prefix_summary sha report pre =
     (let model = object_model pre; warnings = list_history_warnings pre in
      res_bind (lift_audit_panic (successful_read_anomalies sha pre)) (\<lambda>anomalies.
      ensure (ra_corrupted_reads anomalies = [] \<and> ra_visible_deleted_objects anomalies = []
              \<and> ra_unknown_write_value_conflicts anomalies = []) PrefixReadAnomaly
      (ensure (cr_list_history_warning_count report = ws_total_count warnings
               \<and> cr_list_history_warnings report = ws_samples warnings) ListWarningsMismatch
      (ensure (cr_committed_puts report = om_committed_writes model) CommittedPutsMismatch
      (ensure (cr_expected_live_objects report = fcard (fmdom (om_live model))) ExpectedLiveMismatch
      (ensure (cr_operation_cohorts report = operation_cohort_counts pre) CohortsMismatch
      (ensure (cr_fault_window_relations report = fault_window_relation_counts pre) RelationsMismatch
        (Inr anomalies))))))))"

definition audit_final_list ::
  "CheckerReport \<Rightarrow> ObjectModel \<Rightarrow> string fset \<Rightarrow> string fset \<Rightarrow> OperationRecord list \<Rightarrow> audit_error + unit" where
  "audit_final_list report model tolerated materialized suf =
     (case filter (is_final_list (key_prefix (cr_run_id report))) suf of
        [final_list] \<Rightarrow>
          ensure (get_is final_list Ok 200) FinalListFailed
          (context_or (op_listed_keys final_list) FinalListWithoutKeys (\<lambda>keys.
           (let listed = fset_of_list keys in
            ensure (listed = (fmdom (om_live model) |-| tolerated) |\<union>| materialized
                       |\<union>| fset_of_list (cr_failed_writes_materialized report)
                    \<and> cr_final_listed_objects report = Some (fcard listed)) FinalListMismatch (Inr ()))))
      | _ \<Rightarrow> Inl FinalListCount)"

definition audit_current_reads ::
  "CheckerReport \<Rightarrow> ObjectModel \<Rightarrow> string fset \<Rightarrow> string fset \<Rightarrow> OperationRecord list \<Rightarrow> audit_error + audit_scan" where
  "audit_current_reads report model tolerated expected_keys suf =
     (let unexplained = unexplained_listed (key_prefix (cr_run_id report)) expected_keys suf;
          failed_writes = fset_of_list (cr_failed_writes_materialized report)
      in ensure (failed_writes = unexplained \<and> fBall failed_writes (\<lambda>key. key |\<in>| fmdom (om_failed_writes model)))
           FailedWritesMismatch
         (let expected_keys = expected_keys |\<union>| unexplained
          in res_bind (fold_res current_get_step fmempty (filter is_current_get suf)) (\<lambda>gets.
             ensure (fmdom gets = expected_keys) CurrentGetCoverage
             (fold_res (audit_key_step model tolerated unexplained gets)
                \<lparr>as_materialized_keys = {||}, as_evidence = {||}\<rparr> (sorted_list_of_fset expected_keys)))))"

definition validate_successful_checker_observations ::
  "hasher \<Rightarrow> CheckerReport \<Rightarrow> OperationRecord list \<Rightarrow> OperationRecord list \<Rightarrow> audit_error + unit" where
  "validate_successful_checker_observations sha report pre suf =
     (let model = object_model pre in
      res_bind (audit_prefix_summary sha report pre) (\<lambda>anomalies.
      (let tolerated = fset_of_list (cr_tolerated_ambiguous_deletes report) in
       ensure (fcard tolerated = length (cr_tolerated_ambiguous_deletes report)
               \<and> fBall tolerated (\<lambda>key. key |\<in>| om_ambiguous_delete_pending model \<and> key |\<in>| fmdom (om_live model)))
         ToleratedNotDerived
       (res_bind (audit_current_reads report model tolerated (checker_expected_current_get_keys pre) suf) (\<lambda>scan.
        if cr_verified_live_objects report + fcard tolerated > usize_max then Inl (AuditPanic ArithmeticOverflow)
        else ensure (cr_verified_live_objects report + fcard tolerated = fcard (fmdom (om_live model))) VerifiedMismatch
        (res_bind (audit_final_list report model tolerated (as_materialized_keys scan) suf) (\<lambda>_.
         res_bind (validate_versioned_checker_suffix report pre suf tolerated (key_prefix (cr_run_id report)))
           (\<lambda>version_evidence.
          (let expected = fset_of_list (ra_unknown_writes_materialized anomalies) |\<union>| as_evidence scan |\<union>| version_evidence;
               reported = fset_of_list (cr_unknown_writes_materialized report)
           in ensure (fcard reported = length (cr_unknown_writes_materialized report) \<and> reported = expected)
                MaterializationMismatch (Inr ()))))))))))"

definition validate_checker_audit_against_history ::
  "hasher \<Rightarrow> (OperationRecord list \<Rightarrow> bytes option) \<Rightarrow> CheckerReport \<Rightarrow> OperationRecord list \<Rightarrow> audit_error + unit" where
  "validate_checker_audit_against_history sha to_vec report history =
     res_bind (validate_checker_audit_receipt sha to_vec report history) (\<lambda>(pre, suf).
       validate_successful_checker_observations sha report pre suf)"

end
