(* ===== verification/Checker_Failure.thy ===== *)
theory Checker_Failure
  imports Checker_Audit
begin

text \<open>
  The audit of a stored failing report (\<open>validate_checker_failure_against_history\<close> and
  \<open>authenticated_checker_failure_classifications\<close> of \<open>src/src/fault/checker.rs\<close>): a failure is believed only if the recorded
  reads and listings prove every entry of the report and its classification. The mutable sets of the code are
  the fields of \<open>failure_auth\<close>; each loop is a fold of its body over that record.
\<close>

subsection \<open>State and errors\<close>

datatype failure_error =
    FailureReceipt audit_error
  | FailureSignal failure_signal_error
  | FailurePanic panic
  | FailureGetWithoutKey
  | FailureDuplicateVersionGet string string
  | FailureDuplicateCurrentGet string
  | FailureListCount
  | FailureListWithoutKeys
  | FailureUnversionedListing
  | FailureVersionListCount
  | FailureVersionListWithoutEntries
  | FieldMismatch string
  | VersionIdEvidenceMismatch
  | ListHistoryMismatch
  | ObjectCountersMismatch
  | CohortSummariesMismatch
  | ListedCountMismatch
  | ToleratedDeletesMismatch
  | FailedWriteEvidenceMismatch
  | VersionCountersMismatch
  | UnsupportedClassification RecoveryStabilityClassification

record failure_auth =
  fa_proven :: "RecoveryStabilityClassification list"
  fa_hash_mismatches :: "string fset"
  fa_resurrected_deleted_objects :: "string fset"
  fa_ambiguous_delete_resurrections :: "string fset"
  fa_listed_keys_unreadable :: "string fset"
  fa_missing_committed_objects :: "string fset"
  fa_version_hash_mismatches :: "string fset"
  fa_missing_committed_versions :: "string fset"
  fa_missing_committed_delete_markers :: "string fset"
  fa_unavailable_committed_objects :: "CommittedReadFailure list"
  fa_unknown_committed_read_failures :: "CommittedReadFailure list"
  fa_unknown_write_value_conflicts :: "string fset"
  fa_unknown_writes_materialized :: "string fset"
  fa_unavailable_committed_versions :: "string fset"
  fa_unexpected_listed_objects :: "string fset"
  fa_delete_marker_lineage_incomplete :: "string fset"
  fa_multipart_lineage_incomplete :: "string fset"
  fa_list_warnings :: "string fset"
  fa_list_warning_count :: nat
  fa_verified_live_objects :: nat
  fa_verified_committed_versions :: nat
  fa_tolerated_ambiguous_deletes :: "string fset"
  fa_failed_writes_materialized :: "string fset"
  fa_materialized_ambiguous_write_keys :: "string fset"
  fa_ambiguous_delete_absent :: "string fset"
  fa_ambiguous_delete_present :: "string fset"
  fa_ambiguous_write_absent :: "string fset"
  fa_missing_live_keys :: "string fset"

definition init_failure_auth :: "ReadAnomalies \<Rightarrow> VersionLineage \<Rightarrow> failure_auth" where
  "init_failure_auth historical initial_lineage =
     \<lparr>fa_proven = [], fa_hash_mismatches = {||}, fa_resurrected_deleted_objects = {||},
      fa_ambiguous_delete_resurrections = {||}, fa_listed_keys_unreadable = {||}, fa_missing_committed_objects = {||},
      fa_version_hash_mismatches = {||}, fa_missing_committed_versions = {||}, fa_missing_committed_delete_markers = {||},
      fa_unavailable_committed_objects = [], fa_unknown_committed_read_failures = [],
      fa_unknown_write_value_conflicts = fset_of_list (ra_unknown_write_value_conflicts historical),
      fa_unknown_writes_materialized = fset_of_list (ra_unknown_writes_materialized historical),
      fa_unavailable_committed_versions = {||}, fa_unexpected_listed_objects = {||},
      fa_delete_marker_lineage_incomplete = fset_of_list (vl_delete_marker_lineage_incomplete initial_lineage),
      fa_multipart_lineage_incomplete = fset_of_list (vl_multipart_upload_lineage_incomplete initial_lineage),
      fa_list_warnings = {||}, fa_list_warning_count = 0, fa_verified_live_objects = 0,
      fa_verified_committed_versions = 0, fa_tolerated_ambiguous_deletes = {||}, fa_failed_writes_materialized = {||},
      fa_materialized_ambiguous_write_keys = {||}, fa_ambiguous_delete_absent = {||}, fa_ambiguous_delete_present = {||},
      fa_ambiguous_write_absent = {||}, fa_missing_live_keys = {||}\<rparr>"

text \<open>The closure \<open>add\<close>.\<close>

definition prove :: "RecoveryStabilityClassification \<Rightarrow> failure_auth \<Rightarrow> failure_auth" where
  "prove classification st =
     (if classification \<in> set (fa_proven st) then st else st\<lparr>fa_proven := fa_proven st @ [classification]\<rparr>)"

definition prove_if :: "bool \<Rightarrow> RecoveryStabilityClassification \<Rightarrow> failure_auth \<Rightarrow> failure_auth" where
  "prove_if condition classification st = (if condition then prove classification st else st)"

definition start_failure_auth :: "ReadAnomalies \<Rightarrow> VersionLineage \<Rightarrow> failure_auth" where
  "start_failure_auth historical initial_lineage =
     prove_if (ra_visible_deleted_objects historical \<noteq> []) DeletedObjectResurrected
     (prove_if (ra_corrupted_reads historical \<noteq> [] \<or> ra_unknown_write_value_conflicts historical \<noteq> []) DataCorruption
       (init_failure_auth historical initial_lineage))"

subsection \<open>Recorded reads\<close>

type_synonym current_gets = "(string, OperationRecord) fmap"
type_synonym version_gets = "(string \<times> string, OperationRecord) fmap"

definition failure_get_step ::
  "current_gets \<times> version_gets \<Rightarrow> OperationRecord \<Rightarrow> failure_error + current_gets \<times> version_gets" where
  "failure_get_step st r =
     (let (current, versions) = st in
      context_or (op_key r) FailureGetWithoutKey (\<lambda>key.
        case op_version_id r of
          Some version_id \<Rightarrow>
            ensure (fmlookup versions (key, version_id) = None) (FailureDuplicateVersionGet key version_id)
              (Inr (current, fmupd (key, version_id) r versions))
        | None \<Rightarrow>
            ensure (fmlookup current key = None) (FailureDuplicateCurrentGet key)
              (Inr (fmupd key r current, versions))))"

definition index_gets :: "OperationRecord list \<Rightarrow> failure_error + current_gets \<times> version_gets" where
  "index_gets suf = fold_res failure_get_step (fmempty, fmempty) (filter (\<lambda>r. op_kind r = Get) suf)"

text \<open>The closure \<open>record_object\<close>.\<close>

definition recorded_object :: "OperationRecord \<Rightarrow> ExpectedObject option" where
  "recorded_object r =
     (case (op_value_sha256 r, op_size_bytes r) of
        (Some sha256, Some size_bytes) \<Rightarrow> Some \<lparr>eo_sha256 = sha256, eo_size_bytes = size_bytes\<rparr>
      | _ \<Rightarrow> None)"

definition note_materialization :: "string \<Rightarrow> AmbiguousWriteAttempt \<Rightarrow> ExpectedObject \<Rightarrow> failure_auth \<Rightarrow> failure_auth" where
  "note_materialization key attempt actual st =
     st\<lparr>fa_unknown_writes_materialized :=
          finsert (ambiguous_write_materialized_from_object_message key attempt actual) (fa_unknown_writes_materialized st)\<rparr>"

definition note_value_conflict :: "string \<Rightarrow> failure_auth \<Rightarrow> failure_auth" where
  "note_value_conflict message st =
     prove DataCorruption (st\<lparr>fa_unknown_write_value_conflicts := finsert message (fa_unknown_write_value_conflicts st)\<rparr>)"

text \<open>A successful read of a live key that did not return the committed value.\<close>

definition live_other_value ::
  "AmbiguousWriteAttempt list \<Rightarrow> string \<Rightarrow> ExpectedObject \<Rightarrow> ExpectedObject \<Rightarrow> failure_auth \<Rightarrow> failure_auth" where
  "live_other_value attempts key expected actual st =
     (case matching_active_ambiguous_object attempts actual of
        Some attempt \<Rightarrow>
          prove AmbiguousWriteMaterialized (note_materialization key attempt actual
            (st\<lparr>fa_verified_live_objects := fa_verified_live_objects st + 1,
                fa_materialized_ambiguous_write_keys := finsert key (fa_materialized_ambiguous_write_keys st)\<rparr>))
      | None \<Rightarrow>
          (case matching_superseded_ambiguous_object attempts actual of
             Some attempt \<Rightarrow>
               note_value_conflict (superseded_ambiguous_object_conflict_message key (Some expected) attempt actual)
                 (note_materialization key attempt actual st)
           | None \<Rightarrow>
               if attempts \<noteq> []
               then note_value_conflict (unknown_write_value_conflict_from_object_message key (Some expected) attempts actual) st
               else prove DataCorruption
                      (st\<lparr>fa_hash_mismatches := finsert (read_mismatch_message key expected actual) (fa_hash_mismatches st)\<rparr>)))"

definition observed_failure :: "string \<Rightarrow> OperationRecord \<Rightarrow> nat option \<Rightarrow> CommittedReadFailure" where
  "observed_failure key get body_bytes = Observed key (op_outcome get) (op_http_status get) (op_error get) body_bytes"

definition live_key_step :: "ObjectModel \<Rightarrow> current_gets \<Rightarrow> failure_auth \<Rightarrow> string \<times> ExpectedObject \<Rightarrow> failure_auth" where
  "live_key_step model gets st kv =
     (let (key, expected) = kv in
      case fmlookup gets key of
        None \<Rightarrow> st
      | Some get \<Rightarrow>
          if op_outcome get = NotFound \<and> key |\<in>| om_ambiguous_delete_pending model
          then st\<lparr>fa_ambiguous_delete_absent := finsert key (fa_ambiguous_delete_absent st)\<rparr>
          else (case (op_outcome get, recorded_object get) of
            (Ok, Some actual) \<Rightarrow>
              if actual = expected
              then (let st = st\<lparr>fa_verified_live_objects := fa_verified_live_objects st + 1\<rparr>
                    in if unknown_writes_of model key = [] \<and> key |\<in>| om_ambiguous_delete_pending model
                       then st\<lparr>fa_ambiguous_delete_present := finsert key (fa_ambiguous_delete_present st)\<rparr> else st)
              else live_other_value (unknown_writes_of model key) key expected actual st
          | (NotFound, None) \<Rightarrow>
              prove CommittedObjectUnavailable
                (st\<lparr>fa_missing_live_keys := finsert key (fa_missing_live_keys st),
                    fa_missing_committed_objects := finsert key (fa_missing_committed_objects st)\<rparr>)
          | (outcome, None) \<Rightarrow>
              if outcome = Failed \<or> outcome = Timeout
              then prove CommittedObjectUnavailable
                     (st\<lparr>fa_unavailable_committed_objects := fa_unavailable_committed_objects st @ [observed_failure key get None]\<rparr>)
              else prove CommittedObjectUnavailable
                     (st\<lparr>fa_unknown_committed_read_failures := fa_unknown_committed_read_failures st @ [observed_failure key get None]\<rparr>)
          | (_, Some actual) \<Rightarrow>
              prove CommittedObjectUnavailable
                (st\<lparr>fa_unknown_committed_read_failures := fa_unknown_committed_read_failures st @
                      [observed_failure key get (Some (eo_size_bytes actual))]\<rparr>)))"

definition unknown_key_step ::
  "ObjectModel \<Rightarrow> current_gets \<Rightarrow> failure_auth \<Rightarrow> string \<times> AmbiguousWriteAttempt list \<Rightarrow> failure_auth" where
  "unknown_key_step model gets st kv =
     (let (key, attempts) = kv in
      if key |\<in>| fmdom (om_live model) then st
      else case fmlookup gets key of
        None \<Rightarrow> st
      | Some get \<Rightarrow>
          (case (op_outcome get, recorded_object get) of
             (Ok, Some actual) \<Rightarrow>
               (case matching_active_ambiguous_object attempts actual of
                  Some attempt \<Rightarrow>
                    prove AmbiguousWriteMaterialized (note_materialization key attempt actual
                      (st\<lparr>fa_materialized_ambiguous_write_keys := finsert key (fa_materialized_ambiguous_write_keys st)\<rparr>))
                | None \<Rightarrow>
                    (case matching_superseded_ambiguous_object attempts actual of
                       Some attempt \<Rightarrow>
                         note_value_conflict (superseded_ambiguous_object_conflict_message key None attempt actual)
                           (note_materialization key attempt actual st)
                     | None \<Rightarrow>
                         note_value_conflict (unknown_write_value_conflict_from_object_message key None attempts actual) st))
           | (NotFound, _) \<Rightarrow> st\<lparr>fa_ambiguous_write_absent := finsert key (fa_ambiguous_write_absent st)\<rparr>
           | _ \<Rightarrow> st))"

definition resurrected_message :: "string \<Rightarrow> nat \<Rightarrow> string" where
  "resurrected_message key size_bytes = key @ '': committed delete resurrected on GET'' @ bytes_suffix size_bytes"

definition deleted_key_step :: "current_gets \<Rightarrow> failure_auth \<Rightarrow> string \<Rightarrow> failure_auth" where
  "deleted_key_step gets st key =
     (case fmlookup gets key of
        None \<Rightarrow> st
      | Some get \<Rightarrow>
          (case (op_outcome get, recorded_object get) of
             (Ok, Some actual) \<Rightarrow>
               prove DeletedObjectResurrected
                 (st\<lparr>fa_resurrected_deleted_objects :=
                       finsert (resurrected_message key (eo_size_bytes actual)) (fa_resurrected_deleted_objects st)\<rparr>)
           | _ \<Rightarrow> st))"

definition authenticate_reads :: "ObjectModel \<Rightarrow> current_gets \<Rightarrow> failure_auth \<Rightarrow> failure_auth" where
  "authenticate_reads model gets st =
     (let st = foldl (live_key_step model gets) st (fm_entries (om_live model));
          st = foldl (unknown_key_step model gets) st (fm_entries (om_unknown_writes model))
      in foldl (deleted_key_step gets) st (deleted_probe_keys model))"

subsection \<open>The final listing\<close>

definition failure_warnings :: "ObjectModel \<Rightarrow> failure_auth \<Rightarrow> string fset \<Rightarrow> string \<Rightarrow> WarningSummary" where
  "failure_warnings model st listed run_prefix =
     evaluate_final_list_keys model (fa_ambiguous_delete_absent st) (fa_materialized_ambiguous_write_keys st) listed run_prefix
       empty_warnings"

definition note_list_warnings :: "CheckerReport \<Rightarrow> WarningSummary \<Rightarrow> failure_auth \<Rightarrow> failure_auth" where
  "note_list_warnings report warnings st =
     (let st = st\<lparr>fa_list_warning_count := fa_list_warning_count st + ws_total_count warnings,
                  fa_list_warnings := fa_list_warnings st |\<union>| fset_of_list (ws_samples warnings)\<rparr>;
          warning_report = report\<lparr>cr_missing_committed_objects := sorted_list_of_fset (fa_missing_live_keys st),
             cr_list_warnings := sort (ws_samples warnings), cr_final_list_warning_count := ws_total_count warnings\<rparr>
      in prove_if (final_list_content_corruption_signal warning_report) DataCorruption st)"

definition note_unreadable :: "string \<Rightarrow> failure_auth \<Rightarrow> failure_auth" where
  "note_unreadable message st =
     prove ListedKeyUnreadable (st\<lparr>fa_listed_keys_unreadable := finsert message (fa_listed_keys_unreadable st)\<rparr>)"

definition note_unexpected :: "string \<Rightarrow> failure_auth \<Rightarrow> failure_auth" where
  "note_unexpected message st =
     prove UnexpectedListedObject (st\<lparr>fa_unexpected_listed_objects := finsert message (fa_unexpected_listed_objects st)\<rparr>)"

definition listed_key_step :: "ObjectModel \<Rightarrow> current_gets \<Rightarrow> failure_auth \<Rightarrow> string \<Rightarrow> failure_auth" where
  "listed_key_step model gets st key =
     (case fmlookup gets key of
        None \<Rightarrow> prove ListedKeyUnreadable st
      | Some get \<Rightarrow>
          (case (op_outcome get, recorded_object get) of
             (Ok, Some actual) \<Rightarrow>
               (case fmlookup (om_failed_writes model) key of
                  Some attempted \<Rightarrow>
                    if eo_sha256 actual |\<in>| attempted
                    then st\<lparr>fa_failed_writes_materialized := finsert key (fa_failed_writes_materialized st)\<rparr>
                    else note_unexpected (key @ '': readable bytes sha256='' @ eo_sha256 actual @ '' size='' @
                           show_nat (eo_size_bytes actual) @ '' match no failed write attempt '' @ debug_string_set attempted) st
                | None \<Rightarrow> note_unexpected key st)
           | (outcome, _) \<Rightarrow>
               note_unreadable (key @ '': '' @ debug_outcome outcome @
                 (case op_http_status get of None \<Rightarrow> [] | Some status \<Rightarrow> '' http_status='' @ show_nat status)) st))"

definition list_completed :: "OperationRecord \<Rightarrow> bool" where
  "list_completed r \<longleftrightarrow> op_outcome r = Ok \<and> op_http_status r = Some 200"

definition note_list_incomplete :: "string \<Rightarrow> failure_auth \<Rightarrow> failure_auth" where
  "note_list_incomplete warning st =
     prove ListUnavailableOrUnknown
       (st\<lparr>fa_list_warning_count := fa_list_warning_count st + 1, fa_list_warnings := finsert warning (fa_list_warnings st)\<rparr>)"

definition authenticate_final_list ::
  "CheckerReport \<Rightarrow> ObjectModel \<Rightarrow> current_gets \<Rightarrow> OperationRecord list \<Rightarrow> failure_auth
     \<Rightarrow> failure_error + failure_auth \<times> string fset option" where
  "authenticate_final_list report model gets suf st =
     (let run_prefix = key_prefix (cr_run_id report) in
      case filter (is_final_list run_prefix) suf of
        [final_list] \<Rightarrow>
          if list_completed final_list
          then context_or (op_listed_keys final_list) FailureListWithoutKeys (\<lambda>keys.
            (let listed = fset_of_list keys;
                 st = note_list_warnings report (failure_warnings model st listed run_prefix) st;
                 st = foldl (listed_key_step model gets) st (unexplained_listed_keys model listed);
                 st = foldl (\<lambda>st key. note_unreadable (ghost_message key) st) st
                        (sorted_list_of_fset (fa_ambiguous_write_absent st |\<inter>| listed))
             in Inr (st, Some listed)))
          else Inr (note_list_incomplete (''LIST prefix '' @ run_prefix @ '' did not complete'') st, None)
      | _ \<Rightarrow> Inl FailureListCount)"

definition authenticate_unversioned ::
  "CheckerReport \<Rightarrow> OperationRecord list \<Rightarrow> string fset option \<Rightarrow> failure_auth \<Rightarrow> failure_error + failure_auth" where
  "authenticate_unversioned report suf listed_keys st =
     (if cr_versioning_expected report then Inr st
      else (let st = (case listed_keys of
                        None \<Rightarrow> st
                      | Some listed \<Rightarrow>
                          st\<lparr>fa_tolerated_ambiguous_deletes :=
                               fa_tolerated_ambiguous_deletes st |\<union>| (fa_ambiguous_delete_absent st |-| listed)\<rparr>)
            in ensure (list_all (\<lambda>r. op_kind r \<noteq> ListVersions) suf) FailureUnversionedListing (Inr st)))"

subsection \<open>Versions\<close>

definition note_lineage :: "VersionLineage \<Rightarrow> failure_auth \<Rightarrow> failure_auth" where
  "note_lineage lineage st =
     prove_if (vl_multipart_upload_lineage_incomplete lineage \<noteq> []) MultipartUploadLineageIncomplete
     (prove_if (vl_delete_marker_lineage_incomplete lineage \<noteq> []) DeleteMarkerLineageIncomplete
     (prove_if (vl_missing_version_id_count lineage > 0) VersionIdMissingOnCommittedWrite st))"

definition version_mismatch_message :: "CommittedVersion \<Rightarrow> ExpectedObject \<Rightarrow> string" where
  "version_mismatch_message version actual =
     cv_key version @ ''@'' @ cv_version_id version @ '': expected '' @ cv_sha256 version @
     bytes_suffix (cv_size_bytes version) @ '', got '' @ eo_sha256 actual @ bytes_suffix (eo_size_bytes actual)"

definition committed_version_get_step :: "version_gets \<Rightarrow> failure_auth \<Rightarrow> CommittedVersion \<Rightarrow> failure_auth" where
  "committed_version_get_step gets st version =
     (let reference = cv_key version @ ''@'' @ cv_version_id version in
      case fmlookup gets (version_pair version) of
        None \<Rightarrow> st
      | Some get \<Rightarrow>
          (case (op_outcome get, recorded_object get) of
             (Ok, Some actual) \<Rightarrow>
               if eo_sha256 actual \<noteq> cv_sha256 version \<or> eo_size_bytes actual \<noteq> cv_size_bytes version
               then prove VersionHashMismatch
                      (st\<lparr>fa_version_hash_mismatches :=
                            finsert (version_mismatch_message version actual) (fa_version_hash_mismatches st)\<rparr>)
               else st\<lparr>fa_verified_committed_versions := fa_verified_committed_versions st + 1\<rparr>
           | (NotFound, None) \<Rightarrow>
               (let st = prove CommittedVersionMissing
                      (st\<lparr>fa_missing_committed_versions := finsert reference (fa_missing_committed_versions st)\<rparr>)
                in if cv_kind version = CompleteMultipartUpload
                   then prove MultipartUploadLineageIncomplete
                          (st\<lparr>fa_multipart_lineage_incomplete :=
                                finsert (reference @ '': committed multipart completion version is missing'')
                                  (fa_multipart_lineage_incomplete st)\<rparr>)
                   else st)
           | (outcome, object) \<Rightarrow>
               prove CommittedVersionUnavailable
                 (st\<lparr>fa_unavailable_committed_versions :=
                       finsert (read_failure_message reference outcome (op_http_status get)
                         (case op_error get of
                            Some e \<Rightarrow> Some e
                          | None \<Rightarrow> if object \<noteq> None then Some ''unexpected body'' else None))
                         (fa_unavailable_committed_versions st)\<rparr>)))"

definition listed_object_entry :: "ListedVersionEntry \<Rightarrow> ObjectVersionEntry" where
  "listed_object_entry e =
     \<lparr>ov_key = lv_key e, ov_version_id = lv_version_id e, ov_is_latest = lv_is_latest e,
      ov_is_delete_marker = lv_is_delete_marker e\<rparr>"

definition note_lineage_conflicts :: "string list \<Rightarrow> failure_auth \<Rightarrow> failure_auth" where
  "note_lineage_conflicts conflicts st =
     prove_if (conflicts \<noteq> []) DeleteMarkerLineageIncomplete
       (st\<lparr>fa_delete_marker_lineage_incomplete := fa_delete_marker_lineage_incomplete st |\<union>| fset_of_list conflicts\<rparr>)"

definition note_version_listing ::
  "OperationRecord list \<Rightarrow> VersionLineage \<Rightarrow> ObjectVersionEntry list \<Rightarrow> failure_auth \<Rightarrow> failure_auth" where
  "note_version_listing pre lineage entries st =
     (let (missing_versions, missing_multipart) = missing_committed_version_entries (vl_versions lineage) entries;
          missing_markers = missing_committed_delete_markers (vl_delete_markers lineage) entries;
          st = st\<lparr>fa_missing_committed_versions := fa_missing_committed_versions st |\<union>| fset_of_list missing_versions,
                  fa_multipart_lineage_incomplete := fa_multipart_lineage_incomplete st |\<union>| fset_of_list missing_multipart\<rparr>;
          st = prove_if (missing_versions \<noteq> []) CommittedVersionMissing st;
          st = prove_if (missing_multipart \<noteq> []) MultipartUploadLineageIncomplete st;
          st = prove_if (missing_markers \<noteq> []) DeleteMarkerMissing
                 (st\<lparr>fa_missing_committed_delete_markers :=
                       fa_missing_committed_delete_markers st |\<union>| fset_of_list missing_markers\<rparr>)
      in note_lineage_conflicts (listed_version_lineage_conflicts pre lineage (map object_entry_identity entries)) st)"

definition recorded_result :: "OperationRecord \<Rightarrow> GetObjectResult" where
  "recorded_result r =
     \<lparr>gr_outcome = op_outcome r, gr_http_status = op_http_status r, gr_error = op_error r, gr_body = None\<rparr>"

definition uncommitted_version_object_message :: "AmbiguousVersionCandidate \<Rightarrow> ExpectedObject \<Rightarrow> string" where
  "uncommitted_version_object_message c actual =
     ac_key c @ ''@'' @ ac_version_id c @ '': observed uncommitted version '' @ eo_sha256 actual @
     bytes_suffix (eo_size_bytes actual) @ '', but it matched no ambiguous attempt ['' @ ac_attempt_summary c @ '']''"

type_synonym candidate_scan = "failure_auth \<times> VersionWriteSourceIndex \<times> MaterializedAmbiguousVersion list"

definition materialize_candidate ::
  "AmbiguousVersionCandidate \<Rightarrow> VersionWriteMatch \<Rightarrow> ExpectedObject \<Rightarrow> MaterializedAmbiguousVersion" where
  "materialize_candidate c source actual =
     \<lparr>ma_key = ac_key c, ma_version_id = ac_version_id c,
      ma_evidence = ambiguous_version_materialized_from_object_message (ac_key c) (ac_version_id c) (vm_attempt source) actual,
      ma_active = vm_active source\<rparr>"

definition candidate_get_step ::
  "version_gets \<Rightarrow> candidate_scan \<Rightarrow> AmbiguousVersionCandidate \<Rightarrow> failure_error + candidate_scan" where
  "candidate_get_step gets scan c =
     (let (st, sources, materialized) = scan in
      case fmlookup gets (ac_key c, ac_version_id c) of
        None \<Rightarrow> Inr scan
      | Some get \<Rightarrow>
          (case (op_outcome get, recorded_object get) of
             (Ok, Some actual) \<Rightarrow>
               (case take_version_write_source sources (ac_key c) actual (ac_is_latest c) of
                  Inl p \<Rightarrow> Inl (FailurePanic p)
                | Inr (sources, Some source) \<Rightarrow>
                    (let version = materialize_candidate c source actual
                     in Inr (prove AmbiguousWriteMaterialized
                               (st\<lparr>fa_unknown_writes_materialized :=
                                     finsert (ma_evidence version) (fa_unknown_writes_materialized st)\<rparr>),
                             sources, materialized @ [version]))
                | Inr (sources, None) \<Rightarrow>
                    Inr (note_value_conflict (uncommitted_version_object_message c actual) st, sources, materialized))
           | _ \<Rightarrow>
               Inr (note_value_conflict (uncommitted_version_unverified_message c (recorded_result get)) st,
                    sources, materialized)))"

definition authenticate_candidates ::
  "ObjectModel \<Rightarrow> VersionLineage \<Rightarrow> ObjectVersionEntry list \<Rightarrow> version_gets \<Rightarrow> failure_auth
     \<Rightarrow> failure_error + failure_auth \<times> MaterializedAmbiguousVersion list" where
  "authenticate_candidates model lineage entries gets st =
     (let (candidates, candidate_conflicts) = ambiguous_version_candidates model lineage entries;
          st = prove_if (candidate_conflicts \<noteq> []) DataCorruption st;
          st = st\<lparr>fa_unknown_write_value_conflicts :=
                    fa_unknown_write_value_conflicts st |\<union>| fset_of_list candidate_conflicts\<rparr>
      in res_bind (fold_res (candidate_get_step gets) (st, from_sources (om_version_write_sources model), [])
             (sort_key (\<lambda>c. (ac_key c, \<not> ac_is_latest c, ac_version_id c)) candidates))
           (\<lambda>(st, _, materialized). Inr (st, materialized)))"

definition authenticate_latest ::
  "CheckerReport \<Rightarrow> ObjectModel \<Rightarrow> OperationRecord list \<Rightarrow> VersionLineage \<Rightarrow> ObjectVersionEntry list
     \<Rightarrow> MaterializedAmbiguousVersion list \<Rightarrow> failure_auth \<Rightarrow> failure_auth" where
  "authenticate_latest report model pre lineage entries materialized st =
     (let (actual_latest, conflicts) = latest_version_entries entries;
          lineage_report = evaluate_latest_version_lineage (report\<lparr>cr_delete_marker_lineage_incomplete := conflicts\<rparr>) model
            (expected_latest_versions pre) actual_latest materialized (vl_delete_markers lineage)
      in note_lineage_conflicts (cr_delete_marker_lineage_incomplete lineage_report)
           (st\<lparr>fa_delete_marker_lineage_incomplete :=
                 fa_delete_marker_lineage_incomplete st |\<union>| fset_of_list conflicts\<rparr>))"

definition note_lineage_message :: "string \<Rightarrow> failure_auth \<Rightarrow> failure_auth" where
  "note_lineage_message message st =
     prove DeleteMarkerLineageIncomplete
       (st\<lparr>fa_delete_marker_lineage_incomplete := finsert message (fa_delete_marker_lineage_incomplete st)\<rparr>)"

definition resurrection_step :: "(string, ObjectVersionEntry) fmap \<Rightarrow> failure_auth \<Rightarrow> string \<Rightarrow> failure_auth" where
  "resurrection_step actual_latest st key =
     (case fmlookup actual_latest key of
        None \<Rightarrow> st
      | Some e \<Rightarrow>
          if ov_is_delete_marker e
          then prove DeletedObjectResurrected
                 (st\<lparr>fa_ambiguous_delete_resurrections := finsert (key @ '': GET returned the committed body after ambiguous delete but ListObjectVersions reports a delete marker latest'')
                       (fa_ambiguous_delete_resurrections st)\<rparr>)
          else st)"

definition delete_absent_step ::
  "VersionLineage \<Rightarrow> string fset option \<Rightarrow> (string, ObjectVersionEntry) fmap \<Rightarrow> failure_auth \<Rightarrow> string \<Rightarrow> failure_auth" where
  "delete_absent_step lineage listed_keys actual_latest st key =
     (let list_proves_absence = (case listed_keys of None \<Rightarrow> False | Some listed \<Rightarrow> key |\<notin>| listed);
          novel = (\<lambda>e. novel_ambiguous_delete_marker key (ov_is_delete_marker e) (ov_version_id e)
                         (map marker_pair (vl_delete_markers lineage)))
      in case fmlookup actual_latest key of
           None \<Rightarrow> note_lineage_message
             (key @ '': GET returned 404 after ambiguous delete but ListObjectVersions has no latest entry'') st
         | Some e \<Rightarrow>
             if list_proves_absence \<and> novel e
             then st\<lparr>fa_tolerated_ambiguous_deletes := finsert key (fa_tolerated_ambiguous_deletes st)\<rparr>
             else if \<not> ov_is_delete_marker e
             then prove CommittedObjectUnavailable
                    (st\<lparr>fa_missing_committed_objects := finsert key (fa_missing_committed_objects st)\<rparr>)
             else if \<not> novel e
             then note_lineage_message
               (key @ '': GET returned 404 after ambiguous delete but the latest delete marker has no novel version identity'') st
             else st)"

definition delete_present_step ::
  "(string, ListedVersionEntry) fmap \<Rightarrow> (string, ObjectVersionEntry) fmap \<Rightarrow> failure_auth \<Rightarrow> string \<Rightarrow> failure_auth" where
  "delete_present_step expected_latest actual_latest st key =
     (case fmlookup actual_latest key of
        None \<Rightarrow> note_lineage_message
          (key @ '': ambiguous delete did not materialize but ListObjectVersions has no latest data entry'') st
      | Some e \<Rightarrow>
          if ov_is_delete_marker e then st
          else if (case fmlookup expected_latest key of
                     None \<Rightarrow> True
                   | Some expected \<Rightarrow> ov_version_id e \<noteq> lv_version_id expected \<or> lv_is_delete_marker expected)
          then note_lineage_message
            (key @ '': ambiguous delete did not materialize but latest data version identity drifted'') st
          else st)"

definition authenticate_ambiguous_deletes ::
  "OperationRecord list \<Rightarrow> VersionLineage \<Rightarrow> ObjectVersionEntry list \<Rightarrow> string fset option \<Rightarrow> failure_auth \<Rightarrow> failure_auth" where
  "authenticate_ambiguous_deletes pre lineage entries listed_keys st =
     (let actual_latest = fst (latest_version_entries entries);
          present = sorted_list_of_fset (fa_ambiguous_delete_present st);
          st = foldl (resurrection_step actual_latest) st present;
          st = foldl (delete_absent_step lineage listed_keys actual_latest) st (sorted_list_of_fset (fa_ambiguous_delete_absent st))
      in foldl (delete_present_step (expected_latest_versions pre) actual_latest) st present)"

definition authenticate_version_list ::
  "CheckerReport \<Rightarrow> ObjectModel \<Rightarrow> OperationRecord list \<Rightarrow> OperationRecord list \<Rightarrow> version_gets \<Rightarrow> string fset option
     \<Rightarrow> failure_auth \<Rightarrow> failure_error + failure_auth" where
  "authenticate_version_list report model pre suf gets listed_keys st =
     (let run_prefix = key_prefix (cr_run_id report); lineage = committed_version_lineage pre in
      case filter (\<lambda>r. op_kind r = ListVersions \<and> op_key r = Some run_prefix) suf of
        [version_list] \<Rightarrow>
          if list_completed version_list
          then context_or (op_listed_versions version_list) FailureVersionListWithoutEntries (\<lambda>listed.
            (let entries = map listed_object_entry listed;
                 st = note_version_listing pre lineage entries st
             in res_bind (authenticate_candidates model lineage entries gets st) (\<lambda>(st, materialized).
                  Inr (authenticate_ambiguous_deletes pre lineage entries listed_keys
                         (authenticate_latest report model pre lineage entries materialized st)))))
          else Inr (note_list_incomplete (''ListObjectVersions prefix '' @ run_prefix @ '' did not complete'') st)
      | _ \<Rightarrow> Inl FailureVersionListCount)"

definition authenticate_versions ::
  "CheckerReport \<Rightarrow> ObjectModel \<Rightarrow> OperationRecord list \<Rightarrow> OperationRecord list \<Rightarrow> version_gets \<Rightarrow> string fset option
     \<Rightarrow> failure_auth \<Rightarrow> failure_error + failure_auth" where
  "authenticate_versions report model pre suf gets listed_keys st =
     (if cr_versioning_expected report
      then (let lineage = committed_version_lineage pre;
                st = foldl (committed_version_get_step gets) (note_lineage lineage st) (vl_versions lineage)
            in authenticate_version_list report model pre suf gets listed_keys st)
      else Inr st)"

subsection \<open>Comparison with the report\<close>

definition ensure_reported_checker_failure_entries :: "string \<Rightarrow> string list \<Rightarrow> string fset \<Rightarrow> failure_error + unit" where
  "ensure_reported_checker_failure_entries field reported authenticated =
     ensure (length reported = fcard authenticated \<and> fset_of_list reported = authenticated) (FieldMismatch field) (Inr ())"

text \<open>The flags \<open>matched\<close>: an entry takes the first equal entry that is not yet matched.\<close>

fun first_unmatched :: "'a \<Rightarrow> bool list \<Rightarrow> 'a list \<Rightarrow> nat option" where
  "first_unmatched entry (m # matched) (a # authenticated) =
     (if \<not> m \<and> entry = a then Some 0 else map_option Suc (first_unmatched entry matched authenticated))"
| "first_unmatched entry _ _ = None"

fun match_all :: "'a list \<Rightarrow> bool list \<Rightarrow> 'a list \<Rightarrow> bool" where
  "match_all [] matched authenticated = True"
| "match_all (entry # reported) matched authenticated =
     (case first_unmatched entry matched authenticated of
        None \<Rightarrow> False
      | Some index \<Rightarrow> match_all reported (matched[index := True]) authenticated)"

definition ensure_reported_checker_failure_multiset :: "string \<Rightarrow> 'a list \<Rightarrow> 'a list \<Rightarrow> failure_error + unit" where
  "ensure_reported_checker_failure_multiset field reported authenticated =
     ensure (length reported = length authenticated
             \<and> match_all reported (replicate (length authenticated) False) authenticated) (FieldMismatch field) (Inr ())"

definition reported_entries :: "CheckerReport \<Rightarrow> ReadAnomalies \<Rightarrow> failure_auth \<Rightarrow> (string \<times> string list \<times> string fset) list" where
  "reported_entries report historical st =
     [(''hash_mismatches'', cr_hash_mismatches report, fa_hash_mismatches st),
      (''successful_corrupted_reads'', cr_successful_corrupted_reads report, fset_of_list (ra_corrupted_reads historical)),
      (''unexpected_visible_deleted_objects'', cr_unexpected_visible_deleted_objects report,
         fset_of_list (ra_visible_deleted_objects historical) |\<union>| fa_ambiguous_delete_resurrections st),
      (''resurrected_deleted_objects'', cr_resurrected_deleted_objects report, fa_resurrected_deleted_objects st),
      (''listed_keys_unreadable'', cr_listed_keys_unreadable report, fa_listed_keys_unreadable st),
      (''missing_committed_objects'', cr_missing_committed_objects report, fa_missing_committed_objects st),
      (''version_hash_mismatches'', cr_version_hash_mismatches report, fa_version_hash_mismatches st),
      (''missing_committed_versions'', cr_missing_committed_versions report, fa_missing_committed_versions st),
      (''missing_committed_delete_markers'', cr_missing_committed_delete_markers report, fa_missing_committed_delete_markers st),
      (''unknown_write_value_conflicts'', cr_unknown_write_value_conflicts report, fa_unknown_write_value_conflicts st),
      (''unknown_writes_materialized'', cr_unknown_writes_materialized report, fa_unknown_writes_materialized st),
      (''unavailable_committed_versions'', cr_unavailable_committed_versions report, fa_unavailable_committed_versions st),
      (''unexpected_listed_objects'', cr_unexpected_listed_objects report, fa_unexpected_listed_objects st),
      (''delete_marker_lineage_incomplete'', cr_delete_marker_lineage_incomplete report, fa_delete_marker_lineage_incomplete st),
      (''multipart_upload_lineage_incomplete'', cr_multipart_upload_lineage_incomplete report, fa_multipart_lineage_incomplete st)]"

definition compare_list_warnings :: "CheckerReport \<Rightarrow> failure_auth \<Rightarrow> failure_error + unit" where
  "compare_list_warnings report st =
     (let reported = fset_of_list (cr_list_warnings report) in
      ensure (length (cr_list_warnings report) = min (fa_list_warning_count st) MAX_WARNING_SAMPLES
              \<and> fcard reported = length (cr_list_warnings report) \<and> reported |\<subseteq>| fa_list_warnings st)
        (FieldMismatch ''list_warnings'')
      (ensure (cr_final_list_warning_count report = fa_list_warning_count st) (FieldMismatch ''final_list_warning_count'') (Inr ())))"

definition compare_summaries ::
  "CheckerReport \<Rightarrow> OperationRecord list \<Rightarrow> string fset option \<Rightarrow> failure_auth \<Rightarrow> failure_error + unit" where
  "compare_summaries report pre listed_keys st =
     (let model = object_model pre; lineage = committed_version_lineage pre; versioned = cr_versioning_expected report;
          warnings = list_history_warnings pre in
      ensure (cr_committed_writes_missing_version_id_count report = (if versioned then vl_missing_version_id_count lineage else 0)
              \<and> fset_of_list (cr_committed_writes_missing_version_id report)
                = (if versioned then fset_of_list (vl_missing_version_id_samples lineage) else {||})) VersionIdEvidenceMismatch
      (ensure (cr_list_history_warning_count report = ws_total_count warnings
               \<and> cr_list_history_warnings report = ws_samples warnings) ListHistoryMismatch
      (ensure (cr_committed_puts report = om_committed_writes model
               \<and> cr_expected_live_objects report = fcard (fmdom (om_live model))
               \<and> cr_verified_live_objects report = fa_verified_live_objects st) ObjectCountersMismatch
      (ensure (cr_operation_cohorts report = operation_cohort_counts pre
               \<and> cr_fault_window_relations report = fault_window_relation_counts pre) CohortSummariesMismatch
      (ensure (cr_final_listed_objects report = map_option fcard listed_keys) ListedCountMismatch
      (ensure (fset_of_list (cr_tolerated_ambiguous_deletes report) = fa_tolerated_ambiguous_deletes st
               \<and> length (cr_tolerated_ambiguous_deletes report) = fcard (fa_tolerated_ambiguous_deletes st))
         ToleratedDeletesMismatch
      (ensure (fset_of_list (cr_failed_writes_materialized report) = fa_failed_writes_materialized st
               \<and> length (cr_failed_writes_materialized report) = fcard (fa_failed_writes_materialized st))
         FailedWriteEvidenceMismatch
      (ensure (cr_expected_committed_versions report = (if versioned then length (vl_versions lineage) else 0)
               \<and> cr_verified_committed_versions report = (if versioned then fa_verified_committed_versions st else 0))
         VersionCountersMismatch (Inr ())))))))))"

definition compare_failure_report ::
  "CheckerReport \<Rightarrow> OperationRecord list \<Rightarrow> ReadAnomalies \<Rightarrow> string fset option \<Rightarrow> failure_auth \<Rightarrow> failure_error + unit" where
  "compare_failure_report report pre historical listed_keys st =
     res_bind (fold_res (\<lambda>_ (field, reported, authenticated).
         ensure_reported_checker_failure_entries field reported authenticated) () (reported_entries report historical st)) (\<lambda>_.
     res_bind (compare_list_warnings report st) (\<lambda>_.
     res_bind (ensure_reported_checker_failure_multiset ''unavailable_committed_objects''
         (cr_unavailable_committed_objects report) (fa_unavailable_committed_objects st)) (\<lambda>_.
     res_bind (ensure_reported_checker_failure_multiset ''unknown_committed_read_failures''
         (cr_unknown_committed_read_failures report) (fa_unknown_committed_read_failures st)) (\<lambda>_.
     compare_summaries report pre listed_keys st))))"

subsection \<open>The classifications a history proves\<close>

definition lift_failure_panic :: "panic + 'a \<Rightarrow> failure_error + 'a" where
  "lift_failure_panic r = (case r of Inl p \<Rightarrow> Inl (FailurePanic p) | Inr v \<Rightarrow> Inr v)"

definition authenticated_observations ::
  "CheckerReport \<Rightarrow> OperationRecord list \<Rightarrow> OperationRecord list \<Rightarrow> ReadAnomalies
     \<Rightarrow> failure_error + failure_auth \<times> string fset option" where
  "authenticated_observations report pre suf historical =
     (let model = object_model pre; st = start_failure_auth historical (committed_version_lineage pre) in
      res_bind (index_gets suf) (\<lambda>(current, versions).
      res_bind (authenticate_final_list report model current suf (authenticate_reads model current st)) (\<lambda>(st, listed_keys).
      res_bind (authenticate_unversioned report suf listed_keys st) (\<lambda>st.
      res_bind (authenticate_versions report model pre suf versions listed_keys st) (\<lambda>st.
        Inr (prove_if (fa_unknown_writes_materialized st \<noteq> {||}) AmbiguousWriteMaterialized
               (prove_if (fa_unknown_write_value_conflicts st \<noteq> {||}) DataCorruption st), listed_keys))))))"

definition authenticated_checker_failure_classifications ::
  "hasher \<Rightarrow> CheckerReport \<Rightarrow> OperationRecord list \<Rightarrow> OperationRecord list
     \<Rightarrow> failure_error + RecoveryStabilityClassification list" where
  "authenticated_checker_failure_classifications sha report pre suf =
     res_bind (lift_failure_panic (successful_read_anomalies sha pre)) (\<lambda>historical.
     res_bind (authenticated_observations report pre suf historical) (\<lambda>(st, listed_keys).
     res_bind (compare_failure_report report pre historical listed_keys st) (\<lambda>_. Inr (fa_proven st))))"

definition lift_receipt :: "audit_error + 'a \<Rightarrow> failure_error + 'a" where
  "lift_receipt r = (case r of Inl e \<Rightarrow> Inl (FailureReceipt e) | Inr v \<Rightarrow> Inr v)"

definition lift_signal :: "failure_signal_error + 'a \<Rightarrow> failure_error + 'a" where
  "lift_signal r = (case r of Inl e \<Rightarrow> Inl (FailureSignal e) | Inr v \<Rightarrow> Inr v)"

definition validate_checker_failure_against_history ::
  "hasher \<Rightarrow> (OperationRecord list \<Rightarrow> bytes option) \<Rightarrow> CheckerReport \<Rightarrow> OperationRecord list \<Rightarrow> failure_error + unit" where
  "validate_checker_failure_against_history sha to_vec report history =
     res_bind (lift_receipt (validate_checker_audit_receipt sha to_vec report history)) (\<lambda>(pre, suf).
     res_bind (lift_signal (validate_checker_failure_signal report)) (\<lambda>_.
     res_bind (authenticated_checker_failure_classifications sha report pre suf) (\<lambda>proven.
     ensure (failure_classification report \<in> set proven) (UnsupportedClassification (failure_classification report)) (Inr ()))))"

end
