(* ===== verification/Failure_Soundness.thy ===== *)
theory Failure_Soundness
  imports Checker_Failure "HOL-Library.Multiset"
begin

text \<open>
  What the audit of a failing report proves: the multiset comparison is exact, and the mismatches, resurrections and failed reads of
  an accepted report are exactly those of the recorded reads.
\<close>

subsection \<open>Matching of entries\<close>

fun unmatched :: "bool list \<Rightarrow> 'a list \<Rightarrow> 'a list" where
  "unmatched (m # ms) (a # as) = (if m then unmatched ms as else a # unmatched ms as)"
| "unmatched _ _ = []"

lemma unmatched_replicate: "unmatched (replicate (length as) False) as = as"
  by (induction as) simp_all

lemma first_unmatched_None: "first_unmatched e ms as = None \<longleftrightarrow> e \<notin> set (unmatched ms as)"
  by (induction e ms as rule: first_unmatched.induct) auto

lemma first_unmatched_Some:
  "first_unmatched e ms as = Some i \<Longrightarrow> mset (unmatched ms as) = add_mset e (mset (unmatched (ms[i := True]) as))"
  by (induction e ms as arbitrary: i rule: first_unmatched.induct) (auto split: if_splits)

lemma match_all_iff: "match_all reported ms as \<longleftrightarrow> mset reported \<subseteq># mset (unmatched ms as)"
proof (induction reported arbitrary: ms)
  case (Cons e reported)
  show ?case
  proof (cases "first_unmatched e ms as")
    case None
    then have "e \<notin> set (unmatched ms as)" by (simp add: first_unmatched_None)
    then have "\<not> mset (e # reported) \<subseteq># mset (unmatched ms as)" by (auto dest: mset_subset_eqD)
    with None show ?thesis by simp
  next
    case (Some i)
    from Cons [of "ms[i := True]"] first_unmatched_Some [OF Some] Some show ?thesis by simp
  qed
qed simp

text \<open>The greedy comparison with flags accepts exactly the same multiset, in any order.\<close>

lemma failure_multiset_Inr:
  "ensure_reported_checker_failure_multiset field reported authenticated = Inr () \<longleftrightarrow> mset reported = mset authenticated"
proof -
  have "mset reported \<subseteq># mset authenticated \<and> length reported = length authenticated \<longleftrightarrow> mset reported = mset authenticated"
    by (metis size_mset subset_mset.order_refl subset_mset.le_less mset_subset_size less_irrefl)
  then show ?thesis
    by (auto simp: ensure_reported_checker_failure_multiset_def match_all_iff unmatched_replicate)
qed

lemma failure_entries_Inr:
  "ensure_reported_checker_failure_entries field reported authenticated = Inr () \<longleftrightarrow>
     distinct reported \<and> fset_of_list reported = authenticated"
proof -
  have "length reported = fcard (fset_of_list reported) \<longleftrightarrow> distinct reported"
    unfolding fcard.rep_eq fset_of_list.rep_eq by (metis card_distinct distinct_card)
  then show ?thesis unfolding ensure_reported_checker_failure_entries_def ensure_Inr by blast
qed

subsection \<open>The recorded reads\<close>

definition reads_current :: "OperationRecord list \<Rightarrow> string \<Rightarrow> OperationRecord \<Rightarrow> bool" where
  "reads_current suf key get \<longleftrightarrow> get \<in> set suf \<and> op_kind get = Get \<and> op_version_id get = None \<and> op_key get = Some key"

definition reads_recorded_version :: "OperationRecord list \<Rightarrow> string \<times> string \<Rightarrow> OperationRecord \<Rightarrow> bool" where
  "reads_recorded_version suf identity get \<longleftrightarrow>
     get \<in> set suf \<and> op_kind get = Get \<and> op_key get = Some (fst identity) \<and> op_version_id get = Some (snd identity)"

definition current_key :: "OperationRecord \<Rightarrow> string option" where
  "current_key r = (if op_version_id r = None then op_key r else None)"

definition version_key :: "OperationRecord \<Rightarrow> (string \<times> string) option" where
  "version_key r = (case (op_key r, op_version_id r) of (Some key, Some i) \<Rightarrow> Some (key, i) | _ \<Rightarrow> None)"

text \<open>A map that holds each item under its key.\<close>

definition indexes :: "('a \<Rightarrow> 'k option) \<Rightarrow> ('k, 'a) fmap \<Rightarrow> 'a list \<Rightarrow> bool" where
  "indexes key m xs \<longleftrightarrow> (\<forall>k x. fmlookup m k = Some x \<longleftrightarrow> x \<in> set xs \<and> key x = Some k)"

lemma indexes_insert:
  assumes "indexes key m xs" and "key x = Some k" and "fmlookup m k = None"
  shows "indexes key (fmupd k x m) (xs @ [x])"
proof -
  have "\<not> (y \<in> set xs \<and> key y = Some k)" for y using assms(1,3) unfolding indexes_def by (metis option.distinct(1))
  then show ?thesis using assms(1,2) unfolding indexes_def by auto
qed

lemma indexes_skip: "indexes key m xs \<Longrightarrow> key x = None \<Longrightarrow> indexes key m (xs @ [x])"
  unfolding indexes_def by auto

lemma failure_get_step_indexes:
  assumes "failure_get_step (c, v) r = Inr (c', v')" and "indexes current_key c xs" and "indexes version_key v xs"
  shows "indexes current_key c' (xs @ [r]) \<and> indexes version_key v' (xs @ [r])"
proof (cases "op_version_id r")
  case None
  with assms(1) obtain k where "op_key r = Some k" "fmlookup c k = None" "c' = fmupd k r c" "v' = v"
    by (auto simp: failure_get_step_def)
  with None assms(2,3) show ?thesis by (simp add: indexes_insert indexes_skip current_key_def version_key_def)
next
  case (Some i)
  with assms(1) obtain k where "op_key r = Some k" "fmlookup v (k, i) = None" "c' = c" "v' = fmupd (k, i) r v"
    by (auto simp: failure_get_step_def)
  with Some assms(2,3) show ?thesis by (simp add: indexes_insert indexes_skip current_key_def version_key_def)
qed

lemma index_gets_fold:
  assumes "fold_res failure_get_step (fmempty, fmempty) xs = Inr (current, versions)"
  shows "indexes current_key current xs \<and> indexes version_key versions xs"
  using assms
proof (induction xs arbitrary: current versions rule: rev_induct)
  case Nil
  then show ?case by (simp add: indexes_def)
next
  case (snoc r xs)
  then obtain c v where cv: "fold_res failure_get_step (fmempty, fmempty) xs = Inr (c, v)"
    and step: "failure_get_step (c, v) r = Inr (current, versions)" by (auto simp: fold_res_snoc_Inr)
  show ?case using failure_get_step_indexes [OF step] snoc.IH [OF cv] by blast
qed

lemma index_gets_Inr:
  assumes "index_gets suf = Inr (current, versions)"
  shows "fmlookup current key = Some get \<longleftrightarrow> reads_current suf key get"
    and "fmlookup versions identity = Some get \<longleftrightarrow> reads_recorded_version suf identity get"
  using index_gets_fold [OF assms [unfolded index_gets_def]]
  by (cases identity; auto simp: indexes_def reads_current_def reads_recorded_version_def current_key_def version_key_def
      split: option.splits)+

subsection \<open>Scans that gather evidence\<close>

text \<open>A step that adds to one field what it finds in an item, and a step that keeps a field.\<close>

locale evidence_scan =
  fixes step :: "'s \<Rightarrow> 'x \<Rightarrow> 's"
    and field :: "'s \<Rightarrow> 'e set"
    and found :: "'x \<Rightarrow> 'e set"
  assumes gathers: "field (step st x) = field st \<union> found x"
begin

lemma scanned: "field (foldl step st xs) = field st \<union> (\<Union>x \<in> set xs. found x)"
  by (induction xs arbitrary: st) (auto simp: gathers)

end

lemma foldl_frame:
  assumes "\<And>st x. f (step st x) = f st"
  shows "f (foldl step st xs) = f st"
  by (induction xs arbitrary: st) (simp_all add: assms)

text \<open>The fields that only the recorded reads of current keys change.\<close>

definition read_evidence ::
  "failure_auth \<Rightarrow> string fset \<times> string fset \<times> CommittedReadFailure list \<times> CommittedReadFailure list \<times> nat" where
  "read_evidence st = (fa_hash_mismatches st, fa_resurrected_deleted_objects st, fa_unavailable_committed_objects st,
     fa_unknown_committed_read_failures st, fa_verified_live_objects st)"

lemma prove_fields [simp]:
  "fa_hash_mismatches (prove c st) = fa_hash_mismatches st"
  "fa_resurrected_deleted_objects (prove c st) = fa_resurrected_deleted_objects st"
  "fa_ambiguous_delete_resurrections (prove c st) = fa_ambiguous_delete_resurrections st"
  "fa_listed_keys_unreadable (prove c st) = fa_listed_keys_unreadable st"
  "fa_missing_committed_objects (prove c st) = fa_missing_committed_objects st"
  "fa_version_hash_mismatches (prove c st) = fa_version_hash_mismatches st"
  "fa_missing_committed_versions (prove c st) = fa_missing_committed_versions st"
  "fa_missing_committed_delete_markers (prove c st) = fa_missing_committed_delete_markers st"
  "fa_unavailable_committed_objects (prove c st) = fa_unavailable_committed_objects st"
  "fa_unknown_committed_read_failures (prove c st) = fa_unknown_committed_read_failures st"
  "fa_unknown_write_value_conflicts (prove c st) = fa_unknown_write_value_conflicts st"
  "fa_unknown_writes_materialized (prove c st) = fa_unknown_writes_materialized st"
  "fa_unavailable_committed_versions (prove c st) = fa_unavailable_committed_versions st"
  "fa_unexpected_listed_objects (prove c st) = fa_unexpected_listed_objects st"
  "fa_delete_marker_lineage_incomplete (prove c st) = fa_delete_marker_lineage_incomplete st"
  "fa_multipart_lineage_incomplete (prove c st) = fa_multipart_lineage_incomplete st"
  "fa_list_warnings (prove c st) = fa_list_warnings st"
  "fa_list_warning_count (prove c st) = fa_list_warning_count st"
  "fa_verified_live_objects (prove c st) = fa_verified_live_objects st"
  "fa_verified_committed_versions (prove c st) = fa_verified_committed_versions st"
  "fa_tolerated_ambiguous_deletes (prove c st) = fa_tolerated_ambiguous_deletes st"
  "fa_failed_writes_materialized (prove c st) = fa_failed_writes_materialized st"
  "fa_materialized_ambiguous_write_keys (prove c st) = fa_materialized_ambiguous_write_keys st"
  "fa_ambiguous_delete_absent (prove c st) = fa_ambiguous_delete_absent st"
  "fa_ambiguous_delete_present (prove c st) = fa_ambiguous_delete_present st"
  "fa_ambiguous_write_absent (prove c st) = fa_ambiguous_write_absent st"
  "fa_missing_live_keys (prove c st) = fa_missing_live_keys st"
  by (simp_all add: prove_def)

lemma prove_if_fields [simp]:
  "fa_hash_mismatches (prove_if b c st) = fa_hash_mismatches st"
  "fa_resurrected_deleted_objects (prove_if b c st) = fa_resurrected_deleted_objects st"
  "fa_ambiguous_delete_resurrections (prove_if b c st) = fa_ambiguous_delete_resurrections st"
  "fa_listed_keys_unreadable (prove_if b c st) = fa_listed_keys_unreadable st"
  "fa_missing_committed_objects (prove_if b c st) = fa_missing_committed_objects st"
  "fa_version_hash_mismatches (prove_if b c st) = fa_version_hash_mismatches st"
  "fa_missing_committed_versions (prove_if b c st) = fa_missing_committed_versions st"
  "fa_missing_committed_delete_markers (prove_if b c st) = fa_missing_committed_delete_markers st"
  "fa_unavailable_committed_objects (prove_if b c st) = fa_unavailable_committed_objects st"
  "fa_unknown_committed_read_failures (prove_if b c st) = fa_unknown_committed_read_failures st"
  "fa_unknown_write_value_conflicts (prove_if b c st) = fa_unknown_write_value_conflicts st"
  "fa_unknown_writes_materialized (prove_if b c st) = fa_unknown_writes_materialized st"
  "fa_unavailable_committed_versions (prove_if b c st) = fa_unavailable_committed_versions st"
  "fa_unexpected_listed_objects (prove_if b c st) = fa_unexpected_listed_objects st"
  "fa_delete_marker_lineage_incomplete (prove_if b c st) = fa_delete_marker_lineage_incomplete st"
  "fa_multipart_lineage_incomplete (prove_if b c st) = fa_multipart_lineage_incomplete st"
  "fa_list_warnings (prove_if b c st) = fa_list_warnings st"
  "fa_list_warning_count (prove_if b c st) = fa_list_warning_count st"
  "fa_verified_live_objects (prove_if b c st) = fa_verified_live_objects st"
  "fa_verified_committed_versions (prove_if b c st) = fa_verified_committed_versions st"
  "fa_tolerated_ambiguous_deletes (prove_if b c st) = fa_tolerated_ambiguous_deletes st"
  "fa_failed_writes_materialized (prove_if b c st) = fa_failed_writes_materialized st"
  "fa_materialized_ambiguous_write_keys (prove_if b c st) = fa_materialized_ambiguous_write_keys st"
  "fa_ambiguous_delete_absent (prove_if b c st) = fa_ambiguous_delete_absent st"
  "fa_ambiguous_delete_present (prove_if b c st) = fa_ambiguous_delete_present st"
  "fa_ambiguous_write_absent (prove_if b c st) = fa_ambiguous_write_absent st"
  "fa_missing_live_keys (prove_if b c st) = fa_missing_live_keys st"
  by (simp_all add: prove_if_def)

lemmas note_defs = note_unreadable_def note_unexpected_def note_value_conflict_def note_lineage_message_def note_list_incomplete_def
  note_lineage_conflicts_def note_list_warnings_def note_lineage_def note_version_listing_def note_materialization_def Let_def

named_theorems auth_frame

lemma read_evidence_note [auth_frame]:
  "read_evidence (prove c st) = read_evidence st" "read_evidence (prove_if b c st) = read_evidence st"
  "read_evidence (note_unreadable m st) = read_evidence st"
  "read_evidence (note_unexpected m st) = read_evidence st"
  "read_evidence (note_value_conflict m st) = read_evidence st"
  "read_evidence (note_lineage_message m st) = read_evidence st"
  "read_evidence (note_list_incomplete m st) = read_evidence st"
  "read_evidence (note_lineage_conflicts ms st) = read_evidence st"
  "read_evidence (note_list_warnings report w st) = read_evidence st"
  "read_evidence (note_lineage l st) = read_evidence st"
  "read_evidence (note_version_listing pre l entries st) = read_evidence st"
  "read_evidence (note_materialization key a actual st) = read_evidence st"
  by (simp_all add: note_defs read_evidence_def case_prod_beta)

lemma version_mismatches_note [auth_frame]:
  "fa_version_hash_mismatches (note_unreadable m st) = fa_version_hash_mismatches st"
  "fa_version_hash_mismatches (note_unexpected m st) = fa_version_hash_mismatches st"
  "fa_version_hash_mismatches (note_value_conflict m st) = fa_version_hash_mismatches st"
  "fa_version_hash_mismatches (note_lineage_message m st) = fa_version_hash_mismatches st"
  "fa_version_hash_mismatches (note_list_incomplete m st) = fa_version_hash_mismatches st"
  "fa_version_hash_mismatches (note_lineage_conflicts ms st) = fa_version_hash_mismatches st"
  "fa_version_hash_mismatches (note_list_warnings report w st) = fa_version_hash_mismatches st"
  "fa_version_hash_mismatches (note_lineage l st) = fa_version_hash_mismatches st"
  "fa_version_hash_mismatches (note_version_listing pre l entries st) = fa_version_hash_mismatches st"
  "fa_version_hash_mismatches (note_materialization key a actual st) = fa_version_hash_mismatches st"
  by (simp_all add: note_defs case_prod_beta)

lemma read_evidence_step [auth_frame]:
  "read_evidence (listed_key_step model gets st key) = read_evidence st"
  "read_evidence (committed_version_get_step vgets st v) = read_evidence st"
  "read_evidence (resurrection_step latest st key) = read_evidence st"
  "read_evidence (delete_absent_step l listed latest st key) = read_evidence st"
  "read_evidence (delete_present_step expected latest st key) = read_evidence st"
  by (auto simp: listed_key_step_def committed_version_get_step_def resurrection_step_def delete_absent_step_def
      delete_present_step_def Let_def auth_frame split: option.splits OperationOutcome.splits)
    (auto simp: read_evidence_def)

lemma version_mismatches_step [auth_frame]:
  "fa_version_hash_mismatches (live_key_step model gets st kv) = fa_version_hash_mismatches st"
  "fa_version_hash_mismatches (unknown_key_step model gets st ka) = fa_version_hash_mismatches st"
  "fa_version_hash_mismatches (deleted_key_step gets st key) = fa_version_hash_mismatches st"
  "fa_version_hash_mismatches (listed_key_step model gets st key) = fa_version_hash_mismatches st"
  "fa_version_hash_mismatches (resurrection_step latest st key) = fa_version_hash_mismatches st"
  "fa_version_hash_mismatches (delete_absent_step l listed latest st key) = fa_version_hash_mismatches st"
  "fa_version_hash_mismatches (delete_present_step expected latest st key) = fa_version_hash_mismatches st"
  by (auto simp: live_key_step_def live_other_value_def unknown_key_step_def deleted_key_step_def listed_key_step_def
      resurrection_step_def delete_absent_step_def delete_present_step_def Let_def auth_frame
      split: option.splits OperationOutcome.splits prod.splits)

lemma candidate_frame:
  assumes "candidate_get_step gets (st, sources, ms) c = Inr (st', sources', ms')"
  shows "read_evidence st' = read_evidence st \<and> fa_version_hash_mismatches st' = fa_version_hash_mismatches st"
  using assms
  by (auto simp: candidate_get_step_def Let_def auth_frame split: option.splits OperationOutcome.splits sum.splits)
    (auto simp: read_evidence_def)

lemma candidates_frame:
  assumes "fold_res (candidate_get_step gets) (st, sources, ms) cs = Inr (st', sources', ms')"
  shows "read_evidence st' = read_evidence st \<and> fa_version_hash_mismatches st' = fa_version_hash_mismatches st"
  using assms
proof (induction cs arbitrary: st' sources' ms' rule: rev_induct)
  case (snoc c cs)
  then obtain t so mo where "fold_res (candidate_get_step gets) (st, sources, ms) cs = Inr (t, so, mo)"
    and "candidate_get_step gets (t, so, mo) c = Inr (st', sources', ms')" by (auto simp: fold_res_snoc_Inr)
  with snoc.IH candidate_frame show ?case by metis
qed simp

lemma authenticate_candidates_frame:
  assumes "authenticate_candidates model lineage entries gets st = Inr (st', materialized)"
  shows "read_evidence st' = read_evidence st \<and> fa_version_hash_mismatches st' = fa_version_hash_mismatches st"
proof -
  obtain cs conflicts where cs: "ambiguous_version_candidates model lineage entries = (cs, conflicts)" by fastforce
  from assms obtain sources where "fold_res (candidate_get_step gets)
      ((prove_if (conflicts \<noteq> []) DataCorruption st)\<lparr>fa_unknown_write_value_conflicts :=
          fa_unknown_write_value_conflicts (prove_if (conflicts \<noteq> []) DataCorruption st) |\<union>| fset_of_list conflicts\<rparr>,
       from_sources (om_version_write_sources model), [])
      (sort_key (\<lambda>c. (ac_key c, \<not> ac_is_latest c, ac_version_id c)) cs) = Inr (st', sources, materialized)"
    unfolding authenticate_candidates_def cs Let_def prod.case res_bind_Inr by auto
  from candidates_frame [OF this] show ?thesis by (simp add: read_evidence_def)
qed

lemmas read_foldl_frame = read_evidence_step [THEN foldl_frame [where f = read_evidence]]
lemmas version_foldl_frame = version_mismatches_step [THEN foldl_frame [where f = fa_version_hash_mismatches]]

lemma authenticate_latest_frame [auth_frame]:
  "read_evidence (authenticate_latest report model pre lineage entries materialized st) = read_evidence st"
  "fa_version_hash_mismatches (authenticate_latest report model pre lineage entries materialized st) = fa_version_hash_mismatches st"
  unfolding authenticate_latest_def Let_def case_prod_beta auth_frame by (simp_all add: read_evidence_def)

lemma ambiguous_deletes_frame [auth_frame]:
  "read_evidence (authenticate_ambiguous_deletes pre lineage entries listed st) = read_evidence st"
  "fa_version_hash_mismatches (authenticate_ambiguous_deletes pre lineage entries listed st) = fa_version_hash_mismatches st"
  unfolding authenticate_ambiguous_deletes_def Let_def read_foldl_frame version_foldl_frame by (rule refl)+

lemma reads_frame [auth_frame]:
  "fa_version_hash_mismatches (authenticate_reads model gets st) = fa_version_hash_mismatches st"
  unfolding authenticate_reads_def Let_def version_foldl_frame by (rule refl)

lemma ghosts_frame [auth_frame]:
  "read_evidence (foldl (\<lambda>st key. note_unreadable (ghost_message key) st) st keys) = read_evidence st"
  "fa_version_hash_mismatches (foldl (\<lambda>st key. note_unreadable (ghost_message key) st) st keys) = fa_version_hash_mismatches st"
  by (rule foldl_frame, rule auth_frame)+

lemma final_list_frame:
  assumes "authenticate_final_list report model gets suf st = Inr (st', listed)"
  shows "read_evidence st' = read_evidence st \<and> fa_version_hash_mismatches st' = fa_version_hash_mismatches st"
  using assms
  by (auto simp: authenticate_final_list_def Let_def auth_frame read_foldl_frame version_foldl_frame split: list.splits if_splits)

lemma unversioned_frame:
  assumes "authenticate_unversioned report suf listed st = Inr st'"
  shows "read_evidence st' = read_evidence st \<and> fa_version_hash_mismatches st' = fa_version_hash_mismatches st"
  using assms by (auto simp: authenticate_unversioned_def Let_def read_evidence_def split: if_splits option.splits)

lemma version_list_frame:
  assumes "authenticate_version_list report model pre suf gets listed st = Inr st'"
  shows "read_evidence st' = read_evidence st \<and> fa_version_hash_mismatches st' = fa_version_hash_mismatches st"
  using assms
  by (auto simp: authenticate_version_list_def Let_def auth_frame split: list.splits if_splits
      dest!: authenticate_candidates_frame)

lemma versions_frame:
  assumes "authenticate_versions report model pre suf gets listed st = Inr st'"
  shows "read_evidence st' = read_evidence st \<and>
    (let lineage = committed_version_lineage pre in
     fa_version_hash_mismatches st' = fa_version_hash_mismatches (if cr_versioning_expected report
       then foldl (committed_version_get_step gets) (note_lineage lineage st) (vl_versions lineage) else st))"
  using assms
  by (auto simp: authenticate_versions_def Let_def auth_frame read_foldl_frame split: if_splits
      dest!: version_list_frame)

subsection \<open>The evidence of the reads\<close>

definition other_value :: "ObjectModel \<Rightarrow> string \<Rightarrow> ExpectedObject \<Rightarrow> OperationRecord \<Rightarrow> ExpectedObject \<Rightarrow> bool" where
  "other_value model key expected get actual \<longleftrightarrow>
     op_outcome get = Ok \<and> recorded_object get = Some actual \<and> actual \<noteq> expected \<and> unknown_writes_of model key = []"

definition unavailable_read :: "OperationRecord \<Rightarrow> bool" where
  "unavailable_read get \<longleftrightarrow> op_outcome get \<in> {Failed, Timeout} \<and> recorded_object get = None"

definition unclear_read :: "ObjectModel \<Rightarrow> string \<Rightarrow> OperationRecord \<Rightarrow> bool" where
  "unclear_read model key get \<longleftrightarrow>
     op_outcome get \<in> {Unknown, Ok} \<and> recorded_object get = None \<or>
     op_outcome get \<noteq> Ok \<and> recorded_object get \<noteq> None \<and> \<not> (op_outcome get = NotFound \<and> key |\<in>| om_ambiguous_delete_pending model)"

lemma no_attempts [simp]:
  "matching_active_ambiguous_object [] actual = None" "matching_superseded_ambiguous_object [] actual = None"
  by (simp_all add: matching_active_ambiguous_object_def matching_superseded_ambiguous_object_def)

lemma live_other_value_fields [simp]:
  "fa_hash_mismatches (live_other_value attempts key expected actual st) =
     (if attempts = [] then finsert (read_mismatch_message key expected actual) (fa_hash_mismatches st) else fa_hash_mismatches st)"
  "fa_unavailable_committed_objects (live_other_value attempts key expected actual st) = fa_unavailable_committed_objects st"
  "fa_unknown_committed_read_failures (live_other_value attempts key expected actual st) = fa_unknown_committed_read_failures st"
  "fa_resurrected_deleted_objects (live_other_value attempts key expected actual st) = fa_resurrected_deleted_objects st"
  by (cases "attempts = []"; simp add: live_other_value_def note_materialization_def note_value_conflict_def split: option.splits)+

interpretation live_mismatches: evidence_scan "live_key_step model gets" "\<lambda>st. fset (fa_hash_mismatches st)"
  "\<lambda>(key, expected). {read_mismatch_message key expected actual |get actual.
     fmlookup gets key = Some get \<and> other_value model key expected get actual}" for model gets
  by unfold_locales
    (auto simp: live_key_step_def other_value_def Let_def split: option.splits OperationOutcome.splits prod.splits)

interpretation live_unavailable: evidence_scan "live_key_step model gets" "\<lambda>st. set (fa_unavailable_committed_objects st)"
  "\<lambda>(key, expected). {observed_failure key get None |get. fmlookup gets key = Some get \<and> unavailable_read get}" for model gets
  by unfold_locales
    (auto simp: live_key_step_def unavailable_read_def Let_def split: option.splits OperationOutcome.splits prod.splits)

interpretation live_unclear: evidence_scan "live_key_step model gets" "\<lambda>st. set (fa_unknown_committed_read_failures st)"
  "\<lambda>(key, expected). {observed_failure key get (map_option eo_size_bytes (recorded_object get)) |get.
     fmlookup gets key = Some get \<and> unclear_read model key get}" for model gets
  by unfold_locales
    (auto simp: live_key_step_def unclear_read_def Let_def split: option.splits OperationOutcome.splits prod.splits)

interpretation resurrections: evidence_scan "deleted_key_step gets" "\<lambda>st. fset (fa_resurrected_deleted_objects st)"
  "\<lambda>key. {resurrected_message key (eo_size_bytes actual) |get actual.
     fmlookup gets key = Some get \<and> op_outcome get = Ok \<and> recorded_object get = Some actual}" for gets
  by unfold_locales (auto simp: deleted_key_step_def split: option.splits OperationOutcome.splits)

interpretation version_mismatches: evidence_scan "committed_version_get_step gets" "\<lambda>st. fset (fa_version_hash_mismatches st)"
  "\<lambda>v. {version_mismatch_message v actual |get actual. fmlookup gets (version_pair v) = Some get \<and> op_outcome get = Ok \<and>
     recorded_object get = Some actual \<and> (eo_sha256 actual \<noteq> cv_sha256 v \<or> eo_size_bytes actual \<noteq> cv_size_bytes v)}" for gets
  by unfold_locales
    (auto simp: committed_version_get_step_def Let_def split: option.splits OperationOutcome.splits)

lemma later_reads_frame:
  "fa_hash_mismatches (unknown_key_step model gets st ka) = fa_hash_mismatches st"
  "fa_unavailable_committed_objects (unknown_key_step model gets st ka) = fa_unavailable_committed_objects st"
  "fa_unknown_committed_read_failures (unknown_key_step model gets st ka) = fa_unknown_committed_read_failures st"
  "fa_resurrected_deleted_objects (unknown_key_step model gets st ka) = fa_resurrected_deleted_objects st"
  "fa_resurrected_deleted_objects (live_key_step model gets st kv) = fa_resurrected_deleted_objects st"
  "fa_hash_mismatches (deleted_key_step gets st key) = fa_hash_mismatches st"
  "fa_unavailable_committed_objects (deleted_key_step gets st key) = fa_unavailable_committed_objects st"
  "fa_unknown_committed_read_failures (deleted_key_step gets st key) = fa_unknown_committed_read_failures st"
  by (auto simp: unknown_key_step_def live_key_step_def deleted_key_step_def note_materialization_def note_value_conflict_def Let_def
      split: option.splits OperationOutcome.splits prod.splits)

lemmas later_reads_foldl =
  later_reads_frame(1,6) [THEN foldl_frame [where f = fa_hash_mismatches]]
  later_reads_frame(2,7) [THEN foldl_frame [where f = fa_unavailable_committed_objects]]
  later_reads_frame(3,8) [THEN foldl_frame [where f = fa_unknown_committed_read_failures]]
  later_reads_frame(4,5) [THEN foldl_frame [where f = fa_resurrected_deleted_objects]]

lemma start_fields [simp]:
  "fa_hash_mismatches (start_failure_auth h l) = {||}" "fa_resurrected_deleted_objects (start_failure_auth h l) = {||}"
  "fa_unavailable_committed_objects (start_failure_auth h l) = []" "fa_unknown_committed_read_failures (start_failure_auth h l) = []"
  "fa_version_hash_mismatches (start_failure_auth h l) = {||}"
  "fa_delete_marker_lineage_incomplete (start_failure_auth h l) = fset_of_list (vl_delete_marker_lineage_incomplete l)"
  by (simp_all add: start_failure_auth_def init_failure_auth_def)

lemma authenticate_reads_fields:
  "fa_hash_mismatches (authenticate_reads model gets st) =
     fa_hash_mismatches (foldl (live_key_step model gets) st (fm_entries (om_live model)))"
  "fa_unavailable_committed_objects (authenticate_reads model gets st) =
     fa_unavailable_committed_objects (foldl (live_key_step model gets) st (fm_entries (om_live model)))"
  "fa_unknown_committed_read_failures (authenticate_reads model gets st) =
     fa_unknown_committed_read_failures (foldl (live_key_step model gets) st (fm_entries (om_live model)))"
  unfolding authenticate_reads_def Let_def later_reads_foldl by (rule refl)+

lemma authenticate_reads_resurrected:
  "fset (fa_resurrected_deleted_objects (authenticate_reads model gets st)) = fset (fa_resurrected_deleted_objects st) \<union>
     (\<Union>key \<in> set (deleted_probe_keys model). {resurrected_message key (eo_size_bytes actual) |get actual.
        fmlookup gets key = Some get \<and> op_outcome get = Ok \<and> recorded_object get = Some actual})"
  unfolding authenticate_reads_def Let_def resurrections.scanned later_reads_foldl by (rule refl)

lemma failure_observations_parts:
  assumes "authenticated_observations report pre suf historical = Inr (st, listed)"
  obtains current versions st1 where "index_gets suf = Inr (current, versions)"
    and "read_evidence st = read_evidence (authenticate_reads (object_model pre) current
           (start_failure_auth historical (committed_version_lineage pre)))"
    and "fa_version_hash_mismatches st1 = {||}"
    and "fa_version_hash_mismatches st = fa_version_hash_mismatches (if cr_versioning_expected report
       then foldl (committed_version_get_step versions) st1 (vl_versions (committed_version_lineage pre)) else st1)"
proof -
  let ?m = "object_model pre" and ?l = "committed_version_lineage pre"
  from assms obtain current versions st2 st3 st4 where gets: "index_gets suf = Inr (current, versions)"
    and list: "authenticate_final_list report ?m current suf
      (authenticate_reads ?m current (start_failure_auth historical ?l)) = Inr (st2, listed)"
    and plain: "authenticate_unversioned report suf listed st2 = Inr st3"
    and versioned: "authenticate_versions report ?m pre suf versions listed st3 = Inr st4"
    and st: "st = prove_if (fa_unknown_writes_materialized st4 \<noteq> {||}) AmbiguousWriteMaterialized
      (prove_if (fa_unknown_write_value_conflicts st4 \<noteq> {||}) DataCorruption st4)"
    unfolding authenticated_observations_def Let_def res_bind_Inr by auto
  note frames = final_list_frame [OF list] unversioned_frame [OF plain] versions_frame [OF versioned, unfolded Let_def]
  show thesis
  proof (rule that [OF gets, of "if cr_versioning_expected report then note_lineage ?l st3 else st3"])
  qed (use frames in \<open>simp_all add: st auth_frame\<close>)
qed

lemma reported_entry:
  assumes "compare_failure_report report pre historical listed st = Inr ()"
    and "(field, reported, authenticated) \<in> set (reported_entries report historical st)"
  shows "distinct reported \<and> set reported = fset authenticated"
proof -
  from assms(1) have "\<forall>x \<in> set (reported_entries report historical st).
      (case x of (field, reported, authenticated) \<Rightarrow> ensure_reported_checker_failure_entries field reported authenticated) = Inr ()"
    by (simp add: compare_failure_report_def fold_res_unit_Inr)
  with assms(2) have "ensure_reported_checker_failure_entries field reported authenticated = Inr ()" by fastforce
  then show ?thesis unfolding failure_entries_Inr by (auto simp: fset_of_list.rep_eq)
qed

lemma reported_failures:
  assumes "compare_failure_report report pre historical listed st = Inr ()"
  shows "mset (cr_unavailable_committed_objects report) = mset (fa_unavailable_committed_objects st)"
    and "mset (cr_unknown_committed_read_failures report) = mset (fa_unknown_committed_read_failures st)"
  using assms by (simp_all add: compare_failure_report_def failure_multiset_Inr)

lemma accepted_failure_parts:
  assumes "validate_checker_audit_receipt sha to_vec report history = Inr (pre, suf)"
    and "validate_checker_failure_against_history sha to_vec report history = Inr ()"
  obtains historical st listed where "successful_read_anomalies sha pre = Inr historical"
    and "authenticated_observations report pre suf historical = Inr (st, listed)"
    and "compare_failure_report report pre historical listed st = Inr ()"
    and "failure_classification report \<in> set (fa_proven st)"
  using assms
  unfolding validate_checker_failure_against_history_def authenticated_checker_failure_classifications_def
  by (auto simp: lift_receipt_def lift_failure_panic_def split: sum.splits)

lemma fm_entries_Union:
  "(\<Union>x \<in> set (fm_entries m). case x of (k, e) \<Rightarrow> f k e) = {y. \<exists>k e. fmlookup m k = Some e \<and> y \<in> f k e}"
proof (intro set_eqI iffI)
  fix y
  assume "y \<in> {y. \<exists>k e. fmlookup m k = Some e \<and> y \<in> f k e}"
  then obtain k e where "fmlookup m k = Some e" "y \<in> f k e" by blast
  then show "y \<in> (\<Union>x \<in> set (fm_entries m). case x of (k, e) \<Rightarrow> f k e)" by (intro UN_I [of "(k, e)"]) simp_all
qed (auto; blast)

text \<open>
  C9: The read evidence of an accepted failing report is exact. Its hash mismatches are, once each, exactly the live objects without
  writes of unknown outcome whose recorded read returned another value; its resurrected objects exactly the deleted keys a
  recorded read returned; its unavailable and unclear reads exactly the recorded reads of live keys that failed or
  timed out without a value, or whose outcome does not say whether the object is there. Nothing is invented or left out.
\<close>

theorem accepted_failure_reads_exact:
  assumes "validate_checker_audit_receipt sha to_vec report history = Inr (pre, suf)"
    and "validate_checker_failure_against_history sha to_vec report history = Inr ()"
  defines "model \<equiv> object_model pre"
  shows "distinct (cr_hash_mismatches report) \<and>
    set (cr_hash_mismatches report) = {read_mismatch_message key expected actual |key expected get actual.
      fmlookup (om_live model) key = Some expected \<and> reads_current suf key get \<and> other_value model key expected get actual} \<and>
    set (cr_resurrected_deleted_objects report) = {resurrected_message key (eo_size_bytes actual) |key get actual.
      key |\<in>| om_deleted model \<and> key |\<notin>| fmdom (om_unknown_writes model) \<and> reads_current suf key get \<and>
      op_outcome get = Ok \<and> recorded_object get = Some actual} \<and>
    set (cr_unavailable_committed_objects report) = {observed_failure key get None |key get.
      key |\<in>| fmdom (om_live model) \<and> reads_current suf key get \<and> unavailable_read get} \<and>
    set (cr_unknown_committed_read_failures report) = {observed_failure key get (map_option eo_size_bytes (recorded_object get)) |key get.
      key |\<in>| fmdom (om_live model) \<and> reads_current suf key get \<and> unclear_read model key get}"
proof -
  from accepted_failure_parts [OF assms(1,2)] obtain historical st listed where
    obs: "authenticated_observations report pre suf historical = Inr (st, listed)"
    and cmp: "compare_failure_report report pre historical listed st = Inr ()" by blast
  from failure_observations_parts [OF obs] obtain current versions where gets: "index_gets suf = Inr (current, versions)"
    and reads: "read_evidence st = read_evidence (authenticate_reads model current
      (start_failure_auth historical (committed_version_lineage pre)))" unfolding model_def by blast
  note at = index_gets_Inr(1) [OF gets]
  let ?st = "start_failure_auth historical (committed_version_lineage pre)"
  from reads have field: "fa_hash_mismatches st = fa_hash_mismatches (authenticate_reads model current ?st)"
    "fa_resurrected_deleted_objects st = fa_resurrected_deleted_objects (authenticate_reads model current ?st)"
    "fa_unavailable_committed_objects st = fa_unavailable_committed_objects (authenticate_reads model current ?st)"
    "fa_unknown_committed_read_failures st = fa_unknown_committed_read_failures (authenticate_reads model current ?st)"
    by (simp_all add: read_evidence_def)
  have hash: "distinct (cr_hash_mismatches report) \<and> set (cr_hash_mismatches report) = fset (fa_hash_mismatches st)"
    by (rule reported_entry [OF cmp, of "''hash_mismatches''"]) (simp add: reported_entries_def)
  have resurrected: "set (cr_resurrected_deleted_objects report) = fset (fa_resurrected_deleted_objects st)"
    by (rule reported_entry [OF cmp, of "''resurrected_deleted_objects''", THEN conjunct2]) (simp add: reported_entries_def)
  note unavailable = mset_eq_setD [OF reported_failures(1) [OF cmp]] and unclear = mset_eq_setD [OF reported_failures(2) [OF cmp]]
  note scans = fm_entries_Union at live_mismatches.scanned live_unavailable.scanned live_unclear.scanned
  have f1: "fset (fa_hash_mismatches st) = {read_mismatch_message key expected actual |key expected get actual.
      fmlookup (om_live model) key = Some expected \<and> reads_current suf key get \<and> other_value model key expected get actual}"
    unfolding field authenticate_reads_fields scans start_fields by blast
  have "fset (fa_resurrected_deleted_objects st) = (\<Union>key \<in> set (deleted_probe_keys model).
      {resurrected_message key (eo_size_bytes actual) |get actual.
        fmlookup current key = Some get \<and> op_outcome get = Ok \<and> recorded_object get = Some actual})"
    using field authenticate_reads_resurrected [of model current ?st] by simp
  then have f2: "fset (fa_resurrected_deleted_objects st) = {resurrected_message key (eo_size_bytes actual) |key get actual.
      key |\<in>| om_deleted model \<and> key |\<notin>| fmdom (om_unknown_writes model) \<and> reads_current suf key get \<and>
      op_outcome get = Ok \<and> recorded_object get = Some actual}"
    unfolding at by (auto simp: deleted_probe_keys_def)
  have f3: "set (fa_unavailable_committed_objects st) = {observed_failure key get None |key get.
      key |\<in>| fmdom (om_live model) \<and> reads_current suf key get \<and> unavailable_read get}"
    unfolding field authenticate_reads_fields scans start_fields fmdom_iff_lookup by auto
  have f4: "set (fa_unknown_committed_read_failures st) = {observed_failure key get (map_option eo_size_bytes (recorded_object get)) |key get.
      key |\<in>| fmdom (om_live model) \<and> reads_current suf key get \<and> unclear_read model key get}"
    unfolding field authenticate_reads_fields scans start_fields fmdom_iff_lookup by auto
  show ?thesis using hash resurrected unavailable unclear unfolding f1 f2 f3 f4 by blast
qed

text \<open>
  C10: The version mismatches of an accepted failing report are exact: without versioning there are none, and with it they
  are, once each, exactly the committed versions whose recorded read by version returned another value.
\<close>

theorem accepted_failure_version_mismatches_exact:
  assumes "validate_checker_audit_receipt sha to_vec report history = Inr (pre, suf)"
    and "validate_checker_failure_against_history sha to_vec report history = Inr ()"
  shows "distinct (cr_version_hash_mismatches report) \<and>
    set (cr_version_hash_mismatches report) = (if cr_versioning_expected report
      then {version_mismatch_message v actual |v get actual. v \<in> set (vl_versions (committed_version_lineage pre)) \<and>
        reads_recorded_version suf (cv_key v, cv_version_id v) get \<and> op_outcome get = Ok \<and> recorded_object get = Some actual \<and>
        (eo_sha256 actual \<noteq> cv_sha256 v \<or> eo_size_bytes actual \<noteq> cv_size_bytes v)}
      else {})"
proof -
  from accepted_failure_parts [OF assms] obtain historical st listed where
    obs: "authenticated_observations report pre suf historical = Inr (st, listed)"
    and cmp: "compare_failure_report report pre historical listed st = Inr ()" by blast
  from failure_observations_parts [OF obs] obtain current versions st1 where gets: "index_gets suf = Inr (current, versions)"
    and st1: "fa_version_hash_mismatches st1 = {||}"
    and field: "fa_version_hash_mismatches st = fa_version_hash_mismatches (if cr_versioning_expected report
      then foldl (committed_version_get_step versions) st1 (vl_versions (committed_version_lineage pre)) else st1)" by blast
  have report: "distinct (cr_version_hash_mismatches report) \<and> set (cr_version_hash_mismatches report) = fset (fa_version_hash_mismatches st)"
    by (rule reported_entry [OF cmp, of "''version_hash_mismatches''"]) (simp add: reported_entries_def)
  then show ?thesis
    by (auto simp: field st1 version_mismatches.scanned index_gets_Inr(2) [OF gets])
qed

subsection \<open>Lineage of unversioned buckets\<close>

lemma lineage_step_frame [auth_frame]:
  "fa_delete_marker_lineage_incomplete (live_key_step model gets st kv) = fa_delete_marker_lineage_incomplete st"
  "fa_delete_marker_lineage_incomplete (unknown_key_step model gets st ka) = fa_delete_marker_lineage_incomplete st"
  "fa_delete_marker_lineage_incomplete (deleted_key_step gets st key) = fa_delete_marker_lineage_incomplete st"
  "fa_delete_marker_lineage_incomplete (listed_key_step model gets st key) = fa_delete_marker_lineage_incomplete st"
  "fa_delete_marker_lineage_incomplete (note_unreadable m st) = fa_delete_marker_lineage_incomplete st"
  "fa_delete_marker_lineage_incomplete (note_list_warnings report w st) = fa_delete_marker_lineage_incomplete st"
  "fa_delete_marker_lineage_incomplete (note_list_incomplete m st) = fa_delete_marker_lineage_incomplete st"
  "fa_delete_marker_lineage_incomplete (note_lineage l st) = fa_delete_marker_lineage_incomplete st"
  "fa_delete_marker_lineage_incomplete (committed_version_get_step vgets st v) = fa_delete_marker_lineage_incomplete st"
  by (auto simp: live_key_step_def live_other_value_def unknown_key_step_def deleted_key_step_def listed_key_step_def
      committed_version_get_step_def note_defs split: option.splits OperationOutcome.splits prod.splits)

lemma lineage_ghosts_frame [auth_frame]:
  "fa_delete_marker_lineage_incomplete (foldl (\<lambda>st key. note_unreadable (ghost_message key) st) st keys) =
     fa_delete_marker_lineage_incomplete st"
  by (rule foldl_frame) (rule auth_frame)

lemmas lineage_foldl_frame = lineage_step_frame(1,2,3,4,9) [THEN foldl_frame [where f = fa_delete_marker_lineage_incomplete]]

lemma lineage_final_list_frame:
  assumes "authenticate_final_list report model gets suf (authenticate_reads model gets st) = Inr (st', listed)"
  shows "fa_delete_marker_lineage_incomplete st' = fa_delete_marker_lineage_incomplete st"
  using assms
  by (auto simp: authenticate_final_list_def authenticate_reads_def Let_def auth_frame lineage_foldl_frame split: list.splits if_splits)

text \<open>A bucket whose versions the audit cannot list: it is unversioned, or the recorded ListObjectVersions did not complete.\<close>

definition versions_unlisted :: "CheckerReport \<Rightarrow> OperationRecord list \<Rightarrow> bool" where
  "versions_unlisted report suf \<longleftrightarrow> (cr_versioning_expected report \<longrightarrow>
     (\<forall>r \<in> set suf. op_kind r = ListVersions \<and> op_key r = Some (key_prefix (cr_run_id report)) \<longrightarrow> \<not> list_completed r))"

lemma lineage_versions_frame:
  assumes "authenticate_versions report model pre suf gets listed st = Inr st'" and "versions_unlisted report suf"
  shows "fa_delete_marker_lineage_incomplete st' = fa_delete_marker_lineage_incomplete st"
proof (cases "cr_versioning_expected report")
  case True
  let ?lists = "filter (\<lambda>r. op_kind r = ListVersions \<and> op_key r = Some (key_prefix (cr_run_id report))) suf"
  from assms(1) True obtain r where r: "?lists = [r]"
    by (auto simp: authenticate_versions_def authenticate_version_list_def Let_def split: list.splits)
  then have "r \<in> set ?lists" by simp
  with assms(2) True have "\<not> list_completed r" by (auto simp: versions_unlisted_def)
  with assms(1) True r show ?thesis
    by (auto simp: authenticate_versions_def authenticate_version_list_def Let_def auth_frame lineage_foldl_frame)
next
  case False
  with assms(1) show ?thesis by (simp add: authenticate_versions_def)
qed

lemma unlisted_lineage_exact:
  assumes "validate_checker_audit_receipt sha to_vec report history = Inr (pre, suf)"
    and "validate_checker_failure_against_history sha to_vec report history = Inr ()"
    and "versions_unlisted report suf"
  shows "set (cr_delete_marker_lineage_incomplete report) = set (vl_delete_marker_lineage_incomplete (committed_version_lineage pre))"
proof -
  let ?m = "object_model pre"
  from accepted_failure_parts [OF assms(1,2)] obtain historical st listed where
    obs: "authenticated_observations report pre suf historical = Inr (st, listed)"
    and cmp: "compare_failure_report report pre historical listed st = Inr ()" by blast
  from obs obtain current versions st2 st3 st4 where
    list: "authenticate_final_list report ?m current suf
      (authenticate_reads ?m current (start_failure_auth historical (committed_version_lineage pre))) = Inr (st2, listed)"
    and plain: "authenticate_unversioned report suf listed st2 = Inr st3"
    and versioned: "authenticate_versions report ?m pre suf versions listed st3 = Inr st4"
    and st: "fa_delete_marker_lineage_incomplete st = fa_delete_marker_lineage_incomplete st4"
    unfolding authenticated_observations_def Let_def res_bind_Inr by auto
  from plain have "fa_delete_marker_lineage_incomplete st3 = fa_delete_marker_lineage_incomplete st2"
    by (auto simp: authenticate_unversioned_def Let_def split: if_splits option.splits)
  with lineage_final_list_frame [OF list] lineage_versions_frame [OF versioned assms(3)] st
  have "fset (fa_delete_marker_lineage_incomplete st) = set (vl_delete_marker_lineage_incomplete (committed_version_lineage pre))"
    by (simp add: fset_of_list.rep_eq)
  moreover have "set (cr_delete_marker_lineage_incomplete report) = fset (fa_delete_marker_lineage_incomplete st)"
    by (rule reported_entry [OF cmp, of "''delete_marker_lineage_incomplete''", THEN conjunct2]) (simp add: reported_entries_def)
  ultimately show ?thesis by simp
qed

end
