(* ===== verification/Failure_Divergence.thy ===== *)
theory Failure_Divergence
  imports Failure_Soundness Checker_Soundness
begin

text \<open>
  Where the checker and the audit of its failing reports disagree. The audit expects the lineage notes of a history also from an
  unversioned check, which never writes them, and does not expect the notes the check writes about ambiguous
  deletes when the versions could not be listed. In both cases every failing report of the checker is refused.
\<close>

subsection \<open>The lineage notes of a check\<close>

definition lineage_view :: "CheckerReport \<Rightarrow> string list \<times> bool" where
  "lineage_view r = (cr_delete_marker_lineage_incomplete r, cr_versioning_expected r)"

lemma lineage_view_final_get [simp]: "lineage_view (evaluate_final_get sha r key expected attempts get) = lineage_view r"
proof -
  have "lineage_view (record_preserved_committed sha r' key expected attempts body) = lineage_view r'" for r' body
    by (simp add: record_preserved_committed_def lineage_view_def split: option.split)
  then show ?thesis
    by (auto simp: evaluate_final_get_def Let_def split: option.split OperationOutcome.split) (simp_all add: lineage_view_def)
qed

lemma lineage_view_final_scan:
  "fold_res (final_get_step sha model) st xs = Inr t \<Longrightarrow> lineage_view (fs_report t) = lineage_view (fs_report st)"
  by (rule fold_res_invariant [where P = "\<lambda>t. lineage_view (fs_report t) = lineage_view (fs_report st)"])
    (auto simp: final_get_step_def note_final_get_def Let_def)

lemma lineage_view_steps [simp]:
  "lineage_view (note_deleted_get r key get) = lineage_view r"
  "lineage_view (evaluate_unexplained_listed_key sha r model key get) = lineage_view r"
  by (auto simp: note_deleted_get_def evaluate_unexplained_listed_key_def lineage_view_def Let_def
      split: option.split OperationOutcome.split)

lemma lineage_view_deleted_scan:
  "fold_res deleted_get_step r xs = Inr t \<Longrightarrow> lineage_view t = lineage_view r"
  by (rule fold_res_invariant [where P = "\<lambda>t. lineage_view t = lineage_view r"]) (auto simp: deleted_get_step_def)

lemma lineage_view_unexplained_scan:
  "fold_res (unexplained_get_step sha model) r xs = Inr t \<Longrightarrow> lineage_view t = lineage_view r"
  by (rule fold_res_invariant [where P = "\<lambda>t. lineage_view t = lineage_view r"]) (auto simp: unexplained_get_step_def)

lemma lineage_view_listing:
  assumes "check_listing sha model scan pre obs r warnings = Inr (lr, w, listed)"
  shows "lineage_view lr = lineage_view r"
  using assms
  by (auto simp: check_listing_def Let_def split: option.splits dest!: lineage_view_unexplained_scan)
    (simp_all add: lineage_view_def)

lemma finalize_unversioned:
  assumes "\<not> ao_expect_versioning obs"
  shows "lineage_view (foldl (finalize_pending_key obs) r keys) = lineage_view r"
  using assms
  by (intro foldl_frame) (auto simp: finalize_pending_key_def finalize_absent_def lineage_view_def)

lemma sort_report_lineage [simp]:
  "set (cr_delete_marker_lineage_incomplete (sort_report r)) = set (cr_delete_marker_lineage_incomplete r)"
  "cr_versioning_expected (sort_report r) = cr_versioning_expected r"
  by (simp_all add: sort_report_def)

lemma unversioned_check_lineage:
  assumes "observe_store sha records run_id False obs r0 = Inr (report, versions)"
    and "cr_delete_marker_lineage_incomplete r0 = []"
  shows "cr_delete_marker_lineage_incomplete report = [] \<and> cr_versioning_expected report = cr_versioning_expected r0"
proof -
  from observe_store_phases [OF assms(1)] obtain scan dr lr w listed where
    final: "fold_res (final_get_step sha (object_model records)) (start_scan r0) (ob_final_gets obs) = Inr scan"
    and deleted: "fold_res deleted_get_step (fs_report scan) (ob_deleted_gets obs) = Inr dr"
    and versions: "versions = no_versions dr"
    and listing: "check_listing sha (object_model records) scan (key_prefix run_id) obs (vp_report versions) (vp_warnings versions)
      = Inr (lr, w, listed)"
    and report: "report = sort_report (finalize_ambiguous_delete_observations
      (lr\<lparr>cr_final_list_warning_count := ws_total_count w, cr_list_warnings := ws_samples w\<rparr>)
      (object_model records) (delete_observations records False scan versions listed))"
    unfolding if_False by blast
  have "lineage_view lr = lineage_view r0"
    using lineage_view_final_scan [OF final] lineage_view_deleted_scan [OF deleted] lineage_view_listing [OF listing]
    by (simp add: versions no_versions_def)
  then have "set (cr_delete_marker_lineage_incomplete report) = {} \<and> cr_versioning_expected report = cr_versioning_expected r0"
    using finalize_unversioned [of "delete_observations records False scan versions listed"
        "lr\<lparr>cr_final_list_warning_count := ws_total_count w, cr_list_warnings := ws_samples w\<rparr>"] assms(2)
    by (simp add: report finalize_ambiguous_delete_observations_def delete_observations_def lineage_view_def)
  then show ?thesis by simp
qed

subsection \<open>Refused reports\<close>

text \<open>What a report of the checker says of its own run.\<close>

lemma check_s3_history_parts:
  assumes "check_s3_history sha to_vec rec bucket tenant_recovered expect_versioning obs = Inr report"
  obtains anomalies observed versions audit where
    "observe_store sha (rs_records rec) (rs_run_id rec) expect_versioning obs
       (initial_report rec (object_model (rs_records rec)) anomalies (list_history_warnings (rs_records rec))
          tenant_recovered expect_versioning) = Inr (observed, versions)"
    and "cr_audit report = Some audit" and "ca_history_prefix_record_count audit = length (rs_records rec)"
    and "cr_delete_marker_lineage_incomplete report = cr_delete_marker_lineage_incomplete observed"
    and "cr_versioning_expected report = cr_versioning_expected observed" and "cr_run_id report = cr_run_id observed"
proof -
  from assms obtain digest anomalies observed versions audit where
    obs: "observe_store sha (rs_records rec) (rs_run_id rec) expect_versioning obs
       (initial_report rec (object_model (rs_records rec)) anomalies (list_history_warnings (rs_records rec))
          tenant_recovered expect_versioning) = Inr (observed, versions)"
    and audit: "checker_audit sha to_vec rec bucket obs versions digest = Inr audit"
    and report: "report = observed\<lparr>cr_audit := Some audit, cr_passed := success_predicate (observed\<lparr>cr_audit := Some audit\<rparr>)\<rparr>"
    by (auto simp: check_s3_history_def Let_def)
  from audit have "ca_history_prefix_record_count audit = length (rs_records rec)"
    by (auto simp: checker_audit_def Let_def)
  with obs report show thesis by (intro that) simp_all
qed

lemma accepted_prefix:
  assumes "validate_checker_failure_against_history sha to_vec report history = Inr ()"
    and "cr_audit report = Some audit" and "ca_history_prefix_record_count audit = length records"
    and "take (length records) history = records"
  obtains suf where "validate_checker_audit_receipt sha to_vec report history = Inr (records, suf)"
    and "set suf \<subseteq> set (drop (length records) history)"
proof -
  from assms(1) obtain pre suf where receipt: "validate_checker_audit_receipt sha to_vec report history = Inr (pre, suf)"
    by (auto simp: validate_checker_failure_against_history_def lift_receipt_def split: sum.splits)
  then have "pre = records" and "set suf \<subseteq> set (drop (length records) history)"
    using assms(2-4) by (auto simp: validate_checker_audit_receipt_def Let_def drop_take dest: in_set_takeD)
  with receipt show thesis by (intro that) simp_all
qed

lemma delete_without_version_id:
  assumes "r \<in> set rs" and "op_kind r = Delete" "op_outcome r = Ok" "op_request_version_id r = None" "op_version_id r = None"
    and "op_key r = Some key"
  shows "vl_delete_marker_lineage_incomplete (committed_version_lineage rs) \<noteq> []"
proof -
  have mono: "vl_delete_marker_lineage_incomplete l \<noteq> [] \<Longrightarrow> vl_delete_marker_lineage_incomplete (lineage_step l x) \<noteq> []" for l x
    by (auto simp: lineage_step_def Let_def push_sample_def split: option.split)
  have here: "vl_delete_marker_lineage_incomplete (lineage_step l r) \<noteq> []" for l
    using assms(2-6)
    by (cases "op_is_delete_marker r = Some False")
      (auto simp: lineage_step_def Let_def is_unconfirmed_delete_def is_committed_write_def is_committed_delete_def is_object_write_def
        push_sample_def MAX_WARNING_SAMPLES_def split: option.split)
  from assms(1) show ?thesis
    unfolding committed_version_lineage_def
    by (induction rs rule: rev_induct) (auto simp: mono here)
qed

text \<open>
  C34: After a committed DELETE that named no version, no failing report of an unversioned check is accepted: the audit expects the
  lineage note of that delete, which a check without versioning never writes.
\<close>

theorem unversioned_failure_refused:
  assumes "check_s3_history sha to_vec rec bucket tenant_recovered False obs = Inr report"
    and "r \<in> set (rs_records rec)" "op_kind r = Delete" "op_outcome r = Ok" "op_request_version_id r = None" "op_version_id r = None"
      "op_key r = Some key"
    and "take (length (rs_records rec)) history = rs_records rec"
  shows "validate_checker_failure_against_history sha to_vec report history \<noteq> Inr ()"
proof
  assume accepted: "validate_checker_failure_against_history sha to_vec report history = Inr ()"
  from check_s3_history_parts [OF assms(1)] obtain anomalies observed versions audit where
    obs: "observe_store sha (rs_records rec) (rs_run_id rec) False obs
       (initial_report rec (object_model (rs_records rec)) anomalies (list_history_warnings (rs_records rec)) tenant_recovered False) =
       Inr (observed, versions)"
    and audit: "cr_audit report = Some audit" "ca_history_prefix_record_count audit = length (rs_records rec)"
    and same: "cr_delete_marker_lineage_incomplete report = cr_delete_marker_lineage_incomplete observed"
      "cr_versioning_expected report = cr_versioning_expected observed" by metis
  have none: "cr_delete_marker_lineage_incomplete report = []" "\<not> cr_versioning_expected report"
    using unversioned_check_lineage [OF obs] same by (simp_all add: initial_report_def)
  from accepted_prefix [OF accepted audit assms(8)] obtain suf where
    receipt: "validate_checker_audit_receipt sha to_vec report history = Inr (rs_records rec, suf)" by blast
  show False
    using unlisted_lineage_exact [OF receipt accepted] none delete_without_version_id [OF assms(2-7)]
    by (simp add: versions_unlisted_def)
qed

lemma finalize_unlisted:
  assumes "ao_expect_versioning obs" and "ao_actual_latest obs = None" and "key \<in> set keys" and "key |\<in>| ao_absent_on_get obs"
  shows "cr_delete_marker_lineage_incomplete (foldl (finalize_pending_key obs) r keys) \<noteq> []"
proof -
  have mono: "cr_delete_marker_lineage_incomplete r \<noteq> [] \<Longrightarrow> cr_delete_marker_lineage_incomplete (finalize_pending_key obs r k) \<noteq> []"
    for r k
    by (auto simp: finalize_pending_key_def finalize_absent_def finalize_present_def push_delete_lineage_def split: option.split)
  have here: "cr_delete_marker_lineage_incomplete (finalize_pending_key obs r key) \<noteq> []" for r
    using assms
    by (simp add: finalize_pending_key_def finalize_absent_def delete_is_proven_def actual_latest_of_def push_delete_lineage_def)
  from assms(3) show ?thesis
    by (induction keys rule: rev_induct) (auto simp: mono here)
qed

lemma unlisted_check_lineage:
  assumes "observe_store sha records run_id True obs r0 = Inr (report, versions)" and "ob_version_list obs = Inr None"
    and "(key, Inr get) \<in> set (ob_final_gets obs)" and "absent_after_ambiguous_delete (object_model records) key get"
  shows "cr_delete_marker_lineage_incomplete report \<noteq> []"
proof -
  obtain scan dr lr w listed where
    final: "fold_res (final_get_step sha (object_model records)) (start_scan r0) (ob_final_gets obs) = Inr scan"
    and "fold_res deleted_get_step (fs_report scan) (ob_deleted_gets obs) = Inr dr"
    and versions: "check_versions sha records (object_model records) (key_prefix run_id) obs dr = Inr versions"
    and "check_listing sha (object_model records) scan (key_prefix run_id) obs (vp_report versions) (vp_warnings versions)
      = Inr (lr, w, listed)"
    and report: "report = sort_report (finalize_ambiguous_delete_observations
      (lr\<lparr>cr_final_list_warning_count := ws_total_count w, cr_list_warnings := ws_samples w\<rparr>)
      (object_model records) (delete_observations records True scan versions listed))"
    by (rule observe_store_phases [OF assms(1), unfolded if_True])
  have latest: "vp_latest versions = None" using versions assms(2) by (auto simp: check_versions_def Let_def)
  have absent: "key |\<in>| fs_delete_absent scan" unfolding final_scan_absent [OF final] using assms(3,4) by blast
  have "key \<in> set (sorted_list_of_fset (om_ambiguous_delete_pending (object_model records)))"
    using assms(4) by (simp add: absent_after_ambiguous_delete_def)
  then have "set (cr_delete_marker_lineage_incomplete report) \<noteq> {}"
    unfolding report sort_report_lineage finalize_ambiguous_delete_observations_def set_empty
    using absent by (intro finalize_unlisted [where key = key]) (simp_all add: delete_observations_def latest)
  then show ?thesis by simp
qed

text \<open>
  C35: When the versions could not be listed and a key with an ambiguous delete was read as absent, no failing report of a versioned
  check with an otherwise complete lineage is accepted: the check notes that the key has no latest version, and the
  audit expects that note only from a listing that completed.
\<close>

theorem unlisted_failure_refused:
  assumes "check_s3_history sha to_vec rec bucket tenant_recovered True obs = Inr report" and "ob_version_list obs = Inr None"
    and "(key, Inr get) \<in> set (ob_final_gets obs)" and "absent_after_ambiguous_delete (object_model (rs_records rec)) key get"
    and "vl_delete_marker_lineage_incomplete (committed_version_lineage (rs_records rec)) = []"
    and "take (length (rs_records rec)) history = rs_records rec"
    and "\<forall>r \<in> set (drop (length (rs_records rec)) history). op_kind r = ListVersions \<longrightarrow> op_outcome r \<noteq> Ok"
  shows "validate_checker_failure_against_history sha to_vec report history \<noteq> Inr ()"
proof
  assume accepted: "validate_checker_failure_against_history sha to_vec report history = Inr ()"
  from check_s3_history_parts [OF assms(1)] obtain anomalies observed versions audit where
    obs: "observe_store sha (rs_records rec) (rs_run_id rec) True obs
       (initial_report rec (object_model (rs_records rec)) anomalies (list_history_warnings (rs_records rec)) tenant_recovered True) =
       Inr (observed, versions)"
    and audit: "cr_audit report = Some audit" "ca_history_prefix_record_count audit = length (rs_records rec)"
    and same: "cr_delete_marker_lineage_incomplete report = cr_delete_marker_lineage_incomplete observed" by metis
  from accepted_prefix [OF accepted audit assms(6)] obtain suf where
    receipt: "validate_checker_audit_receipt sha to_vec report history = Inr (rs_records rec, suf)"
    and suf: "set suf \<subseteq> set (drop (length (rs_records rec)) history)" by blast
  have "versions_unlisted report suf" using suf assms(7) by (auto simp: versions_unlisted_def list_completed_def)
  from unlisted_lineage_exact [OF receipt accepted this] assms(5) unlisted_check_lineage [OF obs assms(2-4)] same
  show False by simp
qed

end
