(* ===== verification/Audit_Soundness.thy ===== *)
theory Audit_Soundness
  imports Checker_Audit
begin

text \<open>
  What an accepted audit proves: the recorded operations of the checker alone, not the report, show
  that the store kept every committed object and version, listed what it should and served
  nothing deleted.
\<close>

subsection \<open>Indexes with unique keys\<close>

text \<open>A loop that inserts each item under its key and rejects an item without one or a key seen before.\<close>

locale unique_index =
  fixes step :: "('k, 'a) fmap \<Rightarrow> 'a \<Rightarrow> audit_error + ('k, 'a) fmap"
    and key :: "'a \<Rightarrow> 'k option"
  assumes step_Inr: "step m x = Inr m' \<longleftrightarrow> (\<exists>k. key x = Some k \<and> fmlookup m k = None \<and> m' = fmupd k x m)"
begin

lemma indexed:
  assumes "fold_res step fmempty xs = Inr m"
  shows "fmlookup m k = Some x \<longleftrightarrow> x \<in> set xs \<and> key x = Some k"
  using assms
proof (induction xs arbitrary: m k x rule: rev_induct)
  case Nil
  then show ?case by simp
next
  case (snoc y ys)
  then obtain n l where n: "fold_res step fmempty ys = Inr n" and l: "key y = Some l" "fmlookup n l = None"
    and m: "m = fmupd l y n" by (auto simp: fold_res_snoc_Inr step_Inr)
  note IH = snoc.IH [OF n]
  have "\<not> (z \<in> set ys \<and> key z = Some l)" for z using IH [of l z] l(2) by simp
  then show ?case unfolding m using IH [of k x] l(1) by auto
qed

lemma indexed_dom:
  assumes "fold_res step fmempty xs = Inr m"
  shows "k |\<in>| fmdom m \<longleftrightarrow> (\<exists>x \<in> set xs. key x = Some k)"
  unfolding fmdom_iff_lookup using indexed [OF assms] by blast

lemma indexed_unique:
  assumes "fold_res step fmempty xs = Inr m" and "x \<in> set xs" "y \<in> set xs" "key x = key y"
  shows "x = y"
proof -
  have "key x \<noteq> None"
    using assms(1,2)
  proof (induction xs arbitrary: m rule: rev_induct)
    case (snoc z zs)
    then show ?case by (auto simp: fold_res_snoc_Inr step_Inr)
  qed simp
  then obtain k where "key x = Some k" by blast
  with assms indexed [OF assms(1), of k x] indexed [OF assms(1), of k y] show ?thesis by simp
qed

end

interpretation current_gets: unique_index current_get_step op_key
  by unfold_locales (auto simp: current_get_step_def)

interpretation version_records: unique_index version_record_step
  "\<lambda>r. case (op_key r, op_version_id r) of (Some k, Some v) \<Rightarrow> Some (k, v) | _ \<Rightarrow> None"
  by unfold_locales (auto simp: version_record_step_def context_or_def split: option.splits)

interpretation expected_versions: unique_index expected_version_step "\<lambda>v. Some (cv_key v, cv_version_id v)"
  by unfold_locales (auto simp: expected_version_step_def)

interpretation expected_latests: unique_index expected_latest_step "\<lambda>e. Some (lv_key e)"
  by unfold_locales (auto simp: expected_latest_step_def)

subsection \<open>Loops\<close>

subsection \<open>The receipt\<close>

lemma receipt_parts:
  assumes "validate_checker_audit_receipt sha to_vec report history = Inr (pre, suf)"
  obtains audit where "cr_audit report = Some audit"
    and "pre = take (ca_history_prefix_record_count audit) history"
    and "suf = take (ca_history_suffix_record_count audit) (drop (ca_history_prefix_record_count audit) history)"
    and "validate_history_scope_and_order (pre @ suf) (cr_scenario report) (cr_run_id report) (ca_bucket audit) = Inr ()"
    and "validate_history_phase_boundary pre suf = Inr ()"
    and "\<forall>r \<in> set suf. suffix_in_window report audit r \<and> op_kind r \<in> {Get, List, ListVersions}"
  using assms
  by (auto simp: validate_checker_audit_receipt_def Let_def list_all_iff drop_take take_add)

subsection \<open>Current reads\<close>

definition reads_active :: "ObjectModel \<Rightarrow> string \<Rightarrow> OperationRecord \<Rightarrow> bool" where
  "reads_active model key r \<longleftrightarrow>
     get_is r Ok 200 \<and> (\<exists>attempt \<in> set (unknown_writes_of model key).
       aw_superseded_by attempt = None \<and> op_value_sha256 r = Some (eo_sha256 (aw_object attempt))
       \<and> op_size_bytes r = Some (eo_size_bytes (aw_object attempt)))"

lemma read_object_Inr:
  "read_object r k = Inr v \<longleftrightarrow>
     (\<exists>h n. op_value_sha256 r = Some h \<and> op_size_bytes r = Some n \<and> k \<lparr>eo_sha256 = h, eo_size_bytes = n\<rparr> = Inr v)"
  by (auto simp: read_object_def)

lemma find_Some_sat: "find f xs = Some a \<Longrightarrow> a \<in> set xs \<and> f a"
  by (induction xs) (auto split: if_splits)

lemma matching_active_object_Some:
  "matching_active_ambiguous_object attempts actual = Some a \<Longrightarrow>
     a \<in> set attempts \<and> aw_superseded_by a = None \<and> aw_object a = actual"
  unfolding matching_active_ambiguous_object_def by (drule find_Some_sat) simp

definition audited_key ::
  "ObjectModel \<Rightarrow> string fset \<Rightarrow> string fset \<Rightarrow> string \<Rightarrow> OperationRecord \<Rightarrow> bool" where
  "audited_key model tolerated unexplained key r \<longleftrightarrow>
     (case fmlookup (om_live model) key of
        Some e \<Rightarrow> if key |\<in>| tolerated then get_is r NotFound 404 else reads_committed e r \<or> reads_active model key r
      | None \<Rightarrow>
          if key |\<in>| fmdom (om_unknown_writes model) then reads_active model key r \<or> get_is r NotFound 404
          else if key |\<in>| unexplained then reads_failed_write model key r
          else get_is r NotFound 404)"

lemma matching_read_active:
  assumes "fmlookup (om_unknown_writes model) key = Some attempts"
    and "matching_active_ambiguous_object attempts \<lparr>eo_sha256 = h, eo_size_bytes = n\<rparr> = Some a"
    and "op_value_sha256 r = Some h" "op_size_bytes r = Some n" "get_is r Ok 200"
  shows "reads_active model key r"
  using assms matching_active_object_Some [OF assms(2)] by (auto simp: reads_active_def fm_values_at_def)

lemma audit_live_key_audited:
  assumes "audit_live_key model tolerated st key e r = Inr st'"
  shows "if key |\<in>| tolerated then get_is r NotFound 404 \<and> st' = st
    else reads_committed e r \<and> st' = st \<or>
      reads_active model key r \<and> as_materialized_keys st' = finsert key (as_materialized_keys st)"
  using assms
  by (auto simp: audit_live_key_def read_object_Inr note_materialized_def split: if_splits intro: matching_read_active)

lemma audit_unknown_key_audited:
  assumes "audit_unknown_key st key attempts r = Inr st'" and "fmlookup (om_unknown_writes model) key = Some attempts"
  shows "get_is r NotFound 404 \<and> st' = st \<or>
    reads_active model key r \<and> as_materialized_keys st' = finsert key (as_materialized_keys st)"
  using assms
  by (auto simp: audit_unknown_key_def read_object_Inr note_materialized_def split: if_splits intro: matching_read_active)

lemma audit_key_step_audited:
  assumes "audit_key_step model tolerated unexplained gets st key = Inr st'"
  shows "\<exists>r. fmlookup gets key = Some r \<and> audited_key model tolerated unexplained key r \<and>
    (as_materialized_keys st' = as_materialized_keys st \<or>
     as_materialized_keys st' = finsert key (as_materialized_keys st) \<and> reads_active model key r
     \<and> (key |\<in>| fmdom (om_live model) \<longrightarrow> key |\<notin>| tolerated))"
proof -
  from assms obtain r where r: "fmlookup gets key = Some r" by (auto simp: audit_key_step_def)
  note step = assms [unfolded audit_key_step_def r context_or_simps]
  show ?thesis
  proof (cases "fmlookup (om_live model) key")
    case (Some e)
    with step audit_live_key_audited [of model tolerated st key e r st'] r show ?thesis
      by (auto simp: audited_key_def fmdom_iff_lookup split: if_splits)
  next
    case None
    note live = this
    show ?thesis
    proof (cases "fmlookup (om_unknown_writes model) key")
      case (Some attempts)
      with step live audit_unknown_key_audited [OF _ Some, of st r st'] r show ?thesis
        by (auto simp: audited_key_def fmdom_iff_lookup)
    next
      case None
      with step live r show ?thesis by (auto simp: audited_key_def fmdom_iff_lookup split: if_splits)
    qed
  qed
qed

text \<open>The whole scan of the current reads.\<close>

lemma audit_current_reads_parts:
  assumes "audit_current_reads report model tolerated expected suf = Inr scan"
  defines "unexplained \<equiv> fset_of_list (cr_failed_writes_materialized report)"
  shows "unexplained = unexplained_listed (key_prefix (cr_run_id report)) expected suf"
    and "\<And>key. key |\<in>| expected |\<union>| unexplained \<Longrightarrow>
      \<exists>r \<in> set suf. is_current_get r \<and> op_key r = Some key \<and> audited_key model tolerated unexplained key r"
    and "\<And>key. key |\<in>| as_materialized_keys scan \<Longrightarrow>
      (\<exists>r \<in> set suf. is_current_get r \<and> op_key r = Some key \<and> reads_active model key r)
      \<and> (key |\<in>| fmdom (om_live model) \<longrightarrow> key |\<notin>| tolerated)"
proof -
  let ?keys = "sorted_list_of_fset (expected |\<union>| unexplained)"
  let ?start = "\<lparr>as_materialized_keys = {||}, as_evidence = {||}\<rparr>"
  from assms(1) show u: "unexplained = unexplained_listed (key_prefix (cr_run_id report)) expected suf"
    by (auto simp: audit_current_reads_def Let_def unexplained_def)
  from assms(1) obtain gets where gets: "fold_res current_get_step fmempty (filter is_current_get suf) = Inr gets"
    and loop: "fold_res (audit_key_step model tolerated unexplained gets) ?start ?keys = Inr scan"
    by (auto simp: audit_current_reads_def Let_def unexplained_def)
  have current: "r \<in> set suf \<and> is_current_get r \<and> op_key r = Some key" if "fmlookup gets key = Some r" for r key
    using that current_gets.indexed [OF gets] by simp
  show "\<exists>r \<in> set suf. is_current_get r \<and> op_key r = Some key \<and> audited_key model tolerated unexplained key r"
    if "key |\<in>| expected |\<union>| unexplained" for key
  proof -
    from that have "key \<in> set ?keys" by simp
    from fold_res_each [OF loop this] obtain st st' where
      "audit_key_step model tolerated unexplained gets st key = Inr st'" by blast
    from audit_key_step_audited [OF this] current show ?thesis by blast
  qed
  let ?P = "\<lambda>st. \<forall>key. key |\<in>| as_materialized_keys st \<longrightarrow>
      (\<exists>r \<in> set suf. is_current_get r \<and> op_key r = Some key \<and> reads_active model key r)
      \<and> (key |\<in>| fmdom (om_live model) \<longrightarrow> key |\<notin>| tolerated)"
  have "?P scan"
  proof (rule fold_res_invariant [OF loop])
    show "?P ?start" by simp
    show "?P t" if "?P st" and "audit_key_step model tolerated unexplained gets st key = Inr t" for st key t
      using that(1) audit_key_step_audited [OF that(2)] current by (elim exE conjE disjE) (simp, fastforce)
  qed
  then show "(\<exists>r \<in> set suf. is_current_get r \<and> op_key r = Some key \<and> reads_active model key r)
      \<and> (key |\<in>| fmdom (om_live model) \<longrightarrow> key |\<notin>| tolerated)" if "key |\<in>| as_materialized_keys scan" for key
    using that by blast
qed

lemma accepted_observations:
  assumes "validate_successful_checker_observations sha report pre suf = Inr ()"
  obtains anomalies scan version_evidence where
    "audit_prefix_summary sha report pre = Inr anomalies"
    "\<forall>key \<in> set (cr_tolerated_ambiguous_deletes report). key |\<in>| om_ambiguous_delete_pending (object_model pre)"
    "audit_current_reads report (object_model pre) (fset_of_list (cr_tolerated_ambiguous_deletes report))
       (checker_expected_current_get_keys pre) suf = Inr scan"
    "audit_final_list report (object_model pre) (fset_of_list (cr_tolerated_ambiguous_deletes report))
       (as_materialized_keys scan) suf = Inr ()"
    "validate_versioned_checker_suffix report pre suf (fset_of_list (cr_tolerated_ambiguous_deletes report))
       (key_prefix (cr_run_id report)) = Inr version_evidence"
  using assms
  by (auto simp: validate_successful_checker_observations_def Let_def fset_of_list_elem split: if_splits)

lemma final_list_parts:
  assumes "audit_final_list report model tolerated materialized suf = Inr ()"
  obtains l keys where "l \<in> set suf" "is_final_list (key_prefix (cr_run_id report)) l" "get_is l Ok 200"
    "op_listed_keys l = Some keys"
    "set keys = (fset (fmdom (om_live model)) - fset tolerated) \<union> fset materialized
       \<union> set (cr_failed_writes_materialized report)"
    "filter (is_final_list (key_prefix (cr_run_id report))) suf = [l]"
proof -
  from assms obtain l where one: "filter (is_final_list (key_prefix (cr_run_id report))) suf = [l]"
    by (auto simp: audit_final_list_def split: list.splits)
  then have l: "l \<in> set suf" "is_final_list (key_prefix (cr_run_id report)) l"
    using filter_eq_ConsD [OF one] by auto
  from assms one obtain keys where "get_is l Ok 200" "op_listed_keys l = Some keys"
    "fset_of_list keys = (fmdom (om_live model) |-| tolerated) |\<union>| materialized
       |\<union>| fset_of_list (cr_failed_writes_materialized report)"
    by (auto simp: audit_final_list_def Let_def)
  moreover from this(3) have "set keys = (fset (fmdom (om_live model)) - fset tolerated) \<union> fset materialized
       \<union> set (cr_failed_writes_materialized report)"
    by (metis fset_of_list.rep_eq union_fset minus_fset)
  ultimately show thesis using l one that by blast
qed

lemma unexplained_not_expected:
  "key |\<in>| unexplained_listed p expected suf \<Longrightarrow> key |\<notin>| expected"
  by (auto simp: unexplained_listed_def fset_of_list_elem)

lemma expected_current_live: "key |\<in>| fmdom (om_live (object_model pre)) \<Longrightarrow> key |\<in>| checker_expected_current_get_keys pre"
  by (simp add: checker_expected_current_get_keys_def Let_def)

lemma expected_current_unknown:
  "key |\<in>| fmdom (om_unknown_writes (object_model pre)) \<Longrightarrow> key |\<in>| checker_expected_current_get_keys pre"
  by (simp add: checker_expected_current_get_keys_def Let_def)

lemma expected_current_deleted: "key |\<in>| om_deleted (object_model pre) \<Longrightarrow> key |\<in>| checker_expected_current_get_keys pre"
  by (auto simp: checker_expected_current_get_keys_def Let_def)

text \<open>
  C6: An accepted audit proves from the recorded history alone that no committed object was lost. For every key
  the workload left committed, the checker's part of the history has a GET of it that returned
  the committed value, or the value of a write of unknown outcome that may still take effect, or 404 where a DELETE
  of unknown outcome is pending and the recorded final listing does not have the key.
\<close>

theorem accepted_audit_live_objects:
  assumes "validate_checker_audit_receipt sha to_vec report history = Inr (pre, suf)"
    and "validate_checker_audit_against_history sha to_vec report history = Inr ()"
    and "fmlookup (om_live (object_model pre)) k = Some e"
  shows "\<exists>r \<in> set suf. op_kind r = Get \<and> op_version_id r = None \<and> op_key r = Some k \<and>
    (reads_committed e r \<or> reads_active (object_model pre) k r \<or>
     get_is r NotFound 404 \<and> k |\<in>| om_ambiguous_delete_pending (object_model pre) \<and>
     (\<exists>l \<in> set suf. op_kind l = List \<and> get_is l Ok 200 \<and> (\<exists>keys. op_listed_keys l = Some keys \<and> k \<notin> set keys)))"
proof -
  let ?m = "object_model pre" and ?tol = "fset_of_list (cr_tolerated_ambiguous_deletes report)"
  from assms(1,2) have "validate_successful_checker_observations sha report pre suf = Inr ()"
    by (simp add: validate_checker_audit_against_history_def)
  then obtain scan where tol: "\<forall>key \<in> set (cr_tolerated_ambiguous_deletes report). key |\<in>| om_ambiguous_delete_pending ?m"
    and reads: "audit_current_reads report ?m ?tol (checker_expected_current_get_keys pre) suf = Inr scan"
    and listing: "audit_final_list report ?m ?tol (as_materialized_keys scan) suf = Inr ()"
    by (rule accepted_observations) blast
  note parts = audit_current_reads_parts [OF reads]
  have live: "k |\<in>| fmdom (om_live ?m)" using assms(3) by (rule fmdomI)
  with expected_current_live [OF live] parts(2) [of k] obtain r where r: "r \<in> set suf" "is_current_get r" "op_key r = Some k"
    and a: "audited_key ?m ?tol (fset_of_list (cr_failed_writes_materialized report)) k r" by auto
  show ?thesis
  proof (cases "k |\<in>| ?tol")
    case False
    with a assms(3) r show ?thesis by (auto simp: audited_key_def)
  next
    case True
    from listing obtain l keys where l: "l \<in> set suf" "is_final_list (key_prefix (cr_run_id report)) l" "get_is l Ok 200"
      "op_listed_keys l = Some keys" and keys: "set keys = (fset (fmdom (om_live ?m)) - fset ?tol) \<union>
        fset (as_materialized_keys scan) \<union> set (cr_failed_writes_materialized report)"
      by (rule final_list_parts)
    have "k |\<notin>| as_materialized_keys scan" using parts(3) [of k] live True by blast
    moreover have "k \<notin> set (cr_failed_writes_materialized report)"
      using unexplained_not_expected expected_current_live [OF live] parts(1) by (metis fset_of_list_elem)
    ultimately have "k \<notin> set keys" unfolding keys using True by simp
    moreover have "get_is r NotFound 404" using a assms(3) True by (simp add: audited_key_def)
    moreover have "k |\<in>| om_ambiguous_delete_pending ?m" using tol True by (simp add: fset_of_list_elem)
    ultimately show ?thesis using r l by blast
  qed
qed

text \<open>
  C7: An accepted audit proves the final listing. The checker's part of the history has exactly one successful listing of
  the run's prefix; it lists every committed key unless a DELETE of unknown outcome is pending, every key it lists is committed or was
  read back with the value of a write that may have taken effect, and a deleted key without pending writes is
  not listed and was answered with 404.
\<close>

theorem accepted_audit_listing:
  assumes "validate_checker_audit_receipt sha to_vec report history = Inr (pre, suf)"
    and "validate_checker_audit_against_history sha to_vec report history = Inr ()"
  shows "\<exists>l keys. filter (is_final_list (key_prefix (cr_run_id report))) suf = [l] \<and> get_is l Ok 200 \<and>
    op_listed_keys l = Some keys \<and>
    (let m = object_model pre in
     (\<forall>k. k |\<in>| fmdom (om_live m) \<longrightarrow> k \<in> set keys \<or> k |\<in>| om_ambiguous_delete_pending m) \<and>
     (\<forall>k \<in> set keys. k |\<in>| fmdom (om_live m) \<or>
        (\<exists>r \<in> set suf. is_current_get r \<and> op_key r = Some k \<and> (reads_active m k r \<or> reads_failed_write m k r))) \<and>
     (\<forall>k. k |\<in>| om_deleted m \<and> k |\<notin>| fmdom (om_unknown_writes m) \<longrightarrow> k \<notin> set keys \<and>
        (\<exists>r \<in> set suf. is_current_get r \<and> op_key r = Some k \<and> get_is r NotFound 404)))"
proof -
  let ?m = "object_model pre" and ?tol = "fset_of_list (cr_tolerated_ambiguous_deletes report)"
  from assms have "validate_successful_checker_observations sha report pre suf = Inr ()"
    by (simp add: validate_checker_audit_against_history_def)
  then obtain scan where tol: "\<forall>key \<in> set (cr_tolerated_ambiguous_deletes report). key |\<in>| om_ambiguous_delete_pending ?m"
    and reads: "audit_current_reads report ?m ?tol (checker_expected_current_get_keys pre) suf = Inr scan"
    and listing: "audit_final_list report ?m ?tol (as_materialized_keys scan) suf = Inr ()"
    by (rule accepted_observations) blast
  note parts = audit_current_reads_parts [OF reads]
  from listing obtain l keys where l: "filter (is_final_list (key_prefix (cr_run_id report))) suf = [l]" "get_is l Ok 200"
    "op_listed_keys l = Some keys" and keys: "set keys = (fset (fmdom (om_live ?m)) - fset ?tol) \<union>
      fset (as_materialized_keys scan) \<union> set (cr_failed_writes_materialized report)"
    by (rule final_list_parts)
  have failed: "k |\<notin>| checker_expected_current_get_keys pre" if "k \<in> set (cr_failed_writes_materialized report)" for k
    using that unexplained_not_expected parts(1) by (metis fset_of_list_elem)
  have "k \<in> set keys \<or> k |\<in>| om_ambiguous_delete_pending ?m" if "k |\<in>| fmdom (om_live ?m)" for k
    unfolding keys using that tol by (auto simp: fset_of_list_elem)
  moreover have "k |\<in>| fmdom (om_live ?m) \<or>
      (\<exists>r \<in> set suf. is_current_get r \<and> op_key r = Some k \<and> (reads_active ?m k r \<or> reads_failed_write ?m k r))"
    if "k \<in> set keys" for k
  proof -
    from that consider "k |\<in>| fmdom (om_live ?m)" | "k |\<in>| as_materialized_keys scan"
      | "k \<in> set (cr_failed_writes_materialized report)" unfolding keys by auto
    then show ?thesis
    proof cases
      case 3
      from 3 parts(2) [of k] obtain r where r: "r \<in> set suf" "is_current_get r" "op_key r = Some k"
        and a: "audited_key ?m ?tol (fset_of_list (cr_failed_writes_materialized report)) k r"
        by (auto simp: fset_of_list_elem)
      have "fmlookup (om_live ?m) k = None" "k |\<notin>| fmdom (om_unknown_writes ?m)"
        using failed [OF 3] expected_current_live expected_current_unknown by (blast intro: fmdom_notD)+
      with a 3 r show ?thesis by (auto simp: audited_key_def fset_of_list_elem)
    qed (use parts(3) [of k] in blast)+
  qed
  moreover have "k \<notin> set keys \<and> (\<exists>r \<in> set suf. is_current_get r \<and> op_key r = Some k \<and> get_is r NotFound 404)"
    if d: "k |\<in>| om_deleted ?m" "k |\<notin>| fmdom (om_unknown_writes ?m)" for k
  proof -
    have live: "k |\<notin>| fmdom (om_live ?m)" using d(1) object_model_key_inv [of pre] by (auto simp: key_inv_def)
    have nf: "k \<notin> set (cr_failed_writes_materialized report)" using failed expected_current_deleted [OF d(1)] by blast
    have "k |\<notin>| as_materialized_keys scan"
      using parts(3) [of k] d(2) by (auto simp: reads_active_def fm_values_at_def fmdom_iff_lookup)
    with live nf have "k \<notin> set keys" unfolding keys by simp
    moreover from parts(2) [of k] expected_current_deleted [OF d(1)] obtain r where
      "r \<in> set suf" "is_current_get r" "op_key r = Some k"
      "audited_key ?m ?tol (fset_of_list (cr_failed_writes_materialized report)) k r" by auto
    moreover have "fmlookup (om_live ?m) k = None" using live by (rule fmdom_notD)
    ultimately show ?thesis using d(2) nf by (auto simp: audited_key_def fset_of_list_elem)
  qed
  ultimately show ?thesis using l unfolding Let_def by blast
qed

subsection \<open>Versions\<close>

definition lists_version :: "ListedVersionEntry list \<Rightarrow> bool \<Rightarrow> string \<times> string \<Rightarrow> bool" where
  "lists_version entries marker identity \<longleftrightarrow>
     (\<exists>e \<in> set entries. lv_key e = fst identity \<and> lv_version_id e = Some (snd identity) \<and> lv_is_delete_marker e = marker)"

definition listed_scan_ok :: "ListedVersionEntry list \<Rightarrow> listed_scan \<Rightarrow> bool" where
  "listed_scan_ok entries st \<longleftrightarrow>
     (\<forall>i. i |\<in>| sl_data_versions st \<longrightarrow> lists_version entries False i)
     \<and> (\<forall>i. i |\<in>| sl_delete_markers st \<longrightarrow> lists_version entries True i)
     \<and> (\<forall>k e. fmlookup (sl_latest st) k = Some e \<longrightarrow> e \<in> set entries \<and> lv_key e = k \<and> lv_is_latest e)"

lemma listed_scan_step:
  assumes "listed_step st e = Inr st'" and "listed_scan_ok entries st" and "e \<in> set entries"
  shows "listed_scan_ok entries st'"
proof -
  have "listed_scan_ok entries (note_listed st e)"
    using assms(2,3) by (auto simp: listed_scan_ok_def note_listed_def lists_version_def split: option.splits)
  moreover have "st' = note_listed st e \<or>
      lv_is_latest e \<and> st' = (note_listed st e)\<lparr>sl_latest := fmupd (lv_key e) e (sl_latest (note_listed st e))\<rparr>"
    using assms(1) by (auto simp: listed_step_def Let_def split: if_splits)
  ultimately show ?thesis using assms(3) by (auto simp: listed_scan_ok_def split: if_splits)
qed

lemma listed_scan_all:
  assumes "fold_res listed_step init_listed_scan entries = Inr st"
  shows "listed_scan_ok entries st"
proof (rule fold_res_invariant [OF assms])
  show "listed_scan_ok entries init_listed_scan" by (simp add: listed_scan_ok_def init_listed_scan_def)
qed (rule listed_scan_step)

lemma expected_latest_fold:
  "fold_res expected_latest_step m es = Inr m' \<Longrightarrow> m' = foldl (\<lambda>m e. fmupd (lv_key e) e m) m es"
  by (induction es arbitrary: m) (auto simp: expected_latest_step_def ensure_def split: if_splits)

text \<open>A latest entry that a write of unknown outcome explains: its version was read back successfully.\<close>

definition active_version_read :: "ObjectModel \<Rightarrow> OperationRecord list \<Rightarrow> string \<times> string \<Rightarrow> bool" where
  "active_version_read model suf identity \<longleftrightarrow>
     fst identity |\<in>| fmdom (om_version_write_sources model) \<and>
     (\<exists>r \<in> set suf. op_kind r = Get \<and> op_key r = Some (fst identity) \<and> op_version_id r = Some (snd identity) \<and> get_is r Ok 200)"

lemma uncommitted_version_step_Inr:
  "uncommitted_version_step model is_latest reported st ((key, version_id), r) = Inr st' \<longleftrightarrow>
     get_is r Ok 200 \<and> key |\<in>| fmdom (om_version_write_sources model) \<and>
     (\<exists>h n sources source. op_value_sha256 r = Some h \<and> op_size_bytes r = Some n \<and>
        take_version_write_source (va_sources st) key \<lparr>eo_sha256 = h, eo_size_bytes = n\<rparr> (is_latest (key, version_id))
          = Inr (sources, Some source) \<and>
        (let evidence = ambiguous_version_materialized_from_object_message key version_id (vm_attempt source)
               \<lparr>eo_sha256 = h, eo_size_bytes = n\<rparr>
         in evidence |\<in>| reported \<and>
            st' = \<lparr>va_sources = sources,
              va_active = (if vm_active source then finsert (key, version_id) (va_active st) else va_active st),
              va_evidence = finsert evidence (va_evidence st)\<rparr>))"
  unfolding uncommitted_version_step_def Let_def fst_conv snd_conv prod.case ensure_Inr read_object_Inr res_bind_Inr
    lift_audit_Inr context_or_Inr split_paired_Ex by (simp split del: if_split) blast

lemma uncommitted_version_step_active:
  assumes "uncommitted_version_step model is_latest reported st ((key, version_id), r) = Inr st'"
  shows "get_is r Ok 200 \<and> key |\<in>| fmdom (om_version_write_sources model) \<and>
    (va_active st' = va_active st \<or> va_active st' = finsert (key, version_id) (va_active st))"
  using assms unfolding uncommitted_version_step_Inr Let_def by (elim conjE exE) simp

lemma version_reads_parts:
  assumes "audit_version_reads report pre suf listed = Inr (audits, va)"
  shows "\<And>v. v \<in> set (vl_versions (committed_version_lineage pre)) \<Longrightarrow>
      (\<exists>r \<in> set suf. op_kind r = Get \<and> op_key r = Some (cv_key v) \<and> op_version_id r = Some (cv_version_id v)
        \<and> reads_committed \<lparr>eo_sha256 = cv_sha256 v, eo_size_bytes = cv_size_bytes v\<rparr> r)
      \<and> (cv_key v, cv_version_id v) |\<in>| sl_data_versions listed"
    and "\<And>identity. identity |\<in>| va_active va \<Longrightarrow> active_version_read (object_model pre) suf identity"
proof -
  let ?vs = "vl_versions (committed_version_lineage pre)" and ?m = "object_model pre"
  let ?latest = "\<lambda>identity. fm_values_at (sl_data_latest listed) False identity"
  let ?reported = "fset_of_list (cr_unknown_writes_materialized report)"
  let ?gets = "filter (\<lambda>r. op_kind r = Get \<and> op_version_id r \<noteq> None) suf"
  from assms obtain expected actual where
    expected: "fold_res expected_version_step fmempty ?vs = Inr expected"
    and actual: "fold_res version_record_step fmempty ?gets = Inr actual"
    and committed: "fold_res (committed_version_step actual (sl_data_versions listed)) [] (fm_entries expected) = Inr audits"
    and uncommitted: "fold_res (uncommitted_version_step ?m ?latest ?reported)
        \<lparr>va_sources = from_sources (om_version_write_sources ?m), va_active = {||}, va_evidence = {||}\<rparr>
        (sort_key (uncommitted_order ?latest) (filter (\<lambda>entry. fst entry |\<notin>| fmdom expected) (fm_entries actual))) = Inr va"
    unfolding audit_version_reads_def Let_def by auto
  have get_of: "r \<in> set suf \<and> op_kind r = Get \<and> op_key r = Some k \<and> op_version_id r = Some i"
    if "fmlookup actual (k, i) = Some r" for r k i
    using that version_records.indexed [OF actual, of "(k, i)" r] by (auto split: option.splits)
  show "(\<exists>r \<in> set suf. op_kind r = Get \<and> op_key r = Some (cv_key v) \<and> op_version_id r = Some (cv_version_id v)
        \<and> reads_committed \<lparr>eo_sha256 = cv_sha256 v, eo_size_bytes = cv_size_bytes v\<rparr> r)
      \<and> (cv_key v, cv_version_id v) |\<in>| sl_data_versions listed" if "v \<in> set ?vs" for v
  proof -
    from that have "fmlookup expected (cv_key v, cv_version_id v) = Some v"
      using expected_versions.indexed [OF expected] by simp
    then have "((cv_key v, cv_version_id v), v) \<in> set (fm_entries expected)" by (simp add: in_fm_entries)
    from fold_res_each [OF committed this] get_of show ?thesis by (auto simp: committed_version_step_def Let_def)
  qed
  let ?P = "\<lambda>st. \<forall>identity. identity |\<in>| va_active st \<longrightarrow> active_version_read ?m suf identity"
  have "?P va"
  proof (rule fold_res_invariant [OF uncommitted])
    show "?P \<lparr>va_sources = from_sources (om_version_write_sources ?m), va_active = {||}, va_evidence = {||}\<rparr>" by simp
    fix st entry t
    assume e: "entry \<in> set (sort_key (uncommitted_order ?latest) (filter (\<lambda>entry. fst entry |\<notin>| fmdom expected) (fm_entries actual)))"
      and P: "?P st" and step: "uncommitted_version_step ?m ?latest ?reported st entry = Inr t"
    obtain k i r where entry: "entry = ((k, i), r)" by (metis surj_pair)
    from e entry have "fmlookup actual (k, i) = Some r" by (simp add: in_fm_entries)
    with get_of uncommitted_version_step_active [OF step [unfolded entry]]
    have "active_version_read ?m suf (k, i)" and "va_active t = va_active st \<or> va_active t = finsert (k, i) (va_active st)"
      by (auto simp: active_version_read_def)
    with P show "?P t" by (elim disjE) simp_all
  qed
  then show "active_version_read ?m suf identity" if "identity |\<in>| va_active va" for identity using that by blast
qed

text \<open>The steps of an accepted replay of the versions.\<close>

lemma versioned_suffix_parts:
  assumes "validate_versioned_checker_suffix report pre suf tolerated p = Inr evidence" and "cr_versioning_expected report"
  obtains l entries listed expected_latest audits va where
    "filter (\<lambda>r. op_kind r = ListVersions \<and> op_key r = Some p) suf = [l]" "version_list_completed report l"
    "op_listed_versions l = Some entries" "fold_res listed_step init_listed_scan entries = Inr listed"
    "vl_missing_version_id_count (committed_version_lineage pre) = 0"
    "listed_version_lineage_conflicts pre (committed_version_lineage pre) (map listed_entry_identity entries) = []"
    "fold_res expected_latest_step fmempty
       (filter lv_is_latest (sorted_list_of_fset (checker_expected_version_listing pre))) = Inr expected_latest"
    "audit_version_reads report pre suf listed = Inr (audits, va)"
    "fmdom (sl_latest listed) = fmdom expected_latest |\<union>| fst |`| va_active va"
    "fold_res (latest_key_step (object_model pre) (committed_version_lineage pre) tolerated expected_latest (va_active va)
       (sl_latest listed)) () (sorted_list_of_fset (fmdom expected_latest |\<union>| fst |`| va_active va)) = Inr ()"
    "compare_version_audits report (committed_version_lineage pre) (sl_delete_markers listed) audits (va_evidence va)
       = Inr evidence"
proof -
  note all = assms(1) [unfolded validate_versioned_checker_suffix_def Let_def]
  from all assms(2) obtain l where l: "filter (\<lambda>r. op_kind r = ListVersions \<and> op_key r = Some p) suf = [l]"
    by (simp split: list.splits)
  note body = all [unfolded l list.case]
  from body assms(2) show thesis
    by (simp split: prod.splits) (elim conjE exE, rule that [OF l], simp_all)
qed

lemma delete_markers_listed:
  assumes "compare_version_audits report lineage listed audits evidence = Inr evidence'" and "m \<in> set (vl_delete_markers lineage)"
  shows "marker_pair m |\<in>| listed"
proof -
  from assms(1) obtain marker_audits where
    "fold_res (delete_marker_step listed) [] (vl_delete_markers lineage) = Inr marker_audits"
    by (auto simp: compare_version_audits_def)
  from fold_res_each [OF this assms(2)] show ?thesis by (auto simp: delete_marker_step_def)
qed


end
