(* ===== verification/Audit_Demo.thy ===== *)
theory Audit_Demo
  imports Audit_Soundness Checker_Completeness
begin

text \<open>
  The audit of a stored report on a concrete history: one committed and versioned object, and a check that read it
  by key and by version and listed it. The witnesses of the audit's properties.
\<close>

definition audited_listing :: ListedVersionEntry where
  "audited_listing = \<lparr>lv_key = ''k'', lv_version_id = Some ''v1'', lv_is_latest = True, lv_is_delete_marker = False\<rparr>"

definition audited_get :: OperationRecord where
  "audited_get = sample_op ''op-3'' Get ''k'' ''h'' Ok 5 6"

definition audited_version_get :: OperationRecord where
  "audited_version_get = (sample_op ''op-4'' Get ''k'' ''h'' Ok 7 8)\<lparr>op_version_id := Some ''v1''\<rparr>"

definition audited_version_list :: OperationRecord where
  "audited_version_list = (sample_op ''op-5'' ListVersions (key_prefix ''run'') ''h'' Ok 9 10)
     \<lparr>op_value_sha256 := None, op_size_bytes := None, op_listed_versions := Some [audited_listing]\<rparr>"

definition audited_list :: OperationRecord where
  "audited_list = (sample_op ''op-6'' List (key_prefix ''run'') ''h'' Ok 11 12)
     \<lparr>op_value_sha256 := None, op_size_bytes := None, op_listed_keys := Some [''k'']\<rparr>"

abbreviation audited_suffix :: "OperationRecord list" where
  "audited_suffix \<equiv> [audited_get, audited_version_get, audited_version_list, audited_list]"

definition audited_audit :: CheckerAudit where
  "audited_audit =
     \<lparr>ca_bucket = ''b'', ca_started_at_ms = 5, ca_completed_at_ms = 12, ca_history_prefix_record_count = 2,
      ca_history_prefix_sha256 = ''h'', ca_history_suffix_record_count = 4, ca_history_suffix_sha256 = ''h'',
      ca_suffix_operations = checker_operation_audits audited_suffix,
      ca_data_version_checks = [\<lparr>cd_key = ''k'', cd_version_id = ''v1'', cd_expected_sha256 = ''h'',
        cd_observed_sha256 = Some ''h'', cd_outcome = Ok, cd_http_status = Some 200\<rparr>],
      ca_delete_marker_checks = [], ca_list_object_versions_completed = Some True\<rparr>"

definition audited_report :: CheckerReport where
  "audited_report = (initial_report demo_recorder (object_model demo_records) no_anomalies (list_history_warnings demo_records) True True)
     \<lparr>cr_verified_live_objects := 1, cr_expected_committed_versions := 1, cr_verified_committed_versions := 1,
      cr_final_listed_objects := Some 1, cr_audit := Some audited_audit\<rparr>"

lemma audited_report_simps [simp]:
  "cr_scenario audited_report = ''eio''" "cr_run_id audited_report = ''run''" "cr_audit audited_report = Some audited_audit"
  "cr_committed_puts audited_report = 1" "cr_expected_live_objects audited_report = 1"
  "cr_verified_live_objects audited_report = 1" "cr_versioning_expected audited_report"
  "cr_expected_committed_versions audited_report = 1" "cr_verified_committed_versions audited_report = 1"
  "cr_tolerated_ambiguous_deletes audited_report = []" "cr_failed_writes_materialized audited_report = []"
  "cr_unknown_writes_materialized audited_report = []" "cr_final_listed_objects audited_report = Some 1"
  "cr_list_history_warning_count audited_report = ws_total_count (list_history_warnings demo_records)"
  "cr_list_history_warnings audited_report = ws_samples (list_history_warnings demo_records)"
  "cr_operation_cohorts audited_report = operation_cohort_counts demo_records"
  "cr_fault_window_relations audited_report = fault_window_relation_counts demo_records"
  by (simp_all add: audited_report_def initial_report_def demo_model empty_model_def no_anomalies_def fcard.rep_eq)

lemma audited_valid:
  "validate_history_scope_and_order (demo_records @ audited_suffix) ''eio'' ''run'' ''b'' = Inr ()"
  unfolding validate_history_scope_and_order_def validate_mode_iff
  by (simp add: demo_records_def audited_get_def audited_version_get_def audited_version_list_def audited_list_def sample_eval)

lemma audited_boundary: "validate_history_phase_boundary demo_records audited_suffix = Inr ()"
  by (simp add: validate_history_phase_boundary_def started_sequences_def ended_sequences_def List.map_filter_simps
      demo_records_def audited_get_def audited_version_get_def audited_version_list_def audited_list_def sample_op_def)

lemma audited_receipt:
  "validate_checker_audit_receipt (\<lambda>_. ''h'') (\<lambda>_. Some []) audited_report (demo_records @ audited_suffix)
     = Inr (demo_records, audited_suffix)"
proof -
  have n: "length demo_records = 2" by (simp add: demo_records_def)
  then have t: "take 2 (demo_records @ xs) = demo_records" "drop 2 (demo_records @ xs) = xs" for xs by simp_all
  have t6: "take 6 (demo_records @ audited_suffix) = demo_records @ audited_suffix" by (simp add: n)
  show ?thesis
    unfolding validate_checker_audit_receipt_def
    by (simp add: audited_audit_def checked_add_def usize_max_def t t6 n audited_valid audited_boundary Let_def
        checker_history_records_sha256_def del: take_append drop_append)
      (simp add: suffix_in_window_def audited_get_def audited_version_get_def audited_version_list_def audited_list_def
        sample_op_def)
qed

lemmas audited_ops = audited_get_def audited_version_get_def audited_version_list_def audited_list_def sample_op_def

lemma audited_prefix: "audit_prefix_summary sha audited_report demo_records = Inr no_anomalies"
  by (simp add: audit_prefix_summary_def demo_no_anomalies demo_model empty_model_def no_anomalies_def fcard.rep_eq Let_def)

lemma audited_expected: "checker_expected_current_get_keys demo_records = {|''k''|}"
  by (auto simp: checker_expected_current_get_keys_def demo_model empty_model_def)

lemma audited_current:
  "audit_current_reads audited_report (object_model demo_records) {||} {|''k''|} audited_suffix =
     Inr \<lparr>as_materialized_keys = {||}, as_evidence = {||}\<rparr>"
proof -
  have u: "unexplained_listed (key_prefix ''run'') {|''k''|} audited_suffix = {||}"
    by (simp add: unexplained_listed_def audited_ops List.map_filter_simps)
  have g: "fold_res current_get_step fmempty (filter is_current_get audited_suffix) = Inr (fmupd ''k'' audited_get fmempty)"
    by (simp add: current_get_step_def audited_ops)
  have r: "reads_committed \<lparr>eo_sha256 = ''h'', eo_size_bytes = 3\<rparr> audited_get"
    by (simp add: reads_committed_def get_is_def audited_ops)
  show ?thesis
    unfolding audit_current_reads_def audited_report_simps u g Let_def
    by (simp add: audit_key_step_def audit_live_key_def demo_model r)
qed

lemma audited_final: "audit_final_list audited_report (object_model demo_records) {||} {||} audited_suffix = Inr ()"
  by (simp add: audit_final_list_def demo_model empty_model_def get_is_def audited_ops fcard.rep_eq)

lemma audited_versions:
  "validate_versioned_checker_suffix audited_report demo_records audited_suffix {||} (key_prefix ''run'') = Inr {||}"
proof -
  let ?l = "committed_version_lineage demo_records" and ?m = "object_model demo_records"
  let ?listed = "\<lparr>sl_data_versions = {|(''k'', ''v1'')|}, sl_data_latest = fmupd (''k'', ''v1'') True fmempty,
    sl_delete_markers = {||}, sl_latest = fmupd ''k'' audited_listing fmempty\<rparr>"
  have lists: "filter (\<lambda>r. op_kind r = ListVersions \<and> op_key r = Some (key_prefix ''run'')) audited_suffix = [audited_version_list]"
    by (simp add: audited_ops)
  have list_ok: "version_list_completed audited_report audited_version_list" "op_listed_versions audited_version_list = Some [audited_listing]"
    by (simp_all add: version_list_completed_def get_is_def audited_audit_def audited_ops)
  have scan: "listed_step init_listed_scan audited_listing = Inr ?listed"
    by (simp add: listed_step_def note_listed_def init_listed_scan_def audited_listing_def Let_def)
  have lineage: "vl_missing_version_id_count ?l = 0" "vl_delete_marker_lineage_incomplete ?l = []"
    "vl_multipart_upload_lineage_incomplete ?l = []" "vl_delete_markers ?l = []" "vl_versions ?l = [demo_version]"
    by (simp_all add: demo_lineage empty_lineage_def)
  have conflicts: "listed_version_lineage_conflicts demo_records ?l [listed_entry_identity audited_listing] = []"
    by (simp add: listed_version_lineage_conflicts_def conflict_step_def listed_entry_identity_def audited_listing_def
        immutable_version_id_def Let_def)
  have latest: "fold_res expected_latest_step fmempty
      (filter lv_is_latest (sorted_list_of_fset (checker_expected_version_listing demo_records))) =
      Inr (fmupd ''k'' audited_listing fmempty)"
    by (simp add: checker_expected_version_listing_def promised_versions_def
      promised_version_def listing_record_def latest_by_key_def demo_records_def sample_op_def immutable_version_id_def Let_def
      List.map_filter_def is_object_write_def expected_latest_step_def audited_listing_def) (rule exI [of _ False], simp)
  have reads: "audit_version_reads audited_report demo_records audited_suffix ?listed =
      Inr (ca_data_version_checks audited_audit, \<lparr>va_sources = from_sources (om_version_write_sources ?m), va_active = {||}, va_evidence = {||}\<rparr>)"
    by (simp add: audit_version_reads_def Let_def lineage expected_version_step_def demo_version_def version_record_step_def
        committed_version_step_def reads_committed_def get_is_def audited_audit_def fm_entries_def fm_keys_def audited_ops)
  show ?thesis
    unfolding validate_versioned_checker_suffix_def Let_def audited_report_simps lists list.case
    by (simp add: list_ok scan lineage conflicts latest reads)
      (simp add: latest_key_step_def audit_matches_committed_def demo_model empty_model_def compare_version_audits_def
        lineage audited_audit_def)
qed

lemma audited_observations:
  "validate_successful_checker_observations sha audited_report demo_records audited_suffix = Inr ()"
  by (simp add: validate_successful_checker_observations_def audited_prefix audited_expected audited_current audited_final
      audited_versions Let_def no_anomalies_def usize_max_def fcard.rep_eq)
    (simp add: demo_model fcard.rep_eq)

lemma audited_accepted:
  "validate_checker_audit_against_history (\<lambda>_. ''h'') (\<lambda>_. Some []) audited_report (demo_records @ audited_suffix) = Inr ()"
  by (simp add: validate_checker_audit_against_history_def audited_receipt audited_observations)

subsection \<open>Witnesses\<close>

text \<open>The audit's properties on the concrete history.\<close>

theorem accepted_audit_live_objects_witness:
  "validate_checker_audit_against_history (\<lambda>_. ''h'') (\<lambda>_. Some []) audited_report (demo_records @ audited_suffix) = Inr () \<and>
   (\<exists>r \<in> set audited_suffix. op_kind r = Get \<and> op_version_id r = None \<and> op_key r = Some ''k'' \<and>
      (reads_committed \<lparr>eo_sha256 = ''h'', eo_size_bytes = 3\<rparr> r \<or> reads_active (object_model demo_records) ''k'' r))"
proof -
  have "fmlookup (om_live (object_model demo_records)) ''k'' = Some \<lparr>eo_sha256 = ''h'', eo_size_bytes = 3\<rparr>"
    and "om_ambiguous_delete_pending (object_model demo_records) = {||}"
    by (simp_all add: demo_model empty_model_def)
  with accepted_audit_live_objects [OF audited_receipt audited_accepted] audited_accepted show ?thesis by fastforce
qed

theorem accepted_audit_listing_witness:
  "\<exists>l keys. filter (is_final_list (key_prefix ''run'')) audited_suffix = [l] \<and> op_listed_keys l = Some keys \<and> ''k'' \<in> set keys"
proof -
  have "''k'' |\<in>| fmdom (om_live (object_model demo_records))"
    and "om_ambiguous_delete_pending (object_model demo_records) = {||}"
    by (simp_all add: demo_model empty_model_def)
  with accepted_audit_listing [OF audited_receipt audited_accepted] show ?thesis
    unfolding Let_def audited_report_simps by (metis fempty_iff)
qed


end
