(* ===== verification/Failure_Demo.thy ===== *)
theory Failure_Demo
  imports Failure_Divergence Audit_Demo
begin

text \<open>
  Concrete failing checks: a corrupted object whose report is accepted, and the two kinds of failing report that the audit
  refuses.
\<close>

subsection \<open>A corrupted object\<close>

definition corrupt_get :: OperationRecord where
  "corrupt_get = sample_op ''op-3'' Get ''k'' ''bad'' Ok 5 6"

definition corrupt_version_get :: OperationRecord where
  "corrupt_version_get = (sample_op ''op-4'' Get ''k'' ''bad'' Ok 7 8)\<lparr>op_version_id := Some ''v1''\<rparr>"

abbreviation corrupt_suffix :: "OperationRecord list" where
  "corrupt_suffix \<equiv> [corrupt_get, corrupt_version_get, audited_version_list, audited_list]"

definition corrupt_audit :: CheckerAudit where
  "corrupt_audit = audited_audit\<lparr>ca_suffix_operations := checker_operation_audits corrupt_suffix,
     ca_data_version_checks := [\<lparr>cd_key = ''k'', cd_version_id = ''v1'', cd_expected_sha256 = ''h'',
        cd_observed_sha256 = Some ''bad'', cd_outcome = Ok, cd_http_status = Some 200\<rparr>]\<rparr>"

definition corrupt_report :: CheckerReport where
  "corrupt_report = audited_report\<lparr>cr_verified_live_objects := 0, cr_verified_committed_versions := 0,
     cr_hash_mismatches := [''k: expected h (3 bytes), got bad (3 bytes)''],
     cr_version_hash_mismatches := [''k@v1: expected h (3 bytes), got bad (3 bytes)''],
     cr_audit := Some corrupt_audit, cr_passed := False\<rparr>"

lemmas corrupt_ops = corrupt_get_def corrupt_version_get_def audited_version_list_def audited_list_def sample_op_def

lemma corrupt_valid:
  "validate_history_scope_and_order (demo_records @ corrupt_suffix) ''eio'' ''run'' ''b'' = Inr ()"
  unfolding validate_history_scope_and_order_def validate_mode_iff
  by (simp add: demo_records_def corrupt_get_def corrupt_version_get_def audited_version_list_def audited_list_def sample_eval)

lemma corrupt_boundary: "validate_history_phase_boundary demo_records corrupt_suffix = Inr ()"
  by (simp add: validate_history_phase_boundary_def started_sequences_def ended_sequences_def List.map_filter_simps
      demo_records_def corrupt_ops)

lemma corrupt_report_simps [simp]:
  "cr_scenario corrupt_report = ''eio''" "cr_run_id corrupt_report = ''run''" "cr_audit corrupt_report = Some corrupt_audit"
  "cr_versioning_expected corrupt_report"
  by (simp_all add: corrupt_report_def)

lemma corrupt_receipt:
  "validate_checker_audit_receipt (\<lambda>_. ''h'') (\<lambda>_. Some []) corrupt_report (demo_records @ corrupt_suffix)
     = Inr (demo_records, corrupt_suffix)"
proof -
  have n: "length demo_records = 2" by (simp add: demo_records_def)
  then have t: "take 2 (demo_records @ xs) = demo_records" "drop 2 (demo_records @ xs) = xs" for xs by simp_all
  have t6: "take 6 (demo_records @ corrupt_suffix) = demo_records @ corrupt_suffix" by (simp add: n)
  show ?thesis
    unfolding validate_checker_audit_receipt_def
    by (simp add: corrupt_audit_def audited_audit_def checked_add_def usize_max_def t t6 n corrupt_valid corrupt_boundary Let_def
        checker_history_records_sha256_def del: take_append drop_append)
      (simp add: suffix_in_window_def corrupt_ops)
qed

definition corrupt_auth :: failure_auth where
  "corrupt_auth = (init_failure_auth no_anomalies empty_lineage)\<lparr>fa_proven := [DataCorruption],
     fa_hash_mismatches := {|''k: expected h (3 bytes), got bad (3 bytes)''|}\<rparr>"

lemma corrupt_index:
  "index_gets corrupt_suffix = Inr (fmupd ''k'' corrupt_get fmempty, fmupd (''k'', ''v1'') corrupt_version_get fmempty)"
  by (simp add: index_gets_def failure_get_step_def corrupt_ops)

lemma corrupt_start: "start_failure_auth no_anomalies (committed_version_lineage demo_records) = init_failure_auth no_anomalies empty_lineage"
  by (simp add: start_failure_auth_def init_failure_auth_def no_anomalies_def demo_lineage empty_lineage_def prove_if_def)

lemma corrupt_mismatch:
  "read_mismatch_message ''k'' \<lparr>eo_sha256 = ''h'', eo_size_bytes = 3\<rparr> \<lparr>eo_sha256 = ''bad'', eo_size_bytes = 3\<rparr> =
     ''k: expected h (3 bytes), got bad (3 bytes)''"
  by code_simp

lemma corrupt_reads:
  "authenticate_reads (object_model demo_records) (fmupd ''k'' corrupt_get fmempty) (init_failure_auth no_anomalies empty_lineage) =
     corrupt_auth"
  by (simp add: authenticate_reads_def demo_model empty_model_def fm_entries_def fm_keys_def live_key_step_def corrupt_get_def sample_op_def
      recorded_object_def live_other_value_def fm_values_at_def prove_def deleted_probe_keys_def corrupt_auth_def corrupt_mismatch
      init_failure_auth_def)

lemma corrupt_final_list:
  "authenticate_final_list corrupt_report (object_model demo_records) (fmupd ''k'' corrupt_get fmempty) corrupt_suffix corrupt_auth =
     Inr (corrupt_auth, Some {|''k''|})"
  by (simp add: authenticate_final_list_def Let_def corrupt_ops list_completed_def failure_warnings_def evaluate_final_list_keys_def
      demo_model empty_model_def fm_keys_def unexplained_listed_keys_def note_list_warnings_def empty_warnings_def prove_if_def
      final_list_content_corruption_signal_def)
    (simp add: corrupt_auth_def init_failure_auth_def)

definition corrupt_auth_versions :: failure_auth where
  "corrupt_auth_versions = corrupt_auth\<lparr>fa_proven := [DataCorruption, VersionHashMismatch],
     fa_version_hash_mismatches := {|''k@v1: expected h (3 bytes), got bad (3 bytes)''|}\<rparr>"

lemma corrupt_version_mismatch:
  "version_mismatch_message demo_version \<lparr>eo_sha256 = ''bad'', eo_size_bytes = 3\<rparr> =
     ''k@v1: expected h (3 bytes), got bad (3 bytes)''"
  by code_simp

lemma corrupt_version_reads:
  "foldl (committed_version_get_step (fmupd (''k'', ''v1'') corrupt_version_get fmempty))
     (note_lineage (committed_version_lineage demo_records) corrupt_auth) (vl_versions (committed_version_lineage demo_records)) =
   corrupt_auth_versions"
proof -
  have lineage: "note_lineage (committed_version_lineage demo_records) corrupt_auth = corrupt_auth"
    by (simp add: note_lineage_def demo_lineage empty_lineage_def prove_if_def)
  have "fmlookup (fmupd (''k'', ''v1'') corrupt_version_get fmempty) (version_pair demo_version) = Some corrupt_version_get"
    by (simp add: demo_version_def)
  moreover have "recorded_object corrupt_version_get = Some \<lparr>eo_sha256 = ''bad'', eo_size_bytes = 3\<rparr>" "op_outcome corrupt_version_get = Ok"
    "cv_sha256 demo_version = ''h''"
    by (simp_all add: recorded_object_def corrupt_version_get_def sample_op_def demo_version_def)
  ultimately show ?thesis
    unfolding lineage
    by (simp add: demo_lineage committed_version_get_step_def corrupt_version_mismatch prove_def corrupt_auth_versions_def Let_def)
      (simp add: corrupt_auth_def init_failure_auth_def)
qed

lemma corrupt_entries: "map listed_object_entry [audited_listing] = [demo_entry]"
  by (simp add: listed_object_entry_def audited_listing_def demo_entry_def)

lemma corrupt_listing:
  "note_version_listing demo_records (committed_version_lineage demo_records) [demo_entry] corrupt_auth_versions = corrupt_auth_versions"
proof -
  have "missing_committed_version_entries (vl_versions (committed_version_lineage demo_records)) [demo_entry] = ([], [])"
    "missing_committed_delete_markers (vl_delete_markers (committed_version_lineage demo_records)) [demo_entry] = []"
    by (simp_all add: missing_committed_version_entries_def missing_committed_delete_markers_def demo_lineage
        demo_version_def demo_entry_def empty_lineage_def listed_pairs_def List.map_filter_def Let_def)
  then show ?thesis
    by (simp add: note_version_listing_def demo_conflicts note_lineage_conflicts_def prove_if_def Let_def)
qed

lemma corrupt_candidates:
  "authenticate_candidates (object_model demo_records) (committed_version_lineage demo_records) [demo_entry] gets corrupt_auth_versions =
     Inr (corrupt_auth_versions, [])"
  by (simp add: authenticate_candidates_def ambiguous_version_candidates_def candidate_step_def demo_lineage
        demo_version_def demo_entry_def empty_lineage_def prove_if_def)

lemma corrupt_latest:
  "authenticate_latest corrupt_report (object_model demo_records) demo_records (committed_version_lineage demo_records) [demo_entry] []
     corrupt_auth_versions = corrupt_auth_versions"
proof -
  have latest: "evaluate_latest_version_lineage r' (object_model demo_records) (expected_latest_versions demo_records)
      (fmupd ''k'' demo_entry fmempty) [] (vl_delete_markers (committed_version_lineage demo_records)) = r'" for r'
    by (simp add: evaluate_latest_version_lineage_def demo_expected_latest check_expected_latest_def
        check_unexpected_latest_def fm_entries_def fm_keys_def matches_expected_latest_def demo_entry_def demo_model
        empty_model_def Let_def)
  show ?thesis by (simp add: authenticate_latest_def demo_latest latest note_lineage_conflicts_def prove_if_def)
qed

lemma corrupt_deletes:
  "authenticate_ambiguous_deletes demo_records lineage [demo_entry] listed corrupt_auth_versions = corrupt_auth_versions"
  by (simp add: authenticate_ambiguous_deletes_def corrupt_auth_versions_def corrupt_auth_def init_failure_auth_def)

lemma corrupt_versions:
  "authenticate_versions corrupt_report (object_model demo_records) demo_records corrupt_suffix
     (fmupd (''k'', ''v1'') corrupt_version_get fmempty) listed corrupt_auth = Inr corrupt_auth_versions"
proof -
  have lists: "filter (\<lambda>r. op_kind r = ListVersions \<and> op_key r = Some (key_prefix ''run'')) corrupt_suffix = [audited_version_list]"
    "list_completed audited_version_list" "op_listed_versions audited_version_list = Some [audited_listing]"
    by (simp_all add: corrupt_ops list_completed_def)
  show ?thesis
    unfolding authenticate_versions_def authenticate_version_list_def Let_def corrupt_report_simps lists list.case if_True corrupt_version_reads
    by (simp add: corrupt_entries [simplified] corrupt_listing corrupt_candidates corrupt_latest corrupt_deletes lists)
qed

lemma corrupt_observations:
  "authenticated_observations corrupt_report demo_records corrupt_suffix no_anomalies = Inr (corrupt_auth_versions, Some {|''k''|})"
  by (simp add: authenticated_observations_def corrupt_index corrupt_start corrupt_reads corrupt_final_list authenticate_unversioned_def
      corrupt_versions Let_def)
    (simp add: corrupt_auth_versions_def corrupt_auth_def init_failure_auth_def no_anomalies_def prove_if_def)

lemma corrupt_comparison:
  "compare_failure_report corrupt_report demo_records no_anomalies (Some {|''k''|}) corrupt_auth_versions = Inr ()"
proof -
  have "fold_res (\<lambda>_ (field, reported, authenticated). ensure_reported_checker_failure_entries field reported authenticated) ()
      (reported_entries corrupt_report no_anomalies corrupt_auth_versions) = Inr ()"
    unfolding fold_res_unit_Inr
    by (simp add: reported_entries_def failure_entries_Inr corrupt_report_def audited_report_def initial_report_def no_anomalies_def
        corrupt_auth_versions_def corrupt_auth_def init_failure_auth_def empty_lineage_def)
  moreover have "compare_list_warnings corrupt_report corrupt_auth_versions = Inr ()"
    by (simp add: compare_list_warnings_def corrupt_report_def audited_report_def initial_report_def corrupt_auth_versions_def
        corrupt_auth_def init_failure_auth_def)
  moreover have "compare_summaries corrupt_report demo_records (Some {|''k''|}) corrupt_auth_versions = Inr ()"
    by (simp add: compare_summaries_def Let_def corrupt_report_def audited_report_def initial_report_def demo_lineage empty_lineage_def
        corrupt_auth_versions_def corrupt_auth_def init_failure_auth_def fcard.rep_eq)
  moreover have "cr_unavailable_committed_objects corrupt_report = []" "cr_unknown_committed_read_failures corrupt_report = []"
    "fa_unavailable_committed_objects corrupt_auth_versions = []" "fa_unknown_committed_read_failures corrupt_auth_versions = []"
    by (simp_all add: corrupt_report_def audited_report_def initial_report_def corrupt_auth_versions_def corrupt_auth_def init_failure_auth_def)
  ultimately show ?thesis by (simp add: compare_failure_report_def failure_multiset_Inr)
qed

lemma corrupt_accepted:
  "validate_checker_failure_against_history (\<lambda>_. ''h'') (\<lambda>_. Some []) corrupt_report (demo_records @ corrupt_suffix) = Inr ()"
proof -
  have c: "failure_classification corrupt_report = VersionHashMismatch"
    by (simp add: failure_classification_def classify_without_reread_def corrupt_report_def)
  moreover have "validate_checker_failure_signal corrupt_report = Inr ()"
    by (simp add: validate_checker_failure_signal_def c) (simp add: corrupt_report_def success_predicate_def Let_def)
  moreover have "VersionHashMismatch \<in> set (fa_proven corrupt_auth_versions)" by (simp add: corrupt_auth_versions_def)
  ultimately show ?thesis
    by (simp add: validate_checker_failure_against_history_def lift_receipt_def corrupt_receipt lift_signal_def lift_failure_panic_def
        authenticated_checker_failure_classifications_def demo_no_anomalies corrupt_observations corrupt_comparison)
qed

text \<open>The properties on the corrupted object.\<close>

theorem accepted_failure_reads_exact_witness:
  "validate_checker_failure_against_history (\<lambda>_. ''h'') (\<lambda>_. Some []) corrupt_report (demo_records @ corrupt_suffix) = Inr () \<and>
   ''k: expected h (3 bytes), got bad (3 bytes)'' \<in> {read_mismatch_message key expected actual |key expected get actual.
      fmlookup (om_live (object_model demo_records)) key = Some expected \<and> reads_current corrupt_suffix key get \<and>
      other_value (object_model demo_records) key expected get actual}"
proof -
  have "''k: expected h (3 bytes), got bad (3 bytes)'' \<in> set (cr_hash_mismatches corrupt_report)" by (simp add: corrupt_report_def)
  with accepted_failure_reads_exact [OF corrupt_receipt corrupt_accepted, THEN conjunct2, THEN conjunct1] corrupt_accepted
  show ?thesis by simp
qed

theorem accepted_failure_version_mismatches_exact_witness:
  "cr_versioning_expected corrupt_report \<and>
   (\<exists>v get actual. v \<in> set (vl_versions (committed_version_lineage demo_records)) \<and>
      reads_recorded_version corrupt_suffix (cv_key v, cv_version_id v) get \<and> recorded_object get = Some actual \<and>
      eo_sha256 actual \<noteq> cv_sha256 v)"
proof -
  have "''k@v1: expected h (3 bytes), got bad (3 bytes)'' \<in> set (cr_version_hash_mismatches corrupt_report)"
    by (simp add: corrupt_report_def)
  then obtain v get actual where v: "v \<in> set (vl_versions (committed_version_lineage demo_records))"
    and get: "reads_recorded_version corrupt_suffix (cv_key v, cv_version_id v) get" "recorded_object get = Some actual"
    and other: "eo_sha256 actual \<noteq> cv_sha256 v \<or> eo_size_bytes actual \<noteq> cv_size_bytes v"
    unfolding accepted_failure_version_mismatches_exact [OF corrupt_receipt corrupt_accepted, THEN conjunct2]
    by (simp only: corrupt_report_simps if_True) blast
  have "cv_size_bytes v = 3" using v by (simp add: demo_lineage demo_version_def)
  moreover have "eo_size_bytes actual = 3" using get by (auto simp: reads_recorded_version_def recorded_object_def corrupt_ops)
  ultimately show ?thesis using v get other corrupt_report_simps(4) by auto
qed

subsection \<open>A deleted object of an unversioned bucket comes back\<close>

definition deleted_records :: "OperationRecord list" where
  "deleted_records =
     [sample_op ''op-1'' Put ''k'' ''h'' Ok 1 2,
      (sample_op ''op-2'' Delete ''k'' ''h'' Ok 3 4)\<lparr>op_value_sha256 := None, op_size_bytes := None\<rparr>]"

definition deleted_recorder :: RecorderState where
  "deleted_recorder = (recorder_create ''eio'' ''run'')\<lparr>rs_records := deleted_records\<rparr>"

definition deleted_observations :: CheckerObservations where
  "deleted_observations =
     \<lparr>ob_final_gets = [], ob_deleted_gets = [(''k'', Inr demo_get)], ob_version_gets = [], ob_version_list = Inr None,
      ob_candidate_gets = [], ob_prefix_list = Inr (Some []), ob_unexplained_gets = [],
      ob_records = deleted_records, ob_started_at_ms = 5, ob_completed_at_ms = 6\<rparr>"

lemma deleted_recorder_simps [simp]:
  "rs_records deleted_recorder = deleted_records" "rs_scenario deleted_recorder = ''eio''" "rs_run_id deleted_recorder = ''run''"
  by (simp_all add: deleted_recorder_def recorder_create_def)

lemma deleted_valid: "validate_history_scope_and_order deleted_records ''eio'' ''run'' ''b'' = Inr ()"
  unfolding validate_history_scope_and_order_def validate_mode_iff
  by (simp add: deleted_records_def sample_eval)

lemma deleted_model: "om_live (object_model deleted_records) = fmempty" "om_deleted (object_model deleted_records) = {|''k''|}"
  "om_unknown_writes (object_model deleted_records) = fmempty" "om_ambiguous_delete_pending (object_model deleted_records) = {||}"
  by code_simp+

lemma deleted_anomalies: "\<exists>a. successful_read_anomalies sha deleted_records = Inr a"
  by (simp add: deleted_records_def successful_read_anomalies_def enumerate_simps anomaly_step_def record_object_def
      init_anomaly_scan_def sample_op_def Let_def no_anomalies_def split: option.split)

lemma deleted_run:
  "\<exists>report. check_s3_history (\<lambda>_. ''h'') (\<lambda>_. Some []) deleted_recorder ''b'' True False deleted_observations = Inr report \<and>
     \<not> cr_passed report"
proof -
  let ?sha = "\<lambda>_::bytes. ''h''" and ?m = "object_model deleted_records" and ?obs = deleted_observations
  obtain a where a: "successful_read_anomalies ?sha deleted_records = Inr a" using deleted_anomalies by blast
  let ?r = "initial_report deleted_recorder ?m a (list_history_warnings deleted_records) True False"
  let ?d = "note_deleted_get ?r ''k'' demo_get"
  have deleted: "fold_res deleted_get_step ?r (ob_deleted_gets ?obs) = Inr ?d"
    by (simp add: deleted_observations_def deleted_get_step_def client_result_def)
  have listing: "check_listing ?sha ?m (start_scan ?r) (key_prefix ''run'') ?obs ?d empty_warnings =
      Inr (?d\<lparr>cr_final_listed_objects := Some 0\<rparr>, empty_warnings, Some {||})"
    by (simp add: check_listing_def deleted_observations_def client_result_def evaluate_final_list_keys_def deleted_model fm_keys_def Let_def)
  let ?s = "sort_report (?d\<lparr>cr_final_listed_objects := Some 0, cr_final_list_warning_count := 0, cr_list_warnings := []\<rparr>)"
  have store: "observe_store ?sha deleted_records ''run'' False ?obs ?r = Inr (?s, no_versions ?d)"
    using deleted listing
    by (simp add: observe_store_def Let_def no_versions_def finalize_ambiguous_delete_observations_def deleted_model)
      (simp add: deleted_observations_def empty_warnings_def)
  have "set (cr_resurrected_deleted_objects ?s) \<noteq> {}"
    by (simp add: sort_report_def note_deleted_get_def evaluate_deleted_reread_def demo_get_def)
  then have failed: "\<not> success_predicate (?s\<lparr>cr_audit := audit\<rparr>)" for audit by (simp add: success_predicate_def Let_def)
  obtain audit where "checker_audit ?sha (\<lambda>_. Some []) deleted_recorder ''b'' ?obs (no_versions ?d) ''h'' = Inr audit"
    using deleted_valid by (auto simp: checker_audit_def lift_history_def validate_history_phase_boundary_def
        checker_history_records_sha256_def deleted_observations_def)
  then show ?thesis
    using store deleted_valid a failed
    by (simp add: check_s3_history_def lift_history_def lift_run_panic_def checker_history_records_sha256_def Let_def)
qed

theorem unversioned_failure_refused_witness:
  "\<exists>report. check_s3_history (\<lambda>_. ''h'') (\<lambda>_. Some []) deleted_recorder ''b'' True False deleted_observations = Inr report \<and>
     \<not> cr_passed report \<and>
     validate_checker_failure_against_history (\<lambda>_. ''h'') (\<lambda>_. Some []) report (deleted_records @ [audited_list]) \<noteq> Inr ()"
proof -
  from deleted_run obtain report where
    run: "check_s3_history (\<lambda>_. ''h'') (\<lambda>_. Some []) deleted_recorder ''b'' True False deleted_observations = Inr report"
    and failed: "\<not> cr_passed report" by blast
  have "validate_checker_failure_against_history (\<lambda>_. ''h'') (\<lambda>_. Some []) report (deleted_records @ [audited_list]) \<noteq> Inr ()"
    by (rule unversioned_failure_refused [OF run, of "deleted_records ! 1" "''k''"]) (simp_all add: deleted_records_def sample_op_def)
  with run failed show ?thesis by blast
qed

subsection \<open>An ambiguous delete and a version listing that failed\<close>

definition unlisted_records :: "OperationRecord list" where
  "unlisted_records =
     [(sample_op ''op-1'' Put ''k'' ''h'' Ok 1 2)\<lparr>op_version_id := Some ''v1''\<rparr>,
      (sample_op ''op-2'' Delete ''k'' ''h'' Timeout 3 4)\<lparr>op_value_sha256 := None, op_size_bytes := None, op_http_status := None\<rparr>]"

definition unlisted_recorder :: RecorderState where
  "unlisted_recorder = (recorder_create ''eio'' ''run'')\<lparr>rs_records := unlisted_records\<rparr>"

definition unlisted_get :: GetObjectResult where
  "unlisted_get = \<lparr>gr_outcome = NotFound, gr_http_status = Some 404, gr_error = None, gr_body = None\<rparr>"

definition unlisted_observations :: CheckerObservations where
  "unlisted_observations =
     \<lparr>ob_final_gets = [(''k'', Inr unlisted_get)], ob_deleted_gets = [], ob_version_gets = [(demo_version, Inr demo_get)],
      ob_version_list = Inr None, ob_candidate_gets = [], ob_prefix_list = Inr (Some []), ob_unexplained_gets = [],
      ob_records = unlisted_records, ob_started_at_ms = 5, ob_completed_at_ms = 6\<rparr>"

lemma unlisted_recorder_simps [simp]:
  "rs_records unlisted_recorder = unlisted_records" "rs_scenario unlisted_recorder = ''eio''" "rs_run_id unlisted_recorder = ''run''"
  by (simp_all add: unlisted_recorder_def recorder_create_def)

lemma unlisted_valid: "validate_history_scope_and_order unlisted_records ''eio'' ''run'' ''b'' = Inr ()"
  unfolding validate_history_scope_and_order_def validate_mode_iff
  by (simp add: unlisted_records_def sample_eval)

lemma unlisted_model:
  "om_live (object_model unlisted_records) = fmupd ''k'' \<lparr>eo_sha256 = ''h'', eo_size_bytes = 3\<rparr> fmempty"
  "om_deleted (object_model unlisted_records) = {||}" "om_unknown_writes (object_model unlisted_records) = fmempty"
  "om_ambiguous_delete_pending (object_model unlisted_records) = {|''k''|}"
  by code_simp+

lemma unlisted_anomalies: "\<exists>a. successful_read_anomalies sha unlisted_records = Inr a"
  by (simp add: unlisted_records_def successful_read_anomalies_def enumerate_simps anomaly_step_def record_object_def
      init_anomaly_scan_def sample_op_def Let_def no_anomalies_def split: option.split)

lemma unlisted_absent: "absent_after_ambiguous_delete (object_model unlisted_records) ''k'' unlisted_get"
  by (simp add: absent_after_ambiguous_delete_def unlisted_model unlisted_get_def)

lemma unlisted_run:
  "\<exists>report. check_s3_history (\<lambda>_. ''h'') (\<lambda>_. Some []) unlisted_recorder ''b'' True True unlisted_observations = Inr report \<and>
     \<not> cr_passed report"
proof -
  let ?sha = "\<lambda>_::bytes. ''h''" and ?m = "object_model unlisted_records" and ?obs = unlisted_observations
  obtain a where a: "successful_read_anomalies ?sha unlisted_records = Inr a" using unlisted_anomalies by blast
  let ?r = "initial_report unlisted_recorder ?m a (list_history_warnings unlisted_records) True True"
  obtain scan where scan: "fold_res (final_get_step ?sha ?m) (start_scan ?r) (ob_final_gets ?obs) = Inr scan"
    by (simp add: unlisted_observations_def final_get_step_def client_result_def)
  obtain v where v: "check_versions ?sha unlisted_records ?m (key_prefix ''run'') ?obs (fs_report scan) = Inr v"
    and w: "vp_warnings v = record_version_list_unavailable empty_warnings (key_prefix ''run'')"
    by (simp add: check_versions_def unlisted_observations_def version_get_step_def client_result_def Let_def)
  obtain lr lw where l: "check_listing ?sha ?m scan (key_prefix ''run'') ?obs (vp_report v) (vp_warnings v) = Inr (lr, lw, Some {||})"
    by (simp add: check_listing_def unlisted_observations_def client_result_def Let_def)
  have store: "observe_store ?sha unlisted_records ''run'' True ?obs ?r = Inr (sort_report
      (finalize_ambiguous_delete_observations (lr\<lparr>cr_final_list_warning_count := ws_total_count lw, cr_list_warnings := ws_samples lw\<rparr>)
        ?m (delete_observations unlisted_records True scan v (Some {||}))), v)" (is "_ = Inr (?s, v)")
    using scan v l by (simp add: observe_store_def Let_def) (simp add: unlisted_observations_def)
  have "cr_delete_marker_lineage_incomplete ?s \<noteq> []"
    by (rule unlisted_check_lineage [OF store, of "''k''" unlisted_get]) (simp_all add: unlisted_observations_def unlisted_absent)
  then have failed: "\<not> success_predicate (?s\<lparr>cr_audit := audit\<rparr>)" for audit by (simp add: success_predicate_def Let_def)
  obtain audit where "checker_audit ?sha (\<lambda>_. Some []) unlisted_recorder ''b'' ?obs v ''h'' = Inr audit"
    using unlisted_valid by (auto simp: checker_audit_def lift_history_def validate_history_phase_boundary_def
        checker_history_records_sha256_def unlisted_observations_def)
  then show ?thesis
    using store unlisted_valid a failed
    by (simp add: check_s3_history_def lift_history_def lift_run_panic_def checker_history_records_sha256_def Let_def)
qed

theorem unlisted_failure_refused_witness:
  "\<exists>report. check_s3_history (\<lambda>_. ''h'') (\<lambda>_. Some []) unlisted_recorder ''b'' True True unlisted_observations = Inr report \<and>
     \<not> cr_passed report \<and>
     validate_checker_failure_against_history (\<lambda>_. ''h'') (\<lambda>_. Some []) report
       (unlisted_records @ [audited_version_list\<lparr>op_outcome := Timeout\<rparr>]) \<noteq> Inr ()"
proof -
  from unlisted_run obtain report where
    run: "check_s3_history (\<lambda>_. ''h'') (\<lambda>_. Some []) unlisted_recorder ''b'' True True unlisted_observations = Inr report"
    and failed: "\<not> cr_passed report" by blast
  have "vl_delete_marker_lineage_incomplete (committed_version_lineage unlisted_records) = []" by code_simp
  then have "validate_checker_failure_against_history (\<lambda>_. ''h'') (\<lambda>_. Some []) report
      (unlisted_records @ [audited_version_list\<lparr>op_outcome := Timeout\<rparr>]) \<noteq> Inr ()"
    using unlisted_absent
    by (intro unlisted_failure_refused [OF run, of "''k''" unlisted_get]) (simp_all add: unlisted_observations_def)
  with run failed show ?thesis by blast
qed

end
