(* ===== verification/Protocol_Catalog.thy ===== *)
theory Protocol_Catalog
  imports Prelude
begin

text \<open>
  The catalog of protocol test cases (\<open>src/src/protocol/catalog.rs\<close> and \<open>catalog/\<close>): what a case
  requires, which resources it owns, which locks it takes and what it may clean up, and the validator of these
  descriptors. Constructors are named as in the source and written with their type, as the source does.
\<close>

subsection \<open>Descriptors\<close>

datatype ProtocolCapability =
    S3 | AdminApi | BucketPolicy | Identity | Iam | IamGroup | StsAssumeRole | StsWebIdentity | Oidc
  | ExternalIdp | Versioning | PublicAccessBlock | Kms | Sns

datatype ProtocolExecutor = BucketPolicy | CannedPolicy | Compatibility | Iam | Sts | OidcWebIdentity

datatype ProtocolLockResource = Tenant | Bucket | Identity | Kms | Sns | ExternalIdp

datatype ProtocolLockMode = Shared | Exclusive

record ProtocolLockRequirement =
  lr_resource :: ProtocolLockResource
  lr_mode :: ProtocolLockMode

datatype ProtocolResourceOwnership =
    ExclusiveBucket | SharedBucketPrefix | SharedBucketKey | SharedObjectVersion | ExactMultipartUpload
  | IdentityPrefix | ExternalIdentity | ExternalResource

datatype ProtocolCleanupScope =
    OwnedBucket | BucketPolicy | BucketConfiguration | ObjectPrefix | ObjectKey | ObjectVersion | MultipartUpload
  | Identity | StsSession | ExternalIdentity | ExternalResource

datatype ProtocolExpectedOutcome =
    Success
  | S3Error nat string
  | Transport string
  | ExpectedDivergence string

record ProtocolVariant =
  pv_id :: string
  pv_expected :: ProtocolExpectedOutcome

datatype ProtocolIsolation = Case | Group | Suite

datatype ProtocolDomain =
    Bucket | Object | Listing | CopyDelete | Multipart | Versioning | BucketConfig | IntegrityEncryption
  | Authorization | Iam | Sts | S3Select | Notification | RequestValidation | Other

record ProtocolCase =
  pc_id :: string
  pc_domain :: ProtocolDomain
  pc_group :: string
  pc_tags :: "string list"
  pc_isolation :: ProtocolIsolation
  pc_capabilities :: "ProtocolCapability list"
  pc_serial :: bool
  pc_executor :: ProtocolExecutor
  pc_lock_requirements :: "ProtocolLockRequirement list"
  pc_ownership :: "ProtocolResourceOwnership list"
  pc_cleanup_scopes :: "ProtocolCleanupScope list"
  pc_variants :: "ProtocolVariant list"

definition has_capability :: "ProtocolCase \<Rightarrow> ProtocolCapability \<Rightarrow> bool" where
  "has_capability c capability \<longleftrightarrow> capability \<in> set (pc_capabilities c)"

definition case_variant :: "ProtocolCase \<Rightarrow> string \<Rightarrow> ProtocolVariant option" where
  "case_variant c ident = find (\<lambda>v. pv_id v = ident) (pc_variants c)"

definition default_variant :: "ProtocolCase \<Rightarrow> panic + ProtocolVariant" where
  "default_variant c = (case pc_variants c of [] \<Rightarrow> Inl IndexOutOfBounds | v # _ \<Rightarrow> Inr v)"

subsection \<open>The validator\<close>

datatype catalog_error =
    EmptyId
  | IdCharacters string
  | IdNotCanonical string
  | EmptyGroup string
  | NoTags string
  | DuplicateTag string
  | DuplicateCapability string
  | DuplicateOwnership string
  | DuplicateCleanupScope string
  | NoVariants string
  | DuplicateVariant string string
  | InvalidS3Status string
  | EmptyS3Code
  | EmptyTransportOutcome
  | DivergenceNotLinked
  | DuplicateLock string
  | SerialWithoutTenantLock string
  | ExternalOwnershipWithoutLock string
  | OwnershipWithoutLock string
  | CleanupTooWide string
  | EmptiesSharedBucket string
  | DuplicateCaseId string

definition stable_char :: "char \<Rightarrow> bool" where
  "stable_char c \<longleftrightarrow> (let n = (of_char c :: nat) in 97 \<le> n \<and> n \<le> 122 \<or> 48 \<le> n \<and> n \<le> 57 \<or> c = CHR ''-'')"

definition validate_stable_id :: "string \<Rightarrow> catalog_error + unit" where
  "validate_stable_id ident =
     ensure (ident \<noteq> []) EmptyId
     (ensure (list_all stable_char ident) (IdCharacters ident)
     (ensure (\<not> prefix ''-'' ident \<and> \<not> suffix ''-'' ident \<and> \<not> str_contains ident ''--'') (IdNotCanonical ident)
       (Inr ())))"

definition unique_step :: "catalog_error \<Rightarrow> 'a list \<Rightarrow> 'a \<Rightarrow> catalog_error + 'a list" where
  "unique_step err seen v = ensure (v \<notin> set seen) err (Inr (v # seen))"

definition ensure_unique :: "catalog_error \<Rightarrow> 'a list \<Rightarrow> catalog_error + unit" where
  "ensure_unique err vs = res_bind (fold_res (unique_step err) [] vs) (\<lambda>_. Inr ())"

definition validate_expected_outcome :: "string \<Rightarrow> ProtocolVariant \<Rightarrow> catalog_error + unit" where
  "validate_expected_outcome case_id v =
     (case pv_expected v of
        Success \<Rightarrow> Inr ()
      | S3Error http_status error_code \<Rightarrow>
          ensure (400 \<le> http_status \<and> http_status \<le> 599) (InvalidS3Status case_id)
          (ensure (\<not> trim_is_empty error_code) EmptyS3Code (Inr ()))
      | Transport outcome \<Rightarrow> ensure (\<not> trim_is_empty outcome) EmptyTransportOutcome (Inr ())
      | ExpectedDivergence issue \<Rightarrow>
          ensure (prefix ''https://github.com/rustfs/backlog/issues/'' issue) DivergenceNotLinked (Inr ()))"

definition variant_step :: "ProtocolCase \<Rightarrow> string list \<Rightarrow> ProtocolVariant \<Rightarrow> catalog_error + string list" where
  "variant_step c seen v =
     res_bind (validate_stable_id (pv_id v)) (\<lambda>_.
     ensure (pv_id v \<notin> set seen) (DuplicateVariant (pc_id c) (pv_id v))
     (res_bind (validate_expected_outcome (pc_id c) v) (\<lambda>_. Inr (pv_id v # seen))))"

definition has_lock :: "ProtocolCase \<Rightarrow> ProtocolLockResource \<Rightarrow> bool" where
  "has_lock c resource = list_ex (\<lambda>l. lr_resource l = resource) (pc_lock_requirements c)"

definition exclusive_lock :: "ProtocolCase \<Rightarrow> ProtocolLockResource \<Rightarrow> bool" where
  "exclusive_lock c resource \<longleftrightarrow> \<lparr>lr_resource = resource, lr_mode = Exclusive\<rparr> \<in> set (pc_lock_requirements c)"

definition external_lock :: "ProtocolCase \<Rightarrow> bool" where
  "external_lock c =
     list_ex (\<lambda>l. lr_resource l \<in> {ProtocolLockResource.Kms, ProtocolLockResource.Sns, ProtocolLockResource.ExternalIdp})
       (pc_lock_requirements c)"

definition owned_lock_resource :: "ProtocolResourceOwnership \<Rightarrow> ProtocolLockResource option" where
  "owned_lock_resource ownership =
     (case ownership of
        ExclusiveBucket \<Rightarrow> Some ProtocolLockResource.Bucket
      | SharedBucketPrefix \<Rightarrow> Some ProtocolLockResource.Bucket
      | SharedBucketKey \<Rightarrow> Some ProtocolLockResource.Bucket
      | SharedObjectVersion \<Rightarrow> Some ProtocolLockResource.Bucket
      | ExactMultipartUpload \<Rightarrow> Some ProtocolLockResource.Bucket
      | IdentityPrefix \<Rightarrow> Some ProtocolLockResource.Identity
      | ProtocolResourceOwnership.ExternalIdentity \<Rightarrow> Some ProtocolLockResource.ExternalIdp
      | ProtocolResourceOwnership.ExternalResource \<Rightarrow> None)"

definition ownership_step :: "ProtocolCase \<Rightarrow> unit \<Rightarrow> ProtocolResourceOwnership \<Rightarrow> catalog_error + unit" where
  "ownership_step c _ ownership =
     (case owned_lock_resource ownership of
        None \<Rightarrow> ensure (external_lock c) (ExternalOwnershipWithoutLock (pc_id c)) (Inr ())
      | Some resource \<Rightarrow> ensure (has_lock c resource) (OwnershipWithoutLock (pc_id c)) (Inr ()))"

definition owns_any :: "ProtocolCase \<Rightarrow> ProtocolResourceOwnership list \<Rightarrow> bool" where
  "owns_any c os = list_ex (\<lambda>ownership. ownership \<in> set os) (pc_ownership c)"

definition cleanup_allowed :: "ProtocolCase \<Rightarrow> ProtocolCleanupScope \<Rightarrow> bool" where
  "cleanup_allowed c cleanup =
     (case cleanup of
        OwnedBucket \<Rightarrow> ExclusiveBucket \<in> set (pc_ownership c) \<and> exclusive_lock c ProtocolLockResource.Bucket
      | ProtocolCleanupScope.BucketPolicy \<Rightarrow>
          ExclusiveBucket \<in> set (pc_ownership c) \<and> exclusive_lock c ProtocolLockResource.Bucket
      | BucketConfiguration \<Rightarrow> ExclusiveBucket \<in> set (pc_ownership c) \<and> exclusive_lock c ProtocolLockResource.Bucket
      | ObjectPrefix \<Rightarrow> owns_any c [ExclusiveBucket, SharedBucketPrefix] \<and> has_lock c ProtocolLockResource.Bucket
      | MultipartUpload \<Rightarrow>
          owns_any c [ExclusiveBucket, SharedBucketPrefix, SharedBucketKey, ExactMultipartUpload]
          \<and> has_lock c ProtocolLockResource.Bucket
      | ObjectKey \<Rightarrow>
          owns_any c [ExclusiveBucket, SharedBucketPrefix, SharedBucketKey] \<and> has_lock c ProtocolLockResource.Bucket
      | ObjectVersion \<Rightarrow>
          owns_any c [ExclusiveBucket, SharedBucketPrefix, SharedBucketKey, SharedObjectVersion]
          \<and> has_lock c ProtocolLockResource.Bucket
      | ProtocolCleanupScope.Identity \<Rightarrow>
          IdentityPrefix \<in> set (pc_ownership c) \<and> has_lock c ProtocolLockResource.Identity
      | StsSession \<Rightarrow> IdentityPrefix \<in> set (pc_ownership c) \<and> has_lock c ProtocolLockResource.Identity
      | ProtocolCleanupScope.ExternalIdentity \<Rightarrow>
          ProtocolResourceOwnership.ExternalIdentity \<in> set (pc_ownership c) \<and> has_lock c ProtocolLockResource.ExternalIdp
      | ProtocolCleanupScope.ExternalResource \<Rightarrow>
          ProtocolResourceOwnership.ExternalResource \<in> set (pc_ownership c) \<and> external_lock c)"

definition cleanup_step :: "ProtocolCase \<Rightarrow> unit \<Rightarrow> ProtocolCleanupScope \<Rightarrow> catalog_error + unit" where
  "cleanup_step c _ cleanup = ensure (cleanup_allowed c cleanup) (CleanupTooWide (pc_id c)) (Inr ())"

definition validate_cleanup_contract :: "ProtocolCase \<Rightarrow> catalog_error + unit" where
  "validate_cleanup_contract c =
     res_bind (fold_res (ownership_step c) () (pc_ownership c)) (\<lambda>_.
     res_bind (fold_res (cleanup_step c) () (pc_cleanup_scopes c)) (\<lambda>_.
     ensure (\<not> (SharedBucketPrefix \<in> set (pc_ownership c) \<and> OwnedBucket \<in> set (pc_cleanup_scopes c)))
       (EmptiesSharedBucket (pc_id c)) (Inr ())))"

definition validate_protocol_case_descriptor :: "ProtocolCase \<Rightarrow> catalog_error + unit" where
  "validate_protocol_case_descriptor c =
     res_bind (validate_stable_id (pc_id c)) (\<lambda>_.
     ensure (pc_group c \<noteq> []) (EmptyGroup (pc_id c))
     (ensure (pc_tags c \<noteq> []) (NoTags (pc_id c))
     (res_bind (ensure_unique (DuplicateTag (pc_id c)) (pc_tags c)) (\<lambda>_.
      res_bind (ensure_unique (DuplicateCapability (pc_id c)) (pc_capabilities c)) (\<lambda>_.
      res_bind (ensure_unique (DuplicateOwnership (pc_id c)) (pc_ownership c)) (\<lambda>_.
      res_bind (ensure_unique (DuplicateCleanupScope (pc_id c)) (pc_cleanup_scopes c)) (\<lambda>_.
      ensure (pc_variants c \<noteq> []) (NoVariants (pc_id c))
      (res_bind (fold_res (variant_step c) [] (pc_variants c)) (\<lambda>_.
       res_bind (ensure_unique (DuplicateLock (pc_id c)) (map lr_resource (pc_lock_requirements c))) (\<lambda>_.
       ensure (pc_serial c \<longrightarrow> exclusive_lock c Tenant) (SerialWithoutTenantLock (pc_id c))
         (validate_cleanup_contract c)))))))))))"

definition catalog_step :: "string list \<Rightarrow> ProtocolCase \<Rightarrow> catalog_error + string list" where
  "catalog_step ids c =
     res_bind (validate_protocol_case_descriptor c) (\<lambda>_.
     ensure (pc_id c \<notin> set ids) (DuplicateCaseId (pc_id c)) (Inr (pc_id c # ids)))"

definition validate_protocol_catalog_entries :: "ProtocolCase list \<Rightarrow> catalog_error + unit" where
  "validate_protocol_catalog_entries cases = res_bind (fold_res catalog_step [] cases) (\<lambda>_. Inr ())"

subsection \<open>The built-in cases\<close>

definition DEFAULT_SUCCESS_VARIANTS :: "ProtocolVariant list" where
  "DEFAULT_SUCCESS_VARIANTS = [\<lparr>pv_id = ''default'', pv_expected = Success\<rparr>]"

definition ACCESS_DENIED_VARIANTS :: "ProtocolVariant list" where
  "ACCESS_DENIED_VARIANTS = [\<lparr>pv_id = ''default'', pv_expected = S3Error 403 ''AccessDenied''\<rparr>]"

definition MALFORMED_POLICY_VARIANTS :: "ProtocolVariant list" where
  "MALFORMED_POLICY_VARIANTS = [\<lparr>pv_id = ''default'', pv_expected = S3Error 400 ''MalformedPolicy''\<rparr>]"

definition EXPIRED_TOKEN_VARIANTS :: "ProtocolVariant list" where
  "EXPIRED_TOKEN_VARIANTS = [\<lparr>pv_id = ''default'', pv_expected = S3Error 403 ''ExpiredToken''\<rparr>]"

definition NO_SUCH_KEY_VARIANTS :: "ProtocolVariant list" where
  "NO_SUCH_KEY_VARIANTS = [\<lparr>pv_id = ''default'', pv_expected = S3Error 404 ''NoSuchKey''\<rparr>]"

definition NO_SUCH_PUBLIC_ACCESS_BLOCK_VARIANTS :: "ProtocolVariant list" where
  "NO_SUCH_PUBLIC_ACCESS_BLOCK_VARIANTS = [\<lparr>pv_id = ''default'', pv_expected = S3Error 404 ''NoSuchPublicAccessBlockConfiguration''\<rparr>]"

definition BUCKET_EXCLUSIVE_LOCKS :: "ProtocolLockRequirement list" where
  "BUCKET_EXCLUSIVE_LOCKS =
     [\<lparr>lr_resource = ProtocolLockResource.Bucket, lr_mode = Exclusive\<rparr>]"

definition BUCKET_IDENTITY_EXCLUSIVE_LOCKS :: "ProtocolLockRequirement list" where
  "BUCKET_IDENTITY_EXCLUSIVE_LOCKS =
     [\<lparr>lr_resource = ProtocolLockResource.Bucket, lr_mode = Exclusive\<rparr>,
      \<lparr>lr_resource = ProtocolLockResource.Identity, lr_mode = Exclusive\<rparr>]"

definition SERIAL_BUCKET_IDENTITY_LOCKS :: "ProtocolLockRequirement list" where
  "SERIAL_BUCKET_IDENTITY_LOCKS =
     [\<lparr>lr_resource = ProtocolLockResource.Tenant, lr_mode = Exclusive\<rparr>,
      \<lparr>lr_resource = ProtocolLockResource.Bucket, lr_mode = Exclusive\<rparr>,
      \<lparr>lr_resource = ProtocolLockResource.Identity, lr_mode = Exclusive\<rparr>]"

definition SERIAL_OIDC_LOCKS :: "ProtocolLockRequirement list" where
  "SERIAL_OIDC_LOCKS =
     [\<lparr>lr_resource = ProtocolLockResource.Tenant, lr_mode = Exclusive\<rparr>,
      \<lparr>lr_resource = ProtocolLockResource.Bucket, lr_mode = Exclusive\<rparr>,
      \<lparr>lr_resource = ProtocolLockResource.Identity, lr_mode = Exclusive\<rparr>,
      \<lparr>lr_resource = ProtocolLockResource.ExternalIdp, lr_mode = Exclusive\<rparr>]"

definition BUCKET_OWNERSHIP :: "ProtocolResourceOwnership list" where
  "BUCKET_OWNERSHIP = [ExclusiveBucket]"

definition BUCKET_IDENTITY_OWNERSHIP :: "ProtocolResourceOwnership list" where
  "BUCKET_IDENTITY_OWNERSHIP = [ExclusiveBucket, IdentityPrefix]"

definition OIDC_OWNERSHIP :: "ProtocolResourceOwnership list" where
  "OIDC_OWNERSHIP = [ExclusiveBucket, IdentityPrefix, ProtocolResourceOwnership.ExternalIdentity]"

definition BUCKET_CLEANUP :: "ProtocolCleanupScope list" where
  "BUCKET_CLEANUP = [OwnedBucket, ObjectPrefix, MultipartUpload]"

definition BUCKET_IDENTITY_CLEANUP :: "ProtocolCleanupScope list" where
  "BUCKET_IDENTITY_CLEANUP = [OwnedBucket, ObjectPrefix, MultipartUpload, ProtocolCleanupScope.Identity, StsSession]"

definition BUCKET_POLICY_IDENTITY_CLEANUP :: "ProtocolCleanupScope list" where
  "BUCKET_POLICY_IDENTITY_CLEANUP = [OwnedBucket, ProtocolCleanupScope.BucketPolicy, ObjectPrefix, MultipartUpload, ProtocolCleanupScope.Identity, StsSession]"

definition BUCKET_CONFIGURATION_CLEANUP :: "ProtocolCleanupScope list" where
  "BUCKET_CONFIGURATION_CLEANUP = [OwnedBucket, BucketConfiguration, ObjectPrefix, MultipartUpload]"

definition OIDC_CLEANUP :: "ProtocolCleanupScope list" where
  "OIDC_CLEANUP = [OwnedBucket, ObjectPrefix, MultipartUpload, ProtocolCleanupScope.Identity, StsSession, ProtocolCleanupScope.ExternalIdentity]"

definition bucket_policy_case :: "string \<Rightarrow> string list \<Rightarrow> ProtocolCase" where
  "bucket_policy_case ident tags =
     \<lparr>pc_id = ident, pc_domain = Authorization, pc_group = ''bucket-policy'', pc_tags = tags,
      pc_isolation = Case, pc_capabilities = [ProtocolCapability.S3, ProtocolCapability.AdminApi, ProtocolCapability.BucketPolicy, ProtocolCapability.Identity],
      pc_serial = False, pc_executor = ProtocolExecutor.BucketPolicy, pc_lock_requirements = BUCKET_IDENTITY_EXCLUSIVE_LOCKS,
      pc_ownership = BUCKET_IDENTITY_OWNERSHIP, pc_cleanup_scopes = BUCKET_POLICY_IDENTITY_CLEANUP, pc_variants = DEFAULT_SUCCESS_VARIANTS\<rparr>"

definition sts_case :: "string \<Rightarrow> string \<Rightarrow> ProtocolCase" where
  "sts_case ident grp =
     \<lparr>pc_id = ident, pc_domain = ProtocolDomain.Sts, pc_group = grp, pc_tags = [''authz'', ''regression''],
      pc_isolation = Case, pc_capabilities = [ProtocolCapability.S3, ProtocolCapability.AdminApi, ProtocolCapability.Iam, ProtocolCapability.StsAssumeRole],
      pc_serial = True, pc_executor = ProtocolExecutor.Sts, pc_lock_requirements = SERIAL_BUCKET_IDENTITY_LOCKS,
      pc_ownership = BUCKET_IDENTITY_OWNERSHIP, pc_cleanup_scopes = BUCKET_IDENTITY_CLEANUP, pc_variants = DEFAULT_SUCCESS_VARIANTS\<rparr>"

definition sts_expiration_case :: "ProtocolCase" where
  "sts_expiration_case =
     \<lparr>pc_id = ''sts-expired-token-denied'', pc_domain = ProtocolDomain.Sts, pc_group = ''sts-session-policy'', pc_tags = [''authz'', ''regression'', ''slow''],
      pc_isolation = Case, pc_capabilities = [ProtocolCapability.S3, ProtocolCapability.AdminApi, ProtocolCapability.Iam, ProtocolCapability.StsAssumeRole],
      pc_serial = True, pc_executor = ProtocolExecutor.Sts, pc_lock_requirements = SERIAL_BUCKET_IDENTITY_LOCKS,
      pc_ownership = BUCKET_IDENTITY_OWNERSHIP, pc_cleanup_scopes = BUCKET_IDENTITY_CLEANUP, pc_variants = DEFAULT_SUCCESS_VARIANTS\<rparr>"

definition oidc_web_identity_case :: "ProtocolCase" where
  "oidc_web_identity_case =
     \<lparr>pc_id = ''oidc-web-identity-basic'', pc_domain = ProtocolDomain.Sts, pc_group = ''oidc-web-identity'', pc_tags = [''authz'', ''integration'', ''oidc'', ''regression''],
      pc_isolation = Case, pc_capabilities = [ProtocolCapability.S3, ProtocolCapability.AdminApi, ProtocolCapability.Iam, ProtocolCapability.StsWebIdentity, ProtocolCapability.Oidc, ProtocolCapability.ExternalIdp],
      pc_serial = True, pc_executor = OidcWebIdentity, pc_lock_requirements = SERIAL_OIDC_LOCKS,
      pc_ownership = OIDC_OWNERSHIP, pc_cleanup_scopes = OIDC_CLEANUP, pc_variants = DEFAULT_SUCCESS_VARIANTS\<rparr>"

definition compatibility_case :: "string \<Rightarrow> ProtocolDomain \<Rightarrow> ProtocolCase" where
  "compatibility_case ident domain =
     \<lparr>pc_id = ident, pc_domain = domain, pc_group = ''s3-compatibility'', pc_tags = [''compatibility'', ''parallel-safe''],
      pc_isolation = Case, pc_capabilities = [ProtocolCapability.S3],
      pc_serial = False, pc_executor = Compatibility, pc_lock_requirements = BUCKET_EXCLUSIVE_LOCKS,
      pc_ownership = BUCKET_OWNERSHIP, pc_cleanup_scopes = BUCKET_CLEANUP, pc_variants = DEFAULT_SUCCESS_VARIANTS\<rparr>"

definition compatibility_versioning_case :: "ProtocolCase" where
  "compatibility_versioning_case =
     \<lparr>pc_id = ''compat-versioning-head-removal'', pc_domain = ProtocolDomain.Versioning, pc_group = ''s3-compatibility'', pc_tags = [''compatibility'', ''parallel-safe'', ''versioning''],
      pc_isolation = Case, pc_capabilities = [ProtocolCapability.S3, ProtocolCapability.Versioning],
      pc_serial = False, pc_executor = Compatibility, pc_lock_requirements = BUCKET_EXCLUSIVE_LOCKS,
      pc_ownership = BUCKET_OWNERSHIP, pc_cleanup_scopes = BUCKET_CLEANUP, pc_variants = DEFAULT_SUCCESS_VARIANTS\<rparr>"

definition public_access_block_case :: "ProtocolCase" where
  "public_access_block_case =
     \<lparr>pc_id = ''public-access-block-round-trip'', pc_domain = BucketConfig, pc_group = ''public-access-block'', pc_tags = [''compatibility'', ''parallel-safe'', ''regression''],
      pc_isolation = Case, pc_capabilities = [ProtocolCapability.S3, ProtocolCapability.PublicAccessBlock],
      pc_serial = False, pc_executor = Compatibility, pc_lock_requirements = BUCKET_EXCLUSIVE_LOCKS,
      pc_ownership = BUCKET_OWNERSHIP, pc_cleanup_scopes = BUCKET_CONFIGURATION_CLEANUP, pc_variants = DEFAULT_SUCCESS_VARIANTS\<rparr>"

definition canned_policy_case :: "string \<Rightarrow> string \<Rightarrow> ProtocolDomain \<Rightarrow> string list \<Rightarrow> ProtocolCapability list \<Rightarrow> ProtocolCase" where
  "canned_policy_case ident grp domain tags capabilities =
     \<lparr>pc_id = ident, pc_domain = domain, pc_group = grp, pc_tags = tags,
      pc_isolation = Case, pc_capabilities = capabilities,
      pc_serial = True, pc_executor = CannedPolicy, pc_lock_requirements = SERIAL_BUCKET_IDENTITY_LOCKS,
      pc_ownership = BUCKET_IDENTITY_OWNERSHIP, pc_cleanup_scopes = BUCKET_IDENTITY_CLEANUP, pc_variants = DEFAULT_SUCCESS_VARIANTS\<rparr>"

definition iam_case :: "string \<Rightarrow> string \<Rightarrow> string list \<Rightarrow> ProtocolCase" where
  "iam_case ident grp tags =
     \<lparr>pc_id = ident, pc_domain = ProtocolDomain.Iam, pc_group = grp, pc_tags = tags,
      pc_isolation = Case, pc_capabilities = [ProtocolCapability.S3, ProtocolCapability.AdminApi, ProtocolCapability.Iam],
      pc_serial = True, pc_executor = ProtocolExecutor.Iam, pc_lock_requirements = SERIAL_BUCKET_IDENTITY_LOCKS,
      pc_ownership = BUCKET_IDENTITY_OWNERSHIP, pc_cleanup_scopes = BUCKET_IDENTITY_CLEANUP, pc_variants = DEFAULT_SUCCESS_VARIANTS\<rparr>"

definition iam_group_case :: "string \<Rightarrow> string \<Rightarrow> string list \<Rightarrow> ProtocolCase" where
  "iam_group_case ident grp tags =
     \<lparr>pc_id = ident, pc_domain = ProtocolDomain.Iam, pc_group = grp, pc_tags = tags,
      pc_isolation = Case, pc_capabilities = [ProtocolCapability.S3, ProtocolCapability.AdminApi, ProtocolCapability.Iam, ProtocolCapability.IamGroup],
      pc_serial = True, pc_executor = ProtocolExecutor.Iam, pc_lock_requirements = SERIAL_BUCKET_IDENTITY_LOCKS,
      pc_ownership = BUCKET_IDENTITY_OWNERSHIP, pc_cleanup_scopes = BUCKET_IDENTITY_CLEANUP, pc_variants = DEFAULT_SUCCESS_VARIANTS\<rparr>"

definition CANNED_POLICY_CAPABILITIES :: "ProtocolCapability list" where
  "CANNED_POLICY_CAPABILITIES = [ProtocolCapability.S3, ProtocolCapability.AdminApi, ProtocolCapability.Iam]"

definition CANNED_POLICY_VERSIONED_CAPABILITIES :: "ProtocolCapability list" where
  "CANNED_POLICY_VERSIONED_CAPABILITIES = [ProtocolCapability.S3, ProtocolCapability.AdminApi, ProtocolCapability.Iam, ProtocolCapability.Versioning]"

definition authorization_cases :: "ProtocolCase list" where
  "authorization_cases =
     [bucket_policy_case ''bucket-policy-authenticated-user-rw'' [''authz'', ''parallel-safe'', ''smoke''],
      (bucket_policy_case ''bucket-policy-delete-restores-private'' [''authz'', ''parallel-safe'', ''regression''])\<lparr>pc_variants := ACCESS_DENIED_VARIANTS\<rparr>,
      (bucket_policy_case ''bucket-policy-explicit-deny-overrides-allow'' [''authz'', ''parallel-safe'', ''regression''])\<lparr>pc_variants := ACCESS_DENIED_VARIANTS\<rparr>,
      (bucket_policy_case ''bucket-policy-malformed-policy-rejected'' [''authz'', ''negative'', ''parallel-safe'', ''regression''])\<lparr>pc_variants := MALFORMED_POLICY_VARIANTS\<rparr>,
      (bucket_policy_case ''bucket-policy-prefix-scope'' [''authz'', ''parallel-safe'', ''regression''])\<lparr>pc_variants := ACCESS_DENIED_VARIANTS\<rparr>]"

definition compatibility_cases :: "ProtocolCase list" where
  "compatibility_cases =
     [compatibility_case ''compat-bucket-head'' ProtocolDomain.Bucket,
      compatibility_case ''compat-bucket-list-create-delete'' ProtocolDomain.Bucket,
      compatibility_case ''compat-list-objects-basic'' ProtocolDomain.Listing,
      compatibility_case ''compat-multi-object-delete'' ProtocolDomain.CopyDelete,
      compatibility_case ''compat-multipart-upload-small'' ProtocolDomain.Multipart,
      compatibility_case ''compat-object-copy-same-bucket'' ProtocolDomain.CopyDelete,
      compatibility_case ''compat-object-put-get-delete'' ProtocolDomain.Object,
      (compatibility_versioning_case)\<lparr>pc_variants := NO_SUCH_KEY_VARIANTS\<rparr>]"

definition canned_policy_cases :: "ProtocolCase list" where
  "canned_policy_cases =
     [(canned_policy_case ''delete-force-header-contract'' ''delete-force-header'' Authorization [''authz'', ''regression''] CANNED_POLICY_CAPABILITIES)\<lparr>pc_variants := ACCESS_DENIED_VARIANTS\<rparr>,
      canned_policy_case ''iam-canned-policy-console-admin-delete'' ''iam-canned-policy'' ProtocolDomain.Iam [''authz'', ''smoke''] CANNED_POLICY_CAPABILITIES,
      (canned_policy_case ''iam-canned-policy-matrix'' ''iam-canned-policy'' ProtocolDomain.Iam [''authz'', ''regression''] CANNED_POLICY_VERSIONED_CAPABILITIES)\<lparr>pc_variants := ACCESS_DENIED_VARIANTS\<rparr>]"

definition iam_cases :: "ProtocolCase list" where
  "iam_cases =
     [(iam_case ''iam-explicit-deny-overrides-allow'' ''iam-user'' [''authz'', ''regression''])\<lparr>pc_variants := ACCESS_DENIED_VARIANTS\<rparr>,
      iam_group_case ''iam-group-policy'' ''iam-group'' [''authz'', ''regression''],
      (iam_case ''iam-user-managed-policy-readonly'' ''iam-user'' [''authz'', ''regression''])\<lparr>pc_variants := ACCESS_DENIED_VARIANTS\<rparr>,
      (iam_case ''iam-user-managed-policy-detach'' ''iam-policy'' [''authz'', ''regression''])\<lparr>pc_variants := ACCESS_DENIED_VARIANTS\<rparr>]"

definition oidc_cases :: "ProtocolCase list" where
  "oidc_cases =
     [(oidc_web_identity_case)\<lparr>pc_variants := ACCESS_DENIED_VARIANTS\<rparr>]"

definition bucket_config_cases :: "ProtocolCase list" where
  "bucket_config_cases =
     [(public_access_block_case)\<lparr>pc_variants := NO_SUCH_PUBLIC_ACCESS_BLOCK_VARIANTS\<rparr>]"

definition signed_sts_cases :: "ProtocolCase list" where
  "signed_sts_cases =
     [sts_case ''sts-assume-role-basic'' ''sts-assume-role'',
      (sts_expiration_case)\<lparr>pc_variants := EXPIRED_TOKEN_VARIANTS\<rparr>,
      (sts_case ''sts-session-policy-deny-put'' ''sts-session-policy'')\<lparr>pc_variants := ACCESS_DENIED_VARIANTS\<rparr>,
      (sts_case ''sts-session-policy-narrows-role'' ''sts-session-policy'')\<lparr>pc_variants := ACCESS_DENIED_VARIANTS\<rparr>]"

definition protocol_case_catalog :: "ProtocolCase list" where
  "protocol_case_catalog =
     authorization_cases @ compatibility_cases @ canned_policy_cases @ iam_cases @ oidc_cases @ bucket_config_cases
     @ signed_sts_cases"

definition protocol_case :: "string \<Rightarrow> ProtocolCase option" where
  "protocol_case ident = find (\<lambda>c. pc_id c = ident) protocol_case_catalog"

definition validate_protocol_catalog :: "catalog_error + unit" where
  "validate_protocol_catalog = validate_protocol_catalog_entries protocol_case_catalog"

subsection \<open>What the validator ensures\<close>

lemma ensure_unique_Inr [simp]: "ensure_unique err vs = Inr () \<longleftrightarrow> distinct vs"
proof -
  have "(\<exists>t. fold_res (unique_step err) seen vs = Inr t) \<longleftrightarrow> distinct vs \<and> set vs \<inter> set seen = {}" for seen
  proof (induction vs arbitrary: seen)
    case (Cons v vs)
    show ?case
    proof (cases "v \<in> set seen")
      case True
      then show ?thesis by (simp add: unique_step_def)
    next
      case False
      then show ?thesis using Cons [of "v # seen"] by (auto simp: unique_step_def)
    qed
  qed simp
  from this [of "[]"] show ?thesis by (auto simp: ensure_unique_def)
qed

lemma descriptor_parts:
  assumes "validate_protocol_case_descriptor c = Inr ()"
  shows "distinct (map lr_resource (pc_lock_requirements c))"
    and "pc_serial c \<Longrightarrow> exclusive_lock c ProtocolLockResource.Tenant"
    and "\<forall>ownership \<in> set (pc_ownership c). case owned_lock_resource ownership of
        None \<Rightarrow> external_lock c | Some resource \<Rightarrow> has_lock c resource"
    and "\<forall>cleanup \<in> set (pc_cleanup_scopes c). cleanup_allowed c cleanup"
    and "\<not> (SharedBucketPrefix \<in> set (pc_ownership c) \<and> OwnedBucket \<in> set (pc_cleanup_scopes c))"
proof -
  have own: "fold_res (ownership_step c) () xs = Inr () \<longleftrightarrow> (\<forall>ownership \<in> set xs. case owned_lock_resource ownership of
      None \<Rightarrow> external_lock c | Some resource \<Rightarrow> has_lock c resource)" for xs
    by (induction xs) (auto simp: ownership_step_def split: option.splits sum.splits)
  have cl: "fold_res (cleanup_step c) () xs = Inr () \<longleftrightarrow> (\<forall>cleanup \<in> set xs. cleanup_allowed c cleanup)" for xs
    by (induction xs) (auto simp: cleanup_step_def split: sum.splits)
  note all = assms [unfolded validate_protocol_case_descriptor_def validate_cleanup_contract_def, simplified]
  from all show "distinct (map lr_resource (pc_lock_requirements c))"
    and "pc_serial c \<Longrightarrow> exclusive_lock c ProtocolLockResource.Tenant"
    and "\<forall>ownership \<in> set (pc_ownership c). case owned_lock_resource ownership of
        None \<Rightarrow> external_lock c | Some resource \<Rightarrow> has_lock c resource"
    and "\<forall>cleanup \<in> set (pc_cleanup_scopes c). cleanup_allowed c cleanup"
    and "\<not> (SharedBucketPrefix \<in> set (pc_ownership c) \<and> OwnedBucket \<in> set (pc_cleanup_scopes c))"
    by (auto simp: own cl)
qed

subsection \<open>The catalog is valid\<close>

lemma catalog_valid: "validate_protocol_catalog = Inr ()"
  by code_simp

lemma catalog_step_Inr:
  "catalog_step ids c = Inr ids' \<longleftrightarrow>
     validate_protocol_case_descriptor c = Inr () \<and> pc_id c \<notin> set ids \<and> ids' = pc_id c # ids"
  by (auto simp: catalog_step_def)

lemma validate_entries_Inr:
  "validate_protocol_catalog_entries cases = Inr () \<longleftrightarrow>
     (\<forall>c \<in> set cases. validate_protocol_case_descriptor c = Inr ()) \<and> distinct (map pc_id cases)"
proof -
  have "(\<exists>t. fold_res catalog_step ids cases = Inr t) \<longleftrightarrow>
      (\<forall>c \<in> set cases. validate_protocol_case_descriptor c = Inr ()) \<and> distinct (map pc_id cases) \<and>
      pc_id ` set cases \<inter> set ids = {}" for ids
  proof (induction cases arbitrary: ids)
    case (Cons c cases)
    show ?case
    proof (cases "validate_protocol_case_descriptor c = Inr () \<and> pc_id c \<notin> set ids")
      case True
      then have "catalog_step ids c = Inr (pc_id c # ids)" by (simp add: catalog_step_Inr)
      then show ?thesis using Cons [of "pc_id c # ids"] True by auto
    next
      case False
      then have "\<nexists>t. catalog_step ids c = Inr t" by (simp add: catalog_step_Inr)
      then have "\<nexists>t. fold_res catalog_step ids (c # cases) = Inr t" by (auto split: sum.splits)
      with False show ?thesis by auto
    qed
  qed simp
  from this [of "[]"] show ?thesis by (auto simp: validate_protocol_catalog_entries_def)
qed

lemma find_by_unique_id:
  assumes "distinct (map f xs)" and "x \<in> set xs"
  shows "find (\<lambda>y. f y = f x) xs = Some x"
  using assms by (induction xs) auto



end
