(* ===== verification/Protocol_Scheduler.thy ===== *)
theory Protocol_Scheduler
  imports Protocol_Catalog
begin

text \<open>
  The scheduler of protocol cases (\<open>src/src/protocol/scheduler.rs\<close>): cases are placed first-fit into waves whose
  members run at the same time; a wave has at most \<open>parallelism\<close> cases and their locks are compatible.
\<close>

subsection \<open>Locks\<close>

datatype ProtocolLockScope = Tenant | BucketPrefix | IamPrefix | Kms | Sns | ExternalIdp

record ProtocolLock =
  lk_scope :: ProtocolLockScope
  lk_name :: string
  lk_mode :: ProtocolLockMode

record ProtocolScheduledCase =
  sc_case_id :: string
  sc_worker_index :: nat
  sc_locks :: "ProtocolLock list"

datatype schedule_error =
    ParallelismNotPositive
  | InvalidDescriptor catalog_error
  | NotParallelSafe string

definition lock_scope :: "ProtocolLockResource \<Rightarrow> ProtocolLockScope" where
  "lock_scope resource =
     (case resource of
        ProtocolLockResource.Tenant \<Rightarrow> Tenant
      | ProtocolLockResource.Bucket \<Rightarrow> BucketPrefix
      | ProtocolLockResource.Identity \<Rightarrow> IamPrefix
      | ProtocolLockResource.Kms \<Rightarrow> Kms
      | ProtocolLockResource.Sns \<Rightarrow> Sns
      | ProtocolLockResource.ExternalIdp \<Rightarrow> ExternalIdp)"

definition shares_bucket :: "ProtocolCase \<Rightarrow> bool" where
  "shares_bucket c = owns_any c [SharedBucketPrefix, SharedBucketKey, SharedObjectVersion, ExactMultipartUpload]"

definition lock_name :: "ProtocolCase \<Rightarrow> ProtocolLockResource \<Rightarrow> string" where
  "lock_name c resource =
     (case resource of
        ProtocolLockResource.Tenant \<Rightarrow> ''target''
      | ProtocolLockResource.Kms \<Rightarrow> ''target''
      | ProtocolLockResource.Sns \<Rightarrow> ''target''
      | ProtocolLockResource.ExternalIdp \<Rightarrow> ''configured-provider''
      | ProtocolLockResource.Bucket \<Rightarrow> (if shares_bucket c then ''shared-bucket'' else pc_id c)
      | ProtocolLockResource.Identity \<Rightarrow> pc_id c)"

definition locks_for_case :: "ProtocolCase \<Rightarrow> ProtocolLock list" where
  "locks_for_case c =
     map (\<lambda>requirement. \<lparr>lk_scope = lock_scope (lr_resource requirement), lk_name = lock_name c (lr_resource requirement),
            lk_mode = lr_mode requirement\<rparr>) (pc_lock_requirements c)"

definition locks_compatible :: "ProtocolLock list \<Rightarrow> ProtocolLock list \<Rightarrow> bool" where
  "locks_compatible left right =
     list_all (\<lambda>l. list_all (\<lambda>r. lk_scope l \<noteq> lk_scope r \<or> lk_name l \<noteq> lk_name r
        \<or> lk_mode l = Shared \<and> lk_mode r = Shared) right) left"

subsection \<open>First fit\<close>

text \<open>\<open>Iterator::position\<close>.\<close>

fun position :: "('a \<Rightarrow> bool) \<Rightarrow> 'a list \<Rightarrow> nat option" where
  "position P [] = None"
| "position P (x # xs) = (if P x then Some 0 else map_option Suc (position P xs))"

definition wave_fits :: "nat \<Rightarrow> ProtocolScheduledCase list \<Rightarrow> ProtocolCase \<Rightarrow> bool" where
  "wave_fits parallelism wave c \<longleftrightarrow>
     length wave < parallelism \<and> list_all (\<lambda>scheduled. locks_compatible (sc_locks scheduled) (locks_for_case c)) wave"

definition scheduled_case :: "ProtocolScheduledCase list \<Rightarrow> ProtocolCase \<Rightarrow> ProtocolScheduledCase" where
  "scheduled_case wave c = \<lparr>sc_case_id = pc_id c, sc_worker_index = length wave, sc_locks = locks_for_case c\<rparr>"

definition place_case ::
  "nat \<Rightarrow> ProtocolScheduledCase list list \<Rightarrow> ProtocolCase \<Rightarrow> ProtocolScheduledCase list list" where
  "place_case parallelism waves c =
     (let (waves, wave_index) = (case position (\<lambda>wave. wave_fits parallelism wave c) waves of
            Some i \<Rightarrow> (waves, i)
          | None \<Rightarrow> (waves @ [[]], length waves))
      in waves[wave_index := waves ! wave_index @ [scheduled_case (waves ! wave_index) c]])"

definition lift_descriptor :: "catalog_error + unit \<Rightarrow> schedule_error + unit" where
  "lift_descriptor r = (case r of Inl e \<Rightarrow> Inl (InvalidDescriptor e) | Inr v \<Rightarrow> Inr v)"

definition parallel_safe :: "ProtocolCase \<Rightarrow> bool" where
  "parallel_safe c \<longleftrightarrow> \<not> pc_serial c \<and> ''parallel-safe'' \<in> set (pc_tags c)"

definition plan_protocol_schedule ::
  "ProtocolCase list \<Rightarrow> nat \<Rightarrow> schedule_error + ProtocolScheduledCase list list" where
  "plan_protocol_schedule cases parallelism =
     ensure (0 < parallelism) ParallelismNotPositive
     (res_bind (fold_res (\<lambda>_ c. lift_descriptor (validate_protocol_case_descriptor c)) () cases) (\<lambda>_.
      res_bind (if 1 < parallelism
                then fold_res (\<lambda>_ c. ensure (parallel_safe c) (NotParallelSafe (pc_id c)) (Inr ())) () cases
                else Inr ()) (\<lambda>_.
        Inr (foldl (place_case parallelism) [] cases))))"

subsection \<open>First-fit placement\<close>

lemma position_Some:
  "position P xs = Some i \<longleftrightarrow> i < length xs \<and> P (xs ! i) \<and> (\<forall>j < i. \<not> P (xs ! j))"
proof (induction xs arbitrary: i)
  case (Cons x xs)
  then show ?case by (cases i) (auto simp: All_less_Suc2)
qed simp

lemma position_None: "position P xs = None \<longleftrightarrow> (\<forall>x \<in> set xs. \<not> P x)"
  by (induction xs) auto

text \<open>
  What first-fit placement promises: an item goes into the first wave that accepts it, a wave that
  refuses an item never accepts it later.
\<close>

locale first_fit =
  fixes place :: "'s list list \<Rightarrow> 'c \<Rightarrow> 's list list"
    and fits :: "'s list \<Rightarrow> 'c \<Rightarrow> bool"
    and entry :: "'s list \<Rightarrow> 'c \<Rightarrow> 's"
  assumes place_existing: "i < length ws \<Longrightarrow> fits (ws ! i) c \<Longrightarrow> \<forall>j < i. \<not> fits (ws ! j) c \<Longrightarrow>
      place ws c = ws[i := ws ! i @ [entry (ws ! i) c]]"
    and place_new: "\<forall>w \<in> set ws. \<not> fits w c \<Longrightarrow> place ws c = ws @ [[entry [] c]]"
    and stays_refused: "\<not> fits w c \<Longrightarrow> \<not> fits (w @ [s]) c"
    and empty_fits: "fits [] c"
begin

lemma placed_where:
  obtains i where "i < length ws" "fits (ws ! i) c" "\<forall>j < i. \<not> fits (ws ! j) c"
    "place ws c = ws[i := ws ! i @ [entry (ws ! i) c]]"
  | "\<forall>w \<in> set ws. \<not> fits w c" "place ws c = ws @ [[entry [] c]]"
proof (cases "\<exists>w \<in> set ws. fits w c")
  case True
  then obtain i where "i < length ws" "fits (ws ! i) c" "\<forall>j < i. \<not> fits (ws ! j) c"
    using exists_least_iff [of "\<lambda>i. i < length ws \<and> fits (ws ! i) c"] by (metis in_set_conv_nth less_trans)
  with place_existing that(1) show ?thesis by blast
next
  case False
  with place_new that(2) show ?thesis by blast
qed

text \<open>Nothing is lost and nothing is placed twice.\<close>

lemma mset_placed: "mset (map p (concat (place ws c))) = add_mset (p (entry w' c)) (mset (map p (concat ws)))"
  if "\<And>w w'. p (entry w c) = p (entry w' c)"
proof (cases rule: placed_where [of ws c])
  case (1 i)
  have "mset (concat (ws[i := ws ! i @ [e]])) = add_mset e (mset (concat ws))" if "i < length ws" for e
    using that
  proof (induction ws arbitrary: i)
    case (Cons w ws)
    then show ?case by (cases i) auto
  qed simp
  then have "mset (map p (concat (place ws c))) = add_mset (p (entry (ws ! i) c)) (mset (map p (concat ws)))"
    using 1 by simp
  then show ?thesis using that by metis
next
  case 2
  then show ?thesis using that [of "[]" w'] by simp
qed

text \<open>Every entry was accepted by what precedes it in its wave and refused by all earlier waves.\<close>

definition well_placed :: "'c set \<Rightarrow> 's list list \<Rightarrow> bool" where
  "well_placed C ws \<longleftrightarrow> (\<forall>w \<in> set ws. w \<noteq> []) \<and>
     (\<forall>i < length ws. \<forall>k < length (ws ! i). \<exists>c \<in> C. ws ! i ! k = entry (take k (ws ! i)) c
        \<and> fits (take k (ws ! i)) c \<and> (\<forall>j < i. \<not> fits (ws ! j) c))"

lemma well_placed_place:
  assumes "well_placed C ws" and "c \<in> C"
  shows "well_placed C (place ws c)"
proof (cases rule: placed_where [of ws c])
  case (1 i)
  let ?new = "ws[i := ws ! i @ [entry (ws ! i) c]]"
  have refused: "\<not> fits (?new ! j) d" if "\<not> fits (ws ! j) d" "j < length ws" for j d
    using that stays_refused by (cases "j = i") auto
  have "\<exists>d \<in> C. ?new ! a ! k = entry (take k (?new ! a)) d \<and> fits (take k (?new ! a)) d \<and> (\<forall>j < a. \<not> fits (?new ! j) d)"
    if a: "a < length ws" and k: "k < length (?new ! a)" for a k
  proof (cases "a = i \<and> k = length (ws ! i)")
    case True
    with 1 assms(2) refused show ?thesis by (intro bexI [of _ c]) auto
  next
    case False
    then have old: "k < length (ws ! a)" "?new ! a ! k = ws ! a ! k" "take k (?new ! a) = take k (ws ! a)"
      using k a 1(1) by (cases "a = i"; simp add: nth_append)+
    from assms(1) a old(1) obtain d where "d \<in> C" "ws ! a ! k = entry (take k (ws ! a)) d" "fits (take k (ws ! a)) d"
      "\<forall>j < a. \<not> fits (ws ! j) d" unfolding well_placed_def by blast
    then show ?thesis unfolding old(2,3) using refused a by (intro bexI [of _ d]) auto
  qed
  moreover have "\<forall>w \<in> set ?new. w \<noteq> []"
  proof
    fix w
    assume "w \<in> set ?new"
    then have "w = ws ! i @ [entry (ws ! i) c] \<or> w \<in> set ws" using set_update_subset_insert by fastforce
    then show "w \<noteq> []" using assms(1) unfolding well_placed_def by auto
  qed
  ultimately show ?thesis unfolding well_placed_def 1(4) by simp
next
  case 2
  have "\<exists>d \<in> C. (ws @ [[entry [] c]]) ! a ! k = entry (take k ((ws @ [[entry [] c]]) ! a)) d
      \<and> fits (take k ((ws @ [[entry [] c]]) ! a)) d \<and> (\<forall>j < a. \<not> fits ((ws @ [[entry [] c]]) ! j) d)"
    if a: "a < Suc (length ws)" and k: "k < length ((ws @ [[entry [] c]]) ! a)" for a k
  proof (cases "a = length ws")
    case True
    with k 2 assms(2) empty_fits show ?thesis by (intro bexI [of _ c]) (auto simp: nth_append)
  next
    case False
    with a k have old: "a < length ws" "k < length (ws ! a)" by (simp_all add: nth_append)
    with assms(1) obtain d where "d \<in> C" "ws ! a ! k = entry (take k (ws ! a)) d" "fits (take k (ws ! a)) d"
      "\<forall>j < a. \<not> fits (ws ! j) d" unfolding well_placed_def by blast
    with old show ?thesis by (intro bexI [of _ d]) (auto simp: nth_append)
  qed
  then show ?thesis using assms(1) unfolding well_placed_def 2(2) by simp
qed

lemma well_placed_fold: "set cs \<subseteq> C \<Longrightarrow> well_placed C ws \<Longrightarrow> well_placed C (foldl place ws cs)"
  by (induction cs arbitrary: ws) (auto simp: well_placed_place)

lemma placed_all:
  assumes "\<And>w c. p (entry w c) = q c"
  shows "mset (map p (concat (foldl place ws cs))) = mset (map p (concat ws)) + mset (map q cs)"
proof (induction cs arbitrary: ws)
  case (Cons c cs)
  show ?case using Cons [of "place ws c"] mset_placed [of p c ws "[]"] assms by simp
qed simp

end

interpretation waves: first_fit "place_case (Suc n)" "wave_fits (Suc n)" scheduled_case for n
proof
  fix i :: nat and ws c
  assume "i < length ws" "wave_fits (Suc n) (ws ! i) c" "\<forall>j < i. \<not> wave_fits (Suc n) (ws ! j) c"
  then have "position (\<lambda>wave. wave_fits (Suc n) wave c) ws = Some i" by (simp add: position_Some)
  then show "place_case (Suc n) ws c = ws[i := ws ! i @ [scheduled_case (ws ! i) c]]" by (simp add: place_case_def)
next
  fix ws c
  assume "\<forall>w \<in> set ws. \<not> wave_fits (Suc n) w c"
  then have "position (\<lambda>wave. wave_fits (Suc n) wave c) ws = None" by (simp add: position_None)
  then show "place_case (Suc n) ws c = ws @ [[scheduled_case [] c]]" by (simp add: place_case_def)
qed (auto simp: wave_fits_def)

subsection \<open>What a schedule guarantees\<close>

lemma lift_descriptor_Inr [simp]: "lift_descriptor r = Inr () \<longleftrightarrow> r = Inr ()"
  by (auto simp: lift_descriptor_def split: sum.splits)

lemma plan_Inr:
  "plan_protocol_schedule cases parallelism = Inr waves \<longleftrightarrow>
     0 < parallelism \<and> (\<forall>c \<in> set cases. validate_protocol_case_descriptor c = Inr ()) \<and>
     (1 < parallelism \<longrightarrow> (\<forall>c \<in> set cases. parallel_safe c)) \<and> waves = foldl (place_case parallelism) [] cases"
  by (auto simp: plan_protocol_schedule_def fold_res_unit_Inr)

lemma locks_compatible_sym: "locks_compatible a b \<longleftrightarrow> locks_compatible b a"
  unfolding locks_compatible_def list_all_iff by metis

lemma planned_waves:
  assumes "plan_protocol_schedule cases parallelism = Inr waves" and "i < length waves" and "k < length (waves ! i)"
  obtains c where "c \<in> set cases" "waves ! i ! k = scheduled_case (take k (waves ! i)) c"
    "wave_fits parallelism (take k (waves ! i)) c" "\<forall>j < i. \<not> wave_fits parallelism (waves ! j) c"
proof -
  from assms(1) obtain n where n: "parallelism = Suc n" unfolding plan_Inr by (metis gr0_implies_Suc)
  have "waves.well_placed n (set cases) waves"
    using assms(1) n waves.well_placed_fold [of cases "set cases" n "[]"]
    unfolding plan_Inr by (simp add: waves.well_placed_def)
  with assms(2,3) that n show thesis unfolding waves.well_placed_def by blast
qed

lemma planned_wave_not_empty:
  assumes "plan_protocol_schedule cases parallelism = Inr waves" and "wave \<in> set waves"
  shows "wave \<noteq> []"
proof -
  from assms(1) obtain n where n: "parallelism = Suc n" unfolding plan_Inr by (metis gr0_implies_Suc)
  have "waves.well_placed n (set cases) waves"
    using assms(1) n waves.well_placed_fold [of cases "set cases" n "[]"]
    unfolding plan_Inr by (simp add: waves.well_placed_def)
  with assms(2) show ?thesis unfolding waves.well_placed_def by blast
qed

lemma planned_entry:
  assumes "plan_protocol_schedule cases parallelism = Inr waves" and "wave \<in> set waves" and "k < length wave"
  shows "sc_worker_index (wave ! k) = k" and "k < parallelism"
    and "\<exists>c \<in> set cases. sc_case_id (wave ! k) = pc_id c \<and> sc_locks (wave ! k) = locks_for_case c"
    and "\<forall>m < k. locks_compatible (sc_locks (wave ! m)) (sc_locks (wave ! k))"
proof -
  from assms(2) obtain i where i: "i < length waves" "wave = waves ! i" by (metis in_set_conv_nth)
  from planned_waves [OF assms(1) i(1)] assms(3) i obtain c where c: "c \<in> set cases"
    "wave ! k = scheduled_case (take k wave) c" "wave_fits parallelism (take k wave) c" by metis
  have len: "length (take k wave) = k" using assms(3) by simp
  show "sc_worker_index (wave ! k) = k" unfolding c(2) scheduled_case_def using len by simp
  show "k < parallelism" using c(3) len by (simp add: wave_fits_def)
  show "\<exists>c \<in> set cases. sc_case_id (wave ! k) = pc_id c \<and> sc_locks (wave ! k) = locks_for_case c"
    using c(1) unfolding c(2) scheduled_case_def by auto
  show "\<forall>m < k. locks_compatible (sc_locks (wave ! m)) (sc_locks (wave ! k))"
  proof (intro allI impI)
    fix m assume "m < k"
    then have "wave ! m \<in> set (take k wave)" using assms(3) by (auto simp: in_set_conv_nth intro!: exI [of _ m])
    then show "locks_compatible (sc_locks (wave ! m)) (sc_locks (wave ! k))"
      using c(3) unfolding c(2) scheduled_case_def by (simp add: wave_fits_def list_all_iff)
  qed
qed

lemma planned_compatible:
  assumes "plan_protocol_schedule cases parallelism = Inr waves" and "wave \<in> set waves"
    and "i < length wave" "j < length wave" "i \<noteq> j"
  shows "locks_compatible (sc_locks (wave ! i)) (sc_locks (wave ! j))"
  using planned_entry(4) [OF assms(1,2,3)] planned_entry(4) [OF assms(1,2,4)] assms(5) locks_compatible_sym
  by (metis linorder_neqE_nat)

text \<open>
  C14: A schedule runs every selected case exactly once and no two conflicting cases together: the case ids of all waves are the ids of
  the selected cases, no wave is empty or larger than the parallelism, the worker indices of a wave are 0, 1, and so on, and the
  locks of any two cases of a wave are compatible.
\<close>

theorem schedule_covers_cases:
  assumes "plan_protocol_schedule cases parallelism = Inr waves"
  shows "mset (map sc_case_id (concat waves)) = mset (map pc_id cases) \<and>
    (\<forall>wave \<in> set waves. wave \<noteq> [] \<and> length wave \<le> parallelism \<and> map sc_worker_index wave = [0..<length wave] \<and>
      (\<forall>i < length wave. \<forall>j < length wave. i \<noteq> j \<longrightarrow> locks_compatible (sc_locks (wave ! i)) (sc_locks (wave ! j))))"
proof (intro conjI ballI)
  from assms obtain n where n: "parallelism = Suc n" unfolding plan_Inr by (metis gr0_implies_Suc)
  show "mset (map sc_case_id (concat waves)) = mset (map pc_id cases)"
    using assms waves.placed_all [of sc_case_id pc_id n "[]" cases] unfolding plan_Inr n
    by (simp add: scheduled_case_def)
  fix wave
  assume w: "wave \<in> set waves"
  show ne: "wave \<noteq> []" by (rule planned_wave_not_empty [OF assms w])
  then show "length wave \<le> parallelism" using planned_entry(2) [OF assms w, of "length wave - 1"] by simp
  show "map sc_worker_index wave = [0..<length wave]"
    by (rule nth_equalityI) (simp_all add: planned_entry(1) [OF assms w])
  show "\<forall>i < length wave. \<forall>j < length wave. i \<noteq> j \<longrightarrow> locks_compatible (sc_locks (wave ! i)) (sc_locks (wave ! j))"
    using planned_compatible [OF assms w] by blast
qed

text \<open>
  No case waits without reason: every case placed in a later wave found each earlier wave
  full or holding a case whose locks conflict with its own.
\<close>

theorem schedule_is_first_fit:
  assumes "plan_protocol_schedule cases parallelism = Inr waves"
    and "j < i" and "i < length waves" and "s \<in> set (waves ! i)"
  shows "length (waves ! j) = parallelism \<or> (\<exists>t \<in> set (waves ! j). \<not> locks_compatible (sc_locks t) (sc_locks s))"
proof -
  from assms(4) obtain k where k: "k < length (waves ! i)" "s = waves ! i ! k" by (metis in_set_conv_nth)
  from planned_waves [OF assms(1,3) k(1)] obtain c where "waves ! i ! k = scheduled_case (take k (waves ! i)) c"
    and refused: "\<forall>j < i. \<not> wave_fits parallelism (waves ! j) c" by metis
  then have locks: "sc_locks s = locks_for_case c" using k(2) by (simp add: scheduled_case_def)
  have "waves ! j \<in> set waves" using assms(2,3) by simp
  from planned_wave_not_empty [OF assms(1) this] planned_entry(2) [OF assms(1) this, of "length (waves ! j) - 1"]
  have "length (waves ! j) \<le> parallelism" by simp
  with refused assms(2) locks show ?thesis by (auto simp: wave_fits_def list_all_iff)
qed

subsection \<open>Serial cases and bucket owners\<close>

text \<open>
  C15: Exclusion at run time. A serial case is alone in its wave. A case that may delete its bucket holds the exclusive lock of
  that bucket, and no other case of its wave holds any lock of the same bucket name.
\<close>

theorem schedule_excludes_conflicts:
  assumes "plan_protocol_schedule cases parallelism = Inr waves" and "wave \<in> set waves" and "i < length wave"
  shows "\<exists>c \<in> set cases. sc_case_id (wave ! i) = pc_id c \<and> sc_locks (wave ! i) = locks_for_case c \<and>
    (pc_serial c \<longrightarrow> length wave = 1) \<and>
    (OwnedBucket \<in> set (pc_cleanup_scopes c) \<longrightarrow>
      (\<exists>l \<in> set (sc_locks (wave ! i)). lk_scope l = BucketPrefix \<and> lk_mode l = Exclusive \<and>
        (\<forall>j < length wave. j \<noteq> i \<longrightarrow> (\<forall>r \<in> set (sc_locks (wave ! j)). lk_scope r = BucketPrefix \<longrightarrow> lk_name r \<noteq> lk_name l))))"
proof -
  from planned_entry(3) [OF assms] obtain c where c: "c \<in> set cases" "sc_case_id (wave ! i) = pc_id c"
    "sc_locks (wave ! i) = locks_for_case c" by blast
  from assms(1) c(1) have valid: "validate_protocol_case_descriptor c = Inr ()" unfolding plan_Inr by blast
  have "length wave = 1" if "pc_serial c"
  proof -
    from assms(1) c(1) that have "\<not> 1 < parallelism" unfolding plan_Inr by (auto simp: parallel_safe_def)
    moreover have "length wave - 1 < parallelism" using planned_entry(2) [OF assms(1,2), of "length wave - 1"] assms(3) by simp
    ultimately show ?thesis using assms(3) by simp
  qed
  moreover have "\<exists>l \<in> set (sc_locks (wave ! i)). lk_scope l = BucketPrefix \<and> lk_mode l = Exclusive \<and>
      (\<forall>j < length wave. j \<noteq> i \<longrightarrow> (\<forall>r \<in> set (sc_locks (wave ! j)). lk_scope r = BucketPrefix \<longrightarrow> lk_name r \<noteq> lk_name l))"
    if "OwnedBucket \<in> set (pc_cleanup_scopes c)"
  proof -
    let ?l = "\<lparr>lk_scope = BucketPrefix, lk_name = lock_name c ProtocolLockResource.Bucket, lk_mode = Exclusive\<rparr>"
    from that descriptor_parts(4) [OF valid] have "exclusive_lock c ProtocolLockResource.Bucket"
      by (force simp: cleanup_allowed_def)
    then have l: "?l \<in> set (locks_for_case c)"
      by (force simp: exclusive_lock_def locks_for_case_def lock_scope_def)
    have "lk_name r \<noteq> lk_name ?l" if "j < length wave" "j \<noteq> i" "r \<in> set (sc_locks (wave ! j))" "lk_scope r = BucketPrefix" for j r
      using planned_compatible [OF assms(1,2) that(1) assms(3) that(2)] that(3,4) l unfolding c(3)
      by (force simp: locks_compatible_def list_all_iff)
    with l c(3) show ?thesis by (intro bexI [of _ ?l]) auto
  qed
  ultimately show ?thesis using c by blast
qed

subsection \<open>Three cases for two workers\<close>

definition demo_cases :: "ProtocolCase list" where
  "demo_cases = [compatibility_case ''compat-bucket-head'' ProtocolDomain.Bucket,
     compatibility_case ''compat-object-put-get-delete'' Object, compatibility_case ''compat-list-objects-basic'' Listing]"

definition demo_waves :: "ProtocolScheduledCase list list" where
  "demo_waves = (let lock = (\<lambda>name. [\<lparr>lk_scope = BucketPrefix, lk_name = name, lk_mode = Exclusive\<rparr>]) in
     [[\<lparr>sc_case_id = ''compat-bucket-head'', sc_worker_index = 0, sc_locks = lock ''compat-bucket-head''\<rparr>,
       \<lparr>sc_case_id = ''compat-object-put-get-delete'', sc_worker_index = 1, sc_locks = lock ''compat-object-put-get-delete''\<rparr>],
      [\<lparr>sc_case_id = ''compat-list-objects-basic'', sc_worker_index = 0, sc_locks = lock ''compat-list-objects-basic''\<rparr>]])"

lemma demo_schedule: "plan_protocol_schedule demo_cases 2 = Inr demo_waves"
  by code_simp

lemma demo_waves_nth: "length demo_waves = 2" "demo_waves ! 0 \<in> set demo_waves" "length (demo_waves ! 0) = 2"
  "\<exists>s. s \<in> set (demo_waves ! 1)"
  by (auto simp: demo_waves_def)

theorem schedule_covers_cases_witness:
  "plan_protocol_schedule demo_cases 2 = Inr demo_waves \<and>
   mset (map sc_case_id (concat demo_waves)) = mset (map pc_id demo_cases)"
  using demo_schedule schedule_covers_cases [OF demo_schedule] by simp

theorem schedule_is_first_fit_witness:
  "\<exists>s \<in> set (demo_waves ! 1). length (demo_waves ! 0) = 2 \<or> (\<exists>t \<in> set (demo_waves ! 0). \<not> locks_compatible (sc_locks t) (sc_locks s))"
proof -
  from demo_waves_nth(4) obtain s where s: "s \<in> set (demo_waves ! 1)" by blast
  have "0 < (1 :: nat)" "1 < length demo_waves" by (simp_all add: demo_waves_nth)
  from schedule_is_first_fit [OF demo_schedule this s] s show ?thesis by blast
qed

theorem schedule_excludes_conflicts_witness:
  "\<exists>c \<in> set demo_cases. sc_case_id (demo_waves ! 0 ! 0) = pc_id c \<and>
    (OwnedBucket \<in> set (pc_cleanup_scopes c) \<longrightarrow> (\<exists>l \<in> set (sc_locks (demo_waves ! 0 ! 0)). lk_mode l = Exclusive))"
proof -
  have "0 < length (demo_waves ! 0)" by (simp add: demo_waves_nth)
  from schedule_excludes_conflicts [OF demo_schedule demo_waves_nth(2) this] show ?thesis by blast
qed

end
