(* ===== verification/Resource_Registry.thy ===== *)
theory Resource_Registry
  imports Protocol_Catalog
begin

text \<open>
  The registry of resources a protocol case creates (\<open>src/src/protocol/fixture/registry.rs\<close>). Every resource is recorded in
  a file before it is created, so that cleanup can be replayed after a crash; cleanup takes dependents before what they
  depend on. New identifiers (\<open>Uuid::new_v4\<close>) and the outcome of writing the file are arguments.
\<close>

subsection \<open>Resources\<close>

datatype ResourceState = Planned | Creating | Created | CleanupAttempted | Cleaned | Failed

datatype ResourceKind =
    Bucket | BucketPolicy | PublicAccessBlock | ExternalIdentitySubject | IamGroup | IamGroupMembership | IamPolicy
  | IamPolicyAttachment | IamUser | MultipartUpload | ObjectPrefix | StsSession

definition kind_as_str :: "ResourceKind \<Rightarrow> string" where
  "kind_as_str kind =
     (case kind of
        ResourceKind.Bucket \<Rightarrow> ''bucket'' | ResourceKind.BucketPolicy \<Rightarrow> ''bucket-policy''
      | ResourceKind.PublicAccessBlock \<Rightarrow> ''public-access-block'' | ExternalIdentitySubject \<Rightarrow> ''external-identity-subject''
      | ResourceKind.IamGroup \<Rightarrow> ''iam-group'' | IamGroupMembership \<Rightarrow> ''iam-group-membership''
      | IamPolicy \<Rightarrow> ''iam-policy'' | IamPolicyAttachment \<Rightarrow> ''iam-policy-attachment'' | IamUser \<Rightarrow> ''iam-user''
      | ResourceKind.MultipartUpload \<Rightarrow> ''multipart-upload'' | ResourceKind.ObjectPrefix \<Rightarrow> ''object-prefix''
      | ResourceKind.StsSession \<Rightarrow> ''sts-session'')"

definition cleanup_rank :: "ResourceKind \<Rightarrow> nat" where
  "cleanup_rank kind =
     (case kind of
        ResourceKind.BucketPolicy \<Rightarrow> 0 | ResourceKind.PublicAccessBlock \<Rightarrow> 0 | IamPolicyAttachment \<Rightarrow> 0
      | ResourceKind.MultipartUpload \<Rightarrow> 0
      | ResourceKind.ObjectPrefix \<Rightarrow> 1 | IamGroupMembership \<Rightarrow> 1
      | IamPolicy \<Rightarrow> 2
      | ResourceKind.IamGroup \<Rightarrow> 3 | ExternalIdentitySubject \<Rightarrow> 3
      | ResourceKind.StsSession \<Rightarrow> 4
      | IamUser \<Rightarrow> 5
      | ResourceKind.Bucket \<Rightarrow> 6)"

record ProtocolExternalIdentityCoordinates =
  ei_provider :: string
  ei_profile :: string
  ei_issuer :: string
  ei_subject_namespace :: string

record ResourceHandle =
  rh_id :: string
  rh_kind :: ResourceKind
  rh_name :: string
  rh_owning_case_id :: string
  rh_owner_phase :: string
  rh_variant_id :: "string option"
  rh_ownership :: "ProtocolResourceOwnership option"
  rh_cleanup_scope :: "ProtocolCleanupScope option"
  rh_state :: ResourceState
  rh_depends_on :: "string list"
  rh_bucket :: "string option"
  rh_key_prefix :: "string option"
  rh_policy :: "string option"
  rh_principal :: "string option"
  rh_group :: "string option"
  rh_member :: "string option"
  rh_is_group :: "bool option"
  rh_identity_provider :: "string option"
  rh_external_identity :: "ProtocolExternalIdentityCoordinates option"
  rh_upload_id :: "string option"
  rh_last_error :: "string option"

record ProtocolRegistryContract =
  rc_case_id :: string
  rc_variant_id :: string
  rc_ownership :: "ProtocolResourceOwnership list"
  rc_cleanup_scopes :: "ProtocolCleanupScope list"
  rc_lock_requirements :: "ProtocolLockRequirement list"

record TargetFingerprint =
  tf_endpoint :: string
  tf_region :: string
  tf_deployment_id :: string
  tf_server_mode :: "string option"
  tf_reported_region :: "string option"
  tf_sha256 :: string

record ResourceRegistry =
  rg_api_version :: string
  rg_kind :: string
  rg_run_id :: string
  rg_target_fingerprint :: TargetFingerprint
  rg_versioned_cleanup :: bool
  rg_contract :: "ProtocolRegistryContract option"
  rg_resources :: "ResourceHandle list"

record ResourcePlan =
  rp_kind :: ResourceKind
  rp_name :: string
  rp_owning_case_id :: string
  rp_owner_phase :: string
  rp_depends_on :: "string list"
  rp_bucket :: "string option"
  rp_key_prefix :: "string option"
  rp_policy :: "string option"
  rp_principal :: "string option"
  rp_group :: "string option"
  rp_member :: "string option"
  rp_is_group :: "bool option"
  rp_identity_provider :: "string option"
  rp_external_identity :: "ProtocolExternalIdentityCoordinates option"
  rp_upload_id :: "string option"

datatype registry_error =
    AlreadyPlanned
  | UnknownCase string
  | CaseDescriptor catalog_error
  | UnknownVariant string string
  | BoundToOther string string
  | UnknownDependency string
  | OwnerMismatch
  | OwnershipExceeded
  | CleanupExceeded
  | AlreadyRegistered string
  | EmptyUploadId
  | UnknownResource string
  | NotMultipartUpload string
  | UploadIdImmutable
  | InvalidTransition ResourceState ResourceState
  | CleanupCycle
  | PersistFailed

subsection \<open>The file\<close>

text \<open>
  \<open>persist\<close> writes a temporary file, renames it over the registry file and syncs the directory. It fails before the
  rename, with the old file kept, or after it, with the new content in place.
\<close>

datatype persist_outcome = Persisted | NotReplaced | ReplacedNotSynced

record registry_store =
  st_memory :: ResourceRegistry
  st_file :: "ResourceRegistry option"

definition persist :: "persist_outcome \<Rightarrow> registry_store \<Rightarrow> bool \<times> registry_store" where
  "persist out st =
     (case out of
        Persisted \<Rightarrow> (True, st\<lparr>st_file := Some (st_memory st)\<rparr>)
      | NotReplaced \<Rightarrow> (False, st)
      | ReplacedNotSynced \<Rightarrow> (False, st\<lparr>st_file := Some (st_memory st)\<rparr>))"

definition set_memory :: "ResourceRegistry \<Rightarrow> registry_store \<Rightarrow> registry_store" where
  "set_memory r st = st\<lparr>st_memory := r\<rparr>"

text \<open>The mutators change the memory, write it, and take the change back when writing fails.\<close>

definition persist_or_restore ::
  "persist_outcome \<Rightarrow> registry_store \<Rightarrow> ResourceRegistry \<Rightarrow> 'a \<Rightarrow> (registry_error + 'a) \<times> registry_store" where
  "persist_or_restore out st changed v =
     (let (ok, st') = persist out (set_memory changed st)
      in if ok then (Inr v, st') else (Inl PersistFailed, set_memory (st_memory st) st'))"

definition registry_create ::
  "persist_outcome \<Rightarrow> ResourceRegistry option \<Rightarrow> string \<Rightarrow> TargetFingerprint \<Rightarrow> (registry_error + ResourceRegistry) \<times> ResourceRegistry option" where
  "registry_create out file run_id target_fingerprint =
     (let registry = \<lparr>rg_api_version = ''rustfs.com/s3chaos/v1alpha1'', rg_kind = ''ProtocolResourceRegistry'', rg_run_id = run_id,
            rg_target_fingerprint = target_fingerprint, rg_versioned_cleanup = False, rg_contract = None, rg_resources = []\<rparr>;
          (ok, st) = persist out \<lparr>st_memory = registry, st_file = file\<rparr>
      in (if ok then Inr registry else Inl PersistFailed, st_file st))"

subsection \<open>Binding to a case\<close>

definition case_contract :: "ProtocolCase \<Rightarrow> string \<Rightarrow> string \<Rightarrow> ProtocolRegistryContract" where
  "case_contract c case_id variant_id =
     \<lparr>rc_case_id = case_id, rc_variant_id = variant_id, rc_ownership = pc_ownership c,
      rc_cleanup_scopes = pc_cleanup_scopes c, rc_lock_requirements = pc_lock_requirements c\<rparr>"

definition bind_case :: "persist_outcome \<Rightarrow> registry_store \<Rightarrow> string \<Rightarrow> string \<Rightarrow> (registry_error + unit) \<times> registry_store" where
  "bind_case out st case_id variant_id =
     (let r = st_memory st in
      if rg_resources r \<noteq> [] then (Inl AlreadyPlanned, st)
      else case protocol_case case_id of
        None \<Rightarrow> (Inl (UnknownCase case_id), st)
      | Some c \<Rightarrow>
          (case validate_protocol_case_descriptor c of
             Inl e \<Rightarrow> (Inl (CaseDescriptor e), st)
           | Inr _ \<Rightarrow>
               if case_variant c variant_id = None then (Inl (UnknownVariant variant_id case_id), st)
               else (case rg_contract r of
                  Some existing \<Rightarrow>
                    if rc_case_id existing = case_id \<and> rc_variant_id existing = variant_id then (Inr (), st)
                    else (Inl (BoundToOther (rc_case_id existing) (rc_variant_id existing)), st)
                | None \<Rightarrow> persist_or_restore out st (r\<lparr>rg_contract := Some (case_contract c case_id variant_id)\<rparr>) ())))"

definition set_versioned_cleanup :: "persist_outcome \<Rightarrow> registry_store \<Rightarrow> bool \<Rightarrow> (registry_error + unit) \<times> registry_store" where
  "set_versioned_cleanup out st enabled =
     (let (ok, st') = persist out (set_memory ((st_memory st)\<lparr>rg_versioned_cleanup := enabled\<rparr>) st)
      in (if ok then Inr () else Inl PersistFailed, st'))"

subsection \<open>Planning\<close>

definition resource_contract ::
  "ProtocolRegistryContract \<Rightarrow> ResourceKind \<Rightarrow> ProtocolResourceOwnership \<times> ProtocolCleanupScope" where
  "resource_contract k kind =
     (case kind of
        ResourceKind.Bucket \<Rightarrow> (ExclusiveBucket, OwnedBucket)
      | ResourceKind.BucketPolicy \<Rightarrow> (ExclusiveBucket, ProtocolCleanupScope.BucketPolicy)
      | ResourceKind.PublicAccessBlock \<Rightarrow> (ExclusiveBucket, BucketConfiguration)
      | ResourceKind.ObjectPrefix \<Rightarrow>
          (if ExclusiveBucket \<in> set (rc_ownership k) then ExclusiveBucket else SharedBucketPrefix,
           ProtocolCleanupScope.ObjectPrefix)
      | ResourceKind.MultipartUpload \<Rightarrow>
          (if ExactMultipartUpload \<in> set (rc_ownership k) then ExactMultipartUpload
           else if ExclusiveBucket \<in> set (rc_ownership k) then ExclusiveBucket
           else if SharedBucketKey \<in> set (rc_ownership k) then SharedBucketKey
           else SharedBucketPrefix, ProtocolCleanupScope.MultipartUpload)
      | ExternalIdentitySubject \<Rightarrow>
          (ProtocolResourceOwnership.ExternalIdentity, ProtocolCleanupScope.ExternalIdentity)
      | ResourceKind.StsSession \<Rightarrow> (IdentityPrefix, ProtocolCleanupScope.StsSession)
      | _ \<Rightarrow> (IdentityPrefix, ProtocolCleanupScope.Identity))"

definition validate_dynamic_resource ::
  "ProtocolRegistryContract option \<Rightarrow> ResourcePlan
     \<Rightarrow> registry_error + string option \<times> ProtocolResourceOwnership option \<times> ProtocolCleanupScope option" where
  "validate_dynamic_resource contract plan =
     (case contract of
        None \<Rightarrow> Inr (None, None, None)
      | Some k \<Rightarrow>
          ensure (rp_owning_case_id plan = rc_case_id k) OwnerMismatch
          (let (ownership, cleanup_scope) = resource_contract k (rp_kind plan)
           in ensure (ownership \<in> set (rc_ownership k)) OwnershipExceeded
              (ensure (cleanup_scope \<in> set (rc_cleanup_scopes k)) CleanupExceeded
                (Inr (Some (rc_variant_id k), Some ownership, Some cleanup_scope)))))"

definition planned_handle ::
  "string \<Rightarrow> ResourcePlan \<Rightarrow> string option \<times> ProtocolResourceOwnership option \<times> ProtocolCleanupScope option \<Rightarrow> ResourceHandle" where
  "planned_handle uuid plan bound =
     \<lparr>rh_id = ''resource-'' @ uuid, rh_kind = rp_kind plan, rh_name = rp_name plan,
      rh_owning_case_id = rp_owning_case_id plan, rh_owner_phase = rp_owner_phase plan,
      rh_variant_id = fst bound, rh_ownership = fst (snd bound), rh_cleanup_scope = snd (snd bound),
      rh_state = Planned, rh_depends_on = rp_depends_on plan, rh_bucket = rp_bucket plan, rh_key_prefix = rp_key_prefix plan,
      rh_policy = rp_policy plan, rh_principal = rp_principal plan, rh_group = rp_group plan, rh_member = rp_member plan,
      rh_is_group = rp_is_group plan, rh_identity_provider = rp_identity_provider plan,
      rh_external_identity = rp_external_identity plan, rh_upload_id = rp_upload_id plan, rh_last_error = None\<rparr>"

definition plan_internal ::
  "persist_outcome \<Rightarrow> string \<Rightarrow> registry_store \<Rightarrow> ResourcePlan \<Rightarrow> (registry_error + ResourceHandle) \<times> registry_store" where
  "plan_internal out uuid st plan =
     (let r = st_memory st in
      case find (\<lambda>dependency. dependency \<notin> rh_id ` set (rg_resources r)) (rp_depends_on plan) of
        Some dependency \<Rightarrow> (Inl (UnknownDependency dependency), st)
      | None \<Rightarrow>
          (case validate_dynamic_resource (rg_contract r) plan of
             Inl e \<Rightarrow> (Inl e, st)
           | Inr bound \<Rightarrow>
               (let handle = planned_handle uuid plan bound in
                if list_ex (\<lambda>h. rh_kind h = rh_kind handle \<and> rh_name h = rh_name handle \<and> rh_state h \<noteq> Cleaned) (rg_resources r)
                then (Inl (AlreadyRegistered (rh_name handle)), st)
                else persist_or_restore out st (r\<lparr>rg_resources := rg_resources r @ [handle]\<rparr>) handle)))"

definition base_plan :: "ResourceKind \<Rightarrow> string \<Rightarrow> string \<Rightarrow> string \<Rightarrow> string list \<Rightarrow> ResourcePlan" where
  "base_plan kind name owning_case_id owner_phase depends_on =
     \<lparr>rp_kind = kind, rp_name = name, rp_owning_case_id = owning_case_id, rp_owner_phase = owner_phase,
      rp_depends_on = depends_on, rp_bucket = None, rp_key_prefix = None, rp_policy = None, rp_principal = None,
      rp_group = None, rp_member = None, rp_is_group = None, rp_identity_provider = None,
      rp_external_identity = None, rp_upload_id = None\<rparr>"

text \<open>The public planning functions differ in the plan they build.\<close>

definition plan_for_phase where
  "plan_for_phase out uuid st kind name owning_case_id depends_on owner_phase =
     plan_internal out uuid st (base_plan kind name owning_case_id owner_phase depends_on)"

definition plan_resource where
  "plan_resource out uuid st kind name owning_case_id depends_on =
     plan_for_phase out uuid st kind name owning_case_id depends_on ''case''"

definition plan_object_prefix_for_phase where
  "plan_object_prefix_for_phase out uuid st bucket key_prefix owning_case_id depends_on owner_phase =
     plan_internal out uuid st ((base_plan ResourceKind.ObjectPrefix (bucket @ ''/'' @ key_prefix) owning_case_id owner_phase depends_on)
       \<lparr>rp_bucket := Some bucket, rp_key_prefix := Some key_prefix\<rparr>)"

definition plan_object_prefix where
  "plan_object_prefix out uuid st bucket key_prefix owning_case_id depends_on =
     plan_object_prefix_for_phase out uuid st bucket key_prefix owning_case_id depends_on ''case''"

definition plan_multipart_upload where
  "plan_multipart_upload out uuid st bucket key owning_case_id depends_on =
     plan_internal out uuid st ((base_plan ResourceKind.MultipartUpload (bucket @ ''/'' @ key) owning_case_id ''case'' depends_on)
       \<lparr>rp_bucket := Some bucket, rp_key_prefix := Some key\<rparr>)"

definition plan_policy_attachment_for_phase where
  "plan_policy_attachment_for_phase out uuid st policy subject is_group owning_case_id depends_on owner_phase =
     plan_internal out uuid st ((base_plan IamPolicyAttachment (subject @ ''/'' @ policy) owning_case_id owner_phase depends_on)
       \<lparr>rp_policy := Some policy, rp_principal := Some subject, rp_is_group := Some is_group\<rparr>)"

definition plan_policy_attachment where
  "plan_policy_attachment out uuid st policy subject is_group owning_case_id depends_on =
     plan_policy_attachment_for_phase out uuid st policy subject is_group owning_case_id depends_on ''case''"

definition plan_group_membership_for_phase where
  "plan_group_membership_for_phase out uuid st grp member owning_case_id depends_on owner_phase =
     plan_internal out uuid st ((base_plan IamGroupMembership (grp @ ''/'' @ member) owning_case_id owner_phase depends_on)
       \<lparr>rp_group := Some grp, rp_member := Some member\<rparr>)"

definition plan_group_membership where
  "plan_group_membership out uuid st grp member owning_case_id depends_on =
     plan_group_membership_for_phase out uuid st grp member owning_case_id depends_on ''case''"

definition plan_sts_session_for_provider_and_phase where
  "plan_sts_session_for_provider_and_phase out uuid session_uuid st parent_access_key provider owning_case_id depends_on owner_phase =
     plan_internal out uuid st
       ((base_plan ResourceKind.StsSession (''sts-session-'' @ session_uuid) owning_case_id owner_phase depends_on)
         \<lparr>rp_principal := Some parent_access_key, rp_identity_provider := Some provider\<rparr>)"

definition plan_sts_session_for_phase where
  "plan_sts_session_for_phase out uuid session_uuid st parent_access_key owning_case_id depends_on owner_phase =
     plan_sts_session_for_provider_and_phase out uuid session_uuid st parent_access_key ''builtin'' owning_case_id depends_on owner_phase"

definition plan_sts_session where
  "plan_sts_session out uuid session_uuid st parent_access_key owning_case_id depends_on =
     plan_sts_session_for_provider_and_phase out uuid session_uuid st parent_access_key ''builtin'' owning_case_id depends_on ''case''"

definition plan_sts_session_for_provider where
  "plan_sts_session_for_provider out uuid session_uuid st parent provider owning_case_id depends_on =
     plan_sts_session_for_provider_and_phase out uuid session_uuid st parent provider owning_case_id depends_on ''case''"

definition plan_external_identity_subject where
  "plan_external_identity_subject out uuid st username external_identity owning_case_id depends_on =
     plan_internal out uuid st ((base_plan ExternalIdentitySubject username owning_case_id ''case'' depends_on)
       \<lparr>rp_external_identity := Some external_identity\<rparr>)"

subsection \<open>State changes\<close>

definition valid_transition :: "ResourceState \<Rightarrow> ResourceState \<Rightarrow> bool" where
  "valid_transition s t \<longleftrightarrow>
     (s, t) \<in> {(Planned, Creating), (Planned, CleanupAttempted), (Creating, Created), (Creating, Failed),
               (Creating, CleanupAttempted), (Created, CleanupAttempted), (Failed, CleanupAttempted),
               (CleanupAttempted, Cleaned), (CleanupAttempted, Failed), (Failed, Creating)}"

text \<open>\<open>iter_mut().find(..)\<close> followed by an assignment through the reference.\<close>

fun update_first :: "('a \<Rightarrow> bool) \<Rightarrow> ('a \<Rightarrow> 'a) \<Rightarrow> 'a list \<Rightarrow> 'a list" where
  "update_first P f [] = []"
| "update_first P f (x # xs) = (if P x then f x # xs else x # update_first P f xs)"

definition with_resource :: "ResourceRegistry \<Rightarrow> string \<Rightarrow> (ResourceHandle \<Rightarrow> ResourceHandle) \<Rightarrow> ResourceRegistry" where
  "with_resource r ident f = r\<lparr>rg_resources := update_first (\<lambda>h. rh_id h = ident) f (rg_resources r)\<rparr>"

definition find_resource :: "ResourceRegistry \<Rightarrow> string \<Rightarrow> ResourceHandle option" where
  "find_resource r ident = find (\<lambda>h. rh_id h = ident) (rg_resources r)"

definition set_multipart_upload_id ::
  "persist_outcome \<Rightarrow> registry_store \<Rightarrow> string \<Rightarrow> string \<Rightarrow> (registry_error + unit) \<times> registry_store" where
  "set_multipart_upload_id out st resource_id upload_id =
     (if upload_id = [] then (Inl EmptyUploadId, st)
      else case find_resource (st_memory st) resource_id of
        None \<Rightarrow> (Inl (UnknownResource resource_id), st)
      | Some h \<Rightarrow>
          if rh_kind h \<noteq> ResourceKind.MultipartUpload then (Inl (NotMultipartUpload resource_id), st)
          else if rh_upload_id h \<noteq> None \<and> rh_upload_id h \<noteq> Some upload_id then (Inl UploadIdImmutable, st)
          else persist_or_restore out st
                 (with_resource (st_memory st) resource_id (\<lambda>h. h\<lparr>rh_upload_id := Some upload_id\<rparr>)) ())"

definition transition ::
  "persist_outcome \<Rightarrow> registry_store \<Rightarrow> string \<Rightarrow> ResourceState \<Rightarrow> string option \<Rightarrow> (registry_error + unit) \<times> registry_store" where
  "transition out st resource_id state last_error =
     (case find_resource (st_memory st) resource_id of
        None \<Rightarrow> (Inl (UnknownResource resource_id), st)
      | Some h \<Rightarrow>
          if \<not> valid_transition (rh_state h) state then (Inl (InvalidTransition (rh_state h) state), st)
          else persist_or_restore out st
                 (with_resource (st_memory st) resource_id (\<lambda>h. h\<lparr>rh_state := state, rh_last_error := last_error\<rparr>)) ())"

subsection \<open>The order of cleanup\<close>

definition pending_cleanup :: "ResourceRegistry \<Rightarrow> ResourceHandle list" where
  "pending_cleanup r =
     filter (\<lambda>h. rh_state h \<in> {Planned, Creating, Created, CleanupAttempted, Failed}) (rev (rg_resources r))"

text \<open>\<open>min_by_key\<close> returns the first of several minima.\<close>

fun min_by_key :: "('a \<Rightarrow> 'k::linorder) \<Rightarrow> 'a list \<Rightarrow> 'a option" where
  "min_by_key key [] = None"
| "min_by_key key (x # xs) =
     (case min_by_key key xs of None \<Rightarrow> Some x | Some y \<Rightarrow> Some (if key y < key x then y else x))"

definition cleanup_key :: "nat \<times> ResourceHandle \<Rightarrow> nat \<times> int" where
  "cleanup_key entry = (cleanup_rank (rh_kind (snd entry)), - int (fst entry))"

definition count_dependency :: "(string, nat) fmap \<Rightarrow> string \<Rightarrow> (string, nat) fmap" where
  "count_dependency counts dependency =
     (case fmlookup counts dependency of None \<Rightarrow> counts | Some n \<Rightarrow> fmupd dependency (n + 1) counts)"

definition release_dependency :: "(string, nat) fmap \<Rightarrow> string \<Rightarrow> (string, nat) fmap" where
  "release_dependency counts dependency =
     (case fmlookup counts dependency of None \<Rightarrow> counts | Some n \<Rightarrow> fmupd dependency (n - 1) counts)"

definition initial_counts :: "ResourceHandle list \<Rightarrow> string fset \<Rightarrow> (string, nat) fmap" where
  "initial_counts resources pending =
     foldl (\<lambda>counts h. foldl count_dependency counts (rh_depends_on h))
       (fmap_of_list (map (\<lambda>ident. (ident, 0)) (sorted_list_of_fset pending)))
       (filter (\<lambda>h. rh_id h |\<in>| pending) resources)"

definition next_cleanup ::
  "ResourceHandle list \<Rightarrow> string fset \<Rightarrow> string fset \<Rightarrow> (string, nat) fmap \<Rightarrow> ResourceHandle option" where
  "next_cleanup resources pending emitted counts =
     map_option snd (min_by_key cleanup_key
       (filter (\<lambda>(_, h). rh_id h |\<in>| pending \<and> rh_id h |\<notin>| emitted \<and> fm_values_at counts 0 (rh_id h) = 0)
         (enumerate 0 resources)))"

partial_function (option) cleanup_loop ::
  "ResourceHandle list \<Rightarrow> string fset \<Rightarrow> string fset \<Rightarrow> (string, nat) fmap \<Rightarrow> ResourceHandle list
     \<Rightarrow> (registry_error + ResourceHandle list) option" where
  "cleanup_loop resources pending emitted counts ordered =
     (if length ordered < fcard pending
      then (case next_cleanup resources pending emitted counts of
              None \<Rightarrow> Some (Inl CleanupCycle)
            | Some h \<Rightarrow>
                cleanup_loop resources pending (finsert (rh_id h) emitted)
                  (foldl release_dependency counts (rh_depends_on h)) (ordered @ [h]))
      else Some (Inr ordered))"

declare cleanup_loop.simps [code]

definition cleanup_order :: "ResourceRegistry \<Rightarrow> (registry_error + ResourceHandle list) option" where
  "cleanup_order r =
     (let ids = rh_id ` set (rg_resources r) in
      case find (\<lambda>dependency. dependency \<notin> ids) (concat (map rh_depends_on (rg_resources r))) of
        Some dependency \<Rightarrow> Some (Inl (UnknownDependency dependency))
      | None \<Rightarrow>
          (let pending = fset_of_list (map rh_id (pending_cleanup r))
           in cleanup_loop (rg_resources r) pending {||} (initial_counts (rg_resources r) pending) []))"

end
