(* ===== verification/Registry_Cleanup.thy ===== *)
theory Registry_Cleanup
  imports Resource_Registry
begin

text \<open>
  The order of cleanup (\<open>ResourceRegistry::cleanup_order\<close>): it always returns; with distinct identifiers the order is complete,
  takes dependents first and prefers the kinds of lower rank, and it is refused exactly when the dependencies have a cycle.
\<close>

subsection \<open>The loop returns\<close>

lemma cleanup_loop_total: "\<exists>res. cleanup_loop resources pending emitted counts ordered = Some res"
proof (induction "fcard pending - length ordered" arbitrary: emitted counts ordered rule: less_induct)
  case less
  show ?case
  proof (cases "length ordered < fcard pending")
    case True
    show ?thesis
    proof (cases "next_cleanup resources pending emitted counts")
      case None
      with True show ?thesis by (subst cleanup_loop.simps) simp
    next
      case (Some h)
      have "fcard pending - length (ordered @ [h]) < fcard pending - length ordered" using True by simp
      from less [OF this] Some True show ?thesis by (subst cleanup_loop.simps) simp
    qed
  next
    case False
    then show ?thesis by (subst cleanup_loop.simps) simp
  qed
qed

text \<open>
  C39: The cleanup order is always computed: whatever the registry holds, also with repeated identifiers, unknown
  dependencies or cycles, the loop of \<open>cleanup_order\<close> ends with an order or an error.
\<close>

theorem cleanup_order_returns: "\<exists>res. cleanup_order r = Some res"
  by (cases "find (\<lambda>dependency. dependency \<notin> rh_id ` set (rg_resources r)) (concat (map rh_depends_on (rg_resources r)))")
    (simp_all add: cleanup_order_def cleanup_loop_total Let_def)

subsection \<open>Choosing the next resource\<close>

lemma min_by_key_None [simp]: "min_by_key key xs = None \<longleftrightarrow> xs = []"
  by (cases xs) (auto split: option.splits)

lemma min_by_key_Some:
  "min_by_key key xs = Some y \<Longrightarrow> y \<in> set xs \<and> (\<forall>x \<in> set xs. key y \<le> key x)"
proof (induction xs arbitrary: y)
  case (Cons x xs)
  show ?case
  proof (cases "min_by_key key xs")
    case None
    with Cons.prems show ?thesis by simp
  next
    case (Some z)
    with Cons.IH [OF Some] Cons.prems show ?thesis by (auto split: if_splits)
  qed
qed simp

text \<open>The resources still to be cleaned, and how often they depend on an identifier.\<close>

definition waiting :: "ResourceHandle list \<Rightarrow> string fset \<Rightarrow> string fset \<Rightarrow> ResourceHandle list" where
  "waiting rs pending emitted = filter (\<lambda>h. rh_id h |\<in>| pending \<and> rh_id h |\<notin>| emitted) rs"

definition dependents :: "ResourceHandle list \<Rightarrow> string \<Rightarrow> nat" where
  "dependents hs ident = sum_list (map (\<lambda>h. count_list (rh_depends_on h) ident) hs)"

definition counts_ok :: "ResourceHandle list \<Rightarrow> string fset \<Rightarrow> string fset \<Rightarrow> (string, nat) fmap \<Rightarrow> bool" where
  "counts_ok rs pending emitted counts \<longleftrightarrow>
     (\<forall>ident. fmlookup counts ident =
        (if ident |\<in>| pending then Some (dependents (waiting rs pending emitted) ident) else None))"

lemma dependents_0: "dependents hs ident = 0 \<longleftrightarrow> (\<forall>h \<in> set hs. ident \<notin> set (rh_depends_on h))"
  by (auto simp: dependents_def sum_list_eq_0_iff count_list_0_iff)

lemma count_dependencies: "fmlookup (foldl count_dependency counts ds) ident =
    map_option (\<lambda>n. n + count_list ds ident) (fmlookup counts ident)"
  by (induction ds arbitrary: counts) (auto simp: count_dependency_def option.map_comp option.map_ident comp_def split: option.splits)

lemma release_dependencies: "fmlookup (foldl release_dependency counts ds) ident =
    map_option (\<lambda>n. n - count_list ds ident) (fmlookup counts ident)"
  by (induction ds arbitrary: counts) (auto simp: release_dependency_def option.map_comp option.map_ident comp_def split: option.splits)

lemma foldl_counts: "fmlookup (foldl (\<lambda>counts h. foldl count_dependency counts (rh_depends_on h)) counts hs) ident =
    map_option (\<lambda>n. n + dependents hs ident) (fmlookup counts ident)"
  by (induction hs arbitrary: counts) (auto simp: count_dependencies dependents_def option.map_comp option.map_ident comp_def ac_simps)

lemma initial_counts_ok: "counts_ok rs pending {||} (initial_counts rs pending)"
proof -
  have zero: "fmlookup (fmap_of_list (map (\<lambda>ident. (ident, 0)) (sorted_list_of_fset pending))) ident =
      (if ident |\<in>| pending then Some (0 :: nat) else None)" for ident
  proof -
    have "map_of (map (\<lambda>ident. (ident, 0 :: nat)) xs) ident = (if ident \<in> set xs then Some 0 else None)" for xs
      by (induction xs) auto
    then show ?thesis by (simp add: fmlookup_of_list)
  qed
  show ?thesis
    unfolding counts_ok_def initial_counts_def foldl_counts zero waiting_def by simp
qed

subsection \<open>Releasing the dependencies of a cleaned resource\<close>

lemma waiting_emitted:
  assumes "distinct (map rh_id rs)" and "h \<in> set (waiting rs pending emitted)"
  shows "dependents (waiting rs pending emitted) ident =
    count_list (rh_depends_on h) ident + dependents (waiting rs pending (finsert (rh_id h) emitted)) ident"
proof -
  let ?w = "waiting rs pending emitted"
  have d: "distinct (map rh_id ?w)" using assms(1) by (simp add: waiting_def distinct_map_filter)
  have "waiting rs pending (finsert (rh_id h) emitted) = filter (\<lambda>g. rh_id g \<noteq> rh_id h) ?w"
    by (simp add: waiting_def conj_ac)
  also have "\<dots> = filter (\<lambda>g. g \<noteq> h) ?w"
    by (rule filter_cong [OF refl]) (use d assms(2) in \<open>auto simp: distinct_map inj_on_def\<close>)
  also have "\<dots> = remove1 h ?w" using d by (simp add: distinct_remove1_removeAll distinct_map removeAll_filter_not_eq) metis
  finally have "waiting rs pending (finsert (rh_id h) emitted) = remove1 h ?w" .
  then show ?thesis using assms(2) by (simp add: dependents_def sum_list_map_remove1)
qed

lemma counts_ok_release:
  assumes "counts_ok rs pending emitted counts" and "distinct (map rh_id rs)" and "h \<in> set (waiting rs pending emitted)"
  shows "counts_ok rs pending (finsert (rh_id h) emitted) (foldl release_dependency counts (rh_depends_on h))"
  using assms(1) waiting_emitted [OF assms(2,3)] unfolding counts_ok_def by (simp add: release_dependencies)

text \<open>A resource is ready when no resource that still waits depends on it.\<close>

definition ready :: "ResourceHandle list \<Rightarrow> string fset \<Rightarrow> string fset \<Rightarrow> ResourceHandle \<Rightarrow> bool" where
  "ready rs pending emitted h \<longleftrightarrow>
     h \<in> set (waiting rs pending emitted) \<and> (\<forall>g \<in> set (waiting rs pending emitted). rh_id h \<notin> set (rh_depends_on g))"

lemma ready_candidates:
  assumes "counts_ok rs pending emitted counts"
  shows "set (filter (\<lambda>(_, h). rh_id h |\<in>| pending \<and> rh_id h |\<notin>| emitted \<and> fm_values_at counts 0 (rh_id h) = 0)
      (enumerate 0 rs)) = {(i, rs ! i) | i. i < length rs \<and> ready rs pending emitted (rs ! i)}"
proof -
  have "fm_values_at counts 0 (rh_id h) = 0 \<longleftrightarrow> (\<forall>g \<in> set (waiting rs pending emitted). rh_id h \<notin> set (rh_depends_on g))"
    if "rh_id h |\<in>| pending" for h
    using assms that unfolding counts_ok_def by (simp add: fm_values_at_def dependents_0)
  then show ?thesis by (auto simp: in_set_enumerate_eq ready_def waiting_def)
qed

lemma next_cleanup_Some:
  assumes "counts_ok rs pending emitted counts" and "next_cleanup rs pending emitted counts = Some h"
  obtains m where "m < length rs" "h = rs ! m" "ready rs pending emitted h"
    "\<forall>i < length rs. ready rs pending emitted (rs ! i) \<longrightarrow> cleanup_key (m, h) \<le> cleanup_key (i, rs ! i)"
proof -
  from assms(2) obtain m where "min_by_key cleanup_key (filter (\<lambda>(_, h). rh_id h |\<in>| pending \<and> rh_id h |\<notin>| emitted
      \<and> fm_values_at counts 0 (rh_id h) = 0) (enumerate 0 rs)) = Some (m, h)"
    by (auto simp: next_cleanup_def)
  from min_by_key_Some [OF this, unfolded ready_candidates [OF assms(1)]] show thesis
    by (intro that [of m]) auto
qed

lemma next_cleanup_None:
  assumes "counts_ok rs pending emitted counts" and "next_cleanup rs pending emitted counts = None"
  shows "\<not> ready rs pending emitted h"
proof
  assume r: "ready rs pending emitted h"
  then obtain i where "i < length rs" "rs ! i = h" by (auto simp: ready_def waiting_def in_set_conv_nth)
  with r have "(i, h) \<in> {(i, rs ! i) | i. i < length rs \<and> ready rs pending emitted (rs ! i)}" by blast
  moreover have "filter (\<lambda>(_, h). rh_id h |\<in>| pending \<and> rh_id h |\<notin>| emitted \<and> fm_values_at counts 0 (rh_id h) = 0)
      (enumerate 0 rs) = []" using assms(2) by (simp add: next_cleanup_def)
  ultimately show False using ready_candidates [OF assms(1)] by auto
qed

subsection \<open>The sequence the loop builds\<close>

abbreviation emitted_ids :: "ResourceHandle list \<Rightarrow> string fset" where
  "emitted_ids hs \<equiv> fset_of_list (map rh_id hs)"

definition cleanup_sequence :: "ResourceHandle list \<Rightarrow> string fset \<Rightarrow> ResourceHandle list \<Rightarrow> bool" where
  "cleanup_sequence rs pending out \<longleftrightarrow>
     (\<forall>k < length out. \<exists>m < length rs. out ! k = rs ! m \<and> ready rs pending (emitted_ids (take k out)) (out ! k) \<and>
        (\<forall>i < length rs. ready rs pending (emitted_ids (take k out)) (rs ! i) \<longrightarrow>
           cleanup_key (m, out ! k) \<le> cleanup_key (i, rs ! i)))"

lemma cleanup_sequence_snoc:
  assumes "cleanup_sequence rs pending out" and "m < length rs" "h = rs ! m" "ready rs pending (emitted_ids out) h"
    and "\<forall>i < length rs. ready rs pending (emitted_ids out) (rs ! i) \<longrightarrow> cleanup_key (m, h) \<le> cleanup_key (i, rs ! i)"
  shows "cleanup_sequence rs pending (out @ [h])"
  unfolding cleanup_sequence_def
proof (intro allI impI)
  fix k
  assume k: "k < length (out @ [h])"
  show "\<exists>m < length rs. (out @ [h]) ! k = rs ! m \<and> ready rs pending (emitted_ids (take k (out @ [h]))) ((out @ [h]) ! k) \<and>
        (\<forall>i < length rs. ready rs pending (emitted_ids (take k (out @ [h]))) (rs ! i) \<longrightarrow>
           cleanup_key (m, (out @ [h]) ! k) \<le> cleanup_key (i, rs ! i))"
  proof (cases "k = length out")
    case True
    then show ?thesis using assms(2-5) by auto
  next
    case False
    with k have "k < length out" by simp
    then show ?thesis using assms(1) unfolding cleanup_sequence_def by (simp add: nth_append)
  qed
qed

lemma cleanup_sequence_emitted:
  assumes "cleanup_sequence rs pending out" and "k < length out"
  shows "rh_id (out ! k) |\<in>| pending" and "rh_id (out ! k) \<notin> rh_id ` set (take k out)" and "out ! k \<in> set rs"
proof -
  from assms have "ready rs pending (emitted_ids (take k out)) (out ! k)" unfolding cleanup_sequence_def by blast
  then have "out ! k \<in> set (waiting rs pending (emitted_ids (take k out)))" unfolding ready_def by blast
  then show "rh_id (out ! k) |\<in>| pending" and "rh_id (out ! k) \<notin> rh_id ` set (take k out)" and "out ! k \<in> set rs"
    by (simp_all add: waiting_def fset_of_list.rep_eq)
qed

lemma cleanup_sequence_distinct:
  assumes "cleanup_sequence rs pending out"
  shows "distinct (map rh_id out)" and "set (map rh_id out) \<subseteq> fset pending"
proof -
  have "i < j \<Longrightarrow> j < length out \<Longrightarrow> rh_id (out ! i) \<noteq> rh_id (out ! j)" for i j
  proof -
    assume ij: "i < j" "j < length out"
    then have "out ! i \<in> set (take j out)" by (auto simp: in_set_conv_nth intro!: exI [of _ i])
    with cleanup_sequence_emitted(2) [OF assms ij(2)] show ?thesis by (metis imageI)
  qed
  then have "i < length out \<Longrightarrow> j < length out \<Longrightarrow> i \<noteq> j \<Longrightarrow> rh_id (out ! i) \<noteq> rh_id (out ! j)" for i j
    by (metis linorder_neqE_nat)
  then show "distinct (map rh_id out)" by (simp add: distinct_conv_nth)
  show "set (map rh_id out) \<subseteq> fset pending"
    using cleanup_sequence_emitted(1) [OF assms] by (auto simp: in_set_conv_nth)
qed

lemma cleanup_sequence_size:
  assumes "cleanup_sequence rs pending out"
  shows "length out \<le> fcard pending" and "length out = fcard pending \<Longrightarrow> set (map rh_id out) = fset pending"
proof -
  note d = cleanup_sequence_distinct [OF assms]
  have c: "card (set (map rh_id out)) = length out" using distinct_card [OF d(1)] by simp
  have fin: "finite (fset pending)" by simp
  show "length out \<le> fcard pending" using card_mono [OF fin d(2)] c by (simp add: fcard.rep_eq)
  show "length out = fcard pending \<Longrightarrow> set (map rh_id out) = fset pending"
    using card_subset_eq [OF fin d(2)] c by (simp add: fcard.rep_eq)
qed

definition stuck :: "ResourceHandle list \<Rightarrow> string fset \<Rightarrow> bool" where
  "stuck rs pending \<longleftrightarrow> (\<exists>emitted. waiting rs pending emitted \<noteq> [] \<and> (\<forall>h. \<not> ready rs pending emitted h))"

lemma cleanup_loop_result:
  assumes "distinct (map rh_id rs)" and "fset pending \<subseteq> rh_id ` set rs"
    and "counts_ok rs pending (emitted_ids ordered) counts" and "cleanup_sequence rs pending ordered"
  shows "cleanup_loop rs pending (emitted_ids ordered) counts ordered = Some (Inl CleanupCycle) \<and> stuck rs pending \<or>
    (\<exists>out. cleanup_loop rs pending (emitted_ids ordered) counts ordered = Some (Inr out) \<and>
       cleanup_sequence rs pending out \<and> length out = fcard pending)"
  using assms(3,4)
proof (induction "fcard pending - length ordered" arbitrary: counts ordered rule: less_induct)
  case less
  note size = cleanup_sequence_size [OF less.prems(2)]
  show ?case
  proof (cases "length ordered < fcard pending")
    case False
    then have "cleanup_loop rs pending (emitted_ids ordered) counts ordered = Some (Inr ordered)"
      by (subst cleanup_loop.simps) simp
    with False size(1) less.prems(2) show ?thesis by auto
  next
    case True
    show ?thesis
    proof (cases "next_cleanup rs pending (emitted_ids ordered) counts")
      case None
      have "card (set (map rh_id ordered)) < card (fset pending)"
        using True card_length [of "map rh_id ordered"] by (simp add: fcard.rep_eq)
      then have "\<not> fset pending \<subseteq> set (map rh_id ordered)" using card_mono [of "set (map rh_id ordered)" "fset pending"] by auto
      with assms(2) have "waiting rs pending (emitted_ids ordered) \<noteq> []"
        by (auto simp: waiting_def filter_empty_conv fset_of_list.rep_eq)
      then have "stuck rs pending" using next_cleanup_None [OF less.prems(1) None] unfolding stuck_def by blast
      with None True show ?thesis by (subst cleanup_loop.simps) simp
    next
      case (Some h)
      from next_cleanup_Some [OF less.prems(1) Some] obtain m where m: "m < length rs" "h = rs ! m"
        "ready rs pending (emitted_ids ordered) h"
        "\<forall>i < length rs. ready rs pending (emitted_ids ordered) (rs ! i) \<longrightarrow> cleanup_key (m, h) \<le> cleanup_key (i, rs ! i)" by blast
      have e: "emitted_ids (ordered @ [h]) = finsert (rh_id h) (emitted_ids ordered)" by (auto simp: fset_of_list_elem)
      have lt: "fcard pending - length (ordered @ [h]) < fcard pending - length ordered" using True by simp
      have "h \<in> set (waiting rs pending (emitted_ids ordered))" using m(3) by (simp add: ready_def)
      note IH = less.hyps [OF lt counts_ok_release [OF less.prems(1) assms(1) this, folded e]
          cleanup_sequence_snoc [OF less.prems(2) m]]
      have "cleanup_loop rs pending (emitted_ids ordered) counts ordered =
          cleanup_loop rs pending (emitted_ids (ordered @ [h])) (foldl release_dependency counts (rh_depends_on h)) (ordered @ [h])"
        unfolding e using Some True by (subst cleanup_loop.simps) simp
      with IH show ?thesis by simp
    qed
  qed
qed

subsection \<open>What the order guarantees\<close>

abbreviation pending_ids :: "ResourceRegistry \<Rightarrow> string fset" where
  "pending_ids r \<equiv> emitted_ids (pending_cleanup r)"

text \<open>The dependencies between resources that are not cleaned yet.\<close>

definition pending_dependency :: "ResourceRegistry \<Rightarrow> (ResourceHandle \<times> ResourceHandle) set" where
  "pending_dependency r =
     {(g, h). g \<in> set (rg_resources r) \<and> h \<in> set (rg_resources r) \<and> rh_state g \<noteq> Cleaned \<and> rh_state h \<noteq> Cleaned
        \<and> rh_id h \<in> set (rh_depends_on g)}"

lemma in_pending_cleanup: "h \<in> set (pending_cleanup r) \<longleftrightarrow> h \<in> set (rg_resources r) \<and> rh_state h \<noteq> Cleaned"
  by (cases "rh_state h") (auto simp: pending_cleanup_def)

lemma pending_id_iff:
  assumes "distinct (map rh_id (rg_resources r))" and "h \<in> set (rg_resources r)"
  shows "rh_id h |\<in>| pending_ids r \<longleftrightarrow> rh_state h \<noteq> Cleaned"
proof -
  have inj: "inj_on rh_id (set (rg_resources r))" using assms(1) by (simp add: distinct_map)
  have "rh_id h |\<in>| pending_ids r \<longleftrightarrow> (\<exists>g \<in> set (pending_cleanup r). rh_id g = rh_id h)"
    by (auto simp: fset_of_list.rep_eq image_iff) metis
  then show ?thesis using assms(2) inj_onD [OF inj] by (metis in_pending_cleanup)
qed

lemma cleanup_order_cases [consumes 1, case_names unknown cycle order]:
  assumes "distinct (map rh_id (rg_resources r))"
  obtains (unknown) d where "cleanup_order r = Some (Inl (UnknownDependency d))"
      "\<exists>h \<in> set (rg_resources r). d \<in> set (rh_depends_on h)" "d \<notin> rh_id ` set (rg_resources r)"
  | (cycle) "cleanup_order r = Some (Inl CleanupCycle)" "stuck (rg_resources r) (pending_ids r)"
      "\<forall>h \<in> set (rg_resources r). set (rh_depends_on h) \<subseteq> rh_id ` set (rg_resources r)"
  | (order) out where "cleanup_order r = Some (Inr out)" "cleanup_sequence (rg_resources r) (pending_ids r) out"
      "length out = fcard (pending_ids r)"
      "\<forall>h \<in> set (rg_resources r). set (rh_depends_on h) \<subseteq> rh_id ` set (rg_resources r)"
proof (cases "find (\<lambda>d. d \<notin> rh_id ` set (rg_resources r)) (concat (map rh_depends_on (rg_resources r)))")
  case (Some d)
  then have "d \<in> set (concat (map rh_depends_on (rg_resources r))) \<and> d \<notin> rh_id ` set (rg_resources r)"
    by (metis find_Some_iff nth_mem)
  moreover have "cleanup_order r = Some (Inl (UnknownDependency d))" using Some by (simp add: cleanup_order_def)
  ultimately show thesis by (intro unknown) auto
next
  case None
  then have known: "\<forall>h \<in> set (rg_resources r). set (rh_depends_on h) \<subseteq> rh_id ` set (rg_resources r)"
    by (auto simp: find_None_iff)
  have eq: "cleanup_order r = cleanup_loop (rg_resources r) (pending_ids r) (emitted_ids [])
      (initial_counts (rg_resources r) (pending_ids r)) []"
    using None by (simp add: cleanup_order_def Let_def)
  have sub: "fset (pending_ids r) \<subseteq> rh_id ` set (rg_resources r)"
    by (auto simp: fset_of_list.rep_eq pending_cleanup_def)
  have "counts_ok (rg_resources r) (pending_ids r) (emitted_ids []) (initial_counts (rg_resources r) (pending_ids r))"
    using initial_counts_ok by simp
  from cleanup_loop_result [OF assms sub this] known eq cycle order show thesis
    by (auto simp: cleanup_sequence_def)
qed

lemma cleanup_sequence_dependents_first:
  assumes "cleanup_sequence rs pending out" and "length out = fcard pending"
    and "g \<in> set rs" "rh_id g |\<in>| pending" "rh_id (out ! k) \<in> set (rh_depends_on g)" "k < length out"
  shows "rh_id g \<in> rh_id ` set (take k out)"
proof -
  from assms(1,6) have r: "ready rs pending (emitted_ids (take k out)) (out ! k)" unfolding cleanup_sequence_def by blast
  with assms(5) have "g \<notin> set (waiting rs pending (emitted_ids (take k out)))" unfolding ready_def by blast
  with assms(3,4) show ?thesis by (simp add: waiting_def fset_of_list.rep_eq)
qed

lemma stuck_cyclic:
  assumes "distinct (map rh_id (rg_resources r))" and "stuck (rg_resources r) (pending_ids r)"
  shows "\<not> acyclic (pending_dependency r)"
proof
  assume "acyclic (pending_dependency r)"
  moreover have "finite (pending_dependency r)"
    by (rule finite_subset [of _ "set (rg_resources r) \<times> set (rg_resources r)"]) (auto simp: pending_dependency_def)
  ultimately have wf: "wf (pending_dependency r)" by (simp add: finite_acyclic_wf)
  from assms(2) obtain E where E: "waiting (rg_resources r) (pending_ids r) E \<noteq> []"
    "\<forall>h. \<not> ready (rg_resources r) (pending_ids r) E h" unfolding stuck_def by blast
  let ?W = "set (waiting (rg_resources r) (pending_ids r) E)"
  from E(1) obtain h where "h \<in> ?W" using list.set_sel(1) by blast
  with wf obtain m where m: "m \<in> ?W" "\<forall>g. (g, m) \<in> pending_dependency r \<longrightarrow> g \<notin> ?W" by (metis wfE_min)
  from E(2) m(1) obtain g where g: "g \<in> ?W" "rh_id m \<in> set (rh_depends_on g)" unfolding ready_def by blast
  have w: "x \<in> set (rg_resources r) \<and> rh_state x \<noteq> Cleaned" if "x \<in> ?W" for x
    using that pending_id_iff [OF assms(1), of x] by (auto simp: waiting_def)
  have "(g, m) \<in> pending_dependency r" using w [OF g(1)] w [OF m(1)] g(2) by (simp add: pending_dependency_def)
  with m(2) g(1) show False by blast
qed

lemma cleanup_order_members:
  assumes "distinct (map rh_id (rg_resources r))" and "cleanup_sequence (rg_resources r) (pending_ids r) out"
    and "length out = fcard (pending_ids r)"
  shows "h \<in> set out \<longleftrightarrow> h \<in> set (rg_resources r) \<and> rh_state h \<noteq> Cleaned"
proof
  assume "h \<in> set out"
  then obtain k where "k < length out" "h = out ! k" by (metis in_set_conv_nth)
  with cleanup_sequence_emitted(1,3) [OF assms(2), of k] pending_id_iff [OF assms(1), of h]
  show "h \<in> set (rg_resources r) \<and> rh_state h \<noteq> Cleaned" by simp
next
  assume h: "h \<in> set (rg_resources r) \<and> rh_state h \<noteq> Cleaned"
  then have "rh_id h \<in> set (map rh_id out)"
    using pending_id_iff [OF assms(1), of h] cleanup_sequence_size(2) [OF assms(2,3)] by blast
  then obtain g where g: "g \<in> set out" "rh_id g = rh_id h" by auto
  moreover from g(1) obtain k where "k < length out" "g = out ! k" by (metis in_set_conv_nth)
  then have "g \<in> set (rg_resources r)" using cleanup_sequence_emitted(3) [OF assms(2)] by simp
  ultimately show "h \<in> set out" using h assms(1) by (metis distinct_map inj_onD)
qed

lemma cleanup_order_dependents:
  assumes "distinct (map rh_id (rg_resources r))" and "cleanup_sequence (rg_resources r) (pending_ids r) out"
    and "length out = fcard (pending_ids r)" and "i \<le> j" "j < length out"
  shows "rh_id (out ! i) \<notin> set (rh_depends_on (out ! j))"
proof
  assume dep: "rh_id (out ! i) \<in> set (rh_depends_on (out ! j))"
  have i: "i < length out" using assms(4,5) by simp
  have "rh_id (out ! j) \<in> rh_id ` set (take i out)"
    by (rule cleanup_sequence_dependents_first [OF assms(2,3) cleanup_sequence_emitted(3,1) [OF assms(2,5)] dep i])
  moreover have "set (take i out) \<subseteq> set (take j out)" using assms(4) by (rule set_take_subset_set_take)
  ultimately show False using cleanup_sequence_emitted(2) [OF assms(2,5)] by blast
qed

lemma cleanup_order_rank:
  assumes "distinct (map rh_id (rg_resources r))" and "cleanup_sequence (rg_resources r) (pending_ids r) out"
    and "length out = fcard (pending_ids r)" and "i < j" "j < length out"
    and "\<forall>g \<in> set out. rh_id (out ! j) \<in> set (rh_depends_on g) \<longrightarrow> g \<in> set (take i out)"
  shows "cleanup_rank (rh_kind (out ! i)) \<le> cleanup_rank (rh_kind (out ! j))"
proof -
  let ?rs = "rg_resources r" and ?P = "pending_ids r" and ?E = "emitted_ids (take i out)"
  have i: "i < length out" using assms(4,5) by simp
  note mem = cleanup_order_members [OF assms(1,2,3)]
  have notin: "rh_id (out ! j) \<notin> rh_id ` set (take i out)"
    using cleanup_sequence_emitted(2) [OF assms(2,5)] set_take_subset_set_take [of i j out] assms(4) by auto
  have "ready ?rs ?P ?E (out ! j)"
    unfolding ready_def
  proof (intro conjI ballI notI)
    show "out ! j \<in> set (waiting ?rs ?P ?E)"
      using cleanup_sequence_emitted(1,3) [OF assms(2,5)] notin by (simp add: waiting_def fset_of_list.rep_eq)
    fix g
    assume g: "g \<in> set (waiting ?rs ?P ?E)" and dep: "rh_id (out ! j) \<in> set (rh_depends_on g)"
    then have "g \<in> set ?rs" "rh_id g |\<in>| ?P" "rh_id g |\<notin>| ?E" by (auto simp: waiting_def)
    moreover from this have "g \<in> set out" using mem pending_id_iff [OF assms(1)] by blast
    ultimately show False using assms(6) dep by (auto simp: fset_of_list.rep_eq)
  qed
  moreover obtain n where n: "n < length ?rs" "out ! j = ?rs ! n"
    using cleanup_sequence_emitted(3) [OF assms(2,5)] by (metis in_set_conv_nth)
  moreover from assms(2) i obtain m where "\<forall>n < length ?rs. ready ?rs ?P ?E (?rs ! n) \<longrightarrow>
      cleanup_key (m, out ! i) \<le> cleanup_key (n, ?rs ! n)" unfolding cleanup_sequence_def by blast
  ultimately have "cleanup_key (m, out ! i) \<le> cleanup_key (n, out ! j)" by simp
  then show ?thesis by (auto simp: cleanup_key_def)
qed

text \<open>
  C21: A cleanup order is complete and safe. It contains exactly the resources that are not cleaned, each once; no resource comes
  after one that it depends on; and of two resources that could both be cleaned at that moment, the one whose kind has the
  lower rank comes first.
\<close>

theorem cleanup_order_correct:
  assumes "distinct (map rh_id (rg_resources r))" and "cleanup_order r = Some (Inr out)"
  shows "distinct (map rh_id out) \<and> set out = {h \<in> set (rg_resources r). rh_state h \<noteq> Cleaned} \<and>
    (\<forall>j < length out. \<forall>i \<le> j. rh_id (out ! i) \<notin> set (rh_depends_on (out ! j))) \<and>
    (\<forall>j < length out. \<forall>i < j.
       (\<forall>g \<in> set out. rh_id (out ! j) \<in> set (rh_depends_on g) \<longrightarrow> g \<in> set (take i out)) \<longrightarrow>
       cleanup_rank (rh_kind (out ! i)) \<le> cleanup_rank (rh_kind (out ! j)))"
proof -
  from assms have seq: "cleanup_sequence (rg_resources r) (pending_ids r) out" "length out = fcard (pending_ids r)"
    by (cases rule: cleanup_order_cases [OF assms(1)]; simp)+
  have "set out = {h \<in> set (rg_resources r). rh_state h \<noteq> Cleaned}"
    using cleanup_order_members [OF assms(1) seq] by blast
  with cleanup_sequence_distinct(1) [OF seq(1)] cleanup_order_dependents [OF assms(1) seq] cleanup_order_rank [OF assms(1) seq]
  show ?thesis by blast
qed

text \<open>
  Cleanup is refused only for a reason: an order is returned exactly when every dependency is registered and
  the dependencies between the resources still to be cleaned have no cycle.
\<close>

theorem cleanup_order_exists_iff:
  assumes "distinct (map rh_id (rg_resources r))"
  shows "(\<exists>out. cleanup_order r = Some (Inr out)) \<longleftrightarrow>
    (\<forall>h \<in> set (rg_resources r). set (rh_depends_on h) \<subseteq> rh_id ` set (rg_resources r)) \<and> acyclic (pending_dependency r)"
  using assms
proof (cases rule: cleanup_order_cases)
  case (unknown d)
  then show ?thesis by auto
next
  case cycle
  with stuck_cyclic [OF assms] show ?thesis by simp
next
  case (order out)
  let ?pos = "\<lambda>h. LEAST k. k < length out \<and> out ! k = h"
  have pos: "?pos h < length out \<and> out ! ?pos h = h" if "h \<in> set out" for h
  proof (rule LeastI_ex)
    show "\<exists>k. k < length out \<and> out ! k = h" using that by (simp add: in_set_conv_nth)
  qed
  have "pending_dependency r \<subseteq> inv_image less_than ?pos"
  proof clarify
    fix g h
    assume "(g, h) \<in> pending_dependency r"
    then have gh: "g \<in> set out" "h \<in> set out" and dep: "rh_id h \<in> set (rh_depends_on g)"
      using cleanup_order_members [OF assms order(2,3)] by (auto simp: pending_dependency_def)
    have "\<not> ?pos h \<le> ?pos g"
      using cleanup_order_dependents [OF assms order(2,3), of "?pos h" "?pos g"] pos [OF gh(1)] pos [OF gh(2)] dep by auto
    then show "(g, h) \<in> inv_image less_than ?pos" by simp
  qed
  then have "acyclic (pending_dependency r)" by (intro wf_acyclic) (blast intro: wf_subset wf_inv_image wf_less_than)
  with order show ?thesis by blast
qed

end
