(* ===== verification/Registry_Invariant.thy ===== *)
theory Registry_Invariant
  imports Registry_Cleanup
begin

text \<open>
  The registry as a state machine: memory and file under every sequence of operations, failing writes and
  restarts. Its invariant makes the cleanup order exist, and a planned resource is never forgotten.
\<close>

subsection \<open>Changes of a registry\<close>

text \<open>What an operation may do to a registry, whether or not the change is then written.\<close>

inductive registry_change :: "ResourceRegistry \<Rightarrow> ResourceRegistry \<Rightarrow> bool" where
  bound: "rg_resources r = [] \<Longrightarrow> rg_contract r = None \<Longrightarrow> protocol_case case_id = Some c \<Longrightarrow>
    validate_protocol_case_descriptor c = Inr () \<Longrightarrow> case_variant c variant_id \<noteq> None \<Longrightarrow>
    registry_change r (r\<lparr>rg_contract := Some (case_contract c case_id variant_id)\<rparr>)"
| versioned: "registry_change r (r\<lparr>rg_versioned_cleanup := enabled\<rparr>)"
| planned: "set (rp_depends_on plan) \<subseteq> rh_id ` set (rg_resources r) \<Longrightarrow>
    validate_dynamic_resource (rg_contract r) plan = Inr b \<Longrightarrow>
    \<forall>h \<in> set (rg_resources r). rh_kind h = rp_kind plan \<and> rh_name h = rp_name plan \<longrightarrow> rh_state h = Cleaned \<Longrightarrow>
    ''resource-'' @ uuid \<notin> rh_id ` set (rg_resources r) \<Longrightarrow>
    registry_change r (r\<lparr>rg_resources := rg_resources r @ [planned_handle uuid plan b]\<rparr>)"
| uploaded: "find_resource r ident = Some h \<Longrightarrow>
    registry_change r (with_resource r ident (\<lambda>h. h\<lparr>rh_upload_id := Some upload_id\<rparr>))"
| moved: "find_resource r ident = Some h \<Longrightarrow> valid_transition (rh_state h) state \<Longrightarrow>
    registry_change r (with_resource r ident (\<lambda>h. h\<lparr>rh_state := state, rh_last_error := last_error\<rparr>))"

text \<open>A store step keeps the memory or changes it, and keeps the file or writes the changed memory.\<close>

definition store_shape :: "registry_store \<Rightarrow> registry_store \<Rightarrow> bool" where
  "store_shape st st' \<longleftrightarrow> st' = st \<or>
     (\<exists>changed. registry_change (st_memory st) changed \<and>
        (st_memory st' = st_memory st \<or> st_memory st' = changed) \<and> (st_file st' = st_file st \<or> st_file st' = Some changed))"

lemma store_shape_refl [simp]: "store_shape st st"
  by (simp add: store_shape_def)

lemma persist_or_restore_shape:
  assumes "persist_or_restore out st changed v = (res, st')" and "registry_change (st_memory st) changed"
  shows "store_shape st st'"
  using assms
  by (cases out) (auto simp: persist_or_restore_def persist_def set_memory_def store_shape_def)

lemma bind_case_shape:
  assumes "bind_case out st case_id variant_id = (res, st')"
  shows "store_shape st st'"
  using assms unfolding bind_case_def Let_def
  by (auto split: if_splits option.splits sum.splits intro: persist_or_restore_shape registry_change.bound)

lemma versioned_shape:
  assumes "set_versioned_cleanup out st enabled = (res, st')"
  shows "store_shape st st'"
  using assms registry_change.versioned [of "st_memory st" enabled]
  by (cases out) (auto simp: set_versioned_cleanup_def persist_def set_memory_def store_shape_def)

definition fresh_id :: "string \<Rightarrow> registry_store \<Rightarrow> bool" where
  "fresh_id uuid st \<longleftrightarrow> ''resource-'' @ uuid \<notin> rh_id ` set (rg_resources (st_memory st))"

lemma planned_handle_fields [simp]:
  "rh_id (planned_handle uuid plan b) = ''resource-'' @ uuid" "rh_kind (planned_handle uuid plan b) = rp_kind plan"
  "rh_name (planned_handle uuid plan b) = rp_name plan" "rh_owning_case_id (planned_handle uuid plan b) = rp_owning_case_id plan"
  "rh_variant_id (planned_handle uuid plan b) = fst b" "rh_ownership (planned_handle uuid plan b) = fst (snd b)"
  "rh_cleanup_scope (planned_handle uuid plan b) = snd (snd b)" "rh_state (planned_handle uuid plan b) = Planned"
  "rh_depends_on (planned_handle uuid plan b) = rp_depends_on plan"
  by (simp_all add: planned_handle_def)

lemma plan_internal_cases [consumes 1, case_names refused accepted]:
  assumes "plan_internal out uuid st plan = (res, st')"
  obtains (refused) "st' = st" "\<exists>e. res = Inl e"
  | (accepted) b where "persist_or_restore out st
        ((st_memory st)\<lparr>rg_resources := rg_resources (st_memory st) @ [planned_handle uuid plan b]\<rparr>) (planned_handle uuid plan b) = (res, st')"
      "set (rp_depends_on plan) \<subseteq> rh_id ` set (rg_resources (st_memory st))"
      "validate_dynamic_resource (rg_contract (st_memory st)) plan = Inr b"
      "\<forall>h \<in> set (rg_resources (st_memory st)). rh_kind h = rp_kind plan \<and> rh_name h = rp_name plan \<longrightarrow> rh_state h = Cleaned"
proof -
  let ?r = "st_memory st"
  show thesis
  proof (cases "find (\<lambda>d. d \<notin> rh_id ` set (rg_resources ?r)) (rp_depends_on plan)")
    case (Some d)
    with assms refused show thesis by (auto simp: plan_internal_def Let_def)
  next
    case None
    then have deps: "set (rp_depends_on plan) \<subseteq> rh_id ` set (rg_resources ?r)" by (auto simp: find_None_iff)
    show thesis
    proof (cases "validate_dynamic_resource (rg_contract ?r) plan")
      case (Inl e)
      with assms None refused show thesis by (auto simp: plan_internal_def Let_def)
    next
      case (Inr b)
      show thesis
      proof (cases "\<exists>h \<in> set (rg_resources ?r). rh_kind h = rp_kind plan \<and> rh_name h = rp_name plan \<and> rh_state h \<noteq> Cleaned")
        case True
        then show thesis using assms None Inr refused by (auto simp: plan_internal_def Let_def list_ex_iff)
      next
        case False
        have "plan_internal out uuid st plan = persist_or_restore out st
            (?r\<lparr>rg_resources := rg_resources ?r @ [planned_handle uuid plan b]\<rparr>) (planned_handle uuid plan b)"
          unfolding plan_internal_def Let_def list_ex_iff planned_handle_fields None Inr option.case sum.case if_not_P [OF False] ..
        with assms False accepted [OF _ deps Inr] show thesis by auto
      qed
    qed
  qed
qed

lemma plan_shape:
  assumes "plan_internal out uuid st plan = (res, st')" and "fresh_id uuid st"
  shows "store_shape st st'"
  using assms(1)
proof (cases rule: plan_internal_cases)
  case (accepted b)
  from persist_or_restore_shape [OF accepted(1)] registry_change.planned [OF accepted(2-4)] assms(2)
  show ?thesis by (simp add: fresh_id_def)
qed simp

lemma upload_shape:
  assumes "set_multipart_upload_id out st ident upload_id = (res, st')"
  shows "store_shape st st'"
  using assms unfolding set_multipart_upload_id_def
  by (auto split: if_splits option.splits intro: persist_or_restore_shape registry_change.uploaded)

lemma transition_shape:
  assumes "transition out st ident state last_error = (res, st')"
  shows "store_shape st st'"
  using assms unfolding transition_def
  by (auto split: if_splits option.splits intro: persist_or_restore_shape registry_change.moved)

subsection \<open>Reachable stores\<close>

inductive registry_step :: "registry_store \<Rightarrow> registry_store \<Rightarrow> bool" where
  bind: "bind_case out st case_id variant_id = (res, st') \<Longrightarrow> registry_step st st'"
| plan: "plan_internal out uuid st plan = (res, st') \<Longrightarrow> fresh_id uuid st \<Longrightarrow> registry_step st st'"
| upload: "set_multipart_upload_id out st ident upload_id = (res, st') \<Longrightarrow> registry_step st st'"
| move: "transition out st ident state last_error = (res, st') \<Longrightarrow> registry_step st st'"
| version: "set_versioned_cleanup out st enabled = (res, st') \<Longrightarrow> registry_step st st'"
| reload: "st_file st = Some r \<Longrightarrow> registry_step st (set_memory r st)"

inductive registry_reachable :: "registry_store \<Rightarrow> bool" where
  created: "registry_create out fl run_id fingerprint = (Inr r, fl') \<Longrightarrow>
    registry_reachable \<lparr>st_memory = r, st_file = fl'\<rparr>"
| stepped: "registry_reachable st \<Longrightarrow> registry_step st st' \<Longrightarrow> registry_reachable st'"

lemma registry_step_shape:
  assumes "registry_step st st'"
  shows "store_shape st st' \<or> (\<exists>r. st_file st = Some r \<and> st' = set_memory r st)"
  using assms
  by cases (auto dest: bind_case_shape plan_shape upload_shape transition_shape versioned_shape)

text \<open>A property of registries that every change keeps holds of the memory and the file of every reachable store.\<close>

lemma store_invariant:
  assumes "registry_reachable st"
    and create: "\<And>r. rg_resources r = [] \<Longrightarrow> rg_contract r = None \<Longrightarrow> I r"
    and step: "\<And>r r'. I r \<Longrightarrow> registry_change r r' \<Longrightarrow> I r'"
  shows "I (st_memory st) \<and> (\<exists>r. st_file st = Some r \<and> I r)"
  using assms(1)
proof (induction rule: registry_reachable.induct)
  case (created out fl run_id fingerprint r fl')
  then have r: "fl' = Some r" "rg_resources r = []" "rg_contract r = None"
    by (cases out; auto simp: registry_create_def persist_def Let_def)+
  with create [of r] show ?case by simp
next
  case (stepped st st')
  from registry_step_shape [OF stepped(2)] show ?case
  proof (elim disjE exE conjE)
    assume "store_shape st st'"
    then show ?thesis using stepped.IH step unfolding store_shape_def by (elim disjE exE conjE) auto
  next
    fix r
    assume "st_file st = Some r" "st' = set_memory r st"
    then show ?thesis using stepped.IH by (auto simp: set_memory_def)
  qed
qed

subsection \<open>The invariant\<close>

text \<open>The part of a handle that no operation changes.\<close>

definition handle_identity :: "ResourceHandle \<Rightarrow> ResourceHandle" where
  "handle_identity h = h\<lparr>rh_state := Planned, rh_last_error := None, rh_upload_id := None\<rparr>"

definition deps_earlier :: "ResourceHandle list \<Rightarrow> bool" where
  "deps_earlier rs \<longleftrightarrow> (\<forall>i < length rs. set (rh_depends_on (rs ! i)) \<subseteq> rh_id ` set (take i rs))"

definition active_unique :: "ResourceHandle list \<Rightarrow> bool" where
  "active_unique rs \<longleftrightarrow>
     sorted_wrt (\<lambda>g h. rh_kind g = rh_kind h \<and> rh_name g = rh_name h \<longrightarrow> rh_state g = Cleaned \<or> rh_state h = Cleaned) rs"

definition within_contract :: "ProtocolRegistryContract option \<Rightarrow> ResourceHandle \<Rightarrow> bool" where
  "within_contract contract h =
     (case contract of
        None \<Rightarrow> rh_variant_id h = None \<and> rh_ownership h = None \<and> rh_cleanup_scope h = None
      | Some k \<Rightarrow> rh_owning_case_id h = rc_case_id k \<and> rh_variant_id h = Some (rc_variant_id k) \<and>
          rh_ownership h = Some (fst (resource_contract k (rh_kind h))) \<and>
          rh_cleanup_scope h = Some (snd (resource_contract k (rh_kind h))) \<and>
          fst (resource_contract k (rh_kind h)) \<in> set (rc_ownership k) \<and>
          snd (resource_contract k (rh_kind h)) \<in> set (rc_cleanup_scopes k))"

definition catalog_contract :: "ProtocolRegistryContract option \<Rightarrow> bool" where
  "catalog_contract contract \<longleftrightarrow>
     (\<forall>k. contract = Some k \<longrightarrow> (\<exists>c. protocol_case (rc_case_id k) = Some c \<and> validate_protocol_case_descriptor c = Inr ()
        \<and> case_variant c (rc_variant_id k) \<noteq> None \<and> k = case_contract c (rc_case_id k) (rc_variant_id k)))"

definition registry_inv :: "ResourceRegistry \<Rightarrow> bool" where
  "registry_inv r \<longleftrightarrow> distinct (map rh_id (rg_resources r)) \<and> deps_earlier (rg_resources r) \<and> active_unique (rg_resources r)
     \<and> (\<forall>h \<in> set (rg_resources r). within_contract (rg_contract r) h) \<and> catalog_contract (rg_contract r)"

lemma update_first_split:
  assumes "find P xs = Some h"
  obtains us vs where "xs = us @ h # vs" "update_first P f xs = us @ f h # vs"
proof -
  have "\<exists>us vs. xs = us @ h # vs \<and> update_first P f xs = us @ f h # vs"
    using assms
  proof (induction xs)
    case (Cons x xs)
    show ?case
    proof (cases "P x")
      case True
      with Cons.prems show ?thesis by (intro exI [of _ "[]"] exI [of _ xs]) simp
    next
      case False
      with Cons.prems Cons.IH obtain us vs where "xs = us @ h # vs" "update_first P f xs = us @ f h # vs" by auto
      with False show ?thesis by (intro exI [of _ "x # us"] exI [of _ vs]) simp
    qed
  qed simp
  then show thesis using that by blast
qed

lemma deps_earlier_snoc:
  "deps_earlier (rs @ [h]) \<longleftrightarrow> deps_earlier rs \<and> set (rh_depends_on h) \<subseteq> rh_id ` set rs"
  unfolding deps_earlier_def by (auto simp: nth_append less_Suc_eq)

lemma deps_earlier_map:
  assumes "map handle_identity rs = map handle_identity rs'"
  shows "deps_earlier rs \<longleftrightarrow> deps_earlier rs'"
proof -
  have len: "length rs = length rs'" using assms by (metis length_map)
  have ids: "rh_id \<circ> handle_identity = rh_id" and deps: "rh_depends_on \<circ> handle_identity = rh_depends_on"
    by (auto simp: handle_identity_def fun_eq_iff)
  have "map rh_id rs = map rh_id rs'" using assms by (metis ids map_map)
  then have "rh_id ` set (take i rs) = rh_id ` set (take i rs')" for i by (metis set_map take_map)
  moreover have "map rh_depends_on rs = map rh_depends_on rs'" using assms by (metis deps map_map)
  then have "i < length rs \<Longrightarrow> rh_depends_on (rs ! i) = rh_depends_on (rs' ! i)" for i using len by (metis nth_map)
  ultimately show ?thesis unfolding deps_earlier_def using len by auto
qed

text \<open>An update that keeps the identity of a handle, and does not revive a cleaned one, keeps the invariant.\<close>

lemma registry_inv_update:
  assumes "registry_inv r" and "find_resource r ident = Some h" and "\<And>h. handle_identity (f h) = handle_identity h"
    and "rh_state (f h) = rh_state h \<or> rh_state h \<noteq> Cleaned"
  shows "registry_inv (with_resource r ident f)"
proof -
  obtain us vs where rs: "rg_resources r = us @ h # vs"
    "update_first (\<lambda>h. rh_id h = ident) f (rg_resources r) = us @ f h # vs"
    using update_first_split assms(2) unfolding find_resource_def by metis
  have new: "rg_resources (with_resource r ident f) = us @ f h # vs" "rg_contract (with_resource r ident f) = rg_contract r"
    by (simp_all add: with_resource_def rs(2))
  have m: "map handle_identity (us @ f h # vs) = map handle_identity (us @ h # vs)" by (simp add: assms(3))
  have fields: "rh_id (f h) = rh_id h" "rh_kind (f h) = rh_kind h" "rh_name (f h) = rh_name h"
    "rh_owning_case_id (f h) = rh_owning_case_id h" "rh_variant_id (f h) = rh_variant_id h"
    "rh_ownership (f h) = rh_ownership h" "rh_cleanup_scope (f h) = rh_cleanup_scope h"
    using assms(3) [of h] unfolding handle_identity_def by (metis (no_types, lifting) ResourceHandle.select_convs ResourceHandle.update_convs ResourceHandle.surjective)+
  have inv: "distinct (map rh_id (us @ h # vs))" "deps_earlier (us @ h # vs)" "active_unique (us @ h # vs)"
    "\<forall>h \<in> set (us @ h # vs). within_contract (rg_contract r) h" "catalog_contract (rg_contract r)"
    using assms(1) rs(1) by (simp_all add: registry_inv_def)
  have "active_unique (us @ f h # vs)"
    using inv(3) assms(4) fields(2,3) unfolding active_unique_def sorted_wrt_append by auto
  moreover have "deps_earlier (us @ f h # vs)" using inv(2) deps_earlier_map [OF m] by blast
  moreover have "within_contract (rg_contract r) (f h)" using inv(4) fields by (simp add: within_contract_def split: option.splits)
  ultimately show ?thesis using inv fields(1) unfolding registry_inv_def new by simp
qed

lemma registry_inv_create: "rg_resources r = [] \<Longrightarrow> rg_contract r = None \<Longrightarrow> registry_inv r"
  by (simp add: registry_inv_def deps_earlier_def active_unique_def catalog_contract_def)

lemma valid_transition_not_cleaned: "valid_transition s t \<Longrightarrow> s \<noteq> Cleaned"
  by (auto simp: valid_transition_def)

lemma planned_within_contract:
  assumes "validate_dynamic_resource contract plan = Inr b"
  shows "within_contract contract (planned_handle uuid plan b)"
  using assms
  by (auto simp: validate_dynamic_resource_def within_contract_def split: option.splits prod.splits)

lemma registry_inv_change:
  assumes "registry_inv r" and "registry_change r r'"
  shows "registry_inv r'"
  using assms(2,1)
proof cases
  case (bound case_id c variant_id)
  then show ?thesis using assms(1)
    by (auto simp: registry_inv_def catalog_contract_def case_contract_def deps_earlier_def active_unique_def)
next
  case (versioned enabled)
  then show ?thesis using assms(1) by (simp add: registry_inv_def)
next
  case (planned plan b uuid)
  have "active_unique (rg_resources r @ [planned_handle uuid plan b])"
    using assms(1) planned(4) by (auto simp: registry_inv_def active_unique_def sorted_wrt_append)
  moreover have "deps_earlier (rg_resources r @ [planned_handle uuid plan b])"
    using assms(1) planned(2) by (simp add: registry_inv_def deps_earlier_snoc)
  moreover have "distinct (map rh_id (rg_resources r @ [planned_handle uuid plan b]))"
    using assms(1) planned(5) by (simp add: registry_inv_def)
  ultimately show ?thesis using assms(1) planned_within_contract [OF planned(3)] unfolding planned(1) registry_inv_def by simp
next
  case (uploaded ident h upload_id)
  show ?thesis unfolding uploaded(1)
    by (rule registry_inv_update [OF assms(1) uploaded(2)]) (simp_all add: handle_identity_def)
next
  case (moved ident h state last_error)
  show ?thesis unfolding moved(1)
    by (rule registry_inv_update [OF assms(1) moved(2)])
      (simp_all add: handle_identity_def valid_transition_not_cleaned [OF moved(3)])
qed

lemma reachable_inv:
  assumes "registry_reachable st"
  shows "registry_inv (st_memory st)" and "\<exists>r. st_file st = Some r \<and> registry_inv r"
proof -
  have "registry_inv (st_memory st) \<and> (\<exists>r. st_file st = Some r \<and> registry_inv r)"
    using assms by (rule store_invariant) (rule registry_inv_create, assumption+, rule registry_inv_change)
  then show "registry_inv (st_memory st)" and "\<exists>r. st_file st = Some r \<and> registry_inv r" by blast+
qed

text \<open>
  C13: Registry invariant. In every reachable store, under any sequence of operations, failing writes and restarts from the file, the
  registry in memory and the one in the file have distinct identifiers, dependencies only on earlier resources, at most one
  resource of a kind and name that is not cleaned, and only resources its case is entitled to.
\<close>

theorem reachable_registry_inv:
  assumes "registry_reachable st"
  shows "registry_inv (st_memory st) \<and> (\<exists>r. st_file st = Some r \<and> registry_inv r)"
  using reachable_inv [OF assms] by blast

subsection \<open>Cleanup of a reachable registry\<close>

lemma deps_earlier_acyclic:
  assumes "distinct (map rh_id (rg_resources r))" and "deps_earlier (rg_resources r)"
  shows "acyclic (pending_dependency r)"
proof -
  let ?rs = "rg_resources r"
  let ?pos = "\<lambda>h. LEAST k. k < length ?rs \<and> ?rs ! k = h"
  have pos: "?pos h < length ?rs \<and> ?rs ! ?pos h = h" if "h \<in> set ?rs" for h
  proof (rule LeastI_ex)
    show "\<exists>k. k < length ?rs \<and> ?rs ! k = h" using that by (simp add: in_set_conv_nth)
  qed
  have "(h, g) \<in> inv_image less_than ?pos" if "(g, h) \<in> pending_dependency r" for g h
  proof -
    from that have gh: "g \<in> set ?rs" "h \<in> set ?rs" and dep: "rh_id h \<in> set (rh_depends_on g)"
      by (auto simp: pending_dependency_def)
    have "set (rh_depends_on (?rs ! ?pos g)) \<subseteq> rh_id ` set (take (?pos g) ?rs)"
      using assms(2) pos [OF gh(1)] unfolding deps_earlier_def by blast
    then have "rh_id h \<in> rh_id ` set (take (?pos g) ?rs)" using pos [OF gh(1)] dep by auto
    then obtain k where k: "k < ?pos g" "k < length ?rs" "rh_id (?rs ! k) = rh_id h" by (auto simp: in_set_conv_nth)
    have "inj_on rh_id (set ?rs)" using assms(1) by (simp add: distinct_map)
    from inj_onD [OF this k(3) nth_mem [OF k(2)] gh(2)] have "?rs ! k = h" .
    then have "?pos h \<le> k" using k(2) by (intro Least_le) simp
    with k(1) show ?thesis by simp
  qed
  then have "(pending_dependency r)\<inverse> \<subseteq> inv_image less_than ?pos" by auto
  then have "acyclic ((pending_dependency r)\<inverse>)" by (intro wf_acyclic) (blast intro: wf_subset wf_inv_image wf_less_than)
  then show ?thesis by (simp only: acyclic_converse)
qed

lemma registry_inv_order:
  assumes "registry_inv r"
  obtains out where "cleanup_order r = Some (Inr out)" "distinct (map rh_id out)"
    "set out = {h \<in> set (rg_resources r). rh_state h \<noteq> Cleaned}"
    "\<forall>j < length out. \<forall>i \<le> j. rh_id (out ! i) \<notin> set (rh_depends_on (out ! j))"
proof -
  from assms have d: "distinct (map rh_id (rg_resources r))" and e: "deps_earlier (rg_resources r)" by (simp_all add: registry_inv_def)
  show thesis
    using d
  proof (cases rule: cleanup_order_cases)
    case (unknown x)
    then obtain i where "i < length (rg_resources r)" "x \<in> set (rh_depends_on (rg_resources r ! i))" by (metis in_set_conv_nth)
    with e have "x \<in> rh_id ` set (take i (rg_resources r))" unfolding deps_earlier_def by blast
    with unknown(3) show thesis using set_take_subset [of i "rg_resources r"] by blast
  next
    case cycle
    with stuck_cyclic [OF d] deps_earlier_acyclic [OF d e] show thesis by blast
  next
    case (order out)
    have "set out = {h \<in> set (rg_resources r). rh_state h \<noteq> Cleaned}"
      using cleanup_order_members [OF d order(2,3)] by blast
    with order cleanup_order_dependents [OF d order(2,3)] cleanup_sequence_distinct(1) [OF order(2)] show thesis
      by (intro that) blast+
  qed
qed

text \<open>
  Cleanup can always be replayed. From every reachable store, also after a restart from the file, \<open>cleanup_order\<close> returns an
  order of exactly the resources that are not cleaned in which no resource comes after one it depends on.
\<close>

theorem reachable_cleanup_order:
  assumes "registry_reachable st" and "r = st_memory st \<or> st_file st = Some r"
  shows "\<exists>out. cleanup_order r = Some (Inr out) \<and> set out = {h \<in> set (rg_resources r). rh_state h \<noteq> Cleaned} \<and>
    (\<forall>j < length out. \<forall>i \<le> j. rh_id (out ! i) \<notin> set (rh_depends_on (out ! j)))"
proof -
  have "registry_inv r" using reachable_inv [OF assms(1)] assms(2) by auto
  then show ?thesis by (rule registry_inv_order) blast
qed

subsection \<open>Resources are not forgotten\<close>

definition records :: "ResourceRegistry \<Rightarrow> ResourceHandle \<Rightarrow> bool" where
  "records r h \<longleftrightarrow> handle_identity h \<in> handle_identity ` set (rg_resources r)"

lemma handle_identity_updates [simp]:
  "handle_identity (h\<lparr>rh_upload_id := x\<rparr>) = handle_identity h"
  "handle_identity (h\<lparr>rh_state := state, rh_last_error := e\<rparr>) = handle_identity h"
  by (simp_all add: handle_identity_def)

lemma update_first_identity:
  assumes "\<And>h. handle_identity (f h) = handle_identity h"
  shows "handle_identity ` set (update_first P f xs) = handle_identity ` set xs"
  by (induction xs) (auto simp: assms)

lemma records_change:
  assumes "registry_change r r'" and "records r h"
  shows "records r' h"
  using assms
  by cases (auto simp: records_def with_resource_def update_first_identity)

lemma records_step:
  assumes "registry_step st st'" and "records (st_memory st) h \<and> (\<exists>r. st_file st = Some r \<and> records r h)"
  shows "records (st_memory st') h \<and> (\<exists>r. st_file st' = Some r \<and> records r h)"
proof -
  from registry_step_shape [OF assms(1)] show ?thesis
  proof (elim disjE exE conjE)
    assume "store_shape st st'"
    then show ?thesis using assms(2) records_change unfolding store_shape_def by (elim disjE exE conjE) auto
  next
    fix r
    assume "st_file st = Some r" "st' = set_memory r st"
    then show ?thesis using assms(2) by (auto simp: set_memory_def)
  qed
qed

lemma persist_or_restore_Inr:
  "persist_or_restore out st changed v = (Inr w, st') \<longleftrightarrow>
     out = Persisted \<and> w = v \<and> st' = st\<lparr>st_memory := changed, st_file := Some changed\<rparr>"
  by (cases out) (auto simp: persist_or_restore_def persist_def set_memory_def)

definition atomic_outcome :: "registry_store \<Rightarrow> (registry_error + 'a) \<times> registry_store \<Rightarrow> bool" where
  "atomic_outcome st outcome =
     (case outcome of
        (Inl _, st') \<Rightarrow> st_memory st' = st_memory st
      | (Inr _, st') \<Rightarrow> st_file st' = Some (st_memory st'))"

lemma persist_or_restore_atomic [simp]: "atomic_outcome st (persist_or_restore out st changed v)"
  by (cases out) (auto simp: atomic_outcome_def persist_or_restore_def persist_def set_memory_def)

lemma atomic_refused [simp]: "atomic_outcome st (Inl e, st)"
  by (simp add: atomic_outcome_def)

text \<open>
  C22: A planned resource is never forgotten: once planning it succeeded, whatever operations, failing writes and restarts follow,
  memory and file both hold a handle of the same identity, kind, name, owner, dependencies and cleanup scope.
\<close>

theorem planned_resource_survives:
  assumes "plan_internal out uuid st plan = (Inr h, st')" and "registry_step\<^sup>*\<^sup>* st' st''"
  shows "records (st_memory st'') h \<and> (\<exists>r. st_file st'' = Some r \<and> records r h)"
  using assms(2)
proof (induction rule: rtranclp_induct)
  case base
  from assms(1) show ?case
  proof (cases rule: plan_internal_cases)
    case (accepted b)
    then show ?thesis unfolding persist_or_restore_Inr by (simp add: records_def)
  qed simp
next
  case (step y z)
  from records_step [OF step(2,3)] show ?case .
qed


text \<open>
  A bound registry cleans only what its case may clean: every resource in it belongs to a built-in case whose descriptor
  lists its ownership and cleanup scope, and the case holds the lock that the scope needs; a bucket is removed only by a
  case with the exclusive bucket lock that does not share its bucket.
\<close>

theorem bound_resources_entitled:
  assumes "registry_reachable st" and "rg_contract (st_memory st) = Some k" and "h \<in> set (rg_resources (st_memory st))"
  shows "\<exists>c scope ownership. protocol_case (rc_case_id k) = Some c \<and> rh_owning_case_id h = rc_case_id k \<and>
    rh_cleanup_scope h = Some scope \<and> rh_ownership h = Some ownership \<and> scope \<in> set (pc_cleanup_scopes c) \<and>
    ownership \<in> set (pc_ownership c) \<and> cleanup_allowed c scope \<and>
    (rh_kind h = ResourceKind.Bucket \<longrightarrow>
       exclusive_lock c ProtocolLockResource.Bucket \<and> SharedBucketPrefix \<notin> set (pc_ownership c))"
proof -
  from reachable_inv [OF assms(1)] have w: "within_contract (Some k) h" and "catalog_contract (Some k)"
    using assms(2,3) by (auto simp: registry_inv_def)
  then obtain c where c: "protocol_case (rc_case_id k) = Some c" "validate_protocol_case_descriptor c = Inr ()"
    and k: "k = case_contract c (rc_case_id k) (rc_variant_id k)" by (auto simp: catalog_contract_def)
  have sets: "rc_ownership k = pc_ownership c" "rc_cleanup_scopes k = pc_cleanup_scopes c"
    by (subst k, simp add: case_contract_def)+
  note d = descriptor_parts [OF c(2)]
  let ?rc = "resource_contract k (rh_kind h)"
  from w have h: "rh_owning_case_id h = rc_case_id k" "rh_cleanup_scope h = Some (snd ?rc)" "rh_ownership h = Some (fst ?rc)"
    "fst ?rc \<in> set (pc_ownership c)" "snd ?rc \<in> set (pc_cleanup_scopes c)" by (simp_all add: within_contract_def sets)
  have "exclusive_lock c ProtocolLockResource.Bucket \<and> SharedBucketPrefix \<notin> set (pc_ownership c)"
    if "rh_kind h = ResourceKind.Bucket"
  proof -
    have "snd ?rc = OwnedBucket" using that by (simp add: resource_contract_def)
    with h(5) d(4,5) show ?thesis by (force simp: cleanup_allowed_def)
  qed
  with c(1) h d(4) show ?thesis by blast
qed

end
