(* ===== verification/Registry_Demo.thy ===== *)
theory Registry_Demo
  imports Registry_Invariant
begin

text \<open>
  A registry on a concrete case: created, bound to a built-in case, and given a bucket and the objects in it.
  The witnesses of the registry's properties.
\<close>

definition demo_fingerprint :: TargetFingerprint where
  "demo_fingerprint = \<lparr>tf_endpoint = ''http://127.0.0.1:9000'', tf_region = ''us-east-1'', tf_deployment_id = ''deployment'',
     tf_server_mode = None, tf_reported_region = None, tf_sha256 = ''h''\<rparr>"

abbreviation demo_case_id :: string where
  "demo_case_id \<equiv> ''compat-object-put-get-delete''"

definition demo_registry :: ResourceRegistry where
  "demo_registry = \<lparr>rg_api_version = ''rustfs.com/s3chaos/v1alpha1'', rg_kind = ''ProtocolResourceRegistry'', rg_run_id = ''run'',
     rg_target_fingerprint = demo_fingerprint, rg_versioned_cleanup = False, rg_contract = None, rg_resources = []\<rparr>"

definition demo_bound :: registry_store where
  "demo_bound = snd (bind_case Persisted \<lparr>st_memory = demo_registry, st_file = Some demo_registry\<rparr> demo_case_id ''default'')"

definition demo_bucket :: registry_store where
  "demo_bucket = snd (plan_for_phase Persisted ''1'' demo_bound ResourceKind.Bucket ''bucket'' demo_case_id [] ''case'')"

definition demo_objects :: registry_store where
  "demo_objects = snd (plan_object_prefix_for_phase Persisted ''2'' demo_bucket ''bucket'' ''cases/'' demo_case_id [''resource-1''] ''case'')"

lemma demo_reachable: "registry_reachable demo_bucket" "registry_step demo_bucket demo_objects" "registry_reachable demo_objects"
proof -
  have "registry_create Persisted None ''run'' demo_fingerprint = (Inr demo_registry, Some demo_registry)"
    by (simp add: registry_create_def persist_def demo_registry_def Let_def)
  then have "registry_reachable \<lparr>st_memory = demo_registry, st_file = Some demo_registry\<rparr>" by (rule registry_reachable.created)
  moreover have "registry_step \<lparr>st_memory = demo_registry, st_file = Some demo_registry\<rparr> demo_bound"
    unfolding demo_bound_def by (rule registry_step.bind) (rule surjective_pairing)
  ultimately have bound: "registry_reachable demo_bound" by (rule registry_reachable.stepped)
  have "fresh_id ''1'' demo_bound" by code_simp
  then have "registry_step demo_bound demo_bucket"
    unfolding demo_bucket_def plan_for_phase_def by (rule registry_step.plan [OF surjective_pairing])
  with bound show b: "registry_reachable demo_bucket" by (rule registry_reachable.stepped)
  have "fresh_id ''2'' demo_bucket" by code_simp
  then show "registry_step demo_bucket demo_objects"
    unfolding demo_objects_def plan_object_prefix_for_phase_def by (rule registry_step.plan [OF surjective_pairing])
  with b show "registry_reachable demo_objects" by (rule registry_reachable.stepped)
qed

lemma demo_objects_ids: "map rh_id (rg_resources (st_memory demo_objects)) = [''resource-1'', ''resource-2'']"
  by code_simp

lemma demo_ids_distinct: "distinct (map rh_id (rg_resources (st_memory demo_objects)))"
  unfolding demo_objects_ids by simp

lemma demo_cleanup:
  "\<exists>out. cleanup_order (st_memory demo_objects) = Some (Inr out) \<and> map rh_id out = [''resource-2'', ''resource-1'']"
proof -
  have "map_option (\<lambda>res. case res of Inl _ \<Rightarrow> None | Inr out \<Rightarrow> Some (map rh_id out)) (cleanup_order (st_memory demo_objects)) =
      Some (Some [''resource-2'', ''resource-1''])"
    by code_simp
  then obtain res where res: "cleanup_order (st_memory demo_objects) = Some res"
    "(case res of Inl _ \<Rightarrow> None | Inr out \<Rightarrow> Some (map rh_id out)) = Some [''resource-2'', ''resource-1'']" by auto
  then show ?thesis by (cases res) auto
qed

subsection \<open>Witnesses\<close>

theorem cleanup_order_correct_witness:
  "\<exists>out. cleanup_order (st_memory demo_objects) = Some (Inr out) \<and> distinct (map rh_id out) \<and>
     set out = {h \<in> set (rg_resources (st_memory demo_objects)). rh_state h \<noteq> Cleaned}"
proof -
  from demo_cleanup obtain out where "cleanup_order (st_memory demo_objects) = Some (Inr out)" by blast
  with cleanup_order_correct [OF demo_ids_distinct this] show ?thesis by blast
qed

theorem cleanup_order_exists_iff_witness: "acyclic (pending_dependency (st_memory demo_objects))"
  using cleanup_order_exists_iff [OF demo_ids_distinct] demo_cleanup by blast

theorem reachable_registry_inv_witness:
  "registry_reachable demo_objects \<and> registry_inv (st_memory demo_objects)"
  using reachable_registry_inv [OF demo_reachable(3)] demo_reachable(3) by blast

theorem reachable_cleanup_order_witness:
  "\<exists>out. cleanup_order (st_memory demo_objects) = Some (Inr out) \<and>
     (\<forall>j < length out. \<forall>i \<le> j. rh_id (out ! i) \<notin> set (rh_depends_on (out ! j)))"
  using reachable_cleanup_order [OF demo_reachable(3), of "st_memory demo_objects"] by blast

theorem planned_resource_survives_witness:
  "\<exists>h. fst (plan_for_phase Persisted ''1'' demo_bound ResourceKind.Bucket ''bucket'' demo_case_id [] ''case'') = Inr h \<and>
     records (st_memory demo_objects) h"
proof -
  have "isl (fst (plan_for_phase Persisted ''1'' demo_bound ResourceKind.Bucket ''bucket'' demo_case_id [] ''case'')) = False"
    by code_simp
  then obtain h where h: "fst (plan_for_phase Persisted ''1'' demo_bound ResourceKind.Bucket ''bucket'' demo_case_id [] ''case'') = Inr h"
    by (metis isl_def sum.exhaust_sel)
  then have "plan_internal Persisted ''1'' demo_bound (base_plan ResourceKind.Bucket ''bucket'' demo_case_id ''case'' []) = (Inr h, demo_bucket)"
    unfolding demo_bucket_def plan_for_phase_def by (metis prod.collapse)
  moreover have "registry_step\<^sup>*\<^sup>* demo_bucket demo_objects" using demo_reachable(2) by (rule r_into_rtranclp)
  ultimately have "records (st_memory demo_objects) h" using planned_resource_survives by blast
  with h show ?thesis by blast
qed

theorem bound_resources_entitled_witness:
  "\<exists>k h. rg_contract (st_memory demo_objects) = Some k \<and> h \<in> set (rg_resources (st_memory demo_objects)) \<and>
     rh_owning_case_id h = rc_case_id k"
proof -
  have "rg_contract (st_memory demo_objects) \<noteq> None" by code_simp
  then obtain k where k: "rg_contract (st_memory demo_objects) = Some k" by blast
  have "rg_resources (st_memory demo_objects) \<noteq> []" using demo_objects_ids by auto
  then obtain h where h: "h \<in> set (rg_resources (st_memory demo_objects))" by (metis list.set_sel(1))
  from bound_resources_entitled [OF demo_reachable(3) k h] k h show ?thesis by blast
qed

end
