(* ===== verification/Registry_Driver.thy ===== *)
theory Registry_Driver
  imports Registry_Invariant
begin

text \<open>
  The cleanup of registered resources (\<open>src/src/protocol/fixture/cleanup.rs\<close>): every resource of the cleanup order is
  deleted with retries and verified to be absent, and the registry records the outcome. The S3, admin and identity
  provider clients are records of functions on an arbitrary state of the outside world, the type \<open>'w\<close>.
\<close>

subsection \<open>Clients\<close>

record ProtocolS3Error =
  s3_code :: string
  s3_status :: "nat option"
  s3_request_id :: "string option"

record ProtocolAdminError =
  ae_code :: string
  ae_status :: "nat option"
  ae_request_id :: "string option"
  ae_transient :: bool

record ProtocolExternalIdentityError =
  ee_code :: string
  ee_status :: "nat option"
  ee_transient :: bool

definition s3_is_transient :: "ProtocolS3Error \<Rightarrow> bool" where
  "s3_is_transient e \<longleftrightarrow>
     (case s3_status e of None \<Rightarrow> False | Some status \<Rightarrow> status = 408 \<or> status = 429 \<or> status \<ge> 500) \<or>
     s3_code e \<in> {''Timeout'', ''DispatchFailure'', ''ResponseError'', ''InternalError'', ''RequestTimeout'',
        ''ServiceUnavailable'', ''SlowDown''}"

text \<open>The operations of the clients that cleanup uses, and the passing of a number of milliseconds (\<open>tokio::time::sleep\<close>).\<close>

record 'w s3_cleanup_port =
  sp_bucket_names :: "string \<Rightarrow> 'w \<Rightarrow> (ProtocolS3Error + string list) \<times> 'w"
  sp_exclusive_bucket :: "string \<Rightarrow> bool \<Rightarrow> 'w \<Rightarrow> (ProtocolS3Error + unit) \<times> 'w"
  sp_object_prefix :: "string \<Rightarrow> string \<Rightarrow> bool \<Rightarrow> 'w \<Rightarrow> (ProtocolS3Error + unit) \<times> 'w"
  sp_object_prefix_exists :: "string \<Rightarrow> string \<Rightarrow> bool \<Rightarrow> 'w \<Rightarrow> (ProtocolS3Error + bool) \<times> 'w"
  sp_abort_multipart_upload :: "string \<Rightarrow> string \<Rightarrow> string \<Rightarrow> 'w \<Rightarrow> (ProtocolS3Error + unit) \<times> 'w"
  sp_multipart_upload_exists :: "string \<Rightarrow> string \<Rightarrow> string \<Rightarrow> 'w \<Rightarrow> (ProtocolS3Error + bool) \<times> 'w"
  sp_delete_bucket_policy :: "string \<Rightarrow> 'w \<Rightarrow> (ProtocolS3Error + unit) \<times> 'w"
  sp_bucket_policy_exists :: "string \<Rightarrow> 'w \<Rightarrow> (ProtocolS3Error + bool) \<times> 'w"
  sp_delete_public_access_block :: "string \<Rightarrow> 'w \<Rightarrow> (ProtocolS3Error + unit) \<times> 'w"
  sp_public_access_block_exists :: "string \<Rightarrow> 'w \<Rightarrow> (ProtocolS3Error + bool) \<times> 'w"

record 'w admin_cleanup_port =
  ap_users_with_prefix :: "string \<Rightarrow> 'w \<Rightarrow> (ProtocolAdminError + string list) \<times> 'w"
  ap_remove_user :: "string \<Rightarrow> 'w \<Rightarrow> (ProtocolAdminError + unit) \<times> 'w"
  ap_groups_with_prefix :: "string \<Rightarrow> 'w \<Rightarrow> (ProtocolAdminError + string list) \<times> 'w"
  ap_group_contains_member :: "string \<Rightarrow> string \<Rightarrow> 'w \<Rightarrow> (ProtocolAdminError + bool) \<times> 'w"
  ap_update_group_members :: "string \<Rightarrow> string list \<Rightarrow> bool \<Rightarrow> 'w \<Rightarrow> (ProtocolAdminError + unit) \<times> 'w"
  ap_remove_group :: "string \<Rightarrow> 'w \<Rightarrow> (ProtocolAdminError + unit) \<times> 'w"
  ap_policies_with_prefix :: "string \<Rightarrow> 'w \<Rightarrow> (ProtocolAdminError + string list) \<times> 'w"
  ap_remove_policy :: "string \<Rightarrow> 'w \<Rightarrow> (ProtocolAdminError + unit) \<times> 'w"
  ap_detach_policy :: "string \<Rightarrow> string \<Rightarrow> bool \<Rightarrow> 'w \<Rightarrow> (ProtocolAdminError + unit) \<times> 'w"
  ap_policy_attached :: "string \<Rightarrow> string \<Rightarrow> bool \<Rightarrow> 'w \<Rightarrow> (ProtocolAdminError + bool) \<times> 'w"
  ap_revoke_sts_sessions :: "string \<Rightarrow> string \<Rightarrow> 'w \<Rightarrow> (ProtocolAdminError + unit) \<times> 'w"
  ap_sts_sessions_with_parent :: "string \<Rightarrow> string \<Rightarrow> 'w \<Rightarrow> (ProtocolAdminError + string list) \<times> 'w"

record 'w external_identity_port =
  ep_coordinates :: ProtocolExternalIdentityCoordinates
  ep_subject_exists :: "string \<Rightarrow> 'w \<Rightarrow> (ProtocolExternalIdentityError + bool) \<times> 'w"
  ep_delete_subject :: "string \<Rightarrow> 'w \<Rightarrow> (ProtocolExternalIdentityError + unit) \<times> 'w"

record 'w cleanup_ports =
  cp_s3 :: "'w s3_cleanup_port"
  cp_admin :: "'w admin_cleanup_port"
  cp_external :: "'w external_identity_port option"
  cp_sleep :: "nat \<Rightarrow> 'w \<Rightarrow> 'w"

subsection \<open>Errors\<close>

datatype CleanupError =
    S3Failed ProtocolS3Error
  | AdminFailed ProtocolAdminError
  | ExternalIdentityFailed ProtocolExternalIdentityError
  | Contract string
  | NotConverged string

definition cleanup_is_transient :: "CleanupError \<Rightarrow> bool" where
  "cleanup_is_transient e =
     (case e of
        S3Failed error \<Rightarrow> s3_is_transient error
      | AdminFailed error \<Rightarrow> ae_transient error
      | ExternalIdentityFailed error \<Rightarrow> ee_transient error
      | Contract _ \<Rightarrow> False
      | NotConverged _ \<Rightarrow> True)"

definition is_not_found_for :: "CleanupError \<Rightarrow> ResourceKind \<Rightarrow> bool" where
  "is_not_found_for e kind =
     (case e of
        S3Failed error \<Rightarrow>
          (case kind of
             ResourceKind.BucketPolicy \<Rightarrow> s3_code error \<in> {''NoSuchBucketPolicy'', ''NoSuchBucket''}
           | ResourceKind.PublicAccessBlock \<Rightarrow> s3_code error \<in> {''NoSuchPublicAccessBlockConfiguration'', ''NoSuchBucket''}
           | ResourceKind.Bucket \<Rightarrow> s3_code error = ''NoSuchBucket''
           | ResourceKind.ObjectPrefix \<Rightarrow> s3_code error \<in> {''NoSuchBucket'', ''NoSuchKey''}
           | ResourceKind.MultipartUpload \<Rightarrow> s3_code error \<in> {''NoSuchBucket'', ''NoSuchUpload''}
           | _ \<Rightarrow> False)
      | AdminFailed error \<Rightarrow>
          (case kind of
             IamUser \<Rightarrow> ae_code error \<in> {''NoSuchUser'', ''NoSuchEntity''}
           | IamPolicy \<Rightarrow> ae_code error \<in> {''NoSuchPolicy'', ''NoSuchEntity''}
           | ResourceKind.IamGroup \<Rightarrow> ae_code error \<in> {''NoSuchGroup'', ''NoSuchEntity''}
           | IamPolicyAttachment \<Rightarrow> ae_code error \<in> {''NoSuchUser'', ''NoSuchGroup'', ''NoSuchPolicy'', ''NoSuchEntity''}
           | IamGroupMembership \<Rightarrow> ae_code error \<in> {''NoSuchUser'', ''NoSuchGroup'', ''NoSuchPolicy'', ''NoSuchEntity''}
           | ResourceKind.StsSession \<Rightarrow> ae_code error \<in> {''NoSuchUser'', ''NoSuchEntity''}
           | _ \<Rightarrow> False)
      | ExternalIdentityFailed error \<Rightarrow> kind = ExternalIdentitySubject \<and> ee_code error = ''NoSuchExternalIdentitySubject''
      | _ \<Rightarrow> False)"

definition status_text :: "nat option \<Rightarrow> string" where
  "status_text status = (case status of None \<Rightarrow> ''unknown'' | Some n \<Rightarrow> show_nat n)"

definition or_unknown :: "string option \<Rightarrow> string" where
  "or_unknown s = (case s of None \<Rightarrow> ''unknown'' | Some s \<Rightarrow> s)"

definition cleanup_error_text :: "CleanupError \<Rightarrow> string" where
  "cleanup_error_text e =
     (case e of
        S3Failed error \<Rightarrow> ''S3 cleanup failed: code='' @ s3_code error @ '' status='' @ status_text (s3_status error)
          @ '' request_id='' @ or_unknown (s3_request_id error)
      | AdminFailed error \<Rightarrow> ''admin request failed: code='' @ ae_code error @ '' status='' @ status_text (ae_status error)
          @ '' request_id='' @ or_unknown (ae_request_id error)
      | ExternalIdentityFailed error \<Rightarrow> ''external identity request failed: code='' @ ee_code error @ '' status=''
          @ status_text (ee_status error)
      | Contract message \<Rightarrow> message
      | NotConverged message \<Rightarrow> message)"

subsection \<open>Calls\<close>

text \<open>\<open>map_err(..)\<close> on the answer of a call, \<open>?\<close> on it, and \<open>ok_or_else(..)?\<close> on a coordinate of the resource.\<close>

type_synonym ('a, 'w) call = "'w \<Rightarrow> (CleanupError + 'a) \<times> 'w"

definition map_err :: "('e \<Rightarrow> CleanupError) \<Rightarrow> ('w \<Rightarrow> ('e + 'a) \<times> 'w) \<Rightarrow> ('a, 'w) call" where
  "map_err f c w = (case c w of (Inl e, w') \<Rightarrow> (Inl (f e), w') | (Inr a, w') \<Rightarrow> (Inr a, w'))"

definition and_then :: "('a, 'w) call \<Rightarrow> ('a \<Rightarrow> ('b, 'w) call) \<Rightarrow> ('b, 'w) call" where
  "and_then c k w = (case c w of (Inl e, w') \<Rightarrow> (Inl e, w') | (Inr a, w') \<Rightarrow> k a w')"

definition answer :: "CleanupError + 'a \<Rightarrow> ('a, 'w) call" where
  "answer r w = (r, w)"

definition required :: "'a option \<Rightarrow> string \<Rightarrow> ('a \<Rightarrow> ('b, 'w) call) \<Rightarrow> ('b, 'w) call" where
  "required x message k = (case x of None \<Rightarrow> answer (Inl (Contract message)) | Some a \<Rightarrow> k a)"

definition absent_unless :: "string \<Rightarrow> bool \<Rightarrow> (unit, 'w) call" where
  "absent_unless message exists = answer (if exists then Inl (NotConverged message) else Inr ())"

definition verify_exact_absence :: "ResourceHandle \<Rightarrow> string list \<Rightarrow> (unit, 'w) call" where
  "verify_exact_absence r names =
     absent_unless (kind_as_str (rh_kind r) @ '' '' @ rh_name r @ '' is still visible after deletion'') (rh_name r \<in> set names)"

definition verify_admin_absence ::
  "ResourceHandle \<Rightarrow> ('w \<Rightarrow> (ProtocolAdminError + string list) \<times> 'w) \<Rightarrow> (unit, 'w) call" where
  "verify_admin_absence r c = and_then (map_err AdminFailed c) (verify_exact_absence r)"

definition verify_external_identity :: "ResourceHandle \<Rightarrow> 'w external_identity_port \<Rightarrow> (unit, 'w) call" where
  "verify_external_identity r provider =
     required (rh_external_identity r) ''external identity subject omitted provider coordinates'' (\<lambda>expected.
       answer (if expected \<noteq> ep_coordinates provider then Inl (Contract ''external identity coordinates mismatch'') else Inr ()))"

definition multipart_upload_id :: "ResourceHandle \<Rightarrow> (string \<Rightarrow> ('a, 'w) call) \<Rightarrow> ('a, 'w) call" where
  "multipart_upload_id r k =
     required (rh_upload_id r) (''multipart upload '' @ rh_name r @ '' omitted uploadId; refusing unscoped cleanup'') k"

definition identity_provider_of :: "ResourceHandle \<Rightarrow> string" where
  "identity_provider_of r = (case rh_identity_provider r of None \<Rightarrow> ''builtin'' | Some p \<Rightarrow> p)"

definition verify_resource_absent :: "'w cleanup_ports \<Rightarrow> ResourceHandle \<Rightarrow> bool \<Rightarrow> (unit, 'w) call" where
  "verify_resource_absent ports r versioned_cleanup =
     (let s3 = cp_s3 ports; admin = cp_admin ports in
      case rh_kind r of
        ResourceKind.Bucket \<Rightarrow> and_then (map_err S3Failed (sp_bucket_names s3 (rh_name r))) (verify_exact_absence r)
      | ResourceKind.BucketPolicy \<Rightarrow>
          and_then (map_err S3Failed (sp_bucket_policy_exists s3 (rh_name r)))
            (absent_unless (''bucket policy '' @ rh_name r @ '' is still visible after deletion''))
      | ResourceKind.PublicAccessBlock \<Rightarrow>
          and_then (map_err S3Failed (sp_public_access_block_exists s3 (rh_name r)))
            (absent_unless (''public access block '' @ rh_name r @ '' is still visible after deletion''))
      | ExternalIdentitySubject \<Rightarrow>
          required (cp_external ports) ''external identity cleanup port is unavailable'' (\<lambda>provider.
          and_then (verify_external_identity r provider) (\<lambda>_.
          and_then (map_err ExternalIdentityFailed (ep_subject_exists provider (rh_name r)))
            (absent_unless (''external identity subject '' @ rh_name r @ '' is still visible after deletion''))))
      | ResourceKind.MultipartUpload \<Rightarrow>
          required (rh_bucket r) ''multipart upload resource omitted bucket'' (\<lambda>bucket.
          required (rh_key_prefix r) ''multipart upload resource omitted object key'' (\<lambda>key.
          multipart_upload_id r (\<lambda>upload_id.
          and_then (map_err S3Failed (sp_multipart_upload_exists s3 bucket key upload_id))
            (absent_unless (''multipart upload '' @ upload_id @ '' remains for '' @ bucket @ ''/'' @ key)))))
      | ResourceKind.ObjectPrefix \<Rightarrow>
          required (rh_bucket r) ''object prefix resource omitted bucket'' (\<lambda>bucket.
          required (rh_key_prefix r) ''object prefix resource omitted key prefix'' (\<lambda>key_prefix.
          and_then (map_err S3Failed (sp_object_prefix_exists s3 bucket key_prefix versioned_cleanup))
            (absent_unless (''object prefix '' @ bucket @ ''/'' @ key_prefix @ '' is still visible after cleanup''))))
      | IamUser \<Rightarrow> verify_admin_absence r (ap_users_with_prefix admin (rh_name r))
      | IamPolicy \<Rightarrow> verify_admin_absence r (ap_policies_with_prefix admin (rh_name r))
      | ResourceKind.IamGroup \<Rightarrow> verify_admin_absence r (ap_groups_with_prefix admin (rh_name r))
      | IamPolicyAttachment \<Rightarrow>
          required (rh_policy r) ''IAM policy attachment omitted policy'' (\<lambda>policy.
          required (rh_principal r) ''IAM policy attachment omitted principal'' (\<lambda>subject.
          required (rh_is_group r) ''IAM policy attachment omitted principal kind'' (\<lambda>is_group.
          and_then (map_err AdminFailed (ap_policy_attached admin policy subject is_group))
            (absent_unless (''IAM policy '' @ policy @ '' is still attached to '' @ subject)))))
      | IamGroupMembership \<Rightarrow>
          required (rh_group r) ''IAM group membership omitted group'' (\<lambda>grp.
          required (rh_member r) ''IAM group membership omitted member'' (\<lambda>member.
          and_then (map_err AdminFailed (ap_group_contains_member admin grp member))
            (absent_unless (''IAM user '' @ member @ '' is still a member of group '' @ grp))))
      | ResourceKind.StsSession \<Rightarrow>
          required (rh_principal r) ''STS session omitted parent access key'' (\<lambda>parent.
          and_then (map_err AdminFailed (ap_sts_sessions_with_parent admin parent (identity_provider_of r))) (\<lambda>sessions.
            absent_unless (show_nat (length sessions) @ '' STS session(s) remain for parent '' @ parent) (sessions \<noteq> []))))"

definition cleanup_resource :: "'w cleanup_ports \<Rightarrow> ResourceHandle \<Rightarrow> bool \<Rightarrow> (unit, 'w) call" where
  "cleanup_resource ports r versioned_cleanup =
     (let s3 = cp_s3 ports; admin = cp_admin ports in
      case rh_kind r of
        ResourceKind.BucketPolicy \<Rightarrow> map_err S3Failed (sp_delete_bucket_policy s3 (rh_name r))
      | ResourceKind.PublicAccessBlock \<Rightarrow> map_err S3Failed (sp_delete_public_access_block s3 (rh_name r))
      | ResourceKind.MultipartUpload \<Rightarrow>
          required (rh_bucket r) ''multipart upload resource omitted bucket'' (\<lambda>bucket.
          required (rh_key_prefix r) ''multipart upload resource omitted object key'' (\<lambda>key.
          multipart_upload_id r (\<lambda>upload_id. map_err S3Failed (sp_abort_multipart_upload s3 bucket key upload_id))))
      | ExternalIdentitySubject \<Rightarrow>
          required (cp_external ports) ''external identity cleanup port is unavailable'' (\<lambda>provider.
          and_then (verify_external_identity r provider) (\<lambda>_.
          map_err ExternalIdentityFailed (ep_delete_subject provider (rh_name r))))
      | ResourceKind.ObjectPrefix \<Rightarrow>
          required (rh_bucket r) ''object prefix resource omitted bucket'' (\<lambda>bucket.
          required (rh_key_prefix r) ''object prefix resource omitted key prefix'' (\<lambda>key_prefix.
          map_err S3Failed (sp_object_prefix s3 bucket key_prefix versioned_cleanup)))
      | ResourceKind.Bucket \<Rightarrow> map_err S3Failed (sp_exclusive_bucket s3 (rh_name r) versioned_cleanup)
      | IamPolicyAttachment \<Rightarrow>
          required (rh_policy r) ''IAM policy attachment omitted policy'' (\<lambda>policy.
          required (rh_principal r) ''IAM policy attachment omitted principal'' (\<lambda>subject.
          required (rh_is_group r) ''IAM policy attachment omitted principal kind'' (\<lambda>is_group.
          map_err AdminFailed (ap_detach_policy admin policy subject is_group))))
      | IamGroupMembership \<Rightarrow>
          required (rh_group r) ''IAM group membership omitted group'' (\<lambda>grp.
          required (rh_member r) ''IAM group membership omitted member'' (\<lambda>member.
          map_err AdminFailed (ap_update_group_members admin grp [member] True)))
      | IamPolicy \<Rightarrow> map_err AdminFailed (ap_remove_policy admin (rh_name r))
      | ResourceKind.IamGroup \<Rightarrow> map_err AdminFailed (ap_remove_group admin (rh_name r))
      | IamUser \<Rightarrow> map_err AdminFailed (ap_remove_user admin (rh_name r))
      | ResourceKind.StsSession \<Rightarrow>
          required (rh_principal r) ''STS session omitted parent access key'' (\<lambda>parent.
          map_err AdminFailed (ap_revoke_sts_sessions admin parent (identity_provider_of r))))"

subsection \<open>Retries\<close>

record ProtocolCleanupRetryPolicy =
  mutation_max_attempts :: nat
  verification_max_attempts :: nat
  initial_backoff_millis :: nat
  creating_settlement_attempts :: nat
  creating_settlement_interval_millis :: nat

definition standard_retry_policy :: ProtocolCleanupRetryPolicy where
  "standard_retry_policy =
     \<lparr>mutation_max_attempts = 4, verification_max_attempts = 8, initial_backoff_millis = 100,
      creating_settlement_attempts = 4, creating_settlement_interval_millis = 5000\<rparr>"

record ProtocolCleanupRetryObservation =
  ro_phase :: string
  ro_attempt :: nat
  ro_backoff_millis :: nat
  ro_error :: string

record CleanupSuccess =
  cs_retry_count :: nat
  cs_retry_history :: "ProtocolCleanupRetryObservation list"

record CleanupFailure =
  cf_retry_count :: nat
  cf_retry_history :: "ProtocolCleanupRetryObservation list"
  cf_error :: CleanupError

definition observed :: "CleanupSuccess \<Rightarrow> string \<Rightarrow> nat \<Rightarrow> nat \<Rightarrow> string \<Rightarrow> CleanupSuccess" where
  "observed s phase attempt backoff message =
     \<lparr>cs_retry_count = cs_retry_count s + 1,
      cs_retry_history = cs_retry_history s @
        [\<lparr>ro_phase = phase, ro_attempt = attempt, ro_backoff_millis = backoff, ro_error = message\<rparr>]\<rparr>"

definition failed_with :: "CleanupSuccess \<Rightarrow> CleanupError \<Rightarrow> CleanupFailure" where
  "failed_with s e = \<lparr>cf_retry_count = cs_retry_count s, cf_retry_history = cs_retry_history s, cf_error = e\<rparr>"

text \<open>
  The loops of \<open>cleanup_resource_with_retry\<close> over the deletion and over its verification differ in the call, the phase, the
  number of attempts and the errors that end the loop as a success. The count and history so far are a \<open>CleanupSuccess\<close>;
  the attempt number is the one after the increment at the top of the loop.
\<close>

function retry_loop ::
  "'w cleanup_ports \<Rightarrow> string \<Rightarrow> nat \<Rightarrow> (CleanupError \<Rightarrow> bool) \<Rightarrow> (unit, 'w) call \<Rightarrow> nat \<Rightarrow> CleanupSuccess \<Rightarrow> 'w
     \<Rightarrow> (CleanupFailure + CleanupSuccess) \<times> 'w" where
  "retry_loop ports phase max_attempts accepted call attempt s w =
     (case call w of
        (Inr _, w') \<Rightarrow> (Inr s, w')
      | (Inl e, w') \<Rightarrow>
          if accepted e then (Inr s, w')
          else if cleanup_is_transient e \<and> attempt < max_attempts
          then let backoff = initial_backoff_millis standard_retry_policy * 2 ^ (attempt - 1)
               in retry_loop ports phase max_attempts accepted call (attempt + 1)
                    (observed s phase attempt backoff (cleanup_error_text e)) (cp_sleep ports backoff w')
          else (Inl (failed_with s e), w'))"
  by pat_completeness auto
termination by (relation "measure (\<lambda>(_, _, max_attempts, _, _, attempt, _, _). max_attempts - attempt)") auto

declare retry_loop.simps [simp del]

definition mutation_phase where
  "mutation_phase ports r versioned_cleanup =
     retry_loop ports ''mutation'' (mutation_max_attempts standard_retry_policy) (\<lambda>e. is_not_found_for e (rh_kind r))
       (cleanup_resource ports r versioned_cleanup) 1"

definition verification_phase where
  "verification_phase ports r versioned_cleanup =
     retry_loop ports ''verification'' (verification_max_attempts standard_retry_policy) (\<lambda>_. False)
       (verify_resource_absent ports r versioned_cleanup) 1"

text \<open>
  The attempts of \<open>settle_canceled_creation\<close> from \<open>attempt\<close> on. Every branch of the last attempt returns, so the end of the
  loop is not reached.
\<close>

function settle_from ::
  "'w cleanup_ports \<Rightarrow> ResourceHandle \<Rightarrow> bool \<Rightarrow> nat \<Rightarrow> CleanupSuccess \<Rightarrow> 'w \<Rightarrow> (CleanupFailure + CleanupSuccess) \<times> 'w" where
  "settle_from ports r versioned_cleanup attempt s w =
     (let interval = creating_settlement_interval_millis standard_retry_policy;
          is_last = \<not> attempt < creating_settlement_attempts standard_retry_policy;
          (mutation, w1) = cleanup_resource ports r versioned_cleanup (cp_sleep ports interval w);
          rejected = (case mutation of Inr _ \<Rightarrow> None | Inl e \<Rightarrow> if is_not_found_for e (rh_kind r) then None else Some e)
      in case rejected of
        Some e \<Rightarrow>
          (let s' = observed s ''creating-settlement-mutation'' attempt interval (cleanup_error_text e)
           in if \<not> cleanup_is_transient e \<or> is_last then (Inl (failed_with s' e), w1)
              else settle_from ports r versioned_cleanup (attempt + 1) s' w1)
      | None \<Rightarrow>
          (let (verification, w2) = verify_resource_absent ports r versioned_cleanup w1 in
           case verification of
             Inr _ \<Rightarrow>
               if is_last then (Inr s, w2)
               else settle_from ports r versioned_cleanup (attempt + 1)
                 (observed s ''creating-settlement-verification'' attempt interval
                   ''absence must remain stable until the cancellation settlement window closes'') w2
           | Inl e \<Rightarrow>
               (let s' = observed s ''creating-settlement-verification'' attempt interval (cleanup_error_text e)
                in if \<not> cleanup_is_transient e \<or> is_last then (Inl (failed_with s' e), w2)
                   else settle_from ports r versioned_cleanup (attempt + 1) s' w2)))"
  by pat_completeness auto
termination
  by (relation "measure (\<lambda>(_, _, _, attempt, _, _). creating_settlement_attempts standard_retry_policy - attempt)") auto

declare settle_from.simps [simp del]

definition settle_canceled_creation where
  "settle_canceled_creation ports r versioned_cleanup = settle_from ports r versioned_cleanup 1"

definition cleanup_resource_with_retry ::
  "'w cleanup_ports \<Rightarrow> ResourceHandle \<Rightarrow> bool \<Rightarrow> 'w \<Rightarrow> (CleanupFailure + CleanupSuccess) \<times> 'w" where
  "cleanup_resource_with_retry ports r versioned_cleanup w =
     (case mutation_phase ports r versioned_cleanup \<lparr>cs_retry_count = 0, cs_retry_history = []\<rparr> w of
        (Inl failure, w1) \<Rightarrow> (Inl failure, w1)
      | (Inr s1, w1) \<Rightarrow>
          (case verification_phase ports r versioned_cleanup s1 w1 of
             (Inl failure, w2) \<Rightarrow> (Inl failure, w2)
           | (Inr s2, w2) \<Rightarrow>
               if rh_state r = Creating then settle_canceled_creation ports r versioned_cleanup s2 w2
               else (Inr s2, w2)))"

subsection \<open>The driver\<close>

text \<open>The parts of the error text of an attempt, which the code joins with semicolons.\<close>

datatype cleanup_attempt_error =
    CleanupOrder registry_error
  | RecordCleanupStart registry_error
  | CleanupRejected string
  | RecordCleanupResult registry_error

record ProtocolCleanupAttempt =
  ca_resource_id :: string
  ca_resource_kind :: string
  ca_resource_name :: string
  ca_retry_count :: nat
  ca_retry_history :: "ProtocolCleanupRetryObservation list"
  ca_succeeded :: bool
  ca_error :: "cleanup_attempt_error list"

record ProtocolCleanupReport =
  cr_api_version :: string
  cr_kind :: string
  cr_attempts :: "ProtocolCleanupAttempt list"
  cr_leftovers :: "string list"
  cr_succeeded :: bool

definition empty_report :: "string \<Rightarrow> ProtocolCleanupReport" where
  "empty_report api_version =
     \<lparr>cr_api_version = api_version, cr_kind = ''ProtocolCleanupReport'', cr_attempts = [], cr_leftovers = [], cr_succeeded = True\<rparr>"

definition append_report :: "ProtocolCleanupReport \<Rightarrow> ProtocolCleanupReport \<Rightarrow> ProtocolCleanupReport" where
  "append_report report other =
     report\<lparr>cr_attempts := cr_attempts report @ cr_attempts other, cr_leftovers := cr_leftovers report @ cr_leftovers other,
       cr_succeeded := cr_succeeded report \<and> cr_succeeded other\<rparr>"

text \<open>An old STS session without a parent takes the name of the first user it depends on.\<close>

fun find_map :: "('a \<Rightarrow> 'b option) \<Rightarrow> 'a list \<Rightarrow> 'b option" where
  "find_map f [] = None"
| "find_map f (x # xs) = (case f x of None \<Rightarrow> find_map f xs | Some y \<Rightarrow> Some y)"

definition with_parent :: "ResourceRegistry \<Rightarrow> ResourceHandle \<Rightarrow> ResourceHandle" where
  "with_parent registry r =
     (if rh_kind r = ResourceKind.StsSession \<and> rh_principal r = None
      then r\<lparr>rh_principal := find_map (\<lambda>dependency. map_option rh_name
               (find (\<lambda>candidate. rh_id candidate = dependency \<and> rh_kind candidate = IamUser) (rg_resources registry)))
             (rh_depends_on r)\<rparr>
      else r)"

definition attempt_errors ::
  "registry_error + unit \<Rightarrow> CleanupFailure + CleanupSuccess \<Rightarrow> registry_error + unit \<Rightarrow> cleanup_attempt_error list" where
  "attempt_errors start_result cleanup_result finish_result =
     (case start_result of Inl e \<Rightarrow> [RecordCleanupStart e] | Inr _ \<Rightarrow> []) @
     (case cleanup_result of Inl failure \<Rightarrow> [CleanupRejected (cleanup_error_text (cf_error failure))] | Inr _ \<Rightarrow> []) @
     (case finish_result of Inl e \<Rightarrow> [RecordCleanupResult e] | Inr _ \<Rightarrow> [])"

definition cleanup_one ::
  "'w cleanup_ports \<Rightarrow> bool \<Rightarrow> persist_outcome \<times> persist_outcome \<Rightarrow> ResourceHandle \<Rightarrow> registry_store \<Rightarrow> 'w
     \<Rightarrow> ProtocolCleanupAttempt \<times> registry_store \<times> 'w" where
  "cleanup_one ports versioned_cleanup out r st w =
     (let (start_result, st1) =
            (if rh_state r = CleanupAttempted then (Inr (), st) else transition (fst out) st (rh_id r) CleanupAttempted None);
          (cleanup_result, w') = cleanup_resource_with_retry ports r versioned_cleanup w;
          state = (case cleanup_result of Inr _ \<Rightarrow> Cleaned | Inl _ \<Rightarrow> Failed);
          cleanup_error = (case cleanup_result of Inr _ \<Rightarrow> None | Inl failure \<Rightarrow> Some (cleanup_error_text (cf_error failure)));
          (finish_result, st2) =
            (case start_result of Inr _ \<Rightarrow> transition (snd out) st1 (rh_id r) state cleanup_error | Inl _ \<Rightarrow> (Inr (), st1));
          errors = attempt_errors start_result cleanup_result finish_result
      in (\<lparr>ca_resource_id = rh_id r, ca_resource_kind = kind_as_str (rh_kind r), ca_resource_name = rh_name r,
           ca_retry_count = (case cleanup_result of Inr s \<Rightarrow> cs_retry_count s | Inl failure \<Rightarrow> cf_retry_count failure),
           ca_retry_history = (case cleanup_result of Inr s \<Rightarrow> cs_retry_history s | Inl failure \<Rightarrow> cf_retry_history failure),
           ca_succeeded = (errors = []), ca_error = errors\<rparr>, st2, w'))"

text \<open>The outcomes of writing the registry file before and after each attempt are the function \<open>outs\<close> of its position.\<close>

fun cleanup_each ::
  "'w cleanup_ports \<Rightarrow> bool \<Rightarrow> (nat \<Rightarrow> persist_outcome \<times> persist_outcome) \<Rightarrow> ResourceHandle list \<Rightarrow> registry_store \<Rightarrow> 'w
     \<Rightarrow> ProtocolCleanupAttempt list \<times> registry_store \<times> 'w" where
  "cleanup_each ports versioned_cleanup outs [] st w = ([], st, w)"
| "cleanup_each ports versioned_cleanup outs (r # rs) st w =
     (let (attempt, st1, w1) = cleanup_one ports versioned_cleanup (outs 0) r st w;
          (attempts, st2, w2) = cleanup_each ports versioned_cleanup (\<lambda>i. outs (Suc i)) rs st1 w1
      in (attempt # attempts, st2, w2))"

definition cleanup_registered_resources ::
  "'w cleanup_ports \<Rightarrow> string \<Rightarrow> (nat \<Rightarrow> persist_outcome \<times> persist_outcome) \<Rightarrow> registry_store \<Rightarrow> 'w
     \<Rightarrow> (ProtocolCleanupReport \<times> registry_store \<times> 'w) option" where
  "cleanup_registered_resources ports path outs st w =
     (let registry = st_memory st in
      map_option (\<lambda>order.
        case order of
          Inl e \<Rightarrow>
            (\<lparr>cr_api_version = rg_api_version registry, cr_kind = ''ProtocolCleanupReport'',
              cr_attempts = [\<lparr>ca_resource_id = ''registry'', ca_resource_kind = ''registry'', ca_resource_name = path,
                ca_retry_count = 0, ca_retry_history = [], ca_succeeded = False, ca_error = [CleanupOrder e]\<rparr>],
              cr_leftovers = map rh_id (pending_cleanup registry), cr_succeeded = False\<rparr>, st, w)
        | Inr resources \<Rightarrow>
            (let (attempts, st', w') = cleanup_each ports (rg_versioned_cleanup registry) outs (map (with_parent registry) resources) st w;
                 leftovers = map rh_id (pending_cleanup (st_memory st'))
             in (\<lparr>cr_api_version = rg_api_version (st_memory st'), cr_kind = ''ProtocolCleanupReport'', cr_attempts = attempts,
                  cr_leftovers = leftovers, cr_succeeded = (leftovers = [])\<rparr>, st', w')))
        (cleanup_order registry))"

end
