(* ===== verification/Driver_Correctness.thy ===== *)
theory Driver_Correctness
  imports Registry_Driver
begin

text \<open>
  The cleanup driver: retries are bounded, a success rests on a verified absence, the registry marks a resource as cleaned
  only on such a success, and with working storage and cooperating clients everything is cleaned.
\<close>

subsection \<open>Retries\<close>

text \<open>The count and history an outcome reports, and the time it slept.\<close>

definition progress_of :: "CleanupFailure + CleanupSuccess \<Rightarrow> CleanupSuccess" where
  "progress_of res =
     (case res of Inr s \<Rightarrow> s | Inl f \<Rightarrow> \<lparr>cs_retry_count = cf_retry_count f, cs_retry_history = cf_retry_history f\<rparr>)"

definition total_backoff :: "CleanupSuccess \<Rightarrow> nat" where
  "total_backoff s = sum_list (map ro_backoff_millis (cs_retry_history s))"

definition counted :: "CleanupSuccess \<Rightarrow> bool" where
  "counted s \<longleftrightarrow> cs_retry_count s = length (cs_retry_history s)"

lemma progress_simps [simp]:
  "progress_of (Inr s) = s" "progress_of (Inl (failed_with s e)) = s"
  "counted (observed s phase attempt backoff message) = counted s"
  "total_backoff (observed s phase attempt backoff message) = total_backoff s + backoff"
  "cs_retry_count (observed s phase attempt backoff message) = cs_retry_count s + 1"
  by (simp_all add: progress_of_def failed_with_def observed_def counted_def total_backoff_def)

lemma retry_loop_bounds:
  assumes "retry_loop ports phase m accepted call attempt s w = (res, w')" and "counted s" and "0 < attempt" "attempt \<le> m"
  shows "counted (progress_of res) \<and> cs_retry_count (progress_of res) + attempt \<le> cs_retry_count s + m \<and>
    total_backoff (progress_of res) + 100 * 2 ^ (attempt - 1) \<le> total_backoff s + 100 * 2 ^ (m - 1)"
  using assms
proof (induction ports phase m accepted call attempt s w rule: retry_loop.induct)
  case (1 ports phase m accepted call attempt s w)
  obtain answer u where call: "call w = (answer, u)" by (metis surj_pair)
  have pow: "(2::nat) ^ (attempt - 1) \<le> 2 ^ (m - 1)" using 1(5) by (intro power_increasing) auto
  show ?case
  proof (cases "\<exists>e. answer = Inl e \<and> \<not> accepted e \<and> cleanup_is_transient e \<and> attempt < m")
    case False
    with 1(2) call have "progress_of res = s" by (cases answer) (auto simp: retry_loop.simps split: if_splits)
    with 1(3,5) pow show ?thesis by simp
  next
    case True
    then obtain e where e: "answer = Inl e" "\<not> accepted e" "cleanup_is_transient e" "attempt < m" by blast
    let ?b = "initial_backoff_millis standard_retry_policy * 2 ^ (attempt - 1)"
    let ?s = "observed s phase attempt ?b (cleanup_error_text e)"
    have "retry_loop ports phase m accepted call (attempt + 1) ?s (cp_sleep ports ?b u) = (res, w')"
      using 1(2) call e by (simp add: retry_loop.simps [of ports phase m accepted call attempt s w] Let_def)
    from 1(1) [OF call [symmetric] e(1,2) conjI [OF e(3,4)] refl this] 1(3) e(4)
    have "counted (progress_of res)" "cs_retry_count (progress_of res) + (attempt + 1) \<le> cs_retry_count ?s + m"
      and t: "total_backoff (progress_of res) + 100 * 2 ^ attempt \<le> total_backoff ?s + 100 * 2 ^ (m - 1)" by auto
    moreover have "(2::nat) ^ attempt = 2 * 2 ^ (attempt - 1)" using 1(4) by (cases attempt) auto
    ultimately show ?thesis by (simp add: standard_retry_policy_def)
  qed
qed

lemma settle_from_cases [consumes 1, case_names again settled failed]:
  assumes "settle_from ports r v attempt s w = (res, w')"
  obtains (again) phase message u where "attempt < 4"
      "settle_from ports r v (attempt + 1) (observed s phase attempt 5000 message) u = (res, w')"
  | (settled) u where "\<not> attempt < 4" "res = Inr s" "verify_resource_absent ports r v u = (Inr (), w')"
  | (failed) phase message e where "res = Inl (failed_with (observed s phase attempt 5000 message) e)"
proof -
  obtain m w1 where m: "cleanup_resource ports r v (cp_sleep ports 5000 w) = (m, w1)" by (metis surj_pair)
  obtain x w2 where x: "verify_resource_absent ports r v w1 = (x, w2)" by (metis surj_pair)
  note unfolded = assms [unfolded settle_from.simps [of ports r v attempt s w] standard_retry_policy_def Let_def]
  show thesis
  proof (cases "\<exists>e. m = Inl e \<and> \<not> is_not_found_for e (rh_kind r)")
    case True
    with unfolded m again failed show thesis by (auto split: if_splits)
  next
    case False
    then have "(case m of Inr _ \<Rightarrow> None | Inl e \<Rightarrow> if is_not_found_for e (rh_kind r) then None else Some e) = None"
      by (auto split: sum.splits)
    with unfolded m x again settled failed show thesis by (auto split: if_splits sum.splits)
  qed
qed

lemma settle_from_bounds:
  assumes "settle_from ports r v attempt s w = (res, w')" and "counted s" and "attempt \<le> 4"
  shows "counted (progress_of res) \<and> cs_retry_count (progress_of res) + attempt \<le> cs_retry_count s + 5 \<and>
    total_backoff (progress_of res) + 5000 * attempt \<le> total_backoff s + 25000"
  using assms
proof (induction "4 - attempt" arbitrary: attempt s w rule: less_induct)
  case less
  from less.prems(1) show ?case
  proof (cases rule: settle_from_cases)
    case (again phase message u)
    have "4 - (attempt + 1) < 4 - attempt" using again(1) by simp
    from less.hyps [OF this again(2)] less.prems(2) again(1) show ?thesis by auto
  qed (use less.prems(2,3) in auto)
qed

lemma settle_from_success:
  assumes "settle_from ports r v attempt s w = (Inr s', w')"
  shows "\<exists>u. verify_resource_absent ports r v u = (Inr (), w')"
  using assms
proof (induction "4 - attempt" arbitrary: attempt s w rule: less_induct)
  case less
  from less.prems show ?case
  proof (cases rule: settle_from_cases)
    case (again phase message u)
    then show ?thesis using less.hyps [of "attempt + 1"] by simp
  qed auto
qed

lemma retry_loop_success:
  assumes "retry_loop ports phase m accepted call attempt s w = (Inr s', w')"
  shows "\<exists>u. call u = (Inr (), w') \<or> (\<exists>e. call u = (Inl e, w') \<and> accepted e)"
  using assms
proof (induction ports phase m accepted call attempt s w rule: retry_loop.induct)
  case (1 ports phase m accepted call attempt s w)
  obtain answer u where call: "call w = (answer, u)" by (metis surj_pair)
  show ?case
  proof (cases "\<exists>e. answer = Inl e \<and> \<not> accepted e")
    case False
    with 1(2) call show ?thesis by (cases answer) (auto simp: retry_loop.simps [of ports phase m accepted call attempt s w])
  next
    case True
    then obtain e where e: "answer = Inl e" "\<not> accepted e" by blast
    from 1(2) call e have t: "cleanup_is_transient e \<and> attempt < m"
      by (auto simp: retry_loop.simps [of ports phase m accepted call attempt s w] split: if_splits)
    from 1(1) [OF call [symmetric] e t refl] 1(2) call e t show ?thesis
      by (simp add: retry_loop.simps [of ports phase m accepted call attempt s w] Let_def)
  qed
qed

text \<open>The phases of \<open>cleanup_resource_with_retry\<close>.\<close>

lemma cleanup_with_retry_cases [consumes 1, case_names mutation verification verified settling]:
  assumes "cleanup_resource_with_retry ports r v w = (res, w')"
  obtains (mutation) f where "mutation_phase ports r v \<lparr>cs_retry_count = 0, cs_retry_history = []\<rparr> w = (Inl f, w')" "res = Inl f"
  | (verification) s1 w1 f where "mutation_phase ports r v \<lparr>cs_retry_count = 0, cs_retry_history = []\<rparr> w = (Inr s1, w1)"
      "verification_phase ports r v s1 w1 = (Inl f, w')" "res = Inl f"
  | (verified) s1 w1 s2 where "mutation_phase ports r v \<lparr>cs_retry_count = 0, cs_retry_history = []\<rparr> w = (Inr s1, w1)"
      "verification_phase ports r v s1 w1 = (Inr s2, w')" "rh_state r \<noteq> Creating" "res = Inr s2"
  | (settling) s1 w1 s2 w2 where "mutation_phase ports r v \<lparr>cs_retry_count = 0, cs_retry_history = []\<rparr> w = (Inr s1, w1)"
      "verification_phase ports r v s1 w1 = (Inr s2, w2)" "rh_state r = Creating"
      "settle_canceled_creation ports r v s2 w2 = (res, w')"
  using assms unfolding cleanup_resource_with_retry_def by (auto split: prod.splits sum.splits if_splits)

lemma cleanup_verified:
  assumes "cleanup_resource_with_retry ports r v w = (Inr s, w')"
  shows "\<exists>u. verify_resource_absent ports r v u = (Inr (), w')"
  using assms
proof (cases rule: cleanup_with_retry_cases)
  case (verified s1 w1 s2)
  from retry_loop_success [OF verified(2) [unfolded verification_phase_def]] show ?thesis by simp
next
  case (settling s1 w1 s2 w2)
  from settle_from_success [OF settling(4) [unfolded settle_canceled_creation_def]] show ?thesis .
qed simp_all

text \<open>
  C26: Retries are bounded. Cleaning one resource, whatever the clients answer, retries at most 14 times, reports as many
  observations as retries, and sleeps at most 33.4 seconds in the observations it reports.
\<close>

theorem cleanup_retries_bounded:
  assumes "cleanup_resource_with_retry ports r v w = (res, w')"
  shows "cs_retry_count (progress_of res) = length (cs_retry_history (progress_of res)) \<and>
    cs_retry_count (progress_of res) \<le> 14 \<and> total_backoff (progress_of res) \<le> 33400"
proof -
  have start: "counted \<lparr>cs_retry_count = 0, cs_retry_history = []\<rparr>" by (simp add: counted_def)
  have m: "counted (progress_of res1) \<and> cs_retry_count (progress_of res1) \<le> 3 \<and> total_backoff (progress_of res1) \<le> 700"
    if "mutation_phase ports r v \<lparr>cs_retry_count = 0, cs_retry_history = []\<rparr> w = (res1, w1)" for res1 w1
    using retry_loop_bounds [OF that [unfolded mutation_phase_def] start] by (simp add: standard_retry_policy_def total_backoff_def)
  have x: "counted (progress_of res2) \<and> cs_retry_count (progress_of res2) \<le> 10 \<and> total_backoff (progress_of res2) \<le> 13400"
    if "mutation_phase ports r v \<lparr>cs_retry_count = 0, cs_retry_history = []\<rparr> w = (Inr s1, w1)"
      "verification_phase ports r v s1 w1 = (res2, w2)" for s1 w1 res2 w2
    using retry_loop_bounds [OF that(2) [unfolded verification_phase_def]] m [OF that(1)] by (simp add: standard_retry_policy_def)
  have "counted (progress_of res) \<and> cs_retry_count (progress_of res) \<le> 14 \<and> total_backoff (progress_of res) \<le> 33400"
    using assms
  proof (cases rule: cleanup_with_retry_cases)
    case (mutation f)
    with m [OF mutation(1)] show ?thesis by simp
  next
    case (verification s1 w1 f)
    with x [OF verification(1,2)] show ?thesis by simp
  next
    case (verified s1 w1 s2)
    with x [OF verified(1,2)] show ?thesis by simp
  next
    case (settling s1 w1 s2 w2)
    with x [OF settling(1,2)] settle_from_bounds [OF settling(4) [unfolded settle_canceled_creation_def]] show ?thesis by simp
  qed
  then show ?thesis by (simp add: counted_def)
qed

subsection \<open>The registry during cleanup\<close>

lemma transition_store:
  assumes "transition out st ident state e = (res, st')"
  defines "c \<equiv> with_resource (st_memory st) ident (\<lambda>h. h\<lparr>rh_state := state, rh_last_error := e\<rparr>)"
  shows "(st_memory st' = st_memory st \<or> st_memory st' = c) \<and> (st_file st' = st_file st \<or> st_file st' = Some c)"
  using assms(1) unfolding transition_def c_def
  by (cases out) (auto simp: persist_or_restore_def persist_def set_memory_def split: option.splits if_splits)

text \<open>The identifiers that memory or file call cleaned.\<close>

definition called_cleaned :: "registry_store \<Rightarrow> string \<Rightarrow> bool" where
  "called_cleaned st ident \<longleftrightarrow> (\<exists>r. (r = st_memory st \<or> st_file st = Some r) \<and>
     (\<exists>h \<in> set (rg_resources r). rh_id h = ident \<and> rh_state h = Cleaned))"

lemma transition_called_cleaned:
  assumes "transition out st ident state e = (res, st')" and "called_cleaned st' i"
  shows "called_cleaned st i \<or> i = ident \<and> state = Cleaned"
proof -
  have "h \<in> set (update_first (\<lambda>h. rh_id h = ident) (\<lambda>h. h\<lparr>rh_state := state, rh_last_error := e\<rparr>) hs) \<Longrightarrow>
      h \<in> set hs \<or> rh_id h = ident \<and> rh_state h = state" for h hs
    by (induction hs) (auto split: if_splits)
  then have "h \<in> set (rg_resources (st_memory st)) \<or> rh_id h = ident \<and> rh_state h = state"
    if "h \<in> set (rg_resources (with_resource (st_memory st) ident (\<lambda>h. h\<lparr>rh_state := state, rh_last_error := e\<rparr>)))" for h
    using that by (simp add: with_resource_def)
  moreover obtain r h where r: "r = st_memory st' \<or> st_file st' = Some r"
    and h: "h \<in> set (rg_resources r)" "rh_id h = i" "rh_state h = Cleaned"
    using assms(2) unfolding called_cleaned_def by blast
  from r transition_store [OF assms(1)] consider "r = st_memory st" | "st_file st = Some r"
    | "r = with_resource (st_memory st) ident (\<lambda>h. h\<lparr>rh_state := state, rh_last_error := e\<rparr>)" by auto
  ultimately show ?thesis using h unfolding called_cleaned_def by cases blast+
qed

lemma cleanup_one_stores [consumes 1, case_names marked unmarked]:
  assumes "cleanup_one ports v out r st w = (a, st', w')"
  obtains (marked) st1 res e finish where "st1 = st \<or> (\<exists>res. transition (fst out) st (rh_id r) CleanupAttempted None = (res, st1))"
      "cleanup_resource_with_retry ports r v w = (res, w')"
      "transition (snd out) st1 (rh_id r) (case res of Inr _ \<Rightarrow> Cleaned | Inl _ \<Rightarrow> Failed) e = (finish, st')"
  | (unmarked) start where "transition (fst out) st (rh_id r) CleanupAttempted None = (start, st')"
  using assms unfolding cleanup_one_def Let_def
  by (auto split: prod.splits sum.splits if_splits)

lemma cleanup_one_reachable:
  assumes "cleanup_one ports v out r st w = (a, st', w')" and "registry_reachable st"
  shows "registry_reachable st'"
  using assms(1)
proof (cases rule: cleanup_one_stores)
  case (marked st1 res e finish)
  then have "registry_reachable st1" using assms(2) by (auto intro: registry_reachable.stepped registry_step.move)
  then show ?thesis using marked(3) by (rule registry_reachable.stepped [OF _ registry_step.move])
next
  case (unmarked start)
  then show ?thesis using assms(2) by (auto intro: registry_reachable.stepped registry_step.move)
qed

lemma cleanup_one_called_cleaned:
  assumes "cleanup_one ports v out r st w = (a, st', w')" and "called_cleaned st' i"
  shows "called_cleaned st i \<or> i = rh_id r \<and> (\<exists>s. cleanup_resource_with_retry ports r v w = (Inr s, w'))"
  using assms(1)
proof (cases rule: cleanup_one_stores)
  case (marked st1 res e finish)
  from transition_called_cleaned [OF marked(3) assms(2)] show ?thesis
  proof (elim disjE conjE)
    assume "called_cleaned st1 i"
    with marked(1) show ?thesis by (auto dest: transition_called_cleaned)
  qed (use marked(2) in \<open>auto split: sum.splits\<close>)
next
  case (unmarked start)
  from transition_called_cleaned [OF unmarked assms(2)] show ?thesis by simp
qed

lemma cleanup_each_invariant:
  assumes "cleanup_each ports v outs rs st w = (as, st', w')" and "I st"
    and "\<And>out r st w a st' w'. r \<in> set rs \<Longrightarrow> cleanup_one ports v out r st w = (a, st', w') \<Longrightarrow> I st \<Longrightarrow> I st'"
  shows "I st'"
  using assms
proof (induction rs arbitrary: outs st w as)
  case (Cons r rs)
  obtain a st1 w1 where one: "cleanup_one ports v (outs 0) r st w = (a, st1, w1)" by (metis surj_pair)
  obtain as' where rest: "cleanup_each ports v (\<lambda>i. outs (Suc i)) rs st1 w1 = (as', st', w')"
    using Cons.prems(1) one by (auto split: prod.splits)
  have "I st1" by (rule Cons.prems(3) [OF _ one Cons.prems(2)]) simp
  with rest show ?case by (rule Cons.IH) (rule Cons.prems(3) [OF list.set_intros(2)])
qed simp

lemma cleanup_each_snoc:
  "cleanup_each ports v outs (rs @ [r]) st w =
     (let (as, st1, w1) = cleanup_each ports v outs rs st w;
          (a, st2, w2) = cleanup_one ports v (outs (length rs)) r st1 w1
      in (as @ [a], st2, w2))"
  by (induction rs arbitrary: outs st w) (auto simp: Let_def split: prod.splits)

text \<open>The world after the \<open>k\<close>-th attempt is the one in which the verification of its resource answered that it is absent.\<close>

definition verified_at ::
  "'w cleanup_ports \<Rightarrow> bool \<Rightarrow> (nat \<Rightarrow> persist_outcome \<times> persist_outcome) \<Rightarrow> ResourceHandle list \<Rightarrow> registry_store \<Rightarrow> 'w \<Rightarrow> nat \<Rightarrow> bool" where
  "verified_at ports v outs rs st w k \<longleftrightarrow>
     (\<exists>u as st1 u'. cleanup_each ports v outs (take (Suc k) rs) st w = (as, st1, u') \<and>
        verify_resource_absent ports (rs ! k) v u = (Inr (), u'))"

lemma verified_at_append: "k < length rs \<Longrightarrow> verified_at ports v outs (rs @ xs) st w k = verified_at ports v outs rs st w k"
  by (simp add: verified_at_def nth_append)

lemma cleanup_each_called_cleaned:
  assumes "cleanup_each ports v outs rs st w = (as, st', w')" and "called_cleaned st' i"
  shows "called_cleaned st i \<or> (\<exists>k < length rs. rh_id (rs ! k) = i \<and> verified_at ports v outs rs st w k)"
  using assms
proof (induction rs arbitrary: as st' w' rule: rev_induct)
  case (snoc r rs)
  obtain as1 st1 w1 where rest: "cleanup_each ports v outs rs st w = (as1, st1, w1)" by (metis surj_pair)
  obtain a where one: "cleanup_one ports v (outs (length rs)) r st1 w1 = (a, st', w')"
    using snoc.prems(1) rest by (auto simp: cleanup_each_snoc Let_def split: prod.splits)
  from cleanup_one_called_cleaned [OF one snoc.prems(2)] show ?case
  proof (elim disjE conjE exE)
    assume "called_cleaned st1 i"
    with snoc.IH [OF rest] show ?thesis by (auto simp: nth_append verified_at_append)
  next
    fix s
    assume i: "i = rh_id r" and "cleanup_resource_with_retry ports r v w1 = (Inr s, w')"
    from cleanup_verified [OF this(2)] obtain u where "verify_resource_absent ports r v u = (Inr (), w')" by blast
    with snoc.prems(1) have "verified_at ports v outs (rs @ [r]) st w (length rs)" by (auto simp: verified_at_def)
    with i show ?thesis by auto
  qed
qed simp

lemma with_parent_fields [simp]:
  "rh_id (with_parent reg r) = rh_id r" "rh_state (with_parent reg r) = rh_state r" "rh_kind (with_parent reg r) = rh_kind r"
  by (simp_all add: with_parent_def)

text \<open>The driver runs the cleanup order of a reachable store.\<close>

lemma driver_runs:
  assumes "registry_reachable st"
  obtains order as st' w' where "cleanup_order (st_memory st) = Some (Inr order)" "distinct (map rh_id order)"
    "set order = {h \<in> set (rg_resources (st_memory st)). rh_state h \<noteq> Cleaned}"
    "cleanup_each ports (rg_versioned_cleanup (st_memory st)) outs (map (with_parent (st_memory st)) order) st w = (as, st', w')"
    "cleanup_registered_resources ports path outs st w =
       Some (\<lparr>cr_api_version = rg_api_version (st_memory st'), cr_kind = ''ProtocolCleanupReport'', cr_attempts = as,
         cr_leftovers = map rh_id (pending_cleanup (st_memory st')), cr_succeeded = (pending_cleanup (st_memory st') = [])\<rparr>, st', w')"
proof -
  from reachable_inv(1) [OF assms] obtain order where o: "cleanup_order (st_memory st) = Some (Inr order)" "distinct (map rh_id order)"
    "set order = {h \<in> set (rg_resources (st_memory st)). rh_state h \<noteq> Cleaned}" by (rule registry_inv_order)
  obtain as st' w' where e: "cleanup_each ports (rg_versioned_cleanup (st_memory st)) outs
      (map (with_parent (st_memory st)) order) st w = (as, st', w')" by (metis surj_pair)
  with o(1) have "cleanup_registered_resources ports path outs st w =
       Some (\<lparr>cr_api_version = rg_api_version (st_memory st'), cr_kind = ''ProtocolCleanupReport'', cr_attempts = as,
         cr_leftovers = map rh_id (pending_cleanup (st_memory st')), cr_succeeded = (pending_cleanup (st_memory st') = [])\<rparr>, st', w')"
    by (simp add: cleanup_registered_resources_def Let_def)
  with o e that show thesis by blast
qed

text \<open>
  C23: Only verified absence is recorded. Whatever the clients answer and whichever writes of the registry fail, cleanup returns a
  report and a reachable store, and every resource that its memory or its file call cleaned was called cleaned before, or its
  attempt ended with a verification that answered that it is absent.
\<close>

theorem cleaned_only_if_verified:
  assumes "registry_reachable st"
  shows "\<exists>report st' w' order. cleanup_registered_resources ports path outs st w = Some (report, st', w') \<and> registry_reachable st' \<and>
    cleanup_order (st_memory st) = Some (Inr order) \<and>
    (\<forall>ident. called_cleaned st' ident \<longrightarrow> called_cleaned st ident \<or>
      (\<exists>k < length order. rh_id (order ! k) = ident \<and>
        verified_at ports (rg_versioned_cleanup (st_memory st)) outs (map (with_parent (st_memory st)) order) st w k))"
proof -
  from assms obtain order as st' w' where o: "cleanup_order (st_memory st) = Some (Inr order)"
    and e: "cleanup_each ports (rg_versioned_cleanup (st_memory st)) outs (map (with_parent (st_memory st)) order) st w = (as, st', w')"
    and d: "\<exists>report. cleanup_registered_resources ports path outs st w = Some (report, st', w')"
    by (rule driver_runs) blast
  have "registry_reachable st'"
    using e assms by (rule cleanup_each_invariant) (rule cleanup_one_reachable)
  with d o cleanup_each_called_cleaned [OF e] show ?thesis by force
qed

subsection \<open>What the report says\<close>

definition state_of :: "ResourceRegistry \<Rightarrow> string \<Rightarrow> ResourceState option" where
  "state_of r ident = map_option rh_state (find_resource r ident)"

lemma find_with_resource:
  assumes "\<And>h. rh_id (f h) = rh_id h"
  shows "find_resource (with_resource r i f) j = (if j = i then map_option f (find_resource r i) else find_resource r j)"
proof -
  have "find (\<lambda>h. rh_id h = j) (update_first (\<lambda>h. rh_id h = i) f hs) =
      (if j = i then map_option f (find (\<lambda>h. rh_id h = i) hs) else find (\<lambda>h. rh_id h = j) hs)" for hs
    by (induction hs) (auto simp: assms)
  then show ?thesis by (simp add: find_resource_def with_resource_def)
qed

lemma transition_persisted:
  assumes "state_of (st_memory st) ident = Some s" and "valid_transition s state"
    and "transition Persisted st ident state e = (res, st')"
  shows "res = Inr ()" and "state_of (st_memory st') = (state_of (st_memory st))(ident \<mapsto> state)"
    and "map rh_id (rg_resources (st_memory st')) = map rh_id (rg_resources (st_memory st))"
    and "st_file st' = Some (st_memory st')"
proof -
  obtain h where h: "find_resource (st_memory st) ident = Some h" "rh_state h = s"
    using assms(1) by (auto simp: state_of_def)
  let ?c = "with_resource (st_memory st) ident (\<lambda>h. h\<lparr>rh_state := state, rh_last_error := e\<rparr>)"
  have "transition Persisted st ident state e = (Inr (), st\<lparr>st_memory := ?c, st_file := Some ?c\<rparr>)"
    using h assms(2) by (simp add: transition_def persist_or_restore_Inr)
  with assms(3) have *: "res = Inr ()" "st_memory st' = ?c" "st_file st' = Some ?c" by auto
  show "res = Inr ()" "st_file st' = Some (st_memory st')" using * by simp_all
  show "state_of (st_memory st') = (state_of (st_memory st))(ident \<mapsto> state)"
    using h unfolding * by (auto simp: state_of_def find_with_resource fun_eq_iff)
  have "map rh_id (update_first (\<lambda>h. rh_id h = ident) (\<lambda>h. h\<lparr>rh_state := state, rh_last_error := e\<rparr>) hs) = map rh_id hs" for hs
    by (induction hs) auto
  then show "map rh_id (rg_resources (st_memory st')) = map rh_id (rg_resources (st_memory st))"
    unfolding * by (simp add: with_resource_def)
qed

lemma start_valid: "s \<noteq> Cleaned \<Longrightarrow> s \<noteq> CleanupAttempted \<Longrightarrow> valid_transition s CleanupAttempted"
  by (cases s) (simp_all add: valid_transition_def)

lemma cleanup_one_persisted:
  assumes "cleanup_one ports v (Persisted, Persisted) r st w = (a, st', w')"
    and "state_of (st_memory st) (rh_id r) = Some (rh_state r)" and "rh_state r \<noteq> Cleaned"
  shows "ca_resource_id a = rh_id r" and "ca_succeeded a \<longleftrightarrow> (\<exists>s. fst (cleanup_resource_with_retry ports r v w) = Inr s)"
    and "state_of (st_memory st') = (state_of (st_memory st))(rh_id r \<mapsto> (if ca_succeeded a then Cleaned else Failed))"
    and "map rh_id (rg_resources (st_memory st')) = map rh_id (rg_resources (st_memory st))"
    and "w' = snd (cleanup_resource_with_retry ports r v w)"
    and "ca_retry_count a = cs_retry_count (progress_of (fst (cleanup_resource_with_retry ports r v w)))"
proof -
  obtain start st1 where start: "(if rh_state r = CleanupAttempted then (Inr (), st)
      else transition Persisted st (rh_id r) CleanupAttempted None) = (start, st1)" by (metis surj_pair)
  have st1: "start = Inr ()" "state_of (st_memory st1) = (state_of (st_memory st))(rh_id r \<mapsto> CleanupAttempted)"
    "map rh_id (rg_resources (st_memory st1)) = map rh_id (rg_resources (st_memory st))"
    using start assms(2) transition_persisted [OF assms(2) start_valid [OF assms(3)], of None start st1]
    by (auto split: if_splits)
  obtain res w1 where res: "cleanup_resource_with_retry ports r v w = (res, w1)" by (metis surj_pair)
  let ?state = "case res of Inr _ \<Rightarrow> Cleaned | Inl _ \<Rightarrow> Failed"
  let ?error = "case res of Inr _ \<Rightarrow> None | Inl failure \<Rightarrow> Some (cleanup_error_text (cf_error failure))"
  obtain finish st2 where finish: "transition Persisted st1 (rh_id r) ?state ?error = (finish, st2)" by (metis surj_pair)
  have "valid_transition CleanupAttempted ?state" by (cases res) (simp_all add: valid_transition_def)
  from transition_persisted [OF _ this finish] st1
  have st2: "finish = Inr ()" "state_of (st_memory st2) = (state_of (st_memory st))(rh_id r \<mapsto> ?state)"
    "map rh_id (rg_resources (st_memory st2)) = map rh_id (rg_resources (st_memory st))" by simp_all
  have one: "st' = st2" "w' = w1" "ca_resource_id a = rh_id r" "ca_succeeded a \<longleftrightarrow> (\<exists>s. res = Inr s)"
    "ca_retry_count a = cs_retry_count (progress_of res)"
    using assms(1) unfolding cleanup_one_def Let_def fst_conv snd_conv start prod.case res st1(1) sum.case finish st2(1)
    by (auto simp: attempt_errors_def progress_of_def split: sum.splits)
  then show "ca_resource_id a = rh_id r" "ca_succeeded a \<longleftrightarrow> (\<exists>s. fst (cleanup_resource_with_retry ports r v w) = Inr s)"
    "w' = snd (cleanup_resource_with_retry ports r v w)"
    "ca_retry_count a = cs_retry_count (progress_of (fst (cleanup_resource_with_retry ports r v w)))" by (simp_all add: res)
  show "state_of (st_memory st') = (state_of (st_memory st))(rh_id r \<mapsto> (if ca_succeeded a then Cleaned else Failed))"
    unfolding one st2(2) by (cases res) simp_all
  show "map rh_id (rg_resources (st_memory st')) = map rh_id (rg_resources (st_memory st))" unfolding one st2(3) ..
qed

lemma cleanup_each_persisted:
  assumes "cleanup_each ports v outs rs st w = (as, st', w')" and "\<forall>i. outs i = (Persisted, Persisted)"
    and "distinct (map rh_id rs)" and "\<forall>r \<in> set rs. state_of (st_memory st) (rh_id r) = Some (rh_state r) \<and> rh_state r \<noteq> Cleaned"
  shows "map ca_resource_id as = map rh_id rs \<and>
    (\<forall>a \<in> set as. state_of (st_memory st') (ca_resource_id a) = Some (if ca_succeeded a then Cleaned else Failed)) \<and>
    (\<forall>i. i \<notin> rh_id ` set rs \<longrightarrow> state_of (st_memory st') i = state_of (st_memory st) i) \<and>
    map rh_id (rg_resources (st_memory st')) = map rh_id (rg_resources (st_memory st)) \<and>
    (\<forall>a \<in> set as. \<exists>r \<in> set rs. \<exists>u. ca_succeeded a \<longleftrightarrow> (\<exists>s. fst (cleanup_resource_with_retry ports r v u) = Inr s))"
  using assms
proof (induction rs arbitrary: outs st w as)
  case (Cons r rs)
  obtain a st1 w1 where one: "cleanup_one ports v (Persisted, Persisted) r st w = (a, st1, w1)" by (metis surj_pair)
  obtain as' where rest: "cleanup_each ports v (\<lambda>i. outs (Suc i)) rs st1 w1 = (as', st', w')" and as: "as = a # as'"
    using Cons.prems(1,2) one by (auto split: prod.splits)
  from Cons.prems(4) have r: "state_of (st_memory st) (rh_id r) = Some (rh_state r)" "rh_state r \<noteq> Cleaned" by simp_all
  note a = cleanup_one_persisted [OF one r]
  have ne: "rh_id g \<noteq> rh_id r" if "g \<in> set rs" for g using Cons.prems(3) imageI [OF that, of rh_id] by auto
  have "\<forall>g \<in> set rs. state_of (st_memory st1) (rh_id g) = Some (rh_state g) \<and> rh_state g \<noteq> Cleaned"
    using Cons.prems(4) ne unfolding a(3) by (simp del: fun_upd_apply add: fun_upd_other)
  with Cons.IH [OF rest] Cons.prems(2,3)
  have ih: "map ca_resource_id as' = map rh_id rs"
    "\<forall>a \<in> set as'. state_of (st_memory st') (ca_resource_id a) = Some (if ca_succeeded a then Cleaned else Failed)"
    "\<forall>i. i \<notin> rh_id ` set rs \<longrightarrow> state_of (st_memory st') i = state_of (st_memory st1) i"
    "map rh_id (rg_resources (st_memory st')) = map rh_id (rg_resources (st_memory st1))"
    "\<forall>a \<in> set as'. \<exists>r \<in> set rs. \<exists>u. ca_succeeded a \<longleftrightarrow> (\<exists>s. fst (cleanup_resource_with_retry ports r v u) = Inr s)"
    by simp_all
  from ih(3) Cons.prems(3) have "state_of (st_memory st') (rh_id r) = state_of (st_memory st1) (rh_id r)" by simp
  then have "state_of (st_memory st') (ca_resource_id a) = Some (if ca_succeeded a then Cleaned else Failed)"
    using a(1,3) by simp
  moreover have "state_of (st_memory st') i = state_of (st_memory st) i" if "i \<notin> rh_id ` set (r # rs)" for i
    using that ih(3) a(3) by simp
  moreover have "\<forall>a \<in> set as. \<exists>r \<in> set (r # rs). \<exists>u. ca_succeeded a \<longleftrightarrow> (\<exists>s. fst (cleanup_resource_with_retry ports r v u) = Inr s)"
    unfolding as
  proof
    fix x
    assume "x \<in> set (a # as')"
    then consider "x = a" | "x \<in> set as'" by auto
    then show "\<exists>r \<in> set (r # rs). \<exists>u. ca_succeeded x \<longleftrightarrow> (\<exists>s. fst (cleanup_resource_with_retry ports r v u) = Inr s)"
    proof cases
      case 1
      with a(2) show ?thesis by auto
    next
      case 2
      with ih(5) show ?thesis by (meson list.set_intros(2))
    qed
  qed
  ultimately show ?case using ih(1,2,4) a(1,4) unfolding as by simp
qed simp

lemma state_of_member:
  assumes "distinct (map rh_id (rg_resources r))"
  shows "state_of r ident = Some s \<longleftrightarrow> (\<exists>h \<in> set (rg_resources r). rh_id h = ident \<and> rh_state h = s)"
proof
  assume "state_of r ident = Some s"
  then obtain h where "find (\<lambda>h. rh_id h = ident) (rg_resources r) = Some h" "rh_state h = s"
    by (auto simp: state_of_def find_resource_def)
  then show "\<exists>h \<in> set (rg_resources r). rh_id h = ident \<and> rh_state h = s"
    using nth_mem unfolding find_Some_iff by blast
next
  assume "\<exists>h \<in> set (rg_resources r). rh_id h = ident \<and> rh_state h = s"
  then obtain h where h: "h \<in> set (rg_resources r)" "rh_id h = ident" "rh_state h = s" by blast
  then obtain g where g: "find (\<lambda>h. rh_id h = ident) (rg_resources r) = Some g"
    by (cases "find (\<lambda>h. rh_id h = ident) (rg_resources r)") (auto simp: find_None_iff)
  then have "g \<in> set (rg_resources r)" "rh_id g = ident" using nth_mem unfolding find_Some_iff by blast+
  with h(1,2) assms have "g = h" by (metis distinct_map inj_onD)
  with g h(3) show "state_of r ident = Some s" by (simp add: state_of_def find_resource_def)
qed

lemma pending_members: "set (pending_cleanup r) = {h \<in> set (rg_resources r). rh_state h \<noteq> Cleaned}"
  by (auto simp: in_pending_cleanup)

text \<open>When every write succeeds, the leftovers are the resources whose attempt failed.\<close>

lemma driver_persisted:
  assumes "registry_reachable st" and "\<forall>i. outs i = (Persisted, Persisted)"
    and "cleanup_order (st_memory st) = Some (Inr order)" and "distinct (map rh_id order)"
    and "set order = {h \<in> set (rg_resources (st_memory st)). rh_state h \<noteq> Cleaned}"
    and "cleanup_each ports v outs (map (with_parent (st_memory st)) order) st w = (as, st', w')"
  shows "map ca_resource_id as = map rh_id order"
    and "\<forall>a \<in> set as. state_of (st_memory st') (ca_resource_id a) = Some (if ca_succeeded a then Cleaned else Failed)"
    and "rh_id ` set (pending_cleanup (st_memory st')) = ca_resource_id ` {a \<in> set as. \<not> ca_succeeded a}"
    and "\<forall>a \<in> set as. \<exists>r \<in> set order. \<exists>u. ca_succeeded a \<longleftrightarrow>
      (\<exists>s. fst (cleanup_resource_with_retry ports (with_parent (st_memory st) r) v u) = Inr s)"
proof -
  have d: "distinct (map rh_id (rg_resources (st_memory st)))" using reachable_inv(1) [OF assms(1)] by (simp add: registry_inv_def)
  note member = state_of_member [OF d]
  have ids: "map rh_id (map (with_parent (st_memory st)) order) = map rh_id order" by simp
  have "\<forall>r \<in> set (map (with_parent (st_memory st)) order). state_of (st_memory st) (rh_id r) = Some (rh_state r) \<and> rh_state r \<noteq> Cleaned"
    using assms(5) member by auto
  from cleanup_each_persisted [OF assms(6,2) _ this, unfolded ids, OF assms(4)]
  have as: "map ca_resource_id as = map rh_id order"
    and states: "\<forall>a \<in> set as. state_of (st_memory st') (ca_resource_id a) = Some (if ca_succeeded a then Cleaned else Failed)"
    and others: "\<forall>i. i \<notin> rh_id ` set order \<longrightarrow> state_of (st_memory st') i = state_of (st_memory st) i"
    and same: "map rh_id (rg_resources (st_memory st')) = map rh_id (rg_resources (st_memory st))"
    and runs: "\<forall>a \<in> set as. \<exists>r \<in> set order. \<exists>u. ca_succeeded a \<longleftrightarrow>
      (\<exists>s. fst (cleanup_resource_with_retry ports (with_parent (st_memory st) r) v u) = Inr s)" by (simp_all add: image_image)
  show "\<forall>a \<in> set as. \<exists>r \<in> set order. \<exists>u. ca_succeeded a \<longleftrightarrow>
      (\<exists>s. fst (cleanup_resource_with_retry ports (with_parent (st_memory st) r) v u) = Inr s)" by (rule runs)
  show "map ca_resource_id as = map rh_id order" by (rule as)
  show "\<forall>a \<in> set as. state_of (st_memory st') (ca_resource_id a) = Some (if ca_succeeded a then Cleaned else Failed)" by (rule states)
  from as have set_as: "rh_id ` set order = ca_resource_id ` set as" by (metis list.set_map)
  note member' = state_of_member [of "st_memory st'", unfolded same, OF d]
  show "rh_id ` set (pending_cleanup (st_memory st')) = ca_resource_id ` {a \<in> set as. \<not> ca_succeeded a}"
  proof (intro equalityI subsetI)
    fix i
    assume "i \<in> rh_id ` set (pending_cleanup (st_memory st'))"
    then obtain s where s: "state_of (st_memory st') i = Some s" "s \<noteq> Cleaned" unfolding pending_members member' by blast
    have "i \<in> rh_id ` set order"
    proof (rule ccontr)
      assume i: "i \<notin> rh_id ` set order"
      with others s have "state_of (st_memory st) i = Some s" by simp
      with s(2) i assms(5) show False unfolding member by auto
    qed
    then obtain a where "a \<in> set as" "ca_resource_id a = i" using set_as by auto
    with states s show "i \<in> ca_resource_id ` {a \<in> set as. \<not> ca_succeeded a}" by (auto split: if_splits)
  next
    fix i
    assume "i \<in> ca_resource_id ` {a \<in> set as. \<not> ca_succeeded a}"
    with states have "state_of (st_memory st') i = Some Failed" by auto
    then show "i \<in> rh_id ` set (pending_cleanup (st_memory st'))" unfolding pending_members member' by force
  qed
qed

text \<open>
  C24: The cleanup report is exact when the writes of the registry succeed: it has one attempt for each resource of the cleanup
  order, in that order; the registry afterwards calls a resource cleaned if its attempt succeeded and failed otherwise; the
  leftovers are the resources whose attempts failed, and the cleanup succeeded exactly when every registered resource is cleaned.
\<close>

theorem cleanup_report_exact:
  assumes "registry_reachable st" and "\<forall>i. outs i = (Persisted, Persisted)"
  shows "\<exists>report st' w' order. cleanup_registered_resources ports path outs st w = Some (report, st', w') \<and>
    cleanup_order (st_memory st) = Some (Inr order) \<and> map ca_resource_id (cr_attempts report) = map rh_id order \<and>
    (\<forall>a \<in> set (cr_attempts report).
       state_of (st_memory st') (ca_resource_id a) = Some (if ca_succeeded a then Cleaned else Failed)) \<and>
    set (cr_leftovers report) = ca_resource_id ` {a \<in> set (cr_attempts report). \<not> ca_succeeded a} \<and>
    (cr_succeeded report \<longleftrightarrow> (\<forall>h \<in> set (rg_resources (st_memory st')). rh_state h = Cleaned))"
  using assms(1)
proof (rule driver_runs)
  fix order as st' w'
  assume order: "cleanup_order (st_memory st) = Some (Inr order)" "distinct (map rh_id order)"
    "set order = {h \<in> set (rg_resources (st_memory st)). rh_state h \<noteq> Cleaned}"
    "cleanup_each ports (rg_versioned_cleanup (st_memory st)) outs (map (with_parent (st_memory st)) order) st w = (as, st', w')"
    and run: "cleanup_registered_resources ports path outs st w =
       Some (\<lparr>cr_api_version = rg_api_version (st_memory st'), cr_kind = ''ProtocolCleanupReport'', cr_attempts = as,
         cr_leftovers = map rh_id (pending_cleanup (st_memory st')), cr_succeeded = (pending_cleanup (st_memory st') = [])\<rparr>, st', w')"
  have "pending_cleanup (st_memory st') = [] \<longleftrightarrow> (\<forall>h \<in> set (rg_resources (st_memory st')). rh_state h = Cleaned)"
    using pending_members [of "st_memory st'"] by (metis (mono_tags, lifting) empty_Collect_eq set_empty)
  with run order(1) driver_persisted(1-3) [OF assms order] show ?thesis by simp
qed

subsection \<open>Cooperating clients\<close>

text \<open>
  Deleting the resource succeeds, or says that it is not there, in a world that \<open>gone\<close> describes, and in such a world its
  verification finds it absent.
\<close>

definition cooperating :: "'w cleanup_ports \<Rightarrow> bool \<Rightarrow> ('w \<Rightarrow> bool) \<Rightarrow> ResourceHandle \<Rightarrow> bool" where
  "cooperating ports v gone r \<longleftrightarrow>
     (\<forall>w. \<exists>w'. gone w' \<and> (cleanup_resource ports r v w = (Inr (), w') \<or>
        (\<exists>e. cleanup_resource ports r v w = (Inl e, w') \<and> is_not_found_for e (rh_kind r)))) \<and>
     (\<forall>w. gone w \<longrightarrow> (\<exists>w'. verify_resource_absent ports r v w = (Inr (), w')))"

lemma cooperating_calls:
  assumes "cooperating ports v gone r"
  obtains m w1 w2 where "cleanup_resource ports r v w = (m, w1)" "case m of Inr _ \<Rightarrow> True | Inl e \<Rightarrow> is_not_found_for e (rh_kind r)"
    "verify_resource_absent ports r v w1 = (Inr (), w2)"
proof -
  from assms obtain w1 where w1: "gone w1" "cleanup_resource ports r v w = (Inr (), w1) \<or>
      (\<exists>e. cleanup_resource ports r v w = (Inl e, w1) \<and> is_not_found_for e (rh_kind r))" unfolding cooperating_def by blast
  from assms w1(1) obtain w2 where "verify_resource_absent ports r v w1 = (Inr (), w2)" unfolding cooperating_def by blast
  with w1(2) that show thesis by auto
qed

lemma retry_loop_accepts:
  assumes "call w = (m, w')" and "case m of Inr _ \<Rightarrow> True | Inl e \<Rightarrow> accepted e"
  shows "retry_loop ports phase n accepted call attempt s w = (Inr s, w')"
  using assms by (cases m) (simp_all add: retry_loop.simps)

lemma settle_from_cooperating:
  assumes "cooperating ports v gone r" and "attempt \<le> 4"
  shows "\<exists>s' w'. settle_from ports r v attempt s w = (Inr s', w') \<and> cs_retry_count s' = cs_retry_count s + (4 - attempt)"
  using assms(2)
proof (induction "4 - attempt" arbitrary: attempt s w rule: less_induct)
  case less
  from assms(1) obtain m w1 w2 where m: "cleanup_resource ports r v (cp_sleep ports 5000 w) = (m, w1)"
    "case m of Inr _ \<Rightarrow> True | Inl e \<Rightarrow> is_not_found_for e (rh_kind r)" "verify_resource_absent ports r v w1 = (Inr (), w2)"
    by (rule cooperating_calls)
  have rejected: "(case m of Inr _ \<Rightarrow> None | Inl e \<Rightarrow> if is_not_found_for e (rh_kind r) then None else Some e) = None"
    using m(2) by (auto split: sum.splits)
  let ?s = "observed s ''creating-settlement-verification'' attempt 5000
    ''absence must remain stable until the cancellation settlement window closes''"
  have step: "settle_from ports r v attempt s w =
      (if attempt < 4 then settle_from ports r v (attempt + 1) ?s w2 else (Inr s, w2))"
    using m(1,3) rejected
    by (simp add: settle_from.simps [of ports r v attempt s w] standard_retry_policy_def Let_def)
  show ?case
  proof (cases "attempt < 4")
    case True
    then have "4 - (attempt + 1) < 4 - attempt" "attempt + 1 \<le> 4" by simp_all
    from less.hyps [OF this, of ?s w2] True show ?thesis unfolding step by auto
  next
    case False
    with less.prems show ?thesis unfolding step by simp
  qed
qed

lemma cleanup_cooperating:
  assumes "cooperating ports v gone r"
  shows "\<exists>s w'. cleanup_resource_with_retry ports r v w = (Inr s, w') \<and> cs_retry_count s = (if rh_state r = Creating then 3 else 0)"
proof -
  let ?s = "\<lparr>cs_retry_count = 0, cs_retry_history = []\<rparr>"
  from assms obtain m w1 w2 where m: "cleanup_resource ports r v w = (m, w1)"
    "case m of Inr _ \<Rightarrow> True | Inl e \<Rightarrow> is_not_found_for e (rh_kind r)" "verify_resource_absent ports r v w1 = (Inr (), w2)"
    by (rule cooperating_calls)
  have "mutation_phase ports r v ?s w = (Inr ?s, w1)" "verification_phase ports r v ?s w1 = (Inr ?s, w2)"
    unfolding mutation_phase_def verification_phase_def using m by (simp_all add: retry_loop_accepts)
  with settle_from_cooperating [OF assms, of 1 ?s w2] show ?thesis
    by (auto simp: cleanup_resource_with_retry_def settle_canceled_creation_def)
qed


end
