(* ===== verification/Driver_Demo.thy ===== *)
theory Driver_Demo
  imports Registry_Demo Driver_Correctness
begin

text \<open>
  Cleanup of the demonstration registry with clients on a world that is the list of the buckets and object prefixes
  that exist. The witnesses of the driver's properties.
\<close>

definition demo_s3_error :: ProtocolS3Error where
  "demo_s3_error = \<lparr>s3_code = ''NotImplemented'', s3_status = Some 501, s3_request_id = None\<rparr>"

definition demo_admin_error :: ProtocolAdminError where
  "demo_admin_error = \<lparr>ae_code = ''NotImplemented'', ae_status = Some 501, ae_request_id = None, ae_transient = False\<rparr>"

definition demo_s3 :: "string list s3_cleanup_port" where
  "demo_s3 = \<lparr>sp_bucket_names = (\<lambda>_ w. (Inr w, w)),
     sp_exclusive_bucket = (\<lambda>bucket _ w. (Inr (), removeAll bucket w)),
     sp_object_prefix = (\<lambda>bucket key_prefix _ w. (Inr (), removeAll (bucket @ ''/'' @ key_prefix) w)),
     sp_object_prefix_exists = (\<lambda>bucket key_prefix _ w. (Inr (bucket @ ''/'' @ key_prefix \<in> set w), w)),
     sp_abort_multipart_upload = (\<lambda>_ _ _ w. (Inl demo_s3_error, w)), sp_multipart_upload_exists = (\<lambda>_ _ _ w. (Inl demo_s3_error, w)),
     sp_delete_bucket_policy = (\<lambda>_ w. (Inl demo_s3_error, w)), sp_bucket_policy_exists = (\<lambda>_ w. (Inl demo_s3_error, w)),
     sp_delete_public_access_block = (\<lambda>_ w. (Inl demo_s3_error, w)),
     sp_public_access_block_exists = (\<lambda>_ w. (Inl demo_s3_error, w))\<rparr>"

definition demo_admin :: "string list admin_cleanup_port" where
  "demo_admin = \<lparr>ap_users_with_prefix = (\<lambda>_ w. (Inl demo_admin_error, w)), ap_remove_user = (\<lambda>_ w. (Inl demo_admin_error, w)),
     ap_groups_with_prefix = (\<lambda>_ w. (Inl demo_admin_error, w)), ap_group_contains_member = (\<lambda>_ _ w. (Inl demo_admin_error, w)),
     ap_update_group_members = (\<lambda>_ _ _ w. (Inl demo_admin_error, w)), ap_remove_group = (\<lambda>_ w. (Inl demo_admin_error, w)),
     ap_policies_with_prefix = (\<lambda>_ w. (Inl demo_admin_error, w)), ap_remove_policy = (\<lambda>_ w. (Inl demo_admin_error, w)),
     ap_detach_policy = (\<lambda>_ _ _ w. (Inl demo_admin_error, w)), ap_policy_attached = (\<lambda>_ _ _ w. (Inl demo_admin_error, w)),
     ap_revoke_sts_sessions = (\<lambda>_ _ w. (Inl demo_admin_error, w)),
     ap_sts_sessions_with_parent = (\<lambda>_ _ w. (Inl demo_admin_error, w))\<rparr>"

definition demo_ports :: "string list cleanup_ports" where
  "demo_ports = \<lparr>cp_s3 = demo_s3, cp_admin = demo_admin, cp_external = None, cp_sleep = (\<lambda>_ w. w)\<rparr>"

abbreviation demo_world :: "string list" where
  "demo_world \<equiv> [''bucket'', ''bucket/cases/'', ''other'']"

abbreviation demo_outs :: "nat \<Rightarrow> persist_outcome \<times> persist_outcome" where
  "demo_outs \<equiv> \<lambda>_. (Persisted, Persisted)"

lemma demo_resources:
  "map (\<lambda>h. (rh_kind h, rh_name h, rh_bucket h, rh_key_prefix h, rh_state h)) (rg_resources (st_memory demo_objects)) =
     [(ResourceKind.Bucket, ''bucket'', None, None, Planned),
      (ResourceKind.ObjectPrefix, ''bucket/cases/'', Some ''bucket'', Some ''cases/'', Planned)]"
  by code_simp

lemma demo_bucket_cooperates:
  assumes "rh_kind r = ResourceKind.Bucket"
  shows "cooperating demo_ports v (\<lambda>w. rh_name r \<notin> set w) r"
  using assms
  by (simp add: cooperating_def cleanup_resource_def verify_resource_absent_def demo_ports_def demo_s3_def map_err_def
      and_then_def verify_exact_absence_def absent_unless_def answer_def)

lemma demo_prefix_cooperates:
  assumes "rh_kind r = ResourceKind.ObjectPrefix" and "rh_bucket r = Some bucket" and "rh_key_prefix r = Some key_prefix"
  shows "cooperating demo_ports v (\<lambda>w. bucket @ ''/'' @ key_prefix \<notin> set w) r"
  using assms
  by (simp add: cooperating_def cleanup_resource_def verify_resource_absent_def demo_ports_def demo_s3_def map_err_def
      and_then_def required_def absent_unless_def answer_def)

lemma demo_cooperates:
  assumes "h \<in> set (rg_resources (st_memory demo_objects))"
  shows "\<exists>gone. cooperating demo_ports v gone (with_parent (st_memory demo_objects) h)"
proof -
  have "(rh_kind h, rh_name h, rh_bucket h, rh_key_prefix h, rh_state h) \<in>
      {(ResourceKind.Bucket, ''bucket'', None, None, Planned),
       (ResourceKind.ObjectPrefix, ''bucket/cases/'', Some ''bucket'', Some ''cases/'', Planned)}"
    using imageI [OF assms, of "\<lambda>h. (rh_kind h, rh_name h, rh_bucket h, rh_key_prefix h, rh_state h)"]
    unfolding set_map [symmetric] demo_resources by simp
  then have "with_parent (st_memory demo_objects) h = h"
    and "rh_kind h = ResourceKind.Bucket \<or>
      rh_kind h = ResourceKind.ObjectPrefix \<and> rh_bucket h = Some ''bucket'' \<and> rh_key_prefix h = Some ''cases/''"
    by (auto simp: with_parent_def)
  then show ?thesis using demo_bucket_cooperates demo_prefix_cooperates by metis
qed

subsection \<open>Witnesses\<close>

theorem cleanup_retries_bounded_witness:
  "\<exists>h res w'. h \<in> set (rg_resources (st_memory demo_objects)) \<and>
     cleanup_resource_with_retry demo_ports h False demo_world = (res, w') \<and> cs_retry_count (progress_of res) \<le> 14"
proof -
  have "rg_resources (st_memory demo_objects) \<noteq> []" using demo_objects_ids by auto
  then obtain h where h: "h \<in> set (rg_resources (st_memory demo_objects))" by (metis list.set_sel(1))
  obtain res w' where res: "cleanup_resource_with_retry demo_ports h False demo_world = (res, w')" by (metis surj_pair)
  from cleanup_retries_bounded [OF res] h res show ?thesis by blast
qed

theorem cleaned_only_if_verified_witness:
  "\<exists>report st' w'. cleanup_registered_resources demo_ports ''registry.json'' demo_outs demo_objects demo_world = Some (report, st', w') \<and>
     registry_reachable st'"
  using cleaned_only_if_verified [OF demo_reachable(3), of demo_ports "''registry.json''" demo_outs demo_world] by blast

theorem cleanup_report_exact_witness:
  "\<exists>report st' w'. cleanup_registered_resources demo_ports ''registry.json'' demo_outs demo_objects demo_world = Some (report, st', w') \<and>
     map ca_resource_id (cr_attempts report) = [''resource-2'', ''resource-1'']"
  using cleanup_report_exact [OF demo_reachable(3), of demo_outs demo_ports "''registry.json''" demo_world] demo_cleanup by fastforce


end
