(* ===== verification/Quorum.thy ===== *)
theory Quorum
  imports Prelude
begin

text \<open>
  Erasure set geometry and quorums (\<open>src/src/fault/quorum.rs\<close>): how many shards a read and a write need, which number of
  unavailable volumes or servers is the boundary a scenario exercises, and the proofs that bind the live topology to the
  targets of a fault. \<open>u32\<close> values are 32-bit words, so an unguarded subtraction would wrap.
\<close>

type_synonym u32 = "32 word"

subsection \<open>Checked arithmetic\<close>

definition u32_checked_add :: "u32 \<Rightarrow> u32 \<Rightarrow> u32 option" where
  "u32_checked_add a b = (if uint a + uint b < 2 ^ 32 then Some (a + b) else None)"

definition u32_checked_mul :: "u32 \<Rightarrow> u32 \<Rightarrow> u32 option" where
  "u32_checked_mul a b = (if uint a * uint b < 2 ^ 32 then Some (a * b) else None)"

definition u32_checked_sub :: "u32 \<Rightarrow> u32 \<Rightarrow> u32 option" where
  "u32_checked_sub a b = (if b \<le> a then Some (a - b) else None)"

datatype quorum_error =
    NotBeforeFault | ObservationTooOld nat
  | ShardCount | ParityTooLarge | GeometryMismatch
  | NoServers | NoVolumes | WidthMismatch | DataShardsMismatch | ParityShardsMismatch
  | NotSingleSet | WidthOverflow | DrivesMismatch | ParityExceedsShards | OutOfRange
  | PartitionCount | PartitionOverflow | RemovesTooMany | NotTheBoundary
  | NoVolumeRemoved | AvailabilityLost
  | TargetOverflow | TargetLeavesNothing
  | MemberCount | MemberNames | MemberEndpoints | MemberShards string | BadShardId | MemberShardCount
  | NothingSelected | UnknownPodSelected | SelectedOverflow
  | HealthOverflow | HealthCoverage | NotAllOnline
  | NotOneVolumePerServer | RequirementsMismatch | TargetCountMismatch | CandidateCount | NotUnique string
  | OutsideSet string | NotAMember string | NotSoleDrive string
  | BadInterval | DeploymentChanged | ShapeChanged | SelectedMismatch | BadDriveIdentity | DriveCoverage
  | NoMembership string | DriveOmitted string | IdentityChanged string | NotHealthy string
  | OutsideWindow
  | OneVolumePerServer | OneMount | SetsDiffer | SetsUnknown
  | NotTwoVolumes | TargetNotMember | RuntimePaths | BindingMismatch | NotAbsolutePath | PathNewline | PathCharacter

definition u32_try_from :: "nat \<Rightarrow> quorum_error + u32" where
  "u32_try_from n = (if int n < 2 ^ 32 then Inr (of_nat n) else Inl OutOfRange)"

definition i32_try_from :: "u32 \<Rightarrow> quorum_error + int" where
  "i32_try_from w = (if uint w < 2 ^ 31 then Inr (uint w) else Inl OutOfRange)"

subsection \<open>Requirements\<close>

definition RUNTIME_TOPOLOGY_MAX_AGE_MS :: nat where
  "RUNTIME_TOPOLOGY_MAX_AGE_MS = 5000"

definition MAX_ERASURE_SET_SHARDS :: u32 where
  "MAX_ERASURE_SET_SHARDS = 16"

definition require_fresh_runtime_observation :: "nat \<Rightarrow> nat \<Rightarrow> quorum_error + unit" where
  "require_fresh_runtime_observation observed_at_ms fault_apply_at_ms =
     ensure (observed_at_ms > 0 \<and> observed_at_ms \<le> fault_apply_at_ms) NotBeforeFault
     (let age_ms = fault_apply_at_ms - observed_at_ms
      in ensure (age_ms \<le> RUNTIME_TOPOLOGY_MAX_AGE_MS) (ObservationTooOld age_ms) (Inr ()))"

datatype QuorumMutationClass = PutObject | MultipartComplete | DeleteMarker

datatype PersistedVersionClass = DataObject | PersistedDeleteMarker | ZeroLengthObject

datatype QuorumCaseClass = Payload | Metadata

record QuorumRequirements =
  qr_total_shards :: u32
  qr_data_shards :: u32
  qr_parity_shards :: u32
  qr_read_quorum :: u32
  qr_write_quorum :: u32
  qr_read_tolerance :: u32
  qr_write_tolerance :: u32

definition from_geometry :: "u32 \<Rightarrow> u32 \<Rightarrow> QuorumRequirements" where
  "from_geometry total_shards parity_shards =
     (let data_shards = total_shards - parity_shards;
          read_quorum = data_shards;
          write_quorum = (if data_shards = parity_shards then data_shards + 1 else data_shards)
      in \<lparr>qr_total_shards = total_shards, qr_data_shards = data_shards, qr_parity_shards = parity_shards,
          qr_read_quorum = read_quorum, qr_write_quorum = write_quorum,
          qr_read_tolerance = total_shards - read_quorum, qr_write_tolerance = total_shards - write_quorum\<rparr>)"

definition payload_requirements :: "u32 \<Rightarrow> u32 \<Rightarrow> quorum_error + QuorumRequirements" where
  "payload_requirements total_shards payload_parity_shards =
     ensure (2 \<le> total_shards \<and> total_shards \<le> MAX_ERASURE_SET_SHARDS) ShardCount
     (ensure (payload_parity_shards \<le> total_shards div 2) ParityTooLarge
       (Inr (from_geometry total_shards payload_parity_shards)))"

definition metadata_requirements :: "u32 \<Rightarrow> quorum_error + QuorumRequirements" where
  "metadata_requirements total_shards =
     ensure (2 \<le> total_shards \<and> total_shards \<le> MAX_ERASURE_SET_SHARDS) ShardCount
       (Inr (from_geometry total_shards (total_shards div 2)))"

definition for_mutation :: "u32 \<Rightarrow> u32 \<Rightarrow> QuorumMutationClass \<Rightarrow> quorum_error + QuorumRequirements" where
  "for_mutation total_shards payload_parity_shards cls =
     (case cls of
        PutObject \<Rightarrow> payload_requirements total_shards payload_parity_shards
      | MultipartComplete \<Rightarrow> payload_requirements total_shards payload_parity_shards
      | DeleteMarker \<Rightarrow> metadata_requirements total_shards)"

definition for_persisted_version :: "u32 \<Rightarrow> u32 \<Rightarrow> PersistedVersionClass \<Rightarrow> quorum_error + QuorumRequirements" where
  "for_persisted_version total_shards payload_parity_shards cls =
     (case cls of
        DataObject \<Rightarrow> payload_requirements total_shards payload_parity_shards
      | PersistedDeleteMarker \<Rightarrow> metadata_requirements total_shards
      | ZeroLengthObject \<Rightarrow> metadata_requirements total_shards)"

definition validate_requirements :: "QuorumRequirements \<Rightarrow> quorum_error + unit" where
  "validate_requirements q =
     res_bind (payload_requirements (qr_total_shards q) (qr_parity_shards q)) (\<lambda>expected.
       ensure (q = expected) GeometryMismatch (Inr ()))"

subsection \<open>The shape of an erasure set\<close>

record ErasureSetShape =
  es_pool_index :: u32
  es_set_index :: u32
  es_server_count :: u32
  es_volumes_per_server :: u32
  es_total_shards :: u32
  es_payload_data_shards :: u32
  es_payload_parity_shards :: u32

definition payload_quorum :: "ErasureSetShape \<Rightarrow> quorum_error + QuorumRequirements" where
  "payload_quorum shape = for_mutation (es_total_shards shape) (es_payload_parity_shards shape) PutObject"

definition validate_shape :: "ErasureSetShape \<Rightarrow> quorum_error + unit" where
  "validate_shape shape =
     ensure (es_server_count shape > 0) NoServers
     (ensure (es_volumes_per_server shape > 0) NoVolumes
     (ensure (u32_checked_mul (es_server_count shape) (es_volumes_per_server shape) = Some (es_total_shards shape)) WidthMismatch
     (res_bind (payload_quorum shape) (\<lambda>quorum.
      ensure (qr_data_shards quorum = es_payload_data_shards shape) DataShardsMismatch
     (ensure (qr_parity_shards quorum = es_payload_parity_shards shape) ParityShardsMismatch (Inr ()))))))"

definition from_runtime_single_set :: "nat \<Rightarrow> nat \<Rightarrow> nat list \<Rightarrow> nat list \<Rightarrow> nat \<Rightarrow> quorum_error + ErasureSetShape" where
  "from_runtime_single_set server_count volumes_per_server total_sets drives_per_set payload_parity_shards =
     ensure (total_sets = [1] \<and> length drives_per_set = 1) NotSingleSet
     (context_or (checked_mul server_count volumes_per_server) WidthOverflow (\<lambda>tenant_shards.
      ensure (hd drives_per_set = tenant_shards) DrivesMismatch
     (res_bind (u32_try_from (hd drives_per_set)) (\<lambda>total_shards.
      res_bind (u32_try_from payload_parity_shards) (\<lambda>parity_shards.
      context_or (u32_checked_sub total_shards parity_shards) ParityExceedsShards (\<lambda>data_shards.
      res_bind (u32_try_from server_count) (\<lambda>servers.
      res_bind (u32_try_from volumes_per_server) (\<lambda>volumes.
      let shape = \<lparr>es_pool_index = 0, es_set_index = 0, es_server_count = servers, es_volumes_per_server = volumes,
            es_total_shards = total_shards, es_payload_data_shards = data_shards, es_payload_parity_shards = parity_shards\<rparr>
      in res_bind (validate_shape shape) (\<lambda>_. Inr shape)))))))))"

definition require_removed_shard_boundary :: "ErasureSetShape \<Rightarrow> u32 \<Rightarrow> quorum_error + unit" where
  "require_removed_shard_boundary shape removed_shards =
     context_or (u32_checked_sub (es_total_shards shape) removed_shards) RemovesTooMany (\<lambda>remaining_shards.
     res_bind (payload_quorum shape) (\<lambda>quorum.
     ensure (remaining_shards \<ge> qr_read_quorum quorum \<and> remaining_shards < qr_write_quorum quorum) NotTheBoundary (Inr ())))"

definition require_server_partition_boundary :: "ErasureSetShape \<Rightarrow> u32 \<Rightarrow> quorum_error + unit" where
  "require_server_partition_boundary shape target_servers =
     ensure (target_servers > 0 \<and> target_servers < es_server_count shape) PartitionCount
     (context_or (u32_checked_mul target_servers (es_volumes_per_server shape)) PartitionOverflow (\<lambda>removed_shards.
      require_removed_shard_boundary shape removed_shards))"

definition require_volume_availability_boundary :: "ErasureSetShape \<Rightarrow> u32 \<Rightarrow> quorum_error + unit" where
  "require_volume_availability_boundary shape unavailable_volumes =
     res_bind (validate_shape shape) (\<lambda>_.
     ensure (unavailable_volumes > 0) NoVolumeRemoved
     (context_or (u32_checked_sub (es_total_shards shape) unavailable_volumes) RemovesTooMany (\<lambda>remaining_shards.
      res_bind (payload_quorum shape) (\<lambda>payload.
      res_bind (for_mutation (es_total_shards shape) (es_payload_parity_shards shape) DeleteMarker) (\<lambda>metadata.
      ensure (remaining_shards \<ge> qr_read_quorum payload \<and> remaining_shards \<ge> qr_write_quorum payload
        \<and> remaining_shards \<ge> qr_write_quorum metadata) AvailabilityLost (Inr ()))))))"

subsection \<open>Volume boundaries\<close>

definition class_requirements :: "QuorumCaseClass \<Rightarrow> ErasureSetShape \<Rightarrow> quorum_error + QuorumRequirements" where
  "class_requirements cls shape =
     (case cls of
        Payload \<Rightarrow> payload_quorum shape
      | Metadata \<Rightarrow> for_persisted_version (es_total_shards shape) (es_payload_parity_shards shape) PersistedDeleteMarker)"

record QuorumVolumeBoundary =
  vb_class :: QuorumCaseClass
  vb_beyond_read_tolerance :: bool

definition target_count :: "QuorumVolumeBoundary \<Rightarrow> ErasureSetShape \<Rightarrow> quorum_error + u32" where
  "target_count boundary shape =
     res_bind (class_requirements (vb_class boundary) shape) (\<lambda>requirements.
     context_or (u32_checked_add (qr_read_tolerance requirements) (of_bool (vb_beyond_read_tolerance boundary)))
       TargetOverflow (\<lambda>count.
     ensure (count > 0 \<and> count < es_total_shards shape) TargetLeavesNothing (Inr count)))"

definition unavailable_mutations :: "QuorumVolumeBoundary \<Rightarrow> ErasureSetShape \<Rightarrow> quorum_error + QuorumMutationClass list" where
  "unavailable_mutations boundary shape =
     res_bind (validate_shape shape) (\<lambda>_.
     res_bind (target_count boundary shape) (\<lambda>count.
     let remaining_shards = es_total_shards shape - count in
     fold_res (\<lambda>unavailable mutation.
       res_bind (for_mutation (es_total_shards shape) (es_payload_parity_shards shape) mutation) (\<lambda>requirements.
       Inr (if remaining_shards < qr_write_quorum requirements then unavailable @ [mutation] else unavailable)))
       [] [PutObject, DeleteMarker, MultipartComplete]))"

subsection \<open>Membership\<close>

record ErasureSetMember =
  em_pod_name :: string
  em_server_endpoint :: string
  em_shard_ids :: "string list"

definition member_shards_step ::
  "ErasureSetShape \<Rightarrow> string fset \<Rightarrow> ErasureSetMember \<Rightarrow> quorum_error + string fset" where
  "member_shards_step shape shard_ids member =
     ensure (length (em_shard_ids member) = unat (es_volumes_per_server shape)) (MemberShards (em_pod_name member))
     (fold_res (\<lambda>ids shard_id.
        ensure (\<not> trim_is_empty shard_id \<and> shard_id |\<notin>| ids) BadShardId (Inr (finsert shard_id ids)))
        shard_ids (em_shard_ids member))"

definition validate_membership :: "ErasureSetMember list \<Rightarrow> ErasureSetShape \<Rightarrow> quorum_error + unit" where
  "validate_membership members shape =
     ensure (length members = unat (es_server_count shape)) MemberCount
     (let pod_names = fset_of_list (map em_pod_name members);
          server_endpoints = fset_of_list (map em_server_endpoint members) in
      ensure (fcard pod_names = length members \<and> fBall pod_names (\<lambda>name. \<not> trim_is_empty name)) MemberNames
     (ensure (fcard server_endpoints = length members \<and> fBall server_endpoints (\<lambda>e. \<not> trim_is_empty e)) MemberEndpoints
     (res_bind (fold_res (member_shards_step shape) {||} members) (\<lambda>shard_ids.
      ensure (fcard shard_ids = unat (es_total_shards shape)) MemberShardCount (Inr ())))))"

definition membership_from_runtime ::
  "ErasureSetShape \<Rightarrow> ErasureSetMember list \<Rightarrow> quorum_error + ErasureSetMember list" where
  "membership_from_runtime shape members =
     (let members = sort_key em_pod_name members
      in res_bind (validate_membership members shape) (\<lambda>_. Inr members))"

definition removed_shards_step :: "u32 \<Rightarrow> ErasureSetMember \<Rightarrow> quorum_error + u32" where
  "removed_shards_step n member =
     res_bind (u32_try_from (length (em_shard_ids member))) (\<lambda>k.
     context_or (u32_checked_add n k) SelectedOverflow Inr)"

definition require_selected_boundary :: "ErasureSetMember list \<Rightarrow> ErasureSetShape \<Rightarrow> string list \<Rightarrow> quorum_error + unit" where
  "require_selected_boundary members shape selected =
     res_bind (validate_membership members shape) (\<lambda>_.
     let selected_pods = fset_of_list selected;
         known_pods = fset_of_list (map em_pod_name members) in
     ensure (selected_pods \<noteq> {||}) NothingSelected
     (ensure (selected_pods |\<subseteq>| known_pods) UnknownPodSelected
     (res_bind (fold_res removed_shards_step 0 (filter (\<lambda>m. em_pod_name m |\<in>| selected_pods) members))
        (require_removed_shard_boundary shape))))"

subsection \<open>Health before the fault\<close>

record ErasureSetHealth =
  eh_online_shards :: u32
  eh_offline_shards :: u32
  eh_unknown_shards :: u32

definition require_all_online :: "ErasureSetHealth \<Rightarrow> u32 \<Rightarrow> quorum_error + unit" where
  "require_all_online health total_shards =
     context_or (Option.bind (u32_checked_add (eh_online_shards health) (eh_offline_shards health))
        (\<lambda>count. u32_checked_add count (eh_unknown_shards health))) HealthOverflow (\<lambda>observed_shards.
     ensure (observed_shards = total_shards) HealthCoverage
     (ensure (eh_online_shards health = total_shards \<and> eh_offline_shards health = 0 \<and> eh_unknown_shards health = 0)
        NotAllOnline (Inr ())))"

definition health_from_runtime :: "u32 \<Rightarrow> nat \<Rightarrow> nat \<Rightarrow> nat \<Rightarrow> quorum_error + ErasureSetHealth" where
  "health_from_runtime total_shards online_shards offline_shards unknown_shards =
     res_bind (u32_try_from online_shards) (\<lambda>online.
     res_bind (u32_try_from offline_shards) (\<lambda>offline.
     res_bind (u32_try_from unknown_shards) (\<lambda>unknown.
     let health = \<lparr>eh_online_shards = online, eh_offline_shards = offline, eh_unknown_shards = unknown\<rparr>
     in res_bind (require_all_online health total_shards) (\<lambda>_. Inr health))))"

subsection \<open>Targets of a volume fault\<close>

record QuorumVolumeBinding =
  qb_pod_name :: string
  qb_pod_uid :: string
  qb_container_id :: string
  qb_mount_path :: string
  qb_persistent_volume_claim :: string
  qb_persistent_volume :: string
  qb_drive_uuid :: string
  qb_pool_index :: u32
  qb_set_index :: u32

record QuorumVolumeTargetProof =
  tp_boundary :: QuorumVolumeBoundary
  tp_requirements :: QuorumRequirements
  tp_target_count :: u32
  tp_candidates :: "QuorumVolumeBinding list"

definition unique_values :: "string list \<Rightarrow> string \<Rightarrow> quorum_error + unit" where
  "unique_values values label =
     ensure (list_all (\<lambda>v. \<not> trim_is_empty v) values \<and> fcard (fset_of_list values) = length values) (NotUnique label) (Inr ())"

text \<open>Rows collected into a map by Pod name; the last row of a repeated name stays.\<close>

definition by_pod :: "('a \<Rightarrow> string) \<Rightarrow> 'a list \<Rightarrow> (string, 'a) fmap" where
  "by_pod name rows = fmap_of_list (rev (map (\<lambda>row. (name row, row)) rows))"

definition validate_binding ::
  "ErasureSetShape \<Rightarrow> (string, ErasureSetMember) fmap \<Rightarrow> QuorumVolumeBinding \<Rightarrow> quorum_error + unit" where
  "validate_binding shape members binding =
     ensure (qb_pool_index binding = es_pool_index shape \<and> qb_set_index binding = es_set_index shape
       \<and> \<not> trim_is_empty (qb_mount_path binding)) (OutsideSet (qb_pod_name binding))
     (context_or (fmlookup members (qb_pod_name binding)) (NotAMember (qb_pod_name binding)) (\<lambda>member.
      ensure (em_shard_ids member = [qb_drive_uuid binding]) (NotSoleDrive (qb_pod_name binding)) (Inr ())))"

definition validate_target_proof ::
  "QuorumVolumeTargetProof \<Rightarrow> ErasureSetShape \<Rightarrow> ErasureSetMember list \<Rightarrow> quorum_error + unit" where
  "validate_target_proof proof shape members =
     res_bind (validate_shape shape) (\<lambda>_.
     res_bind (validate_membership members shape) (\<lambda>_.
     ensure (es_volumes_per_server shape = 1 \<and> es_server_count shape = es_total_shards shape) NotOneVolumePerServer
     (res_bind (class_requirements (vb_class (tp_boundary proof)) shape) (\<lambda>requirements.
      ensure (tp_requirements proof = requirements) RequirementsMismatch
     (res_bind (target_count (tp_boundary proof) shape) (\<lambda>count.
      ensure (tp_target_count proof = count) TargetCountMismatch
     (ensure (length (tp_candidates proof) = unat (es_total_shards shape)) CandidateCount
     (res_bind (unique_values (map qb_pod_name (tp_candidates proof)) ''Pod names'') (\<lambda>_.
      res_bind (unique_values (map qb_pod_uid (tp_candidates proof)) ''Pod UIDs'') (\<lambda>_.
      res_bind (unique_values (map qb_container_id (tp_candidates proof)) ''container IDs'') (\<lambda>_.
      res_bind (unique_values (map qb_persistent_volume_claim (tp_candidates proof)) ''PVC names'') (\<lambda>_.
      res_bind (unique_values (map qb_persistent_volume (tp_candidates proof)) ''PV names'') (\<lambda>_.
      res_bind (unique_values (map qb_drive_uuid (tp_candidates proof)) ''drive UUIDs'') (\<lambda>_.
      fold_res (\<lambda>_. validate_binding shape (by_pod em_pod_name members)) () (tp_candidates proof)))))))))))))))"

definition target_proof_from_runtime ::
  "ErasureSetShape \<Rightarrow> ErasureSetMember list \<Rightarrow> QuorumVolumeBoundary \<Rightarrow> QuorumVolumeBinding list
     \<Rightarrow> quorum_error + QuorumVolumeTargetProof" where
  "target_proof_from_runtime shape members boundary candidates =
     res_bind (class_requirements (vb_class boundary) shape) (\<lambda>requirements.
     res_bind (target_count boundary shape) (\<lambda>count.
     let proof = \<lparr>tp_boundary = boundary, tp_requirements = requirements, tp_target_count = count,
           tp_candidates = sort_key qb_pod_name candidates\<rparr>
     in res_bind (validate_target_proof proof shape members) (\<lambda>_. Inr proof)))"

subsection \<open>Health during the fault\<close>

record QuorumDriveHealth =
  qd_pod_name :: string
  qd_server_endpoint :: string
  qd_drive_uuid :: string
  qd_state :: string
  qd_pool_index :: int
  qd_set_index :: int

record QuorumHealthObservation =
  ho_started_at_ms :: nat
  ho_completed_at_ms :: nat
  ho_deployment_id :: string
  ho_shape :: ErasureSetShape
  ho_drives :: "QuorumDriveHealth list"

definition observe_drive ::
  "(string, QuorumDriveHealth) fmap \<Rightarrow> QuorumDriveHealth \<Rightarrow> quorum_error + (string, QuorumDriveHealth) fmap" where
  "observe_drive observed drive =
     ensure (\<not> trim_is_empty (qd_pod_name drive) \<and> \<not> trim_is_empty (qd_server_endpoint drive)
       \<and> \<not> trim_is_empty (qd_drive_uuid drive) \<and> \<not> trim_is_empty (qd_state drive)
       \<and> fmlookup observed (qd_pod_name drive) = None) BadDriveIdentity (Inr (fmupd (qd_pod_name drive) drive observed))"

definition validate_drive ::
  "ErasureSetShape \<Rightarrow> (string, ErasureSetMember) fmap \<Rightarrow> (string, QuorumDriveHealth) fmap \<Rightarrow> string fset
     \<Rightarrow> string \<times> QuorumVolumeBinding \<Rightarrow> quorum_error + unit" where
  "validate_drive shape members observed selected_pods entry =
     (let (pod_name, candidate) = entry in
      context_or (fmlookup members pod_name) (NoMembership pod_name) (\<lambda>member.
      context_or (fmlookup observed pod_name) (DriveOmitted pod_name) (\<lambda>drive.
      ensure (em_shard_ids member = [qb_drive_uuid candidate] \<and> qd_server_endpoint drive = em_server_endpoint member
        \<and> qd_drive_uuid drive = qb_drive_uuid candidate) (IdentityChanged pod_name)
     (res_bind (i32_try_from (es_pool_index shape)) (\<lambda>pool.
      ensure (qd_pool_index drive = pool) (IdentityChanged pod_name)
     (res_bind (i32_try_from (es_set_index shape)) (\<lambda>set_index.
      ensure (qd_set_index drive = set_index) (IdentityChanged pod_name)
     (ensure (pod_name |\<in>| selected_pods \<or> qd_state drive = ''ok'') (NotHealthy pod_name) (Inr ())))))))))"

definition validate_health_observation ::
  "QuorumHealthObservation \<Rightarrow> string \<Rightarrow> ErasureSetShape \<Rightarrow> ErasureSetMember list \<Rightarrow> QuorumVolumeTargetProof \<Rightarrow> string fset
     \<Rightarrow> quorum_error + unit" where
  "validate_health_observation obs deployment_id shape membership target selected_pods =
     ensure (ho_started_at_ms obs > 0 \<and> ho_started_at_ms obs \<le> ho_completed_at_ms obs) BadInterval
     (ensure (\<not> trim_is_empty deployment_id \<and> ho_deployment_id obs = deployment_id) DeploymentChanged
     (ensure (ho_shape obs = shape) ShapeChanged
     (res_bind (validate_target_proof target shape membership) (\<lambda>_.
      ensure (fcard selected_pods = unat (tp_target_count target) \<and>
        fBall selected_pods (\<lambda>pod. pod \<in> qb_pod_name ` set (tp_candidates target))) SelectedMismatch
     (let candidates = by_pod qb_pod_name (tp_candidates target);
          members = by_pod em_pod_name membership in
      res_bind (fold_res observe_drive fmempty (ho_drives obs)) (\<lambda>observed.
      ensure (fcard (fmdom observed) = fcard (fmdom candidates)) DriveCoverage
       (fold_res (\<lambda>_. validate_drive shape members observed selected_pods) () (fm_entries candidates))))))))"

definition require_within :: "QuorumHealthObservation \<Rightarrow> nat \<Rightarrow> nat \<Rightarrow> quorum_error + unit" where
  "require_within obs window_start_ms window_end_ms =
     ensure (window_start_ms \<le> window_end_ms \<and> ho_started_at_ms obs \<ge> window_start_ms
       \<and> ho_completed_at_ms obs \<le> window_end_ms) OutsideWindow (Inr ())"

subsection \<open>Two volumes of one Pod\<close>

definition assess_same_pod_two_volume_geometry :: "u32 \<Rightarrow> nat \<Rightarrow> bool option \<Rightarrow> quorum_error + unit" where
  "assess_same_pod_two_volume_geometry volumes_per_server distinct_data_mounts_on_pod shared_erasure_set =
     ensure (volumes_per_server \<ge> 2) OneVolumePerServer
     (ensure (distinct_data_mounts_on_pod \<ge> 2) OneMount
     (case shared_erasure_set of Some True \<Rightarrow> Inr () | Some False \<Rightarrow> Inl SetsDiffer | None \<Rightarrow> Inl SetsUnknown))"

definition path_char :: "char \<Rightarrow> bool" where
  "path_char c = (let n = of_char c :: nat in
     48 \<le> n \<and> n \<le> 57 \<or> 65 \<le> n \<and> n \<le> 90 \<or> 97 \<le> n \<and> n \<le> 122 \<or> c \<in> {CHR ''/'', CHR ''.'', CHR ''_'', CHR ''-''})"

definition validate_rustfs_volume_path :: "string \<Rightarrow> quorum_error + unit" where
  "validate_rustfs_volume_path value =
     ensure (prefix ''/'' value \<and> value \<noteq> ''/'') NotAbsolutePath
     (ensure (CHR 0x0A \<notin> set value \<and> CHR 0x0D \<notin> set value) PathNewline
     (ensure (list_all path_char value) PathCharacter (Inr ())))"

record SamePodVolumeTargetProof =
  sp_bindings :: "QuorumVolumeBinding \<times> QuorumVolumeBinding"
  sp_runtime_drive_paths :: "(string, string) fmap"

definition validate_same_pod_binding ::
  "SamePodVolumeTargetProof \<Rightarrow> ErasureSetShape \<Rightarrow> ErasureSetMember \<Rightarrow> QuorumVolumeBinding \<Rightarrow> quorum_error + unit" where
  "validate_same_pod_binding proof shape member binding =
     ensure (qb_pool_index binding = es_pool_index shape \<and> qb_set_index binding = es_set_index shape
       \<and> qb_drive_uuid binding \<in> set (em_shard_ids member)
       \<and> fmlookup (sp_runtime_drive_paths proof) (qb_drive_uuid binding) = Some (qb_mount_path binding)
       \<and> qb_pod_uid binding \<noteq> [] \<and> qb_container_id binding \<noteq> [] \<and> qb_persistent_volume_claim binding \<noteq> []
       \<and> qb_persistent_volume binding \<noteq> []) BindingMismatch
     (validate_rustfs_volume_path (qb_mount_path binding))"

definition validate_same_pod_proof ::
  "SamePodVolumeTargetProof \<Rightarrow> ErasureSetShape \<Rightarrow> ErasureSetMember list \<Rightarrow> quorum_error + unit" where
  "validate_same_pod_proof proof shape members =
     res_bind (validate_shape shape) (\<lambda>_.
     res_bind (validate_membership members shape) (\<lambda>_.
     res_bind (require_volume_availability_boundary shape 2) (\<lambda>_.
     res_bind (assess_same_pod_two_volume_geometry (es_volumes_per_server shape) 2 (Some True)) (\<lambda>_.
     let (first, second) = sp_bindings proof in
     ensure (qb_pod_name first = qb_pod_name second \<and> qb_pod_uid first = qb_pod_uid second
       \<and> qb_container_id first = qb_container_id second \<and> qb_mount_path first \<noteq> qb_mount_path second
       \<and> qb_persistent_volume_claim first \<noteq> qb_persistent_volume_claim second
       \<and> qb_persistent_volume first \<noteq> qb_persistent_volume second
       \<and> qb_drive_uuid first \<noteq> qb_drive_uuid second) NotTwoVolumes
     (context_or (find (\<lambda>member. em_pod_name member = qb_pod_name first) members) TargetNotMember (\<lambda>member.
      ensure (fcard (fmdom (sp_runtime_drive_paths proof)) = 2) RuntimePaths
     (fold_res (\<lambda>_. validate_same_pod_binding proof shape member) () [first, second])))))))"

end
