(* ===== verification/Quorum_Correctness.thy ===== *)
theory Quorum_Correctness
  imports Quorum
begin

text \<open>
  What the quorum numbers mean for sets of shards: reads and writes intersect, the tolerances are exact, the boundaries a
  scenario may exercise are the ones it names, and an accepted target proof and health observation leave the shards
  they promise.
\<close>

subsection \<open>Words as numbers\<close>

lemma checked_sub_Some [simp]: "u32_checked_sub a b = Some c \<longleftrightarrow> unat b \<le> unat a \<and> c = a - b"
  by (auto simp: u32_checked_sub_def word_le_nat_alt)

lemma unat_diff: "unat b \<le> unat a \<Longrightarrow> unat (a - b :: u32) = unat a - unat b"
  by (simp add: unat_sub word_le_nat_alt)

lemma nat_less_power: "int n < 2 ^ 32 \<longleftrightarrow> n < 2 ^ 32"
  using of_nat_less_iff [of n "2 ^ 32", where 'a = int] by (simp only: of_nat_power of_nat_numeral)

lemma checked_add_unat_def: "u32_checked_add a b = (if unat a + unat b < 2 ^ 32 then Some (a + b) else None)"
  unfolding u32_checked_add_def uint_nat of_nat_add [symmetric] nat_less_power ..

lemma checked_mul_unat_def: "u32_checked_mul a b = (if unat a * unat b < 2 ^ 32 then Some (a * b) else None)"
  unfolding u32_checked_mul_def uint_nat of_nat_mult [symmetric] nat_less_power ..

lemma checked_add_unat: "u32_checked_add a b = Some c \<Longrightarrow> unat c = unat a + unat b"
  by (auto simp: checked_add_unat_def unat_add_lem [symmetric] split: if_splits)

lemma checked_mul_unat: "u32_checked_mul a b = Some c \<Longrightarrow> unat c = unat a * unat b"
  by (auto simp: checked_mul_unat_def unat_mult_lem [symmetric] split: if_splits)

lemma unat_eq_iff: "(a :: u32) = b \<longleftrightarrow> unat a = unat b"
  by (simp add: word_unat_eq_iff)

lemmas word_order = word_le_nat_alt word_less_nat_alt

subsection \<open>Geometry\<close>

definition geometry :: "nat \<Rightarrow> nat \<Rightarrow> bool" where
  "geometry n p \<longleftrightarrow> 2 \<le> n \<and> n \<le> 16 \<and> 2 * p \<le> n"

lemma payload_Inr:
  "payload_requirements n p = Inr q \<longleftrightarrow> geometry (unat n) (unat p) \<and> q = from_geometry n p"
proof -
  have "unat p \<le> unat n div 2 \<longleftrightarrow> 2 * unat p \<le> unat n" by auto
  then show ?thesis
    by (auto simp: payload_requirements_def MAX_ERASURE_SET_SHARDS_def geometry_def word_order unat_div)
qed

lemma metadata_Inr:
  "metadata_requirements n = Inr q \<longleftrightarrow> 2 \<le> unat n \<and> unat n \<le> 16 \<and> q = from_geometry n (n div 2)"
  by (auto simp: metadata_requirements_def MAX_ERASURE_SET_SHARDS_def word_order)

text \<open>Every class of mutation has a geometry: its own parity, or half of the shards.\<close>

definition class_parity :: "u32 \<Rightarrow> u32 \<Rightarrow> QuorumMutationClass \<Rightarrow> u32" where
  "class_parity n p cls = (if cls = DeleteMarker then n div 2 else p)"

lemma for_mutation_Inr:
  assumes "for_mutation n p cls = Inr q"
  shows "q = from_geometry n (class_parity n p cls)"
    and "geometry (unat n) (unat (class_parity n p cls))"
  using assms by (cases cls; auto simp: for_mutation_def class_parity_def payload_Inr metadata_Inr geometry_def unat_div)+

lemma geometry_numbers:
  assumes "geometry (unat n) (unat p)"
  defines "q \<equiv> from_geometry n p"
  shows "qr_total_shards q = n" and "qr_parity_shards q = p"
    and "unat (qr_data_shards q) = unat n - unat p"
    and "unat (qr_read_quorum q) = unat n - unat p"
    and "unat (qr_write_quorum q) = unat n - unat p + (if 2 * unat p = unat n then 1 else 0)"
    and "unat (qr_read_tolerance q) = unat p"
    and "unat (qr_write_tolerance q) = unat p - (if 2 * unat p = unat n then 1 else 0)"
proof -
  let ?d = "n - p"
  from assms(1) have le: "unat p \<le> unat n" "2 \<le> unat n" "unat n \<le> 16" "2 * unat p \<le> unat n"
    by (auto simp: geometry_def)
  have d: "unat ?d = unat n - unat p" using le(1) by (rule unat_diff)
  have eq: "?d = p \<longleftrightarrow> 2 * unat p = unat n" unfolding unat_eq_iff d using le by auto
  have "unat ?d + unat (1 :: u32) < 2 ^ LENGTH(32)" using d le by simp
  then have d1: "unat (?d + 1) = unat ?d + 1" by (simp only: unat_add_lem) simp
  let ?w = "if ?d = p then ?d + 1 else ?d"
  have w: "unat ?w = unat n - unat p + (if 2 * unat p = unat n then 1 else 0)"
    using d d1 eq by simp
  show "qr_total_shards q = n" "qr_parity_shards q = p" "unat (qr_data_shards q) = unat n - unat p"
    "unat (qr_read_quorum q) = unat n - unat p"
    "unat (qr_write_quorum q) = unat n - unat p + (if 2 * unat p = unat n then 1 else 0)"
    unfolding q_def from_geometry_def Let_def using d w by simp_all
  have "unat (n - ?d) = unat p" using le d by (simp add: unat_diff)
  then show "unat (qr_read_tolerance q) = unat p" unfolding q_def from_geometry_def Let_def by simp
  have "unat (n - ?w) = unat n - unat ?w" using le w by (intro unat_diff) auto
  also have "\<dots> = unat p - (if 2 * unat p = unat n then 1 else 0)" using le unfolding w by auto
  finally show "unat (qr_write_tolerance q) = unat p - (if 2 * unat p = unat n then 1 else 0)"
    unfolding q_def from_geometry_def Let_def by simp
qed

subsection \<open>Quorums as sets of shards\<close>

lemma overlap:
  assumes "finite S" and "A \<subseteq> S" "B \<subseteq> S" and "card S < card A + card B"
  shows "A \<inter> B \<noteq> {}"
proof
  assume "A \<inter> B = {}"
  then have "card (A \<union> B) = card A + card B" using assms(1-3) by (intro card_Un_disjoint) (auto intro: finite_subset)
  moreover have "card (A \<union> B) \<le> card S" using assms(1-3) by (intro card_mono) auto
  ultimately show False using assms(4) by simp
qed

text \<open>
  C27: Quorums are sound. For every class of mutation, in an erasure set of its size, every read quorum meets every write quorum and
  any two write quorums meet; losing a set of shards keeps a read (write) quorum exactly when it has no more shards than
  the read (write) tolerance.
\<close>

theorem quorums_intersect:
  assumes "for_mutation n p cls = Inr q" and "finite S" and "card S = unat n"
  shows "(\<forall>R W. R \<subseteq> S \<and> W \<subseteq> S \<and> unat (qr_read_quorum q) \<le> card R \<and> unat (qr_write_quorum q) \<le> card W \<longrightarrow> R \<inter> W \<noteq> {}) \<and>
    (\<forall>V W. V \<subseteq> S \<and> W \<subseteq> S \<and> unat (qr_write_quorum q) \<le> card V \<and> unat (qr_write_quorum q) \<le> card W \<longrightarrow> V \<inter> W \<noteq> {}) \<and>
    (\<forall>U. U \<subseteq> S \<longrightarrow> (unat (qr_read_quorum q) \<le> card (S - U) \<longleftrightarrow> card U \<le> unat (qr_read_tolerance q)) \<and>
      (unat (qr_write_quorum q) \<le> card (S - U) \<longleftrightarrow> card U \<le> unat (qr_write_tolerance q)))"
proof -
  let ?p = "class_parity n p cls"
  note q = for_mutation_Inr [OF assms(1)]
  note numbers = geometry_numbers [OF q(2), folded q(1)]
  from q(2) have g: "2 \<le> unat n" "2 * unat ?p \<le> unat n" by (auto simp: geometry_def)
  have rw: "unat n < unat (qr_read_quorum q) + unat (qr_write_quorum q)" and ww: "unat n < 2 * unat (qr_write_quorum q)"
    unfolding numbers using g by auto
  have "card (S - U) = unat n - card U" "card U \<le> unat n" if "U \<subseteq> S" for U
    using that assms(2,3) card_mono [OF assms(2) that] by (simp_all add: card_Diff_subset finite_subset)
  then have "(unat (qr_read_quorum q) \<le> card (S - U) \<longleftrightarrow> card U \<le> unat (qr_read_tolerance q)) \<and>
      (unat (qr_write_quorum q) \<le> card (S - U) \<longleftrightarrow> card U \<le> unat (qr_write_tolerance q))" if "U \<subseteq> S" for U
    using that g unfolding numbers by auto
  moreover have "R \<inter> W \<noteq> {}" if "R \<subseteq> S \<and> W \<subseteq> S \<and> unat (qr_read_quorum q) \<le> card R \<and> unat (qr_write_quorum q) \<le> card W" for R W
    using that rw assms(3) by (intro overlap [OF assms(2)]) auto
  moreover have "V \<inter> W \<noteq> {}" if "V \<subseteq> S \<and> W \<subseteq> S \<and> unat (qr_write_quorum q) \<le> card V \<and> unat (qr_write_quorum q) \<le> card W" for V W
    using that ww assms(3) by (intro overlap [OF assms(2)]) auto
  ultimately show ?thesis by blast
qed

subsection \<open>Boundaries of a shape\<close>

lemma validate_shape_Inr:
  assumes "validate_shape shape = Inr ()"
  shows "geometry (unat (es_total_shards shape)) (unat (es_payload_parity_shards shape))"
    and "unat (es_total_shards shape) = unat (es_server_count shape) * unat (es_volumes_per_server shape)"
    and "0 < unat (es_server_count shape)" and "0 < unat (es_volumes_per_server shape)"
    and "unat (es_payload_data_shards shape) = unat (es_total_shards shape) - unat (es_payload_parity_shards shape)"
proof -
  from assms obtain q where s: "es_server_count shape > 0" "es_volumes_per_server shape > 0"
    "u32_checked_mul (es_server_count shape) (es_volumes_per_server shape) = Some (es_total_shards shape)"
    "payload_quorum shape = Inr q" "qr_data_shards q = es_payload_data_shards shape"
    by (auto simp: validate_shape_def)
  from s(4) have q: "geometry (unat (es_total_shards shape)) (unat (es_payload_parity_shards shape))"
    "q = from_geometry (es_total_shards shape) (es_payload_parity_shards shape)"
    by (auto simp: payload_quorum_def for_mutation_def payload_Inr)
  show "geometry (unat (es_total_shards shape)) (unat (es_payload_parity_shards shape))" by (rule q)
  show "unat (es_total_shards shape) = unat (es_server_count shape) * unat (es_volumes_per_server shape)"
    by (rule checked_mul_unat [OF s(3)])
  show "0 < unat (es_server_count shape)" "0 < unat (es_volumes_per_server shape)" using s(1,2) by (simp_all add: word_order)
  show "unat (es_payload_data_shards shape) = unat (es_total_shards shape) - unat (es_payload_parity_shards shape)"
    using geometry_numbers(3) [OF q(1)] s(5) q(2) by simp
qed

lemma payload_quorum_valid:
  assumes "geometry (unat (es_total_shards shape)) (unat (es_payload_parity_shards shape))"
  shows "payload_quorum shape = Inr (from_geometry (es_total_shards shape) (es_payload_parity_shards shape))"
  using assms by (simp add: payload_quorum_def for_mutation_def payload_Inr)

lemma removed_boundary_iff:
  assumes "validate_shape shape = Inr ()"
  shows "require_removed_shard_boundary shape removed = Inr () \<longleftrightarrow>
    2 * unat (es_payload_parity_shards shape) = unat (es_total_shards shape) \<and> removed = es_payload_parity_shards shape"
proof -
  note g = validate_shape_Inr(1) [OF assms]
  note numbers = geometry_numbers [OF g]
  from g have b: "2 * unat (es_payload_parity_shards shape) \<le> unat (es_total_shards shape)" by (simp add: geometry_def)
  have "require_removed_shard_boundary shape removed = Inr () \<longleftrightarrow>
      unat removed \<le> unat (es_total_shards shape) \<and>
      unat (qr_read_quorum (from_geometry (es_total_shards shape) (es_payload_parity_shards shape))) \<le> unat (es_total_shards shape - removed) \<and>
      unat (es_total_shards shape - removed) < unat (qr_write_quorum (from_geometry (es_total_shards shape) (es_payload_parity_shards shape)))"
    unfolding require_removed_shard_boundary_def payload_quorum_valid [OF g] by (auto simp: word_order)
  also have "\<dots> \<longleftrightarrow> 2 * unat (es_payload_parity_shards shape) = unat (es_total_shards shape) \<and> unat removed = unat (es_payload_parity_shards shape)"
    unfolding numbers using b by (auto simp: unat_diff split: if_splits)
  finally show ?thesis by (simp add: unat_eq_iff)
qed

subsection \<open>Membership\<close>

lemma fcard_distinct: "fcard (fset_of_list xs) = length xs \<longleftrightarrow> distinct xs"
  by (auto simp: fcard.rep_eq fset_of_list.rep_eq distinct_card card_distinct)

lemma fset_of_list_empty: "fset_of_list xs = {||} \<longleftrightarrow> xs = []"
  by (cases xs) auto

lemma by_pod_lookup:
  assumes "distinct (map name rows)"
  shows "fmlookup (by_pod name rows) k = Some r \<longleftrightarrow> r \<in> set rows \<and> name r = k"
proof -
  have "distinct (map fst (rev (map (\<lambda>row. (name row, row)) rows)))" using assms by (simp add: rev_map [symmetric] comp_def)
  then show ?thesis unfolding by_pod_def fmlookup_of_list by (auto simp: map_of_eq_Some_iff)
qed

lemma by_pod_dom: "fset (fmdom (by_pod name rows)) = name ` set rows"
  by (simp add: by_pod_def fset_of_list.rep_eq image_image)

lemma collect_ids_Inr:
  "fold_res (\<lambda>ids x. ensure (\<not> trim_is_empty x \<and> x |\<notin>| ids) BadShardId (Inr (finsert x ids))) ids xs = Inr ids' \<longleftrightarrow>
     (\<forall>x \<in> set xs. \<not> trim_is_empty x) \<and> distinct xs \<and> set xs \<inter> fset ids = {} \<and> fset ids' = fset ids \<union> set xs"
proof (induction xs arbitrary: ids)
  case (Cons x xs)
  show ?case
  proof (cases "\<not> trim_is_empty x \<and> x |\<notin>| ids")
    case True
    then show ?thesis by (auto simp: Cons.IH)
  qed auto
qed (auto simp: fset_inject)

lemma member_shards_Inr:
  assumes "fold_res (member_shards_step shape) ids ms = Inr ids'"
  shows "(\<forall>m \<in> set ms. length (em_shard_ids m) = unat (es_volumes_per_server shape)) \<and> distinct (concat (map em_shard_ids ms)) \<and>
    set (concat (map em_shard_ids ms)) \<inter> fset ids = {} \<and> fset ids' = fset ids \<union> set (concat (map em_shard_ids ms))"
  using assms
proof (induction ms arbitrary: ids)
  case (Cons m ms)
  from Cons.prems obtain ids1 where step: "member_shards_step shape ids m = Inr ids1"
    and rest: "fold_res (member_shards_step shape) ids1 ms = Inr ids'" by (auto split: sum.splits)
  from step have "length (em_shard_ids m) = unat (es_volumes_per_server shape)" "distinct (em_shard_ids m)"
    "set (em_shard_ids m) \<inter> fset ids = {}" "fset ids1 = fset ids \<union> set (em_shard_ids m)"
    by (auto simp: member_shards_step_def collect_ids_Inr)
  with Cons.IH [OF rest] show ?case by auto
qed simp

lemma validate_membership_Inr:
  assumes "validate_membership members shape = Inr ()"
  shows "length members = unat (es_server_count shape)" and "distinct (map em_pod_name members)"
    and "distinct (map em_server_endpoint members)"
    and "\<forall>m \<in> set members. length (em_shard_ids m) = unat (es_volumes_per_server shape)"
    and "distinct (concat (map em_shard_ids members))"
    and "length (concat (map em_shard_ids members)) = unat (es_total_shards shape)"
proof -
  from assms obtain ids where m: "length members = unat (es_server_count shape)"
    "fcard (fset_of_list (map em_pod_name members)) = length (map em_pod_name members)"
    "fcard (fset_of_list (map em_server_endpoint members)) = length (map em_server_endpoint members)"
    "fold_res (member_shards_step shape) {||} members = Inr ids" "fcard ids = unat (es_total_shards shape)"
    by (auto simp: validate_membership_def Let_def)
  note shards = member_shards_Inr [OF m(4)]
  show "length members = unat (es_server_count shape)" by (rule m)
  show "distinct (map em_pod_name members)" "distinct (map em_server_endpoint members)"
    using m(2,3) unfolding fcard_distinct .
  show "\<forall>m \<in> set members. length (em_shard_ids m) = unat (es_volumes_per_server shape)"
    and d: "distinct (concat (map em_shard_ids members))" using shards by blast+
  have "fset ids = set (concat (map em_shard_ids members))" using shards by simp
  then show "length (concat (map em_shard_ids members)) = unat (es_total_shards shape)"
    using m(5) distinct_card [OF d] by (simp add: fcard.rep_eq)
qed

lemma removed_shards_sum:
  assumes "unat c + sum_list (map (length \<circ> em_shard_ids) ms) < 2 ^ 32"
  shows "\<exists>r. fold_res removed_shards_step c ms = Inr r \<and> unat r = unat c + sum_list (map (length \<circ> em_shard_ids) ms)"
  using assms
proof (induction ms arbitrary: c)
  case (Cons m ms)
  let ?k = "of_nat (length (em_shard_ids m)) :: u32"
  have k: "unat ?k = length (em_shard_ids m)" using Cons.prems by (simp add: unat_of_nat take_bit_nat_eq_self)
  then have sum: "u32_checked_add c ?k = Some (c + ?k)" "unat (c + ?k) = unat c + length (em_shard_ids m)"
    using Cons.prems checked_add_unat [of c ?k "c + ?k"] by (simp_all add: checked_add_unat_def)
  then have "removed_shards_step c m = Inr (c + ?k)" using Cons.prems by (simp add: removed_shards_step_def u32_try_from_def nat_less_power)
  with Cons.IH [of "c + ?k"] Cons.prems sum(2) show ?case by (simp add: add.assoc)
qed simp

text \<open>
  A partition boundary is exact. For a valid shape and membership, a selection of Pods is accepted as a partition exactly when it is
  a set of members with half of the shards of a set that has as many parity as data shards: reads stay possible,
  writes do not. A number of servers is accepted exactly when that many servers make such a selection.
\<close>

theorem partition_boundary_exact:
  assumes "validate_shape shape = Inr ()" and "validate_membership members shape = Inr ()"
  shows "(require_selected_boundary members shape selected = Inr () \<longleftrightarrow>
      set selected \<subseteq> em_pod_name ` set members \<and>
      2 * (card (set selected) * unat (es_volumes_per_server shape)) = unat (es_total_shards shape) \<and>
      es_payload_data_shards shape = es_payload_parity_shards shape) \<and>
    (require_server_partition_boundary shape k = Inr () \<longleftrightarrow>
      2 * (unat k * unat (es_volumes_per_server shape)) = unat (es_total_shards shape) \<and>
      es_payload_data_shards shape = es_payload_parity_shards shape)"
proof -
  let ?v = "unat (es_volumes_per_server shape)" and ?n = "unat (es_total_shards shape)" and ?p = "unat (es_payload_parity_shards shape)"
  note shape = validate_shape_Inr [OF assms(1)] and members = validate_membership_Inr [OF assms(2)]
  from shape(1) have n: "2 \<le> ?n" "?n \<le> 16" "2 * ?p \<le> ?n" by (auto simp: geometry_def)
  have half: "es_payload_data_shards shape = es_payload_parity_shards shape \<longleftrightarrow> 2 * ?p = ?n"
    unfolding unat_eq_iff shape(5) using n by auto
  let ?hit = "filter (\<lambda>m. em_pod_name m |\<in>| fset_of_list selected) members"
  let ?known = "set selected \<subseteq> em_pod_name ` set members"
  have hits: "sum_list (map (length \<circ> em_shard_ids) ?hit) = card (set selected) * ?v" if ?known
  proof -
    have "map (length \<circ> em_shard_ids) ?hit = map (\<lambda>_. ?v) ?hit" using members(4) by (intro map_cong) auto
    moreover have "em_pod_name ` set ?hit = set selected" using that by (auto simp: fset_of_list_elem)
    then have "length ?hit = card (set selected)"
      using distinct_card [of "map em_pod_name ?hit"] distinct_map_filter [OF members(2)] by simp
    ultimately show ?thesis by (simp only: map_replicate_const sum_list_replicate of_nat_id)
  qed
  have bound: "card (set selected) * ?v \<le> ?n" if ?known
  proof -
    have "card (set selected) \<le> length members"
      using card_mono [OF _ that] card_image_le [of "set members" em_pod_name] card_length [of members] by simp
    then show ?thesis unfolding shape(2) members(1) by simp
  qed
  have "require_selected_boundary members shape selected = Inr () \<longleftrightarrow>
      ?known \<and> 2 * (card (set selected) * ?v) = ?n \<and> 2 * ?p = ?n"
  proof (cases "?known \<and> selected \<noteq> []")
    case True
    with fset_of_list_empty have ne: "fset_of_list selected \<noteq> {||}" by blast
    from True hits bound n removed_shards_sum [of 0 ?hit] obtain r where
      r: "fold_res removed_shards_step 0 ?hit = Inr r" "unat r = card (set selected) * ?v" by auto
    have "require_selected_boundary members shape selected = Inr () \<longleftrightarrow> require_removed_shard_boundary shape r = Inr ()"
      using True assms(2) r(1) ne by (auto simp: require_selected_boundary_def Let_def less_eq_fset.rep_eq fset_of_list.rep_eq)
    also have "\<dots> \<longleftrightarrow> 2 * ?p = ?n \<and> unat r = ?p" unfolding removed_boundary_iff [OF assms(1)] by (simp add: unat_eq_iff)
    finally show ?thesis using True r(2) by auto
  next
    case False
    then show ?thesis using n by (auto simp: require_selected_boundary_def Let_def less_eq_fset.rep_eq fset_of_list.rep_eq)
  qed
  moreover have "require_server_partition_boundary shape k = Inr () \<longleftrightarrow> 2 * (unat k * ?v) = ?n \<and> 2 * ?p = ?n"
  proof (cases "0 < unat k \<and> unat k < unat (es_server_count shape)")
    case True
    then have "unat k * ?v \<le> ?n" unfolding shape(2) by simp
    then have r: "u32_checked_mul k (es_volumes_per_server shape) = Some (k * es_volumes_per_server shape)"
      using n by (simp add: checked_mul_unat_def)
    have "require_server_partition_boundary shape k = Inr () \<longleftrightarrow> require_removed_shard_boundary shape (k * es_volumes_per_server shape) = Inr ()"
      using True r by (simp add: require_server_partition_boundary_def word_order)
    also have "\<dots> \<longleftrightarrow> 2 * ?p = ?n \<and> unat k * ?v = ?p"
      unfolding removed_boundary_iff [OF assms(1)] unat_eq_iff checked_mul_unat [OF r] by simp
    finally show ?thesis by auto
  next
    case False
    have "\<not> (2 * (unat k * ?v) = ?n)"
    proof
      assume *: "2 * (unat k * ?v) = ?n"
      with n have "unat k \<noteq> 0" by (intro notI) simp
      with False have "unat (es_server_count shape) \<le> unat k" by simp
      then have "?n \<le> unat k * ?v" unfolding shape(2) by simp
      with * n show False by simp
    qed
    with False show ?thesis by (auto simp: require_server_partition_boundary_def word_order)
  qed
  ultimately show ?thesis unfolding half by blast
qed

subsection \<open>Volumes\<close>

lemma for_mutation_valid:
  assumes "geometry (unat n) (unat p)"
  shows "for_mutation n p cls = Inr (from_geometry n (class_parity n p cls))" and "geometry (unat n) (unat (class_parity n p cls))"
  using assms by (cases cls; auto simp: for_mutation_def class_parity_def payload_Inr metadata_Inr geometry_def unat_div)+

lemma for_mutation_numbers:
  assumes "geometry (unat n) (unat p)" and "for_mutation n p cls = Inr q"
  shows "unat (qr_write_quorum q) + unat (qr_write_tolerance q) = unat n" and "unat (qr_read_quorum q) + unat (qr_read_tolerance q) = unat n"
    and "unat (qr_write_tolerance q) \<le> unat (qr_read_tolerance q)"
proof -
  note q = for_mutation_Inr [OF assms(2)]
  note numbers = geometry_numbers [OF q(2), folded q(1)]
  from q(2) have g: "2 \<le> unat n" "2 * unat (class_parity n p cls) \<le> unat n" by (auto simp: geometry_def)
  show "unat (qr_write_quorum q) + unat (qr_write_tolerance q) = unat n" "unat (qr_read_quorum q) + unat (qr_read_tolerance q) = unat n"
    "unat (qr_write_tolerance q) \<le> unat (qr_read_tolerance q)"
    unfolding numbers using g by auto
qed

text \<open>
  The availability boundary is exact: a number of volumes may be made unavailable under this contract exactly when the shape is
  valid, the number is positive, and every class of mutation tolerates the loss of that many shards for reads and writes.
\<close>

theorem availability_boundary_exact:
  "require_volume_availability_boundary shape k = Inr () \<longleftrightarrow>
     validate_shape shape = Inr () \<and> 0 < unat k \<and>
     (\<forall>cls. \<exists>q. for_mutation (es_total_shards shape) (es_payload_parity_shards shape) cls = Inr q \<and>
        unat k \<le> unat (qr_read_tolerance q) \<and> unat k \<le> unat (qr_write_tolerance q))"
proof (cases "validate_shape shape = Inr ()")
  case False
  then show ?thesis by (simp add: require_volume_availability_boundary_def)
next
  case True
  let ?n = "es_total_shards shape" and ?p = "es_payload_parity_shards shape"
  let ?q = "\<lambda>cls. from_geometry ?n (class_parity ?n ?p cls)"
  note g = validate_shape_Inr(1) [OF True]
  note q = for_mutation_valid(1) [OF g] and numbers = for_mutation_numbers [OF g for_mutation_valid(1) [OF g]]
  have put: "?q MultipartComplete = ?q PutObject" by (simp add: class_parity_def)
  have all: "(\<forall>cls. P (?q cls)) \<longleftrightarrow> P (?q PutObject) \<and> P (?q DeleteMarker)" for P
    by (metis QuorumMutationClass.exhaust put)
  have "require_volume_availability_boundary shape k = Inr () \<longleftrightarrow> 0 < unat k \<and> unat k \<le> unat ?n \<and>
      unat (qr_read_quorum (?q PutObject)) \<le> unat (?n - k) \<and> unat (qr_write_quorum (?q PutObject)) \<le> unat (?n - k) \<and>
      unat (qr_write_quorum (?q DeleteMarker)) \<le> unat (?n - k)"
    unfolding require_volume_availability_boundary_def payload_quorum_def True q by (auto simp: word_order)
  also have "\<dots> \<longleftrightarrow> 0 < unat k \<and> (\<forall>cls. unat k \<le> unat (qr_read_tolerance (?q cls)) \<and> unat k \<le> unat (qr_write_tolerance (?q cls)))"
    unfolding all [of "\<lambda>q. unat k \<le> unat (qr_read_tolerance q) \<and> unat k \<le> unat (qr_write_tolerance q)"]
    using numbers [of PutObject] numbers [of DeleteMarker] by (auto simp: unat_diff)
  finally show ?thesis unfolding q using True by simp
qed

lemma class_requirements_Inr:
  assumes "validate_shape shape = Inr ()" and "class_requirements cls shape = Inr q"
  shows "\<exists>mutation. for_mutation (es_total_shards shape) (es_payload_parity_shards shape) mutation = Inr q"
  using assms(2)
  by (cases cls) (auto simp: class_requirements_def payload_quorum_def for_persisted_version_def for_mutation_def
      intro: exI [of _ DeleteMarker] exI [of _ PutObject])

lemma target_count_Inr:
  assumes "validate_shape shape = Inr ()" and "target_count boundary shape = Inr k"
  obtains q where "class_requirements (vb_class boundary) shape = Inr q" "0 < unat k" "unat k < unat (es_total_shards shape)"
    "unat k = unat (qr_read_tolerance q) + of_bool (vb_beyond_read_tolerance boundary)"
    "unat (es_total_shards shape - k) = unat (es_total_shards shape) - unat k"
proof -
  from assms(2) obtain q where q: "class_requirements (vb_class boundary) shape = Inr q"
    "u32_checked_add (qr_read_tolerance q) (of_bool (vb_beyond_read_tolerance boundary)) = Some k"
    "k > 0" "k < es_total_shards shape" by (auto simp: target_count_def)
  have "unat k = unat (qr_read_tolerance q) + unat (of_bool (vb_beyond_read_tolerance boundary) :: u32)"
    using q(2) by (rule checked_add_unat)
  also have "unat (of_bool b :: u32) = of_bool b" for b by (cases b) simp_all
  finally have k: "unat k = unat (qr_read_tolerance q) + of_bool (vb_beyond_read_tolerance boundary)" .
  have "0 < unat k" "unat k < unat (es_total_shards shape)" using q(3,4) by (simp_all add: word_order)
  then show thesis using k by (intro that [OF q(1)]) (simp_all add: unat_diff)
qed

text \<open>
  C32: A volume boundary is exact. For a valid shape the target count leaves exactly a read quorum of its class, or one shard
  less when it is to be beyond the tolerance, without wrap-around; the mutations announced as unavailable are
  exactly those whose write quorum is larger than what is left.
\<close>

theorem volume_boundary_exact:
  assumes "validate_shape shape = Inr ()" and "target_count boundary shape = Inr k"
  shows "\<exists>q ms. class_requirements (vb_class boundary) shape = Inr q \<and> unavailable_mutations boundary shape = Inr ms \<and>
    unat (es_total_shards shape - k) + of_bool (vb_beyond_read_tolerance boundary) = unat (qr_read_quorum q) \<and>
    (\<forall>m. m \<in> set ms \<longleftrightarrow> (\<exists>r. for_mutation (es_total_shards shape) (es_payload_parity_shards shape) m = Inr r \<and>
       unat (es_total_shards shape - k) < unat (qr_write_quorum r)))"
proof -
  let ?n = "es_total_shards shape" and ?p = "es_payload_parity_shards shape"
  note g = validate_shape_Inr(1) [OF assms(1)]
  from assms obtain q where q: "class_requirements (vb_class boundary) shape = Inr q" "unat k < unat ?n"
    "unat k = unat (qr_read_tolerance q) + of_bool (vb_beyond_read_tolerance boundary)" "unat (?n - k) = unat ?n - unat k"
    by (rule target_count_Inr)
  obtain mutation where "for_mutation ?n ?p mutation = Inr q" using class_requirements_Inr [OF assms(1) q(1)] by blast
  from for_mutation_numbers(2) [OF g this] q(2-4)
  have read: "unat (?n - k) + of_bool (vb_beyond_read_tolerance boundary) = unat (qr_read_quorum q)" by auto
  let ?lost = "\<lambda>m. ?n - k < qr_write_quorum (from_geometry ?n (class_parity ?n ?p m))"
  have ms: "unavailable_mutations boundary shape = Inr (filter ?lost [PutObject, DeleteMarker, MultipartComplete])"
    unfolding unavailable_mutations_def assms for_mutation_valid(1) [OF g] by (simp add: Let_def)
  have "m \<in> set (filter ?lost [PutObject, DeleteMarker, MultipartComplete]) \<longleftrightarrow>
      (\<exists>r. for_mutation ?n ?p m = Inr r \<and> unat (?n - k) < unat (qr_write_quorum r))" for m
    unfolding for_mutation_valid(1) [OF g] by (cases m) (simp_all add: word_order)
  with q(1) ms read show ?thesis by blast
qed

subsection \<open>Target proofs\<close>

lemma validate_target_proof_Inr:
  assumes "validate_target_proof target shape members = Inr ()"
  shows "validate_shape shape = Inr ()" and "validate_membership members shape = Inr ()"
    and "es_server_count shape = es_total_shards shape"
    and "class_requirements (vb_class (tp_boundary target)) shape = Inr (tp_requirements target)"
    and "target_count (tp_boundary target) shape = Inr (tp_target_count target)"
    and "length (tp_candidates target) = unat (es_total_shards shape)"
    and "distinct (map qb_pod_name (tp_candidates target))" and "distinct (map qb_drive_uuid (tp_candidates target))"
    and "\<forall>b \<in> set (tp_candidates target). validate_binding shape (by_pod em_pod_name members) b = Inr ()"
proof -
  have unique: "unique_values xs label = Inr u \<Longrightarrow> distinct xs" for xs label u
    using fcard_distinct [of xs] by (simp add: unique_values_def)
  show "validate_shape shape = Inr ()" and "validate_membership members shape = Inr ()"
    and "es_server_count shape = es_total_shards shape"
    and "class_requirements (vb_class (tp_boundary target)) shape = Inr (tp_requirements target)"
    and "target_count (tp_boundary target) shape = Inr (tp_target_count target)"
    and "length (tp_candidates target) = unat (es_total_shards shape)"
    and "\<forall>b \<in> set (tp_candidates target). validate_binding shape (by_pod em_pod_name members) b = Inr ()"
    using assms by (simp_all add: validate_target_proof_def fold_res_unit_Inr)
  show "distinct (map qb_pod_name (tp_candidates target))" "distinct (map qb_drive_uuid (tp_candidates target))"
    using assms unfolding validate_target_proof_def res_bind_Inr ensure_Inr by (elim exE conjE, blast intro: unique)+
qed

lemma target_binding_member:
  assumes "validate_target_proof target shape members = Inr ()" and "b \<in> set (tp_candidates target)"
  obtains m where "m \<in> set members" "em_pod_name m = qb_pod_name b" "em_shard_ids m = [qb_drive_uuid b]"
proof -
  have "validate_binding shape (by_pod em_pod_name members) b = Inr ()"
    using validate_target_proof_Inr(9) [OF assms(1)] assms(2) by blast
  then obtain m where "fmlookup (by_pod em_pod_name members) (qb_pod_name b) = Some m" "em_shard_ids m = [qb_drive_uuid b]"
    by (auto simp: validate_binding_def)
  with by_pod_lookup [OF validate_membership_Inr(2) [OF validate_target_proof_Inr(2) [OF assms(1)]]] that show thesis by auto
qed

text \<open>
  C31: An accepted target proof binds every shard once: its candidates are one per member Pod, each with the only drive of that Pod, and
  their drives are exactly the shards of the erasure set; the target count is the one its boundary demands.
\<close>

theorem target_proof_binds_shards:
  assumes "validate_target_proof target shape members = Inr ()"
  shows "distinct (map qb_drive_uuid (tp_candidates target)) \<and>
    qb_drive_uuid ` set (tp_candidates target) = set (concat (map em_shard_ids members)) \<and>
    distinct (map qb_pod_name (tp_candidates target)) \<and> qb_pod_name ` set (tp_candidates target) = em_pod_name ` set members \<and>
    (\<forall>b \<in> set (tp_candidates target). \<exists>m \<in> set members. em_pod_name m = qb_pod_name b \<and> em_shard_ids m = [qb_drive_uuid b]) \<and>
    target_count (tp_boundary target) shape = Inr (tp_target_count target)"
proof -
  note t = validate_target_proof_Inr [OF assms] and members = validate_membership_Inr [OF validate_target_proof_Inr(2) [OF assms]]
  let ?cs = "tp_candidates target"
  have member: "\<exists>m \<in> set members. em_pod_name m = qb_pod_name b \<and> em_shard_ids m = [qb_drive_uuid b]" if "b \<in> set ?cs" for b
    using assms that by (rule target_binding_member) blast
  have eq: "f ` set ?cs = A" if "f ` set ?cs \<subseteq> A" "distinct (map f ?cs)" "finite A" "card A = length ?cs" for f :: "QuorumVolumeBinding \<Rightarrow> string" and A
    using card_subset_eq [OF that(3,1)] distinct_card [OF that(2)] that(4) by simp
  have "qb_pod_name ` set ?cs = em_pod_name ` set members"
  proof (rule eq [OF _ t(7)])
    show "card (em_pod_name ` set members) = length ?cs"
      using distinct_card [OF members(2)] members(1) t(3,6) by simp
    show "qb_pod_name ` set ?cs \<subseteq> em_pod_name ` set members" using member by force
  qed simp
  moreover have "qb_drive_uuid ` set ?cs = set (concat (map em_shard_ids members))"
  proof (rule eq [OF _ t(8)])
    show "card (set (concat (map em_shard_ids members))) = length ?cs"
      using distinct_card [OF members(5)] members(6) t(6) by simp
    show "qb_drive_uuid ` set ?cs \<subseteq> set (concat (map em_shard_ids members))"
    proof
      fix x
      assume "x \<in> qb_drive_uuid ` set ?cs"
      then obtain b where "b \<in> set ?cs" "x = qb_drive_uuid b" by blast
      with member obtain m where "m \<in> set members" "em_shard_ids m = [x]" by blast
      then show "x \<in> set (concat (map em_shard_ids members))" by (auto intro: bexI [of _ m])
    qed
  qed simp
  ultimately show ?thesis using t(5,7,8) member by blast
qed

subsection \<open>Health during the fault\<close>

lemma observe_drives:
  assumes "fold_res observe_drive obs ds = Inr obs'"
  shows "distinct (map qd_pod_name ds) \<and> qd_pod_name ` set ds \<inter> fset (fmdom obs) = {} \<and>
    (\<forall>k d. fmlookup obs' k = Some d \<longleftrightarrow> d \<in> set ds \<and> qd_pod_name d = k \<or> fmlookup obs k = Some d)"
  using assms
proof (induction ds arbitrary: obs)
  case (Cons d ds)
  let ?obs = "fmupd (qd_pod_name d) d obs"
  from Cons.prems have new: "fmlookup obs (qd_pod_name d) = None" and rest: "fold_res observe_drive ?obs ds = Inr obs'"
    by (auto simp: observe_drive_def [of obs] split: sum.splits)
  from Cons.IH [OF rest] have ih: "distinct (map qd_pod_name ds)" "qd_pod_name ` set ds \<inter> fset (fmdom ?obs) = {}"
    "\<forall>k d'. fmlookup obs' k = Some d' \<longleftrightarrow> d' \<in> set ds \<and> qd_pod_name d' = k \<or> fmlookup ?obs k = Some d'" by blast+
  from new have notin: "qd_pod_name d |\<notin>| fmdom obs" by (simp add: fmdom_iff_lookup)
  have "qd_pod_name ` set (d # ds) \<inter> fset (fmdom obs) = {}" "distinct (map qd_pod_name (d # ds))" using ih(1,2) notin by auto
  moreover have "fmlookup obs' k = Some e \<longleftrightarrow> e \<in> set (d # ds) \<and> qd_pod_name e = k \<or> fmlookup obs k = Some e" for k e
    using ih(3) new by (cases "k = qd_pod_name d") auto
  ultimately show ?case by blast
qed simp

lemma validate_drive_Inr:
  assumes "validate_drive shape members observed selected (pod, c) = Inr ()"
  obtains drive where "fmlookup observed pod = Some drive" "qd_drive_uuid drive = qb_drive_uuid c"
    "pod |\<in>| selected \<or> qd_state drive = ''ok''"
  using assms by (auto simp: validate_drive_def)

lemma health_drives:
  assumes "validate_health_observation obs deployment_id shape members target selected = Inr ()"
  shows "validate_target_proof target shape members = Inr ()" and "fcard selected = unat (tp_target_count target)"
    and "distinct (map qd_pod_name (ho_drives obs))" and "length (ho_drives obs) = length (tp_candidates target)"
    and "\<forall>d \<in> set (ho_drives obs). \<exists>c \<in> set (tp_candidates target). qb_pod_name c = qd_pod_name d \<and>
      qb_drive_uuid c = qd_drive_uuid d \<and> (qd_pod_name d |\<in>| selected \<or> qd_state d = ''ok'')"
proof -
  let ?cs = "by_pod qb_pod_name (tp_candidates target)"
  from assms obtain observed where target: "validate_target_proof target shape members = Inr ()"
    and selected: "fcard selected = unat (tp_target_count target)"
    and fold: "fold_res observe_drive fmempty (ho_drives obs) = Inr observed"
    and cover: "fcard (fmdom observed) = fcard (fmdom ?cs)"
    and each: "\<forall>entry \<in> set (fm_entries ?cs). validate_drive shape (by_pod em_pod_name members) observed selected entry = Inr ()"
    by (auto simp: validate_health_observation_def Let_def fold_res_unit_Inr)
  note drives = observe_drives [OF fold]
  note cand = by_pod_lookup [OF validate_target_proof_Inr(7) [OF target]]
  have dom: "fset (fmdom observed) = qd_pod_name ` set (ho_drives obs)"
  proof (intro set_eqI)
    fix k
    have "k |\<in>| fmdom observed \<longleftrightarrow> (\<exists>d. fmlookup observed k = Some d)" by (simp add: fmdom_iff_lookup)
    also have "\<dots> \<longleftrightarrow> k \<in> qd_pod_name ` set (ho_drives obs)" using drives by auto
    finally show "k |\<in>| fmdom observed \<longleftrightarrow> k \<in> qd_pod_name ` set (ho_drives obs)" .
  qed
  have dom_c: "fset (fmdom ?cs) = qb_pod_name ` set (tp_candidates target)" by (rule by_pod_dom)
  show "validate_target_proof target shape members = Inr ()" "fcard selected = unat (tp_target_count target)" by (fact target selected)+
  show d: "distinct (map qd_pod_name (ho_drives obs))" using drives by blast
  have "card (fset (fmdom observed)) = length (ho_drives obs)" using distinct_card [OF d] by (simp add: dom)
  moreover have "card (fset (fmdom ?cs)) = length (tp_candidates target)"
    using distinct_card [OF validate_target_proof_Inr(7) [OF target]] by (simp add: dom_c)
  ultimately show "length (ho_drives obs) = length (tp_candidates target)" using cover by (simp add: fcard.rep_eq)
  have checked: "\<exists>d. fmlookup observed k = Some d \<and> qd_drive_uuid d = qb_drive_uuid c \<and> (k |\<in>| selected \<or> qd_state d = ''ok'')"
    if "fmlookup ?cs k = Some c" for k c
  proof -
    from that each have "validate_drive shape (by_pod em_pod_name members) observed selected (k, c) = Inr ()"
      using in_fm_entries by fastforce
    then show ?thesis by (rule validate_drive_Inr) blast
  qed
  then have "fset (fmdom ?cs) \<subseteq> fset (fmdom observed)" by (fastforce simp: fmdom_iff_lookup)
  then have same: "fset (fmdom ?cs) = fset (fmdom observed)" using cover by (intro card_subset_eq) (simp_all add: fcard.rep_eq)
  show "\<forall>d \<in> set (ho_drives obs). \<exists>c \<in> set (tp_candidates target). qb_pod_name c = qd_pod_name d \<and>
      qb_drive_uuid c = qd_drive_uuid d \<and> (qd_pod_name d |\<in>| selected \<or> qd_state d = ''ok'')"
  proof
    fix d
    assume d: "d \<in> set (ho_drives obs)"
    then have "fmlookup observed (qd_pod_name d) = Some d" using drives by blast
    moreover have "qd_pod_name d |\<in>| fmdom ?cs" using same dom d by auto
    then obtain c where "fmlookup ?cs (qd_pod_name d) = Some c" by (auto simp: fmdom_iff_lookup)
    ultimately show "\<exists>c \<in> set (tp_candidates target). qb_pod_name c = qd_pod_name d \<and>
      qb_drive_uuid c = qd_drive_uuid d \<and> (qd_pod_name d |\<in>| selected \<or> qd_state d = ''ok'')"
      using checked [of "qd_pod_name d" c] cand [of "qd_pod_name d" c] by auto
  qed
qed


end
