(* ===== verification/Quorum_Demo.thy ===== *)
theory Quorum_Demo
  imports Quorum_Correctness
begin

text \<open>
  A set of four servers with one volume each and two parity shards, a target proof for two of its volumes and a health
  observation of the fault. The witnesses of the quorum properties.
\<close>

definition demo_shape :: ErasureSetShape where
  "demo_shape = \<lparr>es_pool_index = 0, es_set_index = 0, es_server_count = 4, es_volumes_per_server = 1, es_total_shards = 4,
     es_payload_data_shards = 2, es_payload_parity_shards = 2\<rparr>"

definition demo_member :: "string \<Rightarrow> ErasureSetMember" where
  "demo_member i = \<lparr>em_pod_name = ''rustfs-'' @ i, em_server_endpoint = ''http://rustfs-'' @ i,
     em_shard_ids = [''drive-'' @ i]\<rparr>"

definition demo_members :: "ErasureSetMember list" where
  "demo_members = map demo_member [''0'', ''1'', ''2'', ''3'']"

definition demo_binding :: "string \<Rightarrow> QuorumVolumeBinding" where
  "demo_binding i = \<lparr>qb_pod_name = ''rustfs-'' @ i, qb_pod_uid = ''uid-'' @ i,
     qb_container_id = ''container-'' @ i, qb_mount_path = ''/data'', qb_persistent_volume_claim = ''claim-'' @ i,
     qb_persistent_volume = ''volume-'' @ i, qb_drive_uuid = ''drive-'' @ i, qb_pool_index = 0, qb_set_index = 0\<rparr>"

definition demo_boundary :: QuorumVolumeBoundary where
  "demo_boundary = \<lparr>vb_class = Payload, vb_beyond_read_tolerance = False\<rparr>"

definition demo_target :: QuorumVolumeTargetProof where
  "demo_target = \<lparr>tp_boundary = demo_boundary, tp_requirements = from_geometry 4 2, tp_target_count = 2,
     tp_candidates = map demo_binding [''0'', ''1'', ''2'', ''3'']\<rparr>"

definition demo_drive :: "string \<Rightarrow> string \<Rightarrow> QuorumDriveHealth" where
  "demo_drive i state = \<lparr>qd_pod_name = ''rustfs-'' @ i, qd_server_endpoint = ''http://rustfs-'' @ i,
     qd_drive_uuid = ''drive-'' @ i, qd_state = state, qd_pool_index = 0, qd_set_index = 0\<rparr>"

definition demo_health :: QuorumHealthObservation where
  "demo_health = \<lparr>ho_started_at_ms = 1, ho_completed_at_ms = 2, ho_deployment_id = ''deployment'', ho_shape = demo_shape,
     ho_drives = [demo_drive ''0'' ''ok'', demo_drive ''1'' ''ok'', demo_drive ''2'' ''faulty'', demo_drive ''3'' ''offline'']\<rparr>"

lemma demo_shape_valid: "validate_shape demo_shape = Inr ()"
  by code_simp

lemma demo_members_valid: "validate_membership demo_members demo_shape = Inr ()"
  by code_simp

lemma demo_target_valid: "validate_target_proof demo_target demo_shape demo_members = Inr ()"
  by code_simp

lemma demo_health_valid:
  "validate_health_observation demo_health ''deployment'' demo_shape demo_members demo_target {|''rustfs-2'', ''rustfs-3''|} = Inr ()"
  by code_simp

theorem quorums_intersect_witness:
  "for_mutation 4 2 PutObject = Inr (from_geometry 4 2) \<and> {0, 1 :: nat} \<inter> {1, 2, 3} \<noteq> {} \<and>
   unat (qr_read_quorum (from_geometry 4 2)) \<le> card {0, 1 :: nat} \<and> unat (qr_write_quorum (from_geometry 4 2)) \<le> card {1, 2, 3 :: nat}"
proof -
  have q: "for_mutation 4 2 PutObject = Inr (from_geometry 4 2)" by code_simp
  have r: "unat (qr_read_quorum (from_geometry 4 2)) = 2" "unat (qr_write_quorum (from_geometry 4 2)) = 3" by code_simp+
  have "{0, 1} \<inter> {1, 2, 3 :: nat} \<noteq> {}"
    using quorums_intersect [OF q, of "{0, 1, 2, 3 :: nat}", THEN conjunct1, rule_format, of "{0, 1}" "{1, 2, 3}"] r by simp
  with q r show ?thesis by simp
qed

theorem partition_boundary_exact_witness:
  "require_selected_boundary demo_members demo_shape [''rustfs-0'', ''rustfs-1''] = Inr () \<and>
   require_server_partition_boundary demo_shape 2 = Inr ()"
proof -
  have "em_pod_name ` set demo_members = {''rustfs-0'', ''rustfs-1'', ''rustfs-2'', ''rustfs-3''}" by code_simp
  with partition_boundary_exact [OF demo_shape_valid demo_members_valid, of "[''rustfs-0'', ''rustfs-1'']" 2]
  show ?thesis by (simp add: demo_shape_def)
qed

theorem volume_boundary_exact_witness:
  "\<exists>ms. unavailable_mutations demo_boundary demo_shape = Inr ms \<and> PutObject \<in> set ms"
proof -
  have k: "target_count demo_boundary demo_shape = Inr 2" by code_simp
  have w: "for_mutation (es_total_shards demo_shape) (es_payload_parity_shards demo_shape) PutObject = Inr (from_geometry 4 2)"
    "unat (es_total_shards demo_shape - 2) < unat (qr_write_quorum (from_geometry 4 2))" by code_simp+
  from volume_boundary_exact [OF demo_shape_valid k] w show ?thesis by blast
qed

theorem target_proof_binds_shards_witness:
  "qb_drive_uuid ` set (tp_candidates demo_target) = set (concat (map em_shard_ids demo_members))"
  using target_proof_binds_shards [OF demo_target_valid] by blast


end
