(* ===== verification/Quorum_Activation.thy ===== *)
theory Quorum_Activation
  imports Quorum
begin

text \<open>
  The evidence that a volume fault is active (\<open>src/src/fault/quorum/activation.rs\<close>, \<open>src/src/fault/quorum/probe.rs\<close>): a canary write
  and rounds of probed system calls on every target must fail with an I/O error before the workload runs under the fault.
  Running the probe is not modelled, only its receipt. SHA-256 is the argument \<open>sha\<close>.
\<close>

subsection \<open>Probe receipts\<close>

definition PROBE_ROUNDS :: nat where "PROBE_ROUNDS = 3"
definition PROBE_INTERVAL_MS :: nat where "PROBE_INTERVAL_MS = 1000"
definition EIO :: int where "EIO = 5"

datatype ProbeOperation = Read | Write | Fsync | Rename | Unlink

definition probe_operations :: "ProbeOperation list" where
  "probe_operations = [Read, Write, Fsync, Rename, Unlink]"

record ProbeFile =
  pf_round :: nat
  pf_operation :: ProbeOperation
  pf_inode :: nat
  pf_device :: nat

record ProbeFixture =
  px_protocol_version :: nat
  px_helper_sha256 :: string
  px_path :: string
  px_nonce :: string
  px_directory_inode :: nat
  px_directory_device :: nat
  px_files :: "ProbeFile list"

record ProbeSample =
  ps_round :: nat
  ps_operation :: ProbeOperation
  ps_started_at_ms :: nat
  ps_completed_at_ms :: nat
  ps_setup_errno :: "int option"
  ps_operation_errno :: "int option"

record ProbeReceipt =
  pr_fixture :: ProbeFixture
  pr_active_device :: nat
  pr_samples :: "ProbeSample list"

datatype activation_error =
    UnsupportedHelper | InvalidNonce | IncompleteFixture | FixtureOrder
  | SchemaVersion | EvidenceIdentity | NoIoChaosIdentity | TargetIdentity
  | NotTwoTargets | NotTwoMounts | DuplicateIdentity | QualificationMismatch | EmptyCleanupReason
  | ForeignProbe | ForeignContinuity | UnfinishedReceipt | VerdictMismatch | ForeignCanary

definition is_ascii_hexdigit :: "char \<Rightarrow> bool" where
  "is_ascii_hexdigit c = (let n = of_char c :: nat in
     48 \<le> n \<and> n \<le> 57 \<or> 65 \<le> n \<and> n \<le> 70 \<or> 97 \<le> n \<and> n \<le> 102)"

definition validate_fixture :: "ProbeFixture \<Rightarrow> activation_error + unit" where
  "validate_fixture fixture =
     ensure (px_protocol_version fixture = 1 \<and> length (px_helper_sha256 fixture) = 64
       \<and> list_all is_ascii_hexdigit (px_helper_sha256 fixture)) UnsupportedHelper
     (ensure (length (px_nonce fixture) = 64 \<and> list_all is_ascii_hexdigit (px_nonce fixture)) InvalidNonce
     (ensure (length (px_files fixture) = PROBE_ROUNDS * length probe_operations) IncompleteFixture
     (fold_res (\<lambda>_ (index, probe_file).
        ensure (pf_round probe_file = index div 5 \<and> pf_operation probe_file = probe_operations ! (index mod 5)) FixtureOrder (Inr ()))
        () (enumerate 0 (px_files fixture)))))"

definition sample_qualifies :: "ProbeSample \<times> ProbeFile \<Rightarrow> bool" where
  "sample_qualifies p =
     (let (sample, probe_file) = p in
      ps_round sample = pf_round probe_file \<and> ps_operation sample = pf_operation probe_file
      \<and> ps_setup_errno sample = None \<and> ps_operation_errno sample = Some EIO
      \<and> ps_started_at_ms sample > 0 \<and> ps_completed_at_ms sample \<ge> ps_started_at_ms sample)"

definition samples_in_order :: "ProbeSample \<times> ProbeSample \<Rightarrow> bool" where
  "samples_in_order p =
     (let (earlier, later) = p in
      ps_started_at_ms later \<ge> ps_completed_at_ms earlier \<and>
      (ps_round later = ps_round earlier \<or> ps_started_at_ms later - ps_completed_at_ms earlier \<ge> PROBE_INTERVAL_MS))"

text \<open>\<open>samples.windows(2)\<close> are the pairs of neighbours.\<close>

definition receipt_qualifies :: "ProbeReceipt \<Rightarrow> bool" where
  "receipt_qualifies receipt \<longleftrightarrow>
     validate_fixture (pr_fixture receipt) = Inr () \<and> pr_active_device receipt \<noteq> 0 \<and>
     length (pr_samples receipt) = length (px_files (pr_fixture receipt)) \<and>
     list_all sample_qualifies (zip (pr_samples receipt) (px_files (pr_fixture receipt))) \<and>
     list_all samples_in_order (zip (pr_samples receipt) (tl (pr_samples receipt)))"

subsection \<open>Canaries\<close>

datatype QuorumCanaryOutcome =
    NotRun | IoErrorObserved | WriteSucceeded | UnexpectedFailure | TransportFailure | TimedOut

datatype QuorumCanaryCleanupOutcome = Removed | CleanupFailed | CleanupTimedOut

datatype QuorumActivationDisposition = RunTypedOracle | SkipTypedOracleAndRecover

record QuorumCanaryCleanupEvidence =
  qc_started_at_ms :: nat
  qc_completed_at_ms :: nat
  qc_outcome :: QuorumCanaryCleanupOutcome
  qc_exit_code :: "int option"
  qc_stderr :: string

definition show_int :: "int \<Rightarrow> string" where
  "show_int i = (if i < 0 then ''-'' @ show_nat (nat (- i)) else show_nat (nat i))"

definition classify_canary_result :: "int option \<Rightarrow> string \<Rightarrow> string \<Rightarrow> string \<Rightarrow> QuorumCanaryOutcome" where
  "classify_canary_result code stdout stderr path =
     (case code of
        None \<Rightarrow> TransportFailure
      | Some code \<Rightarrow>
          if \<not> (0 \<le> code \<and> code \<le> 255) then TransportFailure
          else if stdout \<noteq> ''s3chaos-canary-write-v1:'' @ path @ '':'' @ show_int code @ [CHR 0x0A] then TransportFailure
          else if code = 0 then WriteSucceeded
          else (let error = to_ascii_lowercase stderr in
                if list_ex (str_contains error) [''input/output error'', ''i/o error'', ''os error 5'', ''errno 5'']
                then IoErrorObserved else UnexpectedFailure))"

definition as_bytes :: "string \<Rightarrow> bytes" where
  "as_bytes s = map of_char s"

definition trim_end_slashes :: "string \<Rightarrow> string" where
  "trim_end_slashes s = rev (dropWhile (\<lambda>c. c = CHR ''/'') (rev s))"

definition quorum_canary_path :: "hasher \<Rightarrow> string \<Rightarrow> string \<Rightarrow> string \<Rightarrow> string" where
  "quorum_canary_path sha mount_path pod_name run_id =
     trim_end_slashes mount_path @ ''/.s3chaos-quorum-'' @ sha (as_bytes run_id) @ ''-'' @ pod_name"

definition probe_nonce :: "hasher \<Rightarrow> string \<Rightarrow> string \<Rightarrow> string \<Rightarrow> string" where
  "probe_nonce sha run_id pod_uid container_id =
     sha (as_bytes (run_id @ [CHR 0x00] @ pod_uid @ [CHR 0x00] @ container_id))"

subsection \<open>Activation evidence\<close>

record QuorumFaultActivationTargetEvidence =
  qt_pod_name :: string
  qt_pod_uid :: string
  qt_container_id :: string
  qt_persistent_volume_claim :: string
  qt_persistent_volume :: string
  qt_mount_path :: string
  qt_drive_uuid :: string
  qt_controller_record_id :: string
  qt_canary_path :: string
  qt_started_at_ms :: nat
  qt_completed_at_ms :: nat
  qt_outcome :: QuorumCanaryOutcome
  qt_exit_code :: "int option"
  qt_stdout :: string
  qt_stderr :: string
  qt_cleanup :: "QuorumCanaryCleanupEvidence option"
  qt_probe :: "ProbeReceipt option"
  qt_probe_cleanup :: "QuorumCanaryCleanupEvidence option"
  qt_continuity :: "ProbeReceipt option"

record QuorumFaultActivationEvidence =
  qa_schema_version :: nat
  qa_scenario :: string
  qa_run_id :: string
  qa_backend :: string
  qa_iochaos_resource_name :: string
  qa_iochaos_snapshot_sha256 :: string
  qa_volume_path :: string
  qa_expected_targets :: u32
  qa_controller_records :: nat
  qa_started_at_ms :: nat
  qa_completed_at_ms :: nat
  qa_qualified :: bool
  qa_failure_reasons :: "string list"
  qa_cleanup_failure_reason :: "string option"
  qa_targets :: "QuorumFaultActivationTargetEvidence list"

definition ACTIVATION_SCHEMA_VERSION :: nat where "ACTIVATION_SCHEMA_VERSION = 3"

definition same_pod_scenario :: string where "same_pod_scenario = ''io-eio-same-pod-two-volumes''"

definition disposition :: "QuorumFaultActivationEvidence \<Rightarrow> QuorumActivationDisposition" where
  "disposition e = (if qa_qualified e then RunTypedOracle else SkipTypedOracleAndRecover)"

definition qualification :: "QuorumFaultActivationEvidence \<Rightarrow> bool" where
  "qualification e \<longleftrightarrow>
     qa_failure_reasons e = [] \<and> unat (qa_expected_targets e) = length (qa_targets e) \<and>
     unat (qa_expected_targets e) = qa_controller_records e \<and>
     list_all (\<lambda>t. qt_outcome t = IoErrorObserved \<and> (case qt_probe t of None \<Rightarrow> False | Some probe \<Rightarrow> receipt_qualifies probe))
       (qa_targets e)"

definition failure_reason :: "QuorumFaultActivationEvidence \<Rightarrow> string option" where
  "failure_reason e =
     (if qa_qualified e then None
      else Some (if qa_failure_reasons e = [] then ''fault activation was not independently proven''
                 else join_strings ''; '' (qa_failure_reasons e)))"

definition selected_record_ids :: "QuorumFaultActivationEvidence \<Rightarrow> string fset" where
  "selected_record_ids e = fset_of_list (map qt_controller_record_id (qa_targets e))"

definition selected_containers :: "QuorumFaultActivationEvidence \<Rightarrow> (string, string) fmap" where
  "selected_containers e = fmap_of_list (rev (map (\<lambda>t. (qt_pod_name t, qt_container_id t)) (qa_targets e)))"

definition target_identity_ok ::
  "QuorumFaultActivationEvidence \<Rightarrow> bool \<Rightarrow> QuorumFaultActivationTargetEvidence \<Rightarrow> bool" where
  "target_identity_ok e same_pod t \<longleftrightarrow>
     \<not> trim_is_empty (qt_pod_name t) \<and> \<not> trim_is_empty (qt_pod_uid t) \<and> \<not> trim_is_empty (qt_container_id t)
     \<and> \<not> trim_is_empty (qt_persistent_volume_claim t) \<and> \<not> trim_is_empty (qt_persistent_volume t)
     \<and> (qt_mount_path t = qa_volume_path e \<or> same_pod \<and> prefix ''/'' (qt_mount_path t))
     \<and> \<not> trim_is_empty (qt_drive_uuid t) \<and> \<not> trim_is_empty (qt_controller_record_id t)
     \<and> qt_started_at_ms t \<ge> qa_started_at_ms e \<and> qt_started_at_ms t \<le> qt_completed_at_ms t
     \<and> qt_completed_at_ms t \<le> qa_completed_at_ms e"

definition unique_identities :: "bool \<Rightarrow> QuorumFaultActivationTargetEvidence list \<Rightarrow> string list list" where
  "unique_identities same_pod targets =
     [map qt_persistent_volume_claim targets, map qt_persistent_volume targets, map qt_drive_uuid targets,
      map qt_controller_record_id targets, map qt_canary_path targets] @
     (if same_pod then [] else [map qt_pod_name targets, map qt_pod_uid targets, map qt_container_id targets])"

definition validate_same_pod_targets ::
  "QuorumFaultActivationEvidence \<Rightarrow> bool \<Rightarrow> activation_error + unit" where
  "validate_same_pod_targets e same_pod =
     (if same_pod
      then ensure (qa_expected_targets e = 2) NotTwoTargets
        (case qa_targets e of
           [first, second] \<Rightarrow>
             ensure (qt_pod_name first = qt_pod_name second \<and> qt_pod_uid first = qt_pod_uid second
               \<and> qt_container_id first = qt_container_id second \<and> qt_mount_path first \<noteq> qt_mount_path second)
               NotTwoMounts (Inr ())
         | _ \<Rightarrow> Inr ())
      else Inr ())"

definition validate_target_probe ::
  "hasher \<Rightarrow> QuorumFaultActivationEvidence \<Rightarrow> QuorumFaultActivationTargetEvidence \<Rightarrow> activation_error + unit" where
  "validate_target_probe sha e t =
     (case qt_probe t of
        None \<Rightarrow> Inr ()
      | Some probe \<Rightarrow>
          res_bind (validate_fixture (pr_fixture probe)) (\<lambda>_.
          ensure (px_path (pr_fixture probe) = qt_canary_path t @ ''.operations''
            \<and> px_nonce (pr_fixture probe) = probe_nonce sha (qa_run_id e) (qt_pod_uid t) (qt_container_id t)
            \<and> list_all (\<lambda>s. ps_started_at_ms s \<ge> qt_started_at_ms t \<and> ps_completed_at_ms s \<le> qt_completed_at_ms t) (pr_samples probe))
            ForeignProbe (Inr ())))"

definition validate_target_continuity ::
  "QuorumFaultActivationEvidence \<Rightarrow> QuorumFaultActivationTargetEvidence \<Rightarrow> activation_error + unit" where
  "validate_target_continuity e t =
     (case qt_continuity t of
        None \<Rightarrow> Inr ()
      | Some continuity \<Rightarrow>
          ensure ((case qt_probe t of
                     None \<Rightarrow> False
                   | Some probe \<Rightarrow> pr_fixture probe = pr_fixture continuity \<and> pr_active_device probe = pr_active_device continuity)
            \<and> list_all (\<lambda>s. ps_started_at_ms s \<ge> qa_completed_at_ms e) (pr_samples continuity)) ForeignContinuity (Inr ()))"

definition validate_target_outcome :: "QuorumFaultActivationTargetEvidence \<Rightarrow> activation_error + unit" where
  "validate_target_outcome t =
     (if qt_outcome t = NotRun \<or> qt_outcome t = TimedOut
      then ensure (qt_exit_code t = None \<and> qt_stdout t = []) UnfinishedReceipt (Inr ())
      else ensure (qt_outcome t = classify_canary_result (qt_exit_code t) (qt_stdout t) (qt_stderr t) (qt_canary_path t))
        VerdictMismatch (Inr ()))"

definition validate_activation_target ::
  "hasher \<Rightarrow> QuorumFaultActivationEvidence \<Rightarrow> QuorumFaultActivationTargetEvidence \<Rightarrow> activation_error + unit" where
  "validate_activation_target sha e t =
     res_bind (validate_target_probe sha e t) (\<lambda>_.
     res_bind (validate_target_continuity e t) (\<lambda>_.
     res_bind (validate_target_outcome t) (\<lambda>_.
     ensure (qt_canary_path t = quorum_canary_path sha (qt_mount_path t) (qt_pod_name t) (qa_run_id e)) ForeignCanary (Inr ()))))"

definition validate_activation :: "hasher \<Rightarrow> QuorumFaultActivationEvidence \<Rightarrow> activation_error + unit" where
  "validate_activation sha e =
     (let same_pod = (qa_scenario e = same_pod_scenario) in
      ensure (qa_schema_version e = ACTIVATION_SCHEMA_VERSION) SchemaVersion
     (ensure (\<not> trim_is_empty (qa_scenario e) \<and> \<not> trim_is_empty (qa_run_id e) \<and> qa_backend e = ''chaos-mesh-iochaos''
        \<and> prefix ''/'' (qa_volume_path e) \<and> qa_expected_targets e > 0 \<and> qa_started_at_ms e > 0
        \<and> qa_started_at_ms e \<le> qa_completed_at_ms e) EvidenceIdentity
     (ensure (qa_qualified e \<longrightarrow> \<not> trim_is_empty (qa_iochaos_resource_name e) \<and> length (qa_iochaos_snapshot_sha256 e) = 64)
        NoIoChaosIdentity
     (ensure (list_all (target_identity_ok e same_pod) (qa_targets e)) TargetIdentity
     (res_bind (validate_same_pod_targets e same_pod) (\<lambda>_.
      ensure (list_all (\<lambda>values. fcard (fset_of_list values) = length values) (unique_identities same_pod (qa_targets e)))
        DuplicateIdentity
     (ensure (qa_qualified e = qualification e) QualificationMismatch
     (ensure (case qa_cleanup_failure_reason e of None \<Rightarrow> True | Some reason \<Rightarrow> \<not> trim_is_empty reason) EmptyCleanupReason
     (fold_res (\<lambda>_. validate_activation_target sha e) () (qa_targets e))))))))))"

end
