(* ===== verification/Activation_Soundness.thy ===== *)
theory Activation_Soundness
  imports Quorum_Activation Quorum_Correctness
begin

text \<open>
  What activation evidence proves: a qualifying probe receipt shows an I/O error of every operation in three rounds spread over
  time, and the workload runs under the fault only when every target has such a receipt and a failed canary of its own.
\<close>

subsection \<open>Receipts\<close>

lemma windows_nth: "list_all P (zip xs (tl xs)) \<longleftrightarrow> (\<forall>i. Suc i < length xs \<longrightarrow> P (xs ! i, xs ! Suc i))"
  by (auto simp: list_all_length nth_tl)

lemma validate_fixture_Inr:
  assumes "validate_fixture fixture = Inr ()"
  shows "length (px_files fixture) = 15"
    and "\<And>i. i < 15 \<Longrightarrow> pf_round (px_files fixture ! i) = i div 5 \<and> pf_operation (px_files fixture ! i) = probe_operations ! (i mod 5)"
proof -
  have fold: "fold_res (\<lambda>_ (index, probe_file). ensure (P index probe_file) e (Inr ())) () xs = Inr () \<longleftrightarrow> (\<forall>(i, f) \<in> set xs. P i f)"
    for P :: "nat \<Rightarrow> ProbeFile \<Rightarrow> bool" and e :: activation_error and xs
    unfolding fold_res_unit_Inr by auto
  show len: "length (px_files fixture) = 15"
    using assms by (simp add: validate_fixture_def PROBE_ROUNDS_def probe_operations_def)
  fix i :: nat
  assume "i < 15"
  then have "(i, px_files fixture ! i) \<in> set (enumerate 0 (px_files fixture))" by (simp add: in_set_enumerate_eq len)
  with assms show "pf_round (px_files fixture ! i) = i div 5 \<and> pf_operation (px_files fixture ! i) = probe_operations ! (i mod 5)"
    unfolding validate_fixture_def ensure_Inr fold by blast
qed

lemma receipt_samples:
  assumes "receipt_qualifies receipt"
  defines "xs \<equiv> pr_samples receipt"
  shows "length xs = 15"
    and "\<And>i. i < 15 \<Longrightarrow> ps_round (xs ! i) = i div 5 \<and> ps_operation (xs ! i) = probe_operations ! (i mod 5) \<and>
      ps_setup_errno (xs ! i) = None \<and> ps_operation_errno (xs ! i) = Some EIO \<and> ps_started_at_ms (xs ! i) \<le> ps_completed_at_ms (xs ! i)"
    and "\<And>i. Suc i < 15 \<Longrightarrow> ps_completed_at_ms (xs ! i) + (if Suc i div 5 = i div 5 then 0 else 1000) \<le> ps_started_at_ms (xs ! Suc i)"
proof -
  let ?files = "px_files (pr_fixture receipt)"
  note q = assms(1) [unfolded receipt_qualifies_def]
  note fixture = validate_fixture_Inr [OF q [THEN conjunct1]]
  show len: "length xs = 15" using q fixture(1) by (simp add: xs_def)
  have each: "sample_qualifies (xs ! i, ?files ! i)" if "i < 15" for i
    using q that len fixture(1) unfolding xs_def by (simp add: list_all_length)
  show round: "ps_round (xs ! i) = i div 5 \<and> ps_operation (xs ! i) = probe_operations ! (i mod 5) \<and>
      ps_setup_errno (xs ! i) = None \<and> ps_operation_errno (xs ! i) = Some EIO \<and> ps_started_at_ms (xs ! i) \<le> ps_completed_at_ms (xs ! i)"
    if "i < 15" for i
    using each [OF that] fixture(2) [OF that] by (simp add: sample_qualifies_def)
  fix i
  assume i: "Suc i < 15"
  have "samples_in_order (xs ! i, xs ! Suc i)" using q i len unfolding xs_def windows_nth by simp
  then show "ps_completed_at_ms (xs ! i) + (if Suc i div 5 = i div 5 then 0 else 1000) \<le> ps_started_at_ms (xs ! Suc i)"
    using round [of i] round [OF i] i by (auto simp: samples_in_order_def PROBE_INTERVAL_MS_def)
qed

lemma receipt_spread:
  assumes "receipt_qualifies receipt" and "i < j" "j < 15"
  shows "ps_completed_at_ms (pr_samples receipt ! i) + 1000 * (j div 5 - i div 5) \<le> ps_started_at_ms (pr_samples receipt ! j)"
  using assms(2,3)
proof (induction j)
  case (Suc j)
  note step = receipt_samples(3) [OF assms(1) Suc.prems(2)]
  have up: "Suc j div 5 = j div 5 \<or> Suc j div 5 = Suc (j div 5)" by linarith
  show ?case
  proof (cases "i = j")
    case True
    with step up show ?thesis by (auto split: if_splits)
  next
    case False
    with Suc have "ps_completed_at_ms (pr_samples receipt ! i) + 1000 * (j div 5 - i div 5) \<le> ps_started_at_ms (pr_samples receipt ! j)"
      by simp
    moreover have "ps_started_at_ms (pr_samples receipt ! j) \<le> ps_completed_at_ms (pr_samples receipt ! j)"
      using receipt_samples(2) [OF assms(1), of j] Suc.prems(2) by simp
    moreover have "i div 5 \<le> j div 5" using False Suc.prems(1) by (intro div_le_mono) simp
    ultimately show ?thesis using step up by (auto simp: Suc_diff_le split: if_splits)
  qed
qed simp

lemma receipt_covers:
  assumes "receipt_qualifies receipt" and "n < PROBE_ROUNDS"
  shows "\<exists>s \<in> set (pr_samples receipt). ps_round s = n \<and> ps_operation s = op \<and> ps_setup_errno s = None \<and>
    ps_operation_errno s = Some EIO"
proof -
  obtain k where k: "k < 5" "probe_operations ! k = op"
  proof (cases op)
    case Read then show thesis using that [of 0] by (simp add: probe_operations_def) next
    case Write then show thesis using that [of 1] by (simp add: probe_operations_def) next
    case Fsync then show thesis using that [of 2] by (simp add: probe_operations_def) next
    case Rename then show thesis using that [of 3] by (simp add: probe_operations_def) next
    case Unlink then show thesis using that [of 4] by (simp add: probe_operations_def)
  qed
  let ?i = "5 * n + k"
  have i: "?i < 15" "?i div 5 = n" "?i mod 5 = k" using assms(2) k(1) by (auto simp: PROBE_ROUNDS_def)
  from receipt_samples(2) [OF assms(1) i(1)] i(2,3) k(2) have "ps_round (pr_samples receipt ! ?i) = n \<and>
      ps_operation (pr_samples receipt ! ?i) = op \<and> ps_setup_errno (pr_samples receipt ! ?i) = None \<and>
      ps_operation_errno (pr_samples receipt ! ?i) = Some EIO" by simp
  moreover have "pr_samples receipt ! ?i \<in> set (pr_samples receipt)" using i(1) receipt_samples(1) [OF assms(1)] by (intro nth_mem) simp
  ultimately show ?thesis by blast
qed

text \<open>
  C30: A qualifying receipt shows a lasting fault: in each of three rounds every probed operation failed with an I/O error after a
  successful setup, the samples follow one another, and a sample of a later round starts at least a second per
  round after the end of an earlier one.
\<close>

theorem qualifying_receipt_shows_fault:
  assumes "receipt_qualifies receipt"
  shows "(\<forall>n < PROBE_ROUNDS. \<forall>op. \<exists>s \<in> set (pr_samples receipt). ps_round s = n \<and> ps_operation s = op \<and>
      ps_setup_errno s = None \<and> ps_operation_errno s = Some EIO) \<and>
    sorted_wrt (\<lambda>s t. ps_completed_at_ms s \<le> ps_started_at_ms t) (pr_samples receipt) \<and>
    (\<forall>s \<in> set (pr_samples receipt). \<forall>t \<in> set (pr_samples receipt). ps_round s < ps_round t \<longrightarrow>
      ps_completed_at_ms s + PROBE_INTERVAL_MS * (ps_round t - ps_round s) \<le> ps_started_at_ms t)"
proof -
  let ?xs = "pr_samples receipt"
  note samples = receipt_samples [OF assms]
  have "sorted_wrt (\<lambda>s t. ps_completed_at_ms s \<le> ps_started_at_ms t) ?xs"
    unfolding sorted_wrt_iff_nth_less using receipt_spread [OF assms] samples(1) by (auto intro: add_leD1)
  moreover have "ps_completed_at_ms s + PROBE_INTERVAL_MS * (ps_round t - ps_round s) \<le> ps_started_at_ms t"
    if st: "s \<in> set ?xs" "t \<in> set ?xs" "ps_round s < ps_round t" for s t
  proof -
    from st(1,2) samples(1) obtain i j where ij: "i < 15" "?xs ! i = s" "j < 15" "?xs ! j = t" by (auto simp: in_set_conv_nth)
    then have r: "ps_round s = i div 5" "ps_round t = j div 5" using samples(2) by blast+
    have "i < j"
    proof (rule ccontr)
      assume "\<not> i < j"
      then have "j div 5 \<le> i div 5" by (intro div_le_mono) simp
      with st(3) r show False by simp
    qed
    from receipt_spread [OF assms this ij(3)] ij r show ?thesis by (simp add: PROBE_INTERVAL_MS_def)
  qed
  ultimately show ?thesis using receipt_covers [OF assms] by blast
qed

subsection \<open>Activation\<close>

lemma classify_io_error:
  "classify_canary_result code stdout stderr path = IoErrorObserved \<longleftrightarrow>
     (\<exists>c. code = Some c \<and> 0 < c \<and> c \<le> 255 \<and> stdout = ''s3chaos-canary-write-v1:'' @ path @ '':'' @ show_int c @ [CHR 0x0A] \<and>
        (\<exists>p \<in> {''input/output error'', ''i/o error'', ''os error 5'', ''errno 5''}. str_contains (to_ascii_lowercase stderr) p))"
  by (cases code) (auto simp: classify_canary_result_def Let_def)

lemma validate_activation_Inr:
  assumes "validate_activation sha e = Inr ()"
  shows "0 < unat (qa_expected_targets e)" and "qa_qualified e = qualification e"
    and "\<forall>xs \<in> set (unique_identities (qa_scenario e = same_pod_scenario) (qa_targets e)). distinct xs"
    and "validate_same_pod_targets e (qa_scenario e = same_pod_scenario) = Inr ()"
    and "\<forall>t \<in> set (qa_targets e). validate_activation_target sha e t = Inr ()"
  using assms by (simp_all add: validate_activation_def Let_def fold_res_unit_Inr list_all_iff fcard_distinct word_less_nat_alt)

text \<open>
  A canary write of this run failed on the target, and a probe bound to this run and container saw every operation fail in every
  round within the recorded time.
\<close>

definition proven_target :: "hasher \<Rightarrow> QuorumFaultActivationEvidence \<Rightarrow> QuorumFaultActivationTargetEvidence \<Rightarrow> bool" where
  "proven_target sha e t \<longleftrightarrow>
     (\<exists>code. qt_exit_code t = Some code \<and> 0 < code \<and> qt_stdout t = ''s3chaos-canary-write-v1:'' @
        quorum_canary_path sha (qt_mount_path t) (qt_pod_name t) (qa_run_id e) @ '':'' @ show_int code @ [CHR 0x0A]) \<and>
     (\<exists>probe. qt_probe t = Some probe \<and> px_nonce (pr_fixture probe) = probe_nonce sha (qa_run_id e) (qt_pod_uid t) (qt_container_id t) \<and>
        (\<forall>n < PROBE_ROUNDS. \<forall>op. \<exists>s \<in> set (pr_samples probe). ps_round s = n \<and> ps_operation s = op \<and>
           ps_operation_errno s = Some EIO \<and> qt_started_at_ms t \<le> ps_started_at_ms s \<and> ps_completed_at_ms s \<le> qt_completed_at_ms t))"

text \<open>
  C29: The workload runs under the fault only when it is proven active. If evidence is accepted and its disposition is to run
  the oracle, it has exactly the expected targets, with distinct drives and volumes (and distinct Pods, or for the same-Pod
  scenario two mounts of one container); on every target a canary write of this run failed with an I/O error, and a
  probe bound to this run and container saw every operation fail in every round within the recorded time.
\<close>

theorem activation_runs_only_proven_faults:
  assumes "validate_activation sha e = Inr ()" and "disposition e = RunTypedOracle"
  shows "length (qa_targets e) = unat (qa_expected_targets e) \<and> 0 < length (qa_targets e) \<and>
    distinct (map qt_drive_uuid (qa_targets e)) \<and> distinct (map qt_persistent_volume (qa_targets e)) \<and>
    (if qa_scenario e = same_pod_scenario
     then \<exists>first second. qa_targets e = [first, second] \<and> qt_container_id first = qt_container_id second \<and>
       qt_mount_path first \<noteq> qt_mount_path second
     else distinct (map qt_pod_name (qa_targets e))) \<and>
    (\<forall>t \<in> set (qa_targets e). proven_target sha e t)"
proof -
  note v = validate_activation_Inr [OF assms(1)]
  have q: "qualification e" using assms(2) v(2) by (simp add: disposition_def split: if_splits)
  then have len: "length (qa_targets e) = unat (qa_expected_targets e)" by (simp add: qualification_def)
  have target: "proven_target sha e t" if t: "t \<in> set (qa_targets e)" for t
  proof -
    from q t obtain probe where io: "qt_outcome t = IoErrorObserved" and probe: "qt_probe t = Some probe" "receipt_qualifies probe"
      by (auto simp: qualification_def list_all_iff split: option.splits)
    from v(5) t have vt: "validate_target_probe sha e t = Inr ()" "validate_target_outcome t = Inr ()"
      "qt_canary_path t = quorum_canary_path sha (qt_mount_path t) (qt_pod_name t) (qa_run_id e)"
      by (auto simp: validate_activation_target_def)
    from vt(2) io have "classify_canary_result (qt_exit_code t) (qt_stdout t) (qt_stderr t) (qt_canary_path t) = IoErrorObserved"
      by (simp add: validate_target_outcome_def)
    then have canary: "\<exists>code. qt_exit_code t = Some code \<and> 0 < code \<and> qt_stdout t = ''s3chaos-canary-write-v1:'' @
          quorum_canary_path sha (qt_mount_path t) (qt_pod_name t) (qa_run_id e) @ '':'' @ show_int code @ [CHR 0x0A]"
      unfolding classify_io_error vt(3) by blast
    from vt(1) probe(1) have nonce: "px_nonce (pr_fixture probe) = probe_nonce sha (qa_run_id e) (qt_pod_uid t) (qt_container_id t)"
      and window: "\<forall>s \<in> set (pr_samples probe). qt_started_at_ms t \<le> ps_started_at_ms s \<and> ps_completed_at_ms s \<le> qt_completed_at_ms t"
      by (auto simp: validate_target_probe_def list_all_iff)
    from receipt_covers [OF probe(2)] window have "\<forall>n < PROBE_ROUNDS. \<forall>op. \<exists>s \<in> set (pr_samples probe).
        ps_round s = n \<and> ps_operation s = op \<and> ps_operation_errno s = Some EIO \<and>
        qt_started_at_ms t \<le> ps_started_at_ms s \<and> ps_completed_at_ms s \<le> qt_completed_at_ms t" by blast
    with canary probe(1) nonce show ?thesis unfolding proven_target_def by blast
  qed
  have pods: "if qa_scenario e = same_pod_scenario
     then \<exists>first second. qa_targets e = [first, second] \<and> qt_container_id first = qt_container_id second \<and>
       qt_mount_path first \<noteq> qt_mount_path second
     else distinct (map qt_pod_name (qa_targets e))"
  proof (cases "qa_scenario e = same_pod_scenario")
    case True
    with v(4) have two: "qa_expected_targets e = 2" by (simp add: validate_same_pod_targets_def)
    with len have "length (qa_targets e) = 2" by simp
    then obtain first second where ts: "qa_targets e = [first, second]"
      by (cases "qa_targets e"; cases "tl (qa_targets e)") auto
    with v(4) True two show ?thesis by (simp add: validate_same_pod_targets_def)
  next
    case False
    with v(3) show ?thesis by (simp add: unique_identities_def)
  qed
  have "distinct (map qt_drive_uuid (qa_targets e))" "distinct (map qt_persistent_volume (qa_targets e))"
    using v(3) by (simp_all add: unique_identities_def)
  with len v(1) pods target show ?thesis by simp
qed

end
