(* ===== verification/Activation_Demo.thy ===== *)
theory Activation_Demo
  imports Activation_Soundness
begin

text \<open>
  Evidence of an active fault on one target, with a constant function in place of SHA-256. The witnesses of the activation
  properties.
\<close>

definition demo_sha :: hasher where
  "demo_sha _ = replicate 64 CHR ''a''"

definition demo_path :: string where
  "demo_path = quorum_canary_path demo_sha ''/data/rustfs0'' ''rustfs-0'' ''run''"

definition demo_files :: "ProbeFile list" where
  "demo_files = concat (map (\<lambda>n. map (\<lambda>op. \<lparr>pf_round = n, pf_operation = op, pf_inode = 1, pf_device = 1\<rparr>) probe_operations) [0, 1, 2])"

definition demo_receipt :: ProbeReceipt where
  "demo_receipt = \<lparr>pr_fixture = \<lparr>px_protocol_version = 1, px_helper_sha256 = replicate 64 CHR ''a'', px_path = demo_path @ ''.operations'',
       px_nonce = probe_nonce demo_sha ''run'' ''uid'' ''container'', px_directory_inode = 1, px_directory_device = 1, px_files = demo_files\<rparr>,
     pr_active_device = 1,
     pr_samples = map (\<lambda>f. \<lparr>ps_round = pf_round f, ps_operation = pf_operation f, ps_started_at_ms = 20 + 1000 * pf_round f,
       ps_completed_at_ms = 20 + 1000 * pf_round f, ps_setup_errno = None, ps_operation_errno = Some EIO\<rparr>) demo_files\<rparr>"

definition demo_activated :: QuorumFaultActivationTargetEvidence where
  "demo_activated = \<lparr>qt_pod_name = ''rustfs-0'', qt_pod_uid = ''uid'', qt_container_id = ''container'',
     qt_persistent_volume_claim = ''claim'', qt_persistent_volume = ''volume'', qt_mount_path = ''/data/rustfs0'',
     qt_drive_uuid = ''drive'', qt_controller_record_id = ''record'', qt_canary_path = demo_path,
     qt_started_at_ms = 10, qt_completed_at_ms = 2100, qt_outcome = IoErrorObserved, qt_exit_code = Some 1,
     qt_stdout = ''s3chaos-canary-write-v1:'' @ demo_path @ '':1'' @ [CHR 0x0A], qt_stderr = ''write error: Input/output error'',
     qt_cleanup = None, qt_probe = Some demo_receipt, qt_probe_cleanup = None, qt_continuity = None\<rparr>"

definition demo_evidence :: QuorumFaultActivationEvidence where
  "demo_evidence = \<lparr>qa_schema_version = 3, qa_scenario = ''io-eio'', qa_run_id = ''run'', qa_backend = ''chaos-mesh-iochaos'',
     qa_iochaos_resource_name = ''chaos'', qa_iochaos_snapshot_sha256 = replicate 64 CHR ''a'', qa_volume_path = ''/data/rustfs0'',
     qa_expected_targets = 1, qa_controller_records = 1, qa_started_at_ms = 5, qa_completed_at_ms = 2200, qa_qualified = True,
     qa_failure_reasons = [], qa_cleanup_failure_reason = None, qa_targets = [demo_activated]\<rparr>"

lemma demo_receipt_qualifies: "receipt_qualifies demo_receipt"
  by code_simp

lemma demo_evidence_valid: "validate_activation demo_sha demo_evidence = Inr ()"
  by code_simp

theorem qualifying_receipt_shows_fault_witness:
  "\<exists>s \<in> set (pr_samples demo_receipt). ps_round s = 2 \<and> ps_operation s = Fsync \<and> ps_operation_errno s = Some EIO"
  using qualifying_receipt_shows_fault [OF demo_receipt_qualifies, THEN conjunct1, rule_format, of 2 Fsync]
  by (auto simp: PROBE_ROUNDS_def)

theorem activation_runs_only_proven_faults_witness:
  "disposition demo_evidence = RunTypedOracle \<and> proven_target demo_sha demo_evidence demo_activated"
proof -
  have d: "disposition demo_evidence = RunTypedOracle" by (simp add: disposition_def demo_evidence_def)
  with activation_runs_only_proven_faults [OF demo_evidence_valid d] show ?thesis by (simp add: demo_evidence_def)
qed

end
